(* ===== verification/Prelude.thy ===== *)
theory Prelude
  imports
    Main
    "HOL-Library.AList"
    "HOL-Library.Char_ord"
    "HOL-Library.List_Lexorder"
    "HOL-Library.Product_Lexorder"
    "HOL-Library.Multiset"
    "HOL-Library.Word"
begin

text \<open>
  Shared vocabulary of the development.

  \<^item> Go maps. A \<^verbatim>\<open>map[K]V\<close> is an association list with distinct keys:
    \<open>map_of m k\<close> is the comma-ok read, \<open>AList.update k v m\<close> the write and
    \<open>AList.delete k m\<close> the builtin \<open>delete\<close>. The list order is the order in which one
    \<open>range\<close> loop visits the map; Go leaves it open, so every statement quantifies over
    all lists and the order-independence lemmas say where the order cannot be observed.
  \<^item> Programs. \<open>('w, 'e, 'a) prog\<close> is a computation over a state \<open>'w\<close> that returns a value
    or an error \<^emph>\<open>and\<close> the state it leaves behind, also when it fails.
  \<^item> \<open>sort_stable\<close> is \<^verbatim>\<open>sort.SliceStable\<close>.
  \<^item> \<open>wrap64\<close> is the two's complement wrap-around of a Go \<^verbatim>\<open>int64\<close>.
\<close>

named_theorems prog_simps \<open>unfolding rules for programs\<close>
named_theorems gomap_simps \<open>reading and writing Go maps\<close>

section \<open>Programs with errors and state\<close>

type_synonym ('w, 'e, 'a) prog = "'w \<Rightarrow> ('e + 'a) \<times> 'w"

definition ok :: "'a \<Rightarrow> ('w, 'e, 'a) prog" where
  "ok x w = (Inr x, w)"

definition fail :: "'e \<Rightarrow> ('w, 'e, 'a) prog" where
  "fail e w = (Inl e, w)"

text \<open>Run \<open>m\<close> and hand its value to \<open>f\<close>; \<^verbatim>\<open>if err != nil { return err }\<close> otherwise.\<close>

definition bindP :: "('w, 'e, 'a) prog \<Rightarrow> ('a \<Rightarrow> ('w, 'e, 'b) prog) \<Rightarrow> ('w, 'e, 'b) prog" where
  "bindP m f w = (case m w of (Inl e, w') \<Rightarrow> (Inl e, w') | (Inr x, w') \<Rightarrow> f x w')"

text \<open>Run \<open>m\<close> and inspect its error instead of returning it.\<close>

definition attempt :: "('w, 'e, 'a) prog \<Rightarrow> ('w, 'e, 'e + 'a) prog" where
  "attempt m w = (case m w of (r, w') \<Rightarrow> (Inr r, w'))"

definition of_result :: "'e + 'a \<Rightarrow> ('w, 'e, 'a) prog" where
  "of_result r w = (r, w)"

definition guardP :: "bool \<Rightarrow> 'e \<Rightarrow> ('w, 'e, unit) prog" where
  "guardP b e = (if b then ok () else fail e)"

lemma ok_run [simp, prog_simps]: "ok x w = (Inr x, w)"
  by (simp add: ok_def)

lemma fail_run [simp, prog_simps]: "fail e w = (Inl e, w)"
  by (simp add: fail_def)

lemma of_result_run [simp, prog_simps]: "of_result r w = (r, w)"
  by (simp add: of_result_def)

lemma guardP_run [prog_simps]: "guardP b e w = ((if b then Inr () else Inl e), w)"
  by (simp add: guardP_def)

lemma bindP_run [prog_simps]:
  "bindP m f w = (case fst (m w) of Inl e \<Rightarrow> (Inl e, snd (m w)) | Inr x \<Rightarrow> f x (snd (m w)))"
  by (simp add: bindP_def split: prod.split sum.split)

lemma attempt_run [prog_simps]: "attempt m w = (Inr (fst (m w)), snd (m w))"
  by (simp add: attempt_def split: prod.split)

lemma bindP_ok [simp]: "bindP (ok x) f = f x"
  by (rule ext) (simp add: bindP_def)

lemma bindP_fail [simp]: "bindP (fail e) f = fail e"
  by (rule ext) (simp add: bindP_def)

lemma bindP_assoc: "bindP (bindP m f) g = bindP m (\<lambda>x. bindP (f x) g)"
  by (rule ext) (simp add: bindP_def split: prod.split sum.split)

text \<open>Inversion of a successful sequence.\<close>

lemma bindP_InrE:
  assumes "bindP m f w = (Inr y, w'')"
  obtains x w' where "m w = (Inr x, w')" and "f x w' = (Inr y, w'')"
  using assms by (auto simp: bindP_def split: prod.splits sum.splits)

text \<open>A step of the state that a program preserves is preserved by a sequence.\<close>

definition keeps :: "('w \<Rightarrow> bool) \<Rightarrow> ('w, 'e, 'a) prog \<Rightarrow> bool" where
  "keeps P m \<longleftrightarrow> (\<forall>w. P w \<longrightarrow> P (snd (m w)))"

lemma keepsI [intro]: "(\<And>w. P w \<Longrightarrow> P (snd (m w))) \<Longrightarrow> keeps P m"
  by (simp add: keeps_def)

lemma keepsD [dest]: "keeps P m \<Longrightarrow> P w \<Longrightarrow> P (snd (m w))"
  by (simp add: keeps_def)

lemma keeps_bindP [intro]:
  assumes "keeps P m" and "\<And>x. keeps P (f x)"
  shows "keeps P (bindP m f)"
proof (rule keepsI)
  fix w
  assume "P w"
  then have "P (snd (m w))" using assms(1) by blast
  then show "P (snd (bindP m f w))"
    using assms(2) by (auto simp: bindP_run keeps_def split: sum.split)
qed

lemma keeps_pure [simp, intro]:
  "keeps P (ok x)" "keeps P (fail e)" "keeps P (of_result r)" "keeps P (guardP b e)"
  by (auto simp: keeps_def guardP_def)

lemma keeps_attempt [intro]: "keeps P m \<Longrightarrow> keeps P (attempt m)"
  by (auto simp: keeps_def attempt_run)

text \<open>
  Weakest preconditions: \<open>wp m E Q w\<close> says that \<open>m\<close>, started in \<open>w\<close>, ends with an error and a state
  that satisfy \<open>E\<close> or with a value and a state that satisfy \<open>Q\<close>. Programs are total, so this is
  total correctness.
\<close>

definition wp :: "('w, 'e, 'a) prog \<Rightarrow> ('e \<Rightarrow> 'w \<Rightarrow> bool) \<Rightarrow> ('a \<Rightarrow> 'w \<Rightarrow> bool) \<Rightarrow> 'w \<Rightarrow> bool" where
  "wp m E Q w \<longleftrightarrow> (case m w of (Inl e, w') \<Rightarrow> E e w' | (Inr x, w') \<Rightarrow> Q x w')"

lemma wp_ok [simp]: "wp (ok x) E Q = Q x"
  by (rule ext) (simp add: wp_def)

lemma wp_fail [simp]: "wp (fail e) E Q = E e"
  by (rule ext) (simp add: wp_def)

lemma wp_guardP [simp]: "wp (guardP b e) E Q w \<longleftrightarrow> (if b then Q () w else E e w)"
  by (simp add: wp_def guardP_run)

lemma wp_of_result [simp]:
  "wp (of_result r) E Q w \<longleftrightarrow> (case r of Inl e \<Rightarrow> E e w | Inr x \<Rightarrow> Q x w)"
  by (simp add: wp_def split: sum.split)

lemma wp_bindP [simp]: "wp (bindP m f) E Q w \<longleftrightarrow> wp m E (\<lambda>x w'. wp (f x) E Q w') w"
  by (simp add: wp_def bindP_def split: prod.split sum.split)

lemma wp_attempt [simp]: "wp (attempt m) E Q w \<longleftrightarrow> wp m (\<lambda>e. Q (Inl e)) (\<lambda>x. Q (Inr x)) w"
  by (simp add: wp_def attempt_run split: prod.split sum.split)

lemma wp_mono:
  "wp m E Q w \<Longrightarrow> (\<And>e w'. E e w' \<Longrightarrow> E' e w') \<Longrightarrow> (\<And>x w'. Q x w' \<Longrightarrow> Q' x w') \<Longrightarrow> wp m E' Q' w"
  by (auto simp: wp_def split: prod.splits sum.splits)

lemma wp_conj: "wp m E Q w \<Longrightarrow> wp m E' Q' w \<Longrightarrow> wp m (\<lambda>e w'. E e w' \<and> E' e w') (\<lambda>x w'. Q x w' \<and> Q' x w') w"
  by (auto simp: wp_def split: prod.splits sum.splits)

lemma wpD: "wp m E Q w \<Longrightarrow> m w = (r, w') \<Longrightarrow> (case r of Inl e \<Rightarrow> E e w' | Inr x \<Rightarrow> Q x w')"
  by (auto simp: wp_def split: sum.splits)

lemma wpI: "(\<And>e w'. m w = (Inl e, w') \<Longrightarrow> E e w') \<Longrightarrow> (\<And>x w'. m w = (Inr x, w') \<Longrightarrow> Q x w') \<Longrightarrow> wp m E Q w"
  by (auto simp: wp_def split: prod.splits sum.splits)

section \<open>Go maps\<close>

type_synonym ('k, 'v) gomap = "('k \<times> 'v) list"

text \<open>The value read from a map whose key may be absent: the zero value, here an empty inner map.\<close>

definition inner :: "('k, ('i, 'v) gomap) gomap \<Rightarrow> 'k \<Rightarrow> ('i, 'v) gomap" where
  "inner m k = (case map_of m k of None \<Rightarrow> [] | Some x \<Rightarrow> x)"

definition vals :: "('k, 'v) gomap \<Rightarrow> 'v list" where
  "vals m = map snd m"

definition wf_map :: "('k, 'v) gomap \<Rightarrow> bool" where
  "wf_map m \<longleftrightarrow> distinct (map fst m)"

definition wf_map2 :: "('k, ('i, 'v) gomap) gomap \<Rightarrow> bool" where
  "wf_map2 m \<longleftrightarrow> wf_map m \<and> (\<forall>x \<in> set m. wf_map (snd x))"

text \<open>\<open>m[k][i] = v\<close>, with the inner map created first when it is absent.\<close>

definition update2 :: "'k \<Rightarrow> 'i \<Rightarrow> 'v \<Rightarrow> ('k, ('i, 'v) gomap) gomap \<Rightarrow> ('k, ('i, 'v) gomap) gomap" where
  "update2 k i v m = AList.update k (AList.update i v (inner m k)) m"

lemma map_of_update [simp, gomap_simps]: "map_of (AList.update k v m) = (map_of m)(k \<mapsto> v)"
  by (rule update_conv')

lemma map_of_alist_delete [simp, gomap_simps]: "map_of (AList.delete k m) = (map_of m)(k := None)"
  by (rule AList.delete_conv')

lemma wf_map_Nil [simp]: "wf_map []"
  by (simp add: wf_map_def)

lemma wf_map_update [simp, intro]: "wf_map m \<Longrightarrow> wf_map (AList.update k v m)"
  by (simp add: wf_map_def distinct_update)

lemma wf_map_delete [simp, intro]: "wf_map m \<Longrightarrow> wf_map (AList.delete k m)"
  unfolding wf_map_def by (rule distinct_delete)

lemma set_values_map_of: "wf_map m \<Longrightarrow> set (vals m) = ran (map_of m)"
  by (auto simp: wf_map_def vals_def ran_def image_iff dest: map_of_SomeD)
     (metis map_of_eq_Some_iff snd_conv)

lemma inner_Nil [simp]: "inner [] k = []"
  by (simp add: inner_def)

lemma inner_update [simp, gomap_simps]:
  "inner (AList.update k x m) k' = (if k' = k then x else inner m k')"
  by (simp add: inner_def)

lemma inner_update2 [simp, gomap_simps]:
  "inner (update2 k i v m) k' = (if k' = k then AList.update i v (inner m k) else inner m k')"
  by (simp add: update2_def)

lemma wf_map2_inner [simp, intro]: "wf_map2 m \<Longrightarrow> wf_map (inner m k)"
  by (force simp: wf_map2_def inner_def split: option.split dest: map_of_SomeD)

lemma set_alist_update: "set (AList.update k v m) \<subseteq> insert (k, v) (set m)"
  by (induction m) auto

lemma wf_map2_update [intro]:
  "wf_map2 m \<Longrightarrow> wf_map x \<Longrightarrow> wf_map2 (AList.update k x m)"
  using set_alist_update [of k x m] by (auto simp: wf_map2_def)

lemma wf_map2_update2 [simp, intro]: "wf_map2 m \<Longrightarrow> wf_map2 (update2 k i v m)"
  by (auto simp: update2_def intro: wf_map2_update)

lemma wf_map2_Nil [simp]: "wf_map2 []"
  by (simp add: wf_map2_def)

text \<open>A map determines its values up to the order of iteration.\<close>

lemma mset_map_unique:
  assumes "wf_map m" and "wf_map m'" and "map_of m = map_of m'"
  shows "mset m = mset m'"
proof -
  have "set m = set m'"
    using assms by (auto simp: wf_map_def) (metis map_of_eq_Some_iff)+
  moreover have "distinct m" "distinct m'"
    using assms by (auto simp: wf_map_def distinct_map)
  ultimately show ?thesis by (simp add: set_eq_iff_mset_eq_distinct)
qed

lemma mset_values_unique:
  "wf_map m \<Longrightarrow> wf_map m' \<Longrightarrow> map_of m = map_of m' \<Longrightarrow> mset (vals m) = mset (vals m')"
  by (metis mset_map_unique mset_map vals_def)

lemma distinct_vals:
  assumes "wf_map m" and "\<And>k v. (k, v) \<in> set m \<Longrightarrow> f v = k"
  shows "distinct (map f (vals m))"
proof -
  have "map f (vals m) = map fst m"
    using assms(2) by (auto simp: vals_def)
  with assms(1) show ?thesis by (simp add: wf_map_def)
qed

text \<open>Every entry is stored under the key its value carries.\<close>

definition keyed :: "('v \<Rightarrow> 'k) \<Rightarrow> ('k, 'v) gomap \<Rightarrow> bool" where
  "keyed f m \<longleftrightarrow> (\<forall>e \<in> set m. f (snd e) = fst e)"

definition keyed2 :: "('v \<Rightarrow> 'k) \<Rightarrow> ('v \<Rightarrow> 'i) \<Rightarrow> ('k, ('i, 'v) gomap) gomap \<Rightarrow> bool" where
  "keyed2 f g m \<longleftrightarrow> (\<forall>e \<in> set m. \<forall>x \<in> set (snd e). f (snd x) = fst e \<and> g (snd x) = fst x)"

lemma keyed_Nil [simp]: "keyed f []" "keyed2 f g []"
  by (simp_all add: keyed_def keyed2_def)

lemma keyedD: "keyed f m \<Longrightarrow> (k, v) \<in> set m \<Longrightarrow> f v = k"
  unfolding keyed_def by (metis fst_conv snd_conv)

lemma keyedI: "(\<And>k v. (k, v) \<in> set m \<Longrightarrow> f v = k) \<Longrightarrow> keyed f m"
  unfolding keyed_def by (metis prod.collapse)

lemma keyed2D: "keyed2 f g m \<Longrightarrow> (k, x) \<in> set m \<Longrightarrow> (i, v) \<in> set x \<Longrightarrow> f v = k \<and> g v = i"
  unfolding keyed2_def by (metis fst_conv snd_conv)

lemma keyed2I:
  "(\<And>k x i v. (k, x) \<in> set m \<Longrightarrow> (i, v) \<in> set x \<Longrightarrow> f v = k \<and> g v = i) \<Longrightarrow> keyed2 f g m"
  unfolding keyed2_def by (metis prod.collapse)

lemma in_alist_update:
  "(k', v') \<in> set (AList.update k v m) \<Longrightarrow> k' = k \<and> v' = v \<or> (k', v') \<in> set m"
  using set_alist_update by fastforce

lemma keyed_update [simp, intro]: "keyed f m \<Longrightarrow> f v = k \<Longrightarrow> keyed f (AList.update k v m)"
  by (rule keyedI) (metis in_alist_update keyedD)

lemma keyed_map_of: "keyed f m \<Longrightarrow> map_of m k = Some v \<Longrightarrow> f v = k"
  by (metis keyedD map_of_SomeD)

lemma in_innerD: "(i, v) \<in> set (inner m k) \<Longrightarrow> \<exists>x. (k, x) \<in> set m \<and> (i, v) \<in> set x"
  by (cases "map_of m k") (auto simp: inner_def dest: map_of_SomeD)

lemma keyed2_inner: "keyed2 f g m \<Longrightarrow> (i, v) \<in> set (inner m k) \<Longrightarrow> f v = k \<and> g v = i"
  by (metis in_innerD keyed2D)

lemma keyed_inner: "keyed2 f g m \<Longrightarrow> keyed g (inner m k)"
  by (rule keyedI) (metis keyed2_inner)

lemma keyed2_map_of: "keyed2 f g m \<Longrightarrow> map_of (inner m k) i = Some v \<Longrightarrow> f v = k \<and> g v = i"
  by (metis keyed2_inner map_of_SomeD)

lemma keyed2_update_Nil: "keyed2 f g m \<Longrightarrow> keyed2 f g (AList.update k [] m)"
  by (rule keyed2I) (metis in_alist_update keyed2D empty_iff list.set(1))

lemma keyed2_update2 [simp, intro]:
  assumes "keyed2 f g m" "f v = k" "g v = i"
  shows "keyed2 f g (update2 k i v m)"
proof (rule keyed2I)
  fix k' x i' v'
  assume x: "(k', x) \<in> set (update2 k i v m)" and v': "(i', v') \<in> set x"
  from x consider "k' = k" "x = AList.update i v (inner m k)" | "(k', x) \<in> set m"
    unfolding update2_def by (blast dest: in_alist_update)
  then show "f v' = k' \<and> g v' = i'"
  proof cases
    case 1
    with v' have "i' = i \<and> v' = v \<or> (i', v') \<in> set (inner m k)"
      using in_alist_update [of i' v' i v "inner m k"] by simp
    then show ?thesis using 1(1) assms keyed2_inner [OF assms(1)] by blast
  next
    case 2
    then show ?thesis using v' keyed2D [OF assms(1)] by blast
  qed
qed

lemma distinct_vals_keyed:
  assumes "wf_map m" and "keyed f m"
  shows "distinct (vals m)"
proof -
  have "distinct (map f (vals m))"
    by (rule distinct_vals [OF assms(1)]) (rule keyedD [OF assms(2)])
  then show ?thesis by (simp only: distinct_map)
qed

section \<open>Stable sorting\<close>

fun insert_stable :: "('a \<Rightarrow> 'a \<Rightarrow> bool) \<Rightarrow> 'a \<Rightarrow> 'a list \<Rightarrow> 'a list" where
  "insert_stable lt x [] = [x]"
| "insert_stable lt x (y # ys) =
     (if lt y x then y # insert_stable lt x ys else x # y # ys)"

definition sort_stable :: "('a \<Rightarrow> 'a \<Rightarrow> bool) \<Rightarrow> 'a list \<Rightarrow> 'a list" where
  "sort_stable lt xs = foldr (insert_stable lt) xs []"

lemma sort_stable_simps [simp]:
  "sort_stable lt [] = []"
  "sort_stable lt (x # xs) = insert_stable lt x (sort_stable lt xs)"
  by (simp_all add: sort_stable_def)

lemma insert_stable_key:
  fixes f :: "'a \<Rightarrow> 'b::linorder"
  assumes "\<And>a b. lt a b \<longleftrightarrow> f a < f b"
  shows "insert_stable lt x ys = insort_key f x ys"
  by (induction ys) (auto simp: assms)

text \<open>With a comparison by key the stable sort is the library's \<open>sort_key\<close>.\<close>

lemma sort_stable_key:
  fixes f :: "'a \<Rightarrow> 'b::linorder"
  assumes "\<And>a b. lt a b \<longleftrightarrow> f a < f b"
  shows "sort_stable lt xs = sort_key f xs"
  by (induction xs) (simp_all add: insert_stable_key [OF assms])

text \<open>Two permutations with distinct sort keys sort to the same list.\<close>

lemma sort_key_perm_unique:
  fixes f :: "'a \<Rightarrow> 'b::linorder"
  assumes "mset xs = mset ys" and "inj_on f (set xs)"
  shows "sort_key f xs = sort_key f ys"
  using assms by (intro sort_key_inj_key_eq) (auto simp: inj_on_def)

lemma set_sort_stable [simp]: "set (sort_stable lt xs) = set xs"
proof -
  have "set (insert_stable lt x ys) = insert x (set ys)" for x ys
    by (induction ys) auto
  then show ?thesis by (induction xs) auto
qed

section \<open>Machine integers\<close>

text \<open>A Go \<^verbatim>\<open>int64\<close> is an \<open>int\<close>; additions that may leave the range wrap around.\<close>

definition wrap64 :: "int \<Rightarrow> int" where
  "wrap64 x = (x + 2 ^ 63) mod 2 ^ 64 - 2 ^ 63"

definition int64_range :: "int \<Rightarrow> bool" where
  "int64_range x \<longleftrightarrow> - (2 ^ 63) \<le> x \<and> x < 2 ^ 63"

lemma wrap64_id [simp]: "int64_range x \<Longrightarrow> wrap64 x = x"
  by (simp add: wrap64_def int64_range_def)

lemma wrap64_range [simp]: "int64_range (wrap64 x)"
  by (simp add: wrap64_def int64_range_def)

section \<open>Lists\<close>

lemma find_unique:
  assumes "x \<in> set xs" "P x" and u: "\<And>y. y \<in> set xs \<Longrightarrow> P y \<Longrightarrow> y = x"
  shows "find P xs = Some x"
proof (cases "find P xs")
  case None
  with assms(1,2) show ?thesis by (simp add: find_None_iff)
next
  case (Some y)
  then have "y \<in> set xs" "P y" by (auto simp: find_Some_iff)
  with u Some show ?thesis by simp
qed

lemma find_SomeD: "find P xs = Some x \<Longrightarrow> x \<in> set xs \<and> P x"
  by (auto simp: find_Some_iff)

end
