(* ===== verification/GoStrings.thy ===== *)
theory GoStrings
  imports Prelude
begin

text \<open>
  The functions of Go's \<^verbatim>\<open>strings\<close>, \<^verbatim>\<open>unicode/utf8\<close>, \<^verbatim>\<open>unicode\<close>, \<^verbatim>\<open>strconv\<close>,
  \<^verbatim>\<open>path/filepath\<close> and \<^verbatim>\<open>encoding/base64\<close> packages that the service calls. A Go string is a
  byte sequence, and so is \<open>string\<close> (a \<open>char\<close> is one byte): text beyond ASCII is its UTF-8
  encoding, and the functions that look at runes decode it the way Go does, an invalid byte
  counting as U+FFFD of width one.
\<close>

named_theorems gostring_simps \<open>evaluation of Go string functions\<close>

section \<open>Prefixes and white space\<close>

fun strip_prefix :: "string \<Rightarrow> string \<Rightarrow> string option" where
  "strip_prefix [] s = Some s"
| "strip_prefix (p # ps) [] = None"
| "strip_prefix (p # ps) (c # cs) = (if p = c then strip_prefix ps cs else None)"

definition HasPrefix :: "string \<Rightarrow> string \<Rightarrow> bool" where
  "HasPrefix s p = (strip_prefix p s \<noteq> None)"

definition TrimPrefix :: "string \<Rightarrow> string \<Rightarrow> string" where
  "TrimPrefix s p = (case strip_prefix p s of None \<Rightarrow> s | Some r \<Rightarrow> r)"

lemma strip_prefix_Some: "strip_prefix p s = Some r \<longleftrightarrow> s = p @ r"
  by (induction p s rule: strip_prefix.induct) auto

lemma strip_prefix_append [simp]: "strip_prefix p (p @ r) = Some r"
  by (simp add: strip_prefix_Some)

lemma HasPrefix_iff: "HasPrefix s p \<longleftrightarrow> (\<exists>r. s = p @ r)"
  by (auto simp: HasPrefix_def strip_prefix_Some)

lemma TrimPrefix_append [simp]: "TrimPrefix (p @ r) p = r"
  by (simp add: TrimPrefix_def)

text \<open>The UTF-8 encodings of the runes with \<^verbatim>\<open>unicode.IsSpace\<close>.\<close>

definition bytes :: "nat list \<Rightarrow> string" where
  "bytes ns = map char_of ns"

definition space_seqs :: "string list" where
  "space_seqs = map bytes
    ([[9], [10], [11], [12], [13], [32], [194, 133], [194, 160], [225, 154, 128]]
     @ map (\<lambda>k. [226, 128, k]) [128, 129, 130, 131, 132, 133, 134, 135, 136, 137, 138]
     @ [[226, 128, 168], [226, 128, 169], [226, 128, 175], [226, 129, 159], [227, 128, 128]])"

fun strip_any :: "string list \<Rightarrow> string \<Rightarrow> string option" where
  "strip_any [] s = None"
| "strip_any (p # ps) s =
     (case strip_prefix p s of
        Some r \<Rightarrow> (if p = [] then strip_any ps s else Some r)
      | None \<Rightarrow> strip_any ps s)"

lemma strip_any_Some:
  "strip_any ps s = Some r \<Longrightarrow> \<exists>p \<in> set ps. p \<noteq> [] \<and> s = p @ r"
  by (induction ps) (auto simp: strip_prefix_Some split: option.splits if_splits)

lemma strip_any_shorter: "strip_any ps s = Some r \<Longrightarrow> length r < length s"
  by (auto dest!: strip_any_Some)

lemma strip_any_None_iff:
  "strip_any ps s = None \<longleftrightarrow> (\<forall>p \<in> set ps. p \<noteq> [] \<longrightarrow> \<not> HasPrefix s p)"
  by (induction ps) (auto simp: HasPrefix_def split: option.splits if_splits)

function trim_any :: "string list \<Rightarrow> string \<Rightarrow> string" where
  "trim_any ps s = (case strip_any ps s of None \<Rightarrow> s | Some r \<Rightarrow> trim_any ps r)"
  by pat_completeness auto
termination
  by (relation "measure (\<lambda>(ps, s). length s)") (auto dest: strip_any_shorter)

declare trim_any.simps [simp del]

definition TrimLeftSpace :: "string \<Rightarrow> string" where
  "TrimLeftSpace s = trim_any space_seqs s"

definition TrimRightSpace :: "string \<Rightarrow> string" where
  "TrimRightSpace s = rev (trim_any (map rev space_seqs) (rev s))"

text \<open>\<^verbatim>\<open>strings.TrimSpace\<close>.\<close>

definition TrimSpace :: "string \<Rightarrow> string" where
  "TrimSpace s = TrimRightSpace (TrimLeftSpace s)"

text \<open>\<^verbatim>\<open>strings.Fields\<close>: maximal runs without white space.\<close>

function fields_aux :: "string \<Rightarrow> string \<Rightarrow> string list" where
  "fields_aux acc s =
     (case strip_any space_seqs s of
        Some r \<Rightarrow> (if acc = [] then fields_aux [] r else rev acc # fields_aux [] r)
      | None \<Rightarrow> (case s of [] \<Rightarrow> (if acc = [] then [] else [rev acc])
                 | c # cs \<Rightarrow> fields_aux (c # acc) cs))"
  by pat_completeness auto
termination
  by (relation "measure (\<lambda>(acc, s). length s)") (auto dest: strip_any_shorter)

declare fields_aux.simps [simp del]

definition Fields :: "string \<Rightarrow> string list" where
  "Fields s = fields_aux [] s"

fun Join :: "string list \<Rightarrow> string \<Rightarrow> string" where
  "Join [] sep = []"
| "Join [x] sep = x"
| "Join (x # y # xs) sep = x @ sep @ Join (y # xs) sep"

section \<open>UTF-8\<close>

definition RuneError :: nat where
  "RuneError = 65533"

definition cont :: "nat \<Rightarrow> bool" where
  "cont b = (128 \<le> b \<and> b \<le> 191)"

text \<open>\<^verbatim>\<open>utf8.DecodeRune\<close>: the first rune and its width in bytes.\<close>

fun DecodeRune :: "nat list \<Rightarrow> nat \<times> nat" where
  "DecodeRune [] = (RuneError, 0)"
| "DecodeRune (b0 # bs) =
    (if b0 < 128 then (b0, 1)
     else if 194 \<le> b0 \<and> b0 \<le> 223 then
       (case bs of
          b1 # _ \<Rightarrow> if cont b1 then ((b0 - 192) * 64 + (b1 - 128), 2) else (RuneError, 1)
        | [] \<Rightarrow> (RuneError, 1))
     else if 224 \<le> b0 \<and> b0 \<le> 239 then
       (case bs of
          b1 # b2 # _ \<Rightarrow>
            if cont b1 \<and> (b0 = 224 \<longrightarrow> 160 \<le> b1) \<and> (b0 = 237 \<longrightarrow> b1 \<le> 159) \<and> cont b2
            then ((b0 - 224) * 4096 + (b1 - 128) * 64 + (b2 - 128), 3) else (RuneError, 1)
        | _ \<Rightarrow> (RuneError, 1))
     else if 240 \<le> b0 \<and> b0 \<le> 244 then
       (case bs of
          b1 # b2 # b3 # _ \<Rightarrow>
            if cont b1 \<and> (b0 = 240 \<longrightarrow> 144 \<le> b1) \<and> (b0 = 244 \<longrightarrow> b1 \<le> 143) \<and> cont b2 \<and> cont b3
            then ((b0 - 240) * 262144 + (b1 - 128) * 4096 + (b2 - 128) * 64 + (b3 - 128), 4)
            else (RuneError, 1)
        | _ \<Rightarrow> (RuneError, 1))
     else (RuneError, 1))"

lemma DecodeRune_width: "bs \<noteq> [] \<Longrightarrow> 0 < snd (DecodeRune bs)"
  by (cases bs) (auto split: list.splits)

text \<open>The conversion \<^verbatim>\<open>[]rune(s)\<close>.\<close>

function runes_of_bytes :: "nat list \<Rightarrow> nat list" where
  "runes_of_bytes bs =
     (if bs = [] then []
      else (let (r, w) = DecodeRune bs in r # runes_of_bytes (drop w bs)))"
  by pat_completeness auto
termination
proof (relation "measure length")
  fix bs :: "nat list" and x r w
  assume "bs \<noteq> []" and "x = DecodeRune bs" and "(r, w) = x"
  then have "0 < w" using DecodeRune_width [of bs] by (metis snd_conv)
  with \<open>bs \<noteq> []\<close> show "(drop w bs, bs) \<in> measure length" by simp
qed simp

declare runes_of_bytes.simps [simp del]

definition runes :: "string \<Rightarrow> nat list" where
  "runes s = runes_of_bytes (map of_char s)"

text \<open>One rune of the conversion \<^verbatim>\<open>string([]rune)\<close>.\<close>

definition EncodeRune :: "nat \<Rightarrow> string" where
  "EncodeRune r0 =
    (let r = (if 1114111 < r0 \<or> (55296 \<le> r0 \<and> r0 \<le> 57343) then RuneError else r0) in
     bytes (if r < 128 then [r]
            else if r < 2048 then [192 + r div 64, 128 + r mod 64]
            else if r < 65536 then [224 + r div 4096, 128 + (r div 64) mod 64, 128 + r mod 64]
            else [240 + r div 262144, 128 + (r div 4096) mod 64, 128 + (r div 64) mod 64,
                  128 + r mod 64]))"

definition string_of_runes :: "nat list \<Rightarrow> string" where
  "string_of_runes rs = concat (map EncodeRune rs)"

function valid_utf8_bytes :: "nat list \<Rightarrow> bool" where
  "valid_utf8_bytes bs =
     (if bs = [] then True
      else (let (r, w) = DecodeRune bs in
            \<not> (r = RuneError \<and> w = 1) \<and> valid_utf8_bytes (drop w bs)))"
  by pat_completeness auto
termination
proof (relation "measure length")
  fix bs :: "nat list" and x r w
  assume "bs \<noteq> []" and "x = DecodeRune bs" and "(r, w) = x"
  then have "0 < w" using DecodeRune_width [of bs] by (metis snd_conv)
  with \<open>bs \<noteq> []\<close> show "(drop w bs, bs) \<in> measure length" by simp
qed simp

declare valid_utf8_bytes.simps [simp del]

text \<open>\<^verbatim>\<open>utf8.ValidString\<close>.\<close>

definition ValidString :: "string \<Rightarrow> bool" where
  "ValidString s = valid_utf8_bytes (map of_char s)"

section \<open>Case\<close>

definition is_upper :: "char \<Rightarrow> bool" where
  "is_upper c = (65 \<le> (of_char c :: nat) \<and> (of_char c :: nat) \<le> 90)"

definition is_ascii :: "char \<Rightarrow> bool" where
  "is_ascii c = ((of_char c :: nat) < 128)"

definition ascii_lower :: "char \<Rightarrow> char" where
  "ascii_lower c = (if is_upper c then char_of ((of_char c :: nat) + 32) else c)"

text \<open>
  The simple lower-case mapping of the Unicode tables beyond ASCII, as ranges
  \<open>(first, last, stride, offset)\<close>. Two runes map into ASCII: U+0130 to \<open>i\<close> and U+212A to \<open>k\<close>.
\<close>

definition lower_table :: "(nat \<times> nat \<times> nat \<times> int) list" where
  "lower_table =
    [(192, 214, 1, 32), (216, 222, 1, 32), (256, 302, 2, 1), (304, 304, 1, - 199),
     (306, 310, 2, 1), (313, 327, 2, 1), (330, 374, 2, 1), (376, 376, 1, - 121),
     (377, 381, 2, 1), (385, 385, 1, 210), (386, 388, 2, 1), (390, 390, 1, 206),
     (391, 391, 1, 1), (393, 394, 1, 205), (395, 395, 1, 1), (398, 398, 1, 79),
     (399, 399, 1, 202), (400, 400, 1, 203), (401, 401, 1, 1), (403, 403, 1, 205),
     (404, 404, 1, 207), (406, 406, 1, 211), (407, 407, 1, 209), (408, 408, 1, 1),
     (412, 412, 1, 211), (413, 413, 1, 213), (415, 415, 1, 214), (416, 420, 2, 1),
     (422, 422, 1, 218), (423, 423, 1, 1), (425, 425, 1, 218), (428, 428, 1, 1),
     (430, 430, 1, 218), (431, 431, 1, 1), (433, 434, 1, 217), (435, 437, 2, 1),
     (439, 439, 1, 219), (440, 440, 1, 1), (444, 444, 1, 1), (452, 452, 1, 2), (453, 453, 1, 1),
     (455, 455, 1, 2), (456, 456, 1, 1), (458, 458, 1, 2), (459, 475, 2, 1), (478, 494, 2, 1),
     (497, 497, 1, 2), (498, 500, 2, 1), (502, 502, 1, - 97), (503, 503, 1, - 56),
     (504, 542, 2, 1), (544, 544, 1, - 130), (546, 562, 2, 1), (570, 570, 1, 10795),
     (571, 571, 1, 1), (573, 573, 1, - 163), (574, 574, 1, 10792), (577, 577, 1, 1),
     (579, 579, 1, - 195), (580, 580, 1, 69), (581, 581, 1, 71), (582, 590, 2, 1),
     (880, 882, 2, 1), (886, 886, 1, 1), (895, 895, 1, 116), (902, 902, 1, 38),
     (904, 906, 1, 37), (908, 908, 1, 64), (910, 911, 1, 63), (913, 929, 1, 32),
     (931, 939, 1, 32), (975, 975, 1, 8), (984, 1006, 2, 1), (1012, 1012, 1, - 60),
     (1015, 1015, 1, 1), (1017, 1017, 1, - 7), (1018, 1018, 1, 1), (1021, 1023, 1, - 130),
     (1024, 1039, 1, 80), (1040, 1071, 1, 32), (1120, 1152, 2, 1), (1162, 1214, 2, 1),
     (1216, 1216, 1, 15), (1217, 1229, 2, 1), (1232, 1326, 2, 1), (1329, 1366, 1, 48),
     (4256, 4293, 1, 7264), (4295, 4295, 1, 7264), (4301, 4301, 1, 7264), (5024, 5103, 1, 38864),
     (5104, 5109, 1, 8), (7312, 7354, 1, - 3008), (7357, 7359, 1, - 3008), (7680, 7828, 2, 1),
     (7838, 7838, 1, - 7615), (7840, 7934, 2, 1), (7944, 7951, 1, - 8), (7960, 7965, 1, - 8),
     (7976, 7983, 1, - 8), (7992, 7999, 1, - 8), (8008, 8013, 1, - 8), (8025, 8031, 2, - 8),
     (8040, 8047, 1, - 8), (8072, 8079, 1, - 8), (8088, 8095, 1, - 8), (8104, 8111, 1, - 8),
     (8120, 8121, 1, - 8), (8122, 8123, 1, - 74), (8124, 8124, 1, - 9), (8136, 8139, 1, - 86),
     (8140, 8140, 1, - 9), (8152, 8153, 1, - 8), (8154, 8155, 1, - 100), (8168, 8169, 1, - 8),
     (8170, 8171, 1, - 112), (8172, 8172, 1, - 7), (8184, 8185, 1, - 128),
     (8186, 8187, 1, - 126), (8188, 8188, 1, - 9), (8486, 8486, 1, - 7517),
     (8490, 8490, 1, - 8383), (8491, 8491, 1, - 8262), (8498, 8498, 1, 28), (8544, 8559, 1, 16),
     (8579, 8579, 1, 1), (9398, 9423, 1, 26), (11264, 11311, 1, 48), (11360, 11360, 1, 1),
     (11362, 11362, 1, - 10743), (11363, 11363, 1, - 3814), (11364, 11364, 1, - 10727),
     (11367, 11371, 2, 1), (11373, 11373, 1, - 10780), (11374, 11374, 1, - 10749),
     (11375, 11375, 1, - 10783), (11376, 11376, 1, - 10782), (11378, 11378, 1, 1),
     (11381, 11381, 1, 1), (11390, 11391, 1, - 10815), (11392, 11490, 2, 1),
     (11499, 11501, 2, 1), (11506, 11506, 1, 1), (42560, 42604, 2, 1), (42624, 42650, 2, 1),
     (42786, 42798, 2, 1), (42802, 42862, 2, 1), (42873, 42875, 2, 1),
     (42877, 42877, 1, - 35332), (42878, 42886, 2, 1), (42891, 42891, 1, 1),
     (42893, 42893, 1, - 42280), (42896, 42898, 2, 1), (42902, 42920, 2, 1),
     (42922, 42922, 1, - 42308), (42923, 42923, 1, - 42319), (42924, 42924, 1, - 42315),
     (42925, 42925, 1, - 42305), (42926, 42926, 1, - 42308), (42928, 42928, 1, - 42258),
     (42929, 42929, 1, - 42282), (42930, 42930, 1, - 42261), (42931, 42931, 1, 928),
     (42932, 42946, 2, 1), (42948, 42948, 1, - 48), (42949, 42949, 1, - 42307),
     (42950, 42950, 1, - 35384), (42951, 42953, 2, 1), (42960, 42960, 1, 1),
     (42966, 42968, 2, 1), (42997, 42997, 1, 1), (65313, 65338, 1, 32), (66560, 66599, 1, 40),
     (66736, 66771, 1, 40), (66928, 66938, 1, 39), (66940, 66954, 1, 39), (66956, 66962, 1, 39),
     (66964, 66965, 1, 39), (68736, 68786, 1, 64), (71840, 71871, 1, 32), (93760, 93791, 1, 32),
     (125184, 125217, 1, 34)]"

definition lower_rune :: "nat \<Rightarrow> nat" where
  "lower_rune r =
    (if r < 128 then (if 65 \<le> r \<and> r \<le> 90 then r + 32 else r)
     else case find (\<lambda>(lo, hi, st, d). lo \<le> r \<and> r \<le> hi \<and> (r - lo) mod st = 0) lower_table of
            None \<Rightarrow> r
          | Some (lo, hi, st, d) \<Rightarrow> nat (int r + d))"

text \<open>\<^verbatim>\<open>strings.ToLower\<close>.\<close>

definition ToLower :: "string \<Rightarrow> string" where
  "ToLower s =
    (if list_all is_ascii s then map ascii_lower s
     else string_of_runes (map lower_rune (runes s)))"

text \<open>
  \<^verbatim>\<open>strings.EqualFold(s, t)\<close> for an ASCII string \<open>t\<close>. Beyond the two cases of a letter, simple
  folding identifies U+212A with \<open>k\<close> and U+017F with \<open>s\<close>.
\<close>

fun EqualFold :: "string \<Rightarrow> string \<Rightarrow> bool" where
  "EqualFold s [] = (s = [])"
| "EqualFold s (d # ds) =
    (case s of
       [] \<Rightarrow> False
     | c # cs \<Rightarrow>
        if is_ascii c then ascii_lower c = ascii_lower d \<and> EqualFold cs ds
        else (case strip_prefix (bytes [226, 132, 170]) s of
                Some r \<Rightarrow> ascii_lower d = CHR ''k'' \<and> EqualFold r ds
              | None \<Rightarrow>
                 (case strip_prefix (bytes [197, 191]) s of
                    Some r \<Rightarrow> ascii_lower d = CHR ''s'' \<and> EqualFold r ds
                  | None \<Rightarrow> False)))"

section \<open>Cutting and splitting\<close>

text \<open>\<^verbatim>\<open>strings.Cut\<close> at the first occurrence of a one-byte separator: before, after, found.\<close>

fun Cut :: "char \<Rightarrow> string \<Rightarrow> string \<times> string \<times> bool" where
  "Cut c [] = ([], [], False)"
| "Cut c (x # xs) =
     (if x = c then ([], xs, True) else (case Cut c xs of (a, b, f) \<Rightarrow> (x # a, b, f)))"

text \<open>Everything before and after the last occurrence (\<^verbatim>\<open>strings.LastIndex\<close>), if there is one.\<close>

definition CutLast :: "char \<Rightarrow> string \<Rightarrow> (string \<times> string) option" where
  "CutLast c s =
    (case Cut c (rev s) of (a, b, f) \<Rightarrow> if f then Some (rev b, rev a) else None)"

text \<open>\<^verbatim>\<open>strings.Split\<close> on a one-byte separator.\<close>

fun Split :: "char \<Rightarrow> string \<Rightarrow> string list" where
  "Split c [] = [[]]"
| "Split c (x # xs) =
     (if x = c then [] # Split c xs
      else (case Split c xs of [] \<Rightarrow> [[x]] | y # ys \<Rightarrow> (x # y) # ys))"

lemma Cut_append: "c \<notin> set a \<Longrightarrow> Cut c (a @ c # b) = (a, b, True)"
  by (induction a) auto

lemma Cut_none: "c \<notin> set a \<Longrightarrow> Cut c a = (a, [], False)"
  by (induction a) auto

section \<open>Paths\<close>

fun ext_rev :: "string \<Rightarrow> string \<Rightarrow> string" where
  "ext_rev [] acc = []"
| "ext_rev (c # cs) acc =
     (if c = CHR ''/'' then [] else if c = CHR ''.'' then c # acc else ext_rev cs (c # acc))"

text \<open>\<^verbatim>\<open>filepath.Ext\<close> and \<^verbatim>\<open>filepath.Base\<close> with the separator of Unix.\<close>

definition Ext :: "string \<Rightarrow> string" where
  "Ext path = ext_rev (rev path) []"

definition Base :: "string \<Rightarrow> string" where
  "Base path =
    (if path = [] then ''.''
     else (let p = rev (dropWhile ((=) CHR ''/'') (rev path));
               b = rev (takeWhile ((\<noteq>) CHR ''/'') (rev p))
           in if b = [] then ''/'' else b))"

section \<open>Facts about trimming\<close>

lemma strip_any_trim_any [simp]: "strip_any ps (trim_any ps s) = None"
proof (induction ps s rule: trim_any.induct)
  case (1 ps s)
  then show ?case
    by (cases "strip_any ps s") (simp_all add: trim_any.simps [of ps s])
qed

lemma trim_any_id: "strip_any ps s = None \<Longrightarrow> trim_any ps s = s"
  by (simp add: trim_any.simps)

lemma trim_any_suffix: "\<exists>p. s = p @ trim_any ps s"
proof (induction ps s rule: trim_any.induct)
  case (1 ps s)
  show ?case
  proof (cases "strip_any ps s")
    case None
    then show ?thesis by (simp add: trim_any_id)
  next
    case (Some r)
    then obtain q where "s = q @ r" by (auto dest: strip_any_Some)
    moreover obtain p where "r = p @ trim_any ps r" using 1 Some by blast
    ultimately show ?thesis using Some
      by (metis append.assoc option.simps(5) trim_any.simps)
  qed
qed

lemma strip_any_prefix_None:
  "strip_any ps (s @ t) = None \<Longrightarrow> strip_any ps s = None"
  by (force simp: strip_any_None_iff HasPrefix_iff)

lemma TrimRightSpace_prefix: "\<exists>t. s = TrimRightSpace s @ t"
proof -
  obtain p where "rev s = p @ trim_any (map rev space_seqs) (rev s)"
    using trim_any_suffix by blast
  then have "s = rev (trim_any (map rev space_seqs) (rev s)) @ rev p"
    by (metis rev_append rev_rev_ident)
  then show ?thesis by (auto simp: TrimRightSpace_def)
qed

text \<open>A string is tight when it has no white space at either end.\<close>

definition tight :: "string \<Rightarrow> bool" where
  "tight s \<longleftrightarrow> strip_any space_seqs s = None \<and> strip_any (map rev space_seqs) (rev s) = None"

lemma tight_TrimSpace [simp]: "tight (TrimSpace s)"
proof -
  have "strip_any space_seqs (TrimLeftSpace s) = None"
    by (simp add: TrimLeftSpace_def)
  moreover obtain t where "TrimLeftSpace s = TrimSpace s @ t"
    using TrimRightSpace_prefix unfolding TrimSpace_def by blast
  ultimately have "strip_any space_seqs (TrimSpace s) = None"
    by (metis strip_any_prefix_None)
  then show ?thesis by (simp add: tight_def TrimSpace_def TrimRightSpace_def)
qed

lemma TrimSpace_tight: "tight s \<Longrightarrow> TrimSpace s = s"
  by (simp add: tight_def TrimSpace_def TrimLeftSpace_def TrimRightSpace_def trim_any_id)

lemma TrimSpace_idem [simp]: "TrimSpace (TrimSpace s) = TrimSpace s"
  by (rule TrimSpace_tight) simp

lemma TrimSpace_Nil [simp]: "TrimSpace [] = []"
  by (rule TrimSpace_tight) (simp add: tight_def strip_any_None_iff HasPrefix_iff)

text \<open>Visible ASCII at both ends is enough.\<close>

definition visible :: "char \<Rightarrow> bool" where
  "visible c \<longleftrightarrow> 33 \<le> (of_char c :: nat) \<and> (of_char c :: nat) \<le> 126"

lemma space_seqs_not_visible:
  "p \<in> set space_seqs \<Longrightarrow> p \<noteq> [] \<and> \<not> visible (hd p) \<and> \<not> visible (last p)"
  unfolding space_seqs_def bytes_def visible_def by auto

lemma tight_visible:
  assumes "s = [] \<or> visible (hd s) \<and> visible (last s)"
  shows "tight s"
proof (cases "s = []")
  case True
  then show ?thesis by (auto simp: tight_def strip_any_None_iff HasPrefix_iff)
next
  case False
  have "\<not> HasPrefix s p" if "p \<in> set space_seqs" for p
    using assms False space_seqs_not_visible [OF that] by (auto simp: HasPrefix_iff hd_append)
  moreover have "\<not> HasPrefix (rev s) (rev p)" if "p \<in> set space_seqs" for p
  proof
    assume "HasPrefix (rev s) (rev p)"
    then obtain r where "rev s = rev p @ r" by (auto simp: HasPrefix_iff)
    then have "s = rev r @ p" by (metis rev_append rev_rev_ident)
    then show False
      using assms False space_seqs_not_visible [OF that] by auto
  qed
  ultimately show ?thesis by (auto simp: tight_def strip_any_None_iff)
qed

lemma TrimSpace_visible: "s = [] \<or> visible (hd s) \<and> visible (last s) \<Longrightarrow> TrimSpace s = s"
  by (simp add: TrimSpace_tight tight_visible)

text \<open>Trimming stops at a visible character.\<close>

lemma space_seqs_invisible: "p \<in> set space_seqs \<Longrightarrow> c \<in> set p \<Longrightarrow> \<not> visible c"
  unfolding space_seqs_def bytes_def visible_def by auto

lemma trim_any_visible:
  assumes "\<And>p x. p \<in> set ps \<Longrightarrow> x \<in> set p \<Longrightarrow> \<not> visible x" "visible c"
  shows "\<exists>t'. trim_any ps (t @ c # s) = t' @ c # s"
  using assms(1)
proof (induction ps "t @ c # s" arbitrary: t rule: trim_any.induct)
  case (1 ps)
  show ?case
  proof (cases "strip_any ps (t @ c # s)")
    case None
    then show ?thesis by (auto simp: trim_any_id)
  next
    case (Some r)
    then obtain p where p: "p \<in> set ps" "t @ c # s = p @ r" by (auto dest: strip_any_Some)
    have "c \<notin> set p" using 1(2) [OF p(1)] assms(2) by blast
    then obtain u where "r = u @ c # s"
      using p(2) by (auto simp: append_eq_append_conv2 Cons_eq_append_conv)
    with Some 1 have "\<exists>t'. trim_any ps r = t' @ c # s" by blast
    with Some show ?thesis by (simp add: trim_any.simps [of ps "t @ c # s"])
  qed
qed

lemma TrimSpace_keeps:
  assumes "visible (hd (s @ [c]))" "visible c"
  shows "\<exists>t'. TrimSpace (s @ c # t) = s @ c # t'"
proof -
  have "\<not> HasPrefix (s @ c # t) p" if "p \<in> set space_seqs" for p
    using assms space_seqs_not_visible [OF that] by (cases s; cases p) (auto simp: HasPrefix_iff)
  then have left: "TrimLeftSpace (s @ c # t) = s @ c # t"
    by (simp add: TrimLeftSpace_def trim_any_id strip_any_None_iff)
  have "\<not> visible x" if "p \<in> set (map rev space_seqs)" "x \<in> set p" for p x
    using that space_seqs_invisible by auto
  then have "\<exists>u. trim_any (map rev space_seqs) (rev t @ c # rev s) = u @ c # rev s"
    by (rule trim_any_visible [OF _ assms(2)])
  then obtain u where "trim_any (map rev space_seqs) (rev t @ c # rev s) = u @ c # rev s" by blast
  then have "TrimRightSpace (s @ c # t) = s @ c # rev u" by (simp add: TrimRightSpace_def)
  with left show ?thesis by (auto simp: TrimSpace_def)
qed

lemma ToLower_ascii: "list_all is_ascii s \<Longrightarrow> ToLower s = map ascii_lower s"
  by (simp add: ToLower_def)

text \<open>Evaluation of \<^verbatim>\<open>strings.Fields\<close> on visible characters and blanks.\<close>

lemma strip_any_visible: "visible c \<Longrightarrow> strip_any space_seqs (c # s) = None"
  unfolding strip_any_None_iff HasPrefix_iff using space_seqs_not_visible by (fastforce simp: Cons_eq_append_conv)

lemma fields_aux_eval [gostring_simps]:
  "fields_aux acc [] = (if acc = [] then [] else [rev acc])"
  "visible c \<Longrightarrow> fields_aux acc (c # s) = fields_aux (c # acc) s"
  "fields_aux acc (CHR '' '' # s) = (if acc = [] then fields_aux [] s else rev acc # fields_aux [] s)"
proof -
  have "strip_any space_seqs [] = None" by (simp add: strip_any_None_iff HasPrefix_iff)
  then show "fields_aux acc [] = (if acc = [] then [] else [rev acc])" by (simp add: fields_aux.simps)
  show "visible c \<Longrightarrow> fields_aux acc (c # s) = fields_aux (c # acc) s"
    by (subst fields_aux.simps) (simp add: strip_any_visible)
  have "map (char_of :: nat \<Rightarrow> char) [9, 10, 11, 12, 13, 32] = [CHR 0x09, CHR 0x0A, CHR 0x0B, CHR 0x0C, CHR 0x0D, CHR '' '']"
    by code_simp
  then have "strip_any space_seqs (CHR '' '' # s) = Some s" by (simp add: space_seqs_def bytes_def)
  then show "fields_aux acc (CHR '' '' # s) = (if acc = [] then fields_aux [] s else rev acc # fields_aux [] s)"
    by (subst fields_aux.simps) simp
qed

end
