(* ===== verification/Domain.thy ===== *)
theory Domain
  imports GoStrings
begin

text \<open>
  Package \<^verbatim>\<open>internal/domain\<close>: the entities of the service and its errors, and the two service
  errors of \<^verbatim>\<open>internal/service\<close>. The Go enumerations are open string types, so each datatype has
  a constructor for any other string. A \<^verbatim>\<open>time.Time\<close> is its number of nanoseconds since the Unix
  epoch, a pointer \<^verbatim>\<open>*time.Time\<close> an option, \<^verbatim>\<open>map[string]any\<close> an optional map (\<open>None\<close> is the nil
  map). \<open>genv\<close> is the part of the environment a request reads: the clock and the random source.
\<close>

section \<open>Errors\<close>

datatype error =
    ErrNotFound | ErrRoomInactive | ErrAlreadyExists | ErrInvalidArgument | ErrNotConfigured
  | ErrPermissionDenied | ErrInvalidState | ErrRemovedCannotRejoin
  | ErrMemberLeft | ErrMemberRemoved
  | ErrOther string

fun error_text :: "error \<Rightarrow> string" where
  "error_text ErrNotFound = ''not found''"
| "error_text ErrRoomInactive = ''room is inactive''"
| "error_text ErrAlreadyExists = ''already exists''"
| "error_text ErrInvalidArgument = ''invalid argument''"
| "error_text ErrNotConfigured = ''not configured''"
| "error_text ErrPermissionDenied = ''permission denied''"
| "error_text ErrInvalidState = ''invalid state''"
| "error_text ErrRemovedCannotRejoin = ''removed user cannot rejoin''"
| "error_text ErrMemberLeft = ''member is left''"
| "error_text ErrMemberRemoved = ''member is removed''"
| "error_text (ErrOther m) = m"

section \<open>Enumerations\<close>

datatype RoomType = RoomTypeGeneralGroup | RoomTypeBoardLinkedGroup | RoomTypeOther string

datatype MemberRole = MemberRoleOwner | MemberRoleMember | MemberRoleOther string

datatype MemberStatus =
  MemberStatusActive | MemberStatusRemoved | MemberStatusLeft | MemberStatusOther string

datatype MessageType =
  MessageTypeText | MessageTypeSystem | MessageTypeImage | MessageTypeFile | MessageTypeOther string

datatype DevicePlatform = DevicePlatformIOS | DevicePlatformAndroid | DevicePlatformOther string

section \<open>Values\<close>

type_synonym time = int

text \<open>The zero \<^verbatim>\<open>time.Time\<close>: 1 January of year 1, UTC.\<close>

definition time_zero :: time where
  "time_zero = - 62135596800000000000"

text \<open>The dynamic values of a metadata map; a number keeps the bits of its \<^verbatim>\<open>float64\<close>.\<close>

datatype any =
    ANil | ABool bool | ANumber "64 word" | AString string
  | AList "any list" | AStruct "(string \<times> any) list"

type_synonym metadata = "(string, any) gomap option"

section \<open>Entities\<close>

record ChatRoom =
  rm_ID :: string
  rm_RoomType :: RoomType
  rm_Title :: string
  rm_LinkedBoardID :: string
  rm_OwnerUserID :: string
  rm_IsActive :: bool
  rm_CreatedAt :: time
  rm_UpdatedAt :: time
  rm_DeletedAt :: "time option"

record ChatRoomMember =
  mb_ID :: string
  mb_RoomID :: string
  mb_UserID :: string
  mb_Role :: MemberRole
  mb_Status :: MemberStatus
  mb_JoinedAt :: time
  mb_LeftAt :: "time option"
  mb_RemovedAt :: "time option"
  mb_RemovedByUserID :: string
  mb_LastReadSequenceNo :: int
  mb_LastReadAt :: "time option"
  mb_CreatedAt :: time
  mb_UpdatedAt :: time

record ChatMessage =
  mg_ID :: string
  mg_RoomID :: string
  mg_SenderUserID :: string
  mg_MessageType :: MessageType
  mg_SequenceNo :: int
  mg_Content :: string
  mg_ImageURL :: string
  mg_FileURL :: string
  mg_Metadata :: metadata
  mg_IsDeleted :: bool
  mg_DeletedAt :: "time option"
  mg_DeletedByUserID :: string
  mg_CreatedAt :: time
  mg_UpdatedAt :: time

record ChatRoomSummary =
  sm_Room :: ChatRoom
  sm_LastMessage :: "ChatMessage option"
  sm_UnreadCnt :: int

record DeviceToken =
  dt_UserID :: string
  dt_DeviceID :: string
  dt_Token :: string
  dt_Platform :: DevicePlatform
  dt_IsActive :: bool
  dt_CreatedAt :: time
  dt_UpdatedAt :: time
  dt_LastSeenAt :: time
  dt_UnregisteredAt :: "time option"

definition zero_ChatRoom :: ChatRoom where
  "zero_ChatRoom = \<lparr>rm_ID = [], rm_RoomType = RoomTypeOther [], rm_Title = [],
     rm_LinkedBoardID = [], rm_OwnerUserID = [], rm_IsActive = False,
     rm_CreatedAt = time_zero, rm_UpdatedAt = time_zero, rm_DeletedAt = None\<rparr>"

definition zero_ChatMessage :: ChatMessage where
  "zero_ChatMessage = \<lparr>mg_ID = [], mg_RoomID = [], mg_SenderUserID = [], mg_MessageType = MessageTypeOther [],
     mg_SequenceNo = 0, mg_Content = [], mg_ImageURL = [], mg_FileURL = [], mg_Metadata = None,
     mg_IsDeleted = False, mg_DeletedAt = None, mg_DeletedByUserID = [], mg_CreatedAt = time_zero,
     mg_UpdatedAt = time_zero\<rparr>"

text \<open>A room that accepts members and messages, and an active room linked to a board.\<close>

definition room_open :: "ChatRoom \<Rightarrow> bool" where
  "room_open r \<longleftrightarrow> rm_IsActive r \<and> rm_DeletedAt r = None"

definition board_room :: "string \<Rightarrow> ChatRoom \<Rightarrow> bool" where
  "board_room b r \<longleftrightarrow> rm_RoomType r = RoomTypeBoardLinkedGroup \<and> rm_LinkedBoardID r = b \<and> room_open r"

section \<open>The environment of a request\<close>

text \<open>
  \<open>clock n\<close> is what the \<open>n\<close>-th reading of the clock returns; \<open>entropy n\<close> is the outcome of the
  \<open>n\<close>-th \<^verbatim>\<open>rand.Read\<close>: an error (\<open>None\<close>) or the bytes it fills a buffer with.
\<close>

record genv =
  clock :: "nat \<Rightarrow> time"
  entropy :: "nat \<Rightarrow> (nat \<Rightarrow> 8 word) option"
  ticks :: nat
  draws :: nat

definition time_Now :: "genv \<Rightarrow> time \<times> genv" where
  "time_Now g = (clock g (ticks g), g\<lparr>ticks := Suc (ticks g)\<rparr>)"

end
