(* ===== verification/Ids.thy ===== *)
theory Ids
  imports Domain
begin

unbundle bit_operations_syntax

text \<open>
  Package \<^verbatim>\<open>internal/id\<close>: \<^verbatim>\<open>New\<close> formats sixteen random bytes as a version 4 UUID. Two calls give
  the same identifier exactly when their 122 free bits agree, and an identifier is visible ASCII,
  which trimming leaves unchanged.
\<close>

definition hex_digit :: "nat \<Rightarrow> char" where
  "hex_digit n = (if n < 10 then char_of (48 + n) else char_of (87 + n))"

text \<open>The verb \<^verbatim>\<open>%02x\<close> for a byte.\<close>

definition hex2 :: "8 word \<Rightarrow> string" where
  "hex2 b = [hex_digit (unat b div 16), hex_digit (unat b mod 16)]"

definition set_version :: "8 word \<Rightarrow> 8 word" where
  "set_version b = (b AND 0x0f) OR 0x40"

definition set_variant :: "8 word \<Rightarrow> 8 word" where
  "set_variant b = (b AND 0x3f) OR 0x80"

definition uuid_bytes :: "(nat \<Rightarrow> 8 word) \<Rightarrow> 8 word list" where
  "uuid_bytes f = (map f [0..<16])[6 := set_version (f 6), 8 := set_variant (f 8)]"

definition uuid_string :: "8 word list \<Rightarrow> string" where
  "uuid_string b =
    concat (map hex2 (take 4 b)) @ ''-'' @ concat (map hex2 (take 2 (drop 4 b))) @ ''-''
    @ concat (map hex2 (take 2 (drop 6 b))) @ ''-'' @ concat (map hex2 (take 2 (drop 8 b))) @ ''-''
    @ concat (map hex2 (drop 10 b))"

definition id_New :: "genv \<Rightarrow> string \<times> genv" where
  "id_New g =
    ((case entropy g (draws g) of
        None \<Rightarrow> ''00000000-0000-0000-0000-000000000000''
      | Some f \<Rightarrow> uuid_string (uuid_bytes f)),
     g\<lparr>draws := Suc (draws g)\<rparr>)"

text \<open>An environment for examples: a clock that advances and a counter for randomness.\<close>

definition sample_env :: genv where
  "sample_env = \<lparr>clock = \<lambda>n. 1700000000000000000 + int n,
     entropy = \<lambda>n. Some (\<lambda>i. of_nat (16 * n + i)), ticks = 0, draws = 0\<rparr>"

definition uuid_char :: "char \<Rightarrow> bool" where
  "uuid_char c \<longleftrightarrow> c \<in> set ''0123456789abcdef-''"

lemma hex_digit_char: "n < 16 \<Longrightarrow> uuid_char (hex_digit n)"
proof -
  have "\<forall>n \<in> set [0..<16]. uuid_char (hex_digit n)"
    by code_simp
  then show "n < 16 \<Longrightarrow> uuid_char (hex_digit n)" by auto
qed

lemma hex_digit_inj: "m < 16 \<Longrightarrow> n < 16 \<Longrightarrow> hex_digit m = hex_digit n \<longleftrightarrow> m = n"
proof -
  have "(of_char (hex_digit m) :: nat) = (if m < 10 then 48 + m else 87 + m)" if "m < 16" for m
    using that by (simp add: hex_digit_def)
  note v = this
  assume "m < 16" "n < 16"
  show "hex_digit m = hex_digit n \<longleftrightarrow> m = n"
  proof
    assume "hex_digit m = hex_digit n"
    then have "(of_char (hex_digit m) :: nat) = of_char (hex_digit n)" by simp
    then have "(if m < 10 then 48 + m else 87 + m) = (if n < 10 then 48 + n else 87 + n)"
      by (simp only: v [OF \<open>m < 16\<close>] v [OF \<open>n < 16\<close>])
    then show "m = n" by (auto split: if_splits)
  qed simp
qed

lemma byte_nibbles: "unat (b :: 8 word) div 16 < 16" "unat b mod 16 < 16"
proof -
  have "unat b < 2 ^ LENGTH(8)" by (rule unsigned_less)
  then show "unat b div 16 < 16" by (simp add: less_mult_imp_div_less)
qed simp

lemma hex2_inj: "hex2 a = hex2 b \<longleftrightarrow> a = b"
proof
  assume "hex2 a = hex2 b"
  then have "unat a div 16 = unat b div 16" "unat a mod 16 = unat b mod 16"
    by (auto simp: hex2_def hex_digit_inj byte_nibbles)
  then have "unat a = unat b" by (metis div_mult_mod_eq)
  then show "a = b" by (rule unsigned_word_eqI)
qed simp

lemma length_hex2 [simp]: "length (hex2 b) = 2"
  by (simp add: hex2_def)

lemma set_hex2: "c \<in> set (hex2 b) \<Longrightarrow> uuid_char c"
  by (auto simp: hex2_def hex_digit_char byte_nibbles)

lemma length_uuid_bytes [simp]: "length (uuid_bytes f) = 16"
  by (simp add: uuid_bytes_def)

lemma nth_uuid_bytes:
  "i < 16 \<Longrightarrow> uuid_bytes f ! i =
     (if i = 6 then set_version (f 6) else if i = 8 then set_variant (f 8) else f i)"
  by (simp add: uuid_bytes_def nth_list_update)

lemma concat_hex2_inj:
  "length xs = length ys \<Longrightarrow> concat (map hex2 xs) = concat (map hex2 ys) \<longleftrightarrow> xs = ys"
proof (induction xs ys rule: list_induct2)
  case (Cons x xs y ys)
  then show ?case by (auto simp: hex2_inj)
qed simp

lemma length_concat_hex2 [simp]: "length (concat (map hex2 xs)) = 2 * length xs"
  by (induction xs) auto

text \<open>A UUID string splits back into its groups, so it determines its bytes.\<close>

lemma uuid_string_inj:
  assumes "length a = 16" "length b = 16"
  shows "uuid_string a = uuid_string b \<longleftrightarrow> a = b"
proof
  assume eq: "uuid_string a = uuid_string b"
  have "take 4 a = take 4 b \<and> take 2 (drop 4 a) = take 2 (drop 4 b)
    \<and> take 2 (drop 6 a) = take 2 (drop 6 b) \<and> take 2 (drop 8 a) = take 2 (drop 8 b)
    \<and> drop 10 a = drop 10 b"
    using eq assms by (simp add: uuid_string_def concat_hex2_inj)
  then have "take 4 a @ take 2 (drop 4 a) @ take 2 (drop 6 a) @ take 2 (drop 8 a) @ drop 10 a
      = take 4 b @ take 2 (drop 4 b) @ take 2 (drop 6 b) @ take 2 (drop 8 b) @ drop 10 b"
    by simp
  moreover have "take 4 x @ take 2 (drop 4 x) @ take 2 (drop 6 x) @ take 2 (drop 8 x) @ drop 10 x = x"
    for x :: "8 word list"
    using append_take_drop_id [of 2 "drop 8 x"] append_take_drop_id [of 2 "drop 6 x"]
      append_take_drop_id [of 2 "drop 4 x"] append_take_drop_id [of 4 x] by simp
  ultimately show "a = b" by simp
qed simp

lemma set_uuid_string: "c \<in> set (uuid_string b) \<Longrightarrow> uuid_char c"
  unfolding uuid_string_def
  by (auto simp: uuid_char_def [of "CHR ''-''"] dest: set_hex2)

lemma uuid_char_visible: "uuid_char c \<Longrightarrow> visible c"
  by (auto simp: uuid_char_def visible_def)

lemma id_New_chars: "c \<in> set (fst (id_New g)) \<Longrightarrow> uuid_char c"
  by (cases "entropy g (draws g)")
     (auto simp: id_New_def dest: set_uuid_string, auto simp: uuid_char_def)

lemma length_uuid_string: "length b = 16 \<Longrightarrow> length (uuid_string b) = 36"
  by (simp add: uuid_string_def)

lemma length_id_New [simp]: "length (fst (id_New g)) = 36"
  by (cases "entropy g (draws g)") (simp_all add: id_New_def length_uuid_string)

lemma id_New_not_Nil [simp]: "fst (id_New g) \<noteq> []"
  using length_id_New [of g] by (metis list.size(3) numeral_eq_Suc nat.distinct(1))

lemma TrimSpace_id_New [simp]: "TrimSpace (fst (id_New g)) = fst (id_New g)"
  by (rule TrimSpace_visible) (auto intro!: uuid_char_visible id_New_chars [of _ g])

text \<open>
  The identifiers of two \<open>id_New\<close> calls that both got random bytes are 36 characters of
  lower-case hexadecimal and hyphens, and they are equal exactly when the random bytes agree outside
  the version nibble and the variant bits that \<open>id_New\<close> overwrites.
\<close>

theorem id_New_equal_iff:
  assumes "entropy g (draws g) = Some f" and "entropy g' (draws g') = Some f'"
  shows "(\<forall>c \<in> set (fst (id_New g)). uuid_char c) \<and> length (fst (id_New g)) = 36 \<and>
    (fst (id_New g) = fst (id_New g') \<longleftrightarrow>
      (\<forall>i < 16. i \<noteq> 6 \<and> i \<noteq> 8 \<longrightarrow> f i = f' i)
      \<and> f 6 AND 0x0f = f' 6 AND 0x0f \<and> f 8 AND 0x3f = f' 8 AND 0x3f)"
proof -
  have "set_version x AND 0x0f = x AND 0x0f" for x
    by (simp add: set_version_def bit.conj_disj_distrib2 and.assoc)
  then have v6: "set_version x = set_version y \<longleftrightarrow> x AND 0x0f = y AND 0x0f" for x y
    by (metis set_version_def)
  have "set_variant x AND 0x3f = x AND 0x3f" for x
    by (simp add: set_variant_def bit.conj_disj_distrib2 and.assoc)
  then have v8: "set_variant x = set_variant y \<longleftrightarrow> x AND 0x3f = y AND 0x3f" for x y
    by (metis set_variant_def)
  have "fst (id_New g) = fst (id_New g') \<longleftrightarrow> uuid_bytes f = uuid_bytes f'"
    using assms by (simp add: id_New_def uuid_string_inj)
  also have "\<dots> \<longleftrightarrow> (\<forall>i < 16. uuid_bytes f ! i = uuid_bytes f' ! i)"
    by (simp add: list_eq_iff_nth_eq)
  also have "\<dots> \<longleftrightarrow> (\<forall>i < 16. i \<noteq> 6 \<and> i \<noteq> 8 \<longrightarrow> f i = f' i)
      \<and> f 6 AND 0x0f = f' 6 AND 0x0f \<and> f 8 AND 0x3f = f' 8 AND 0x3f" (is "?L \<longleftrightarrow> ?R")
  proof
    assume L: ?L
    then have "uuid_bytes f ! 6 = uuid_bytes f' ! 6" "uuid_bytes f ! 8 = uuid_bytes f' ! 8" by simp_all
    moreover have "f i = f' i" if "i < 16" "i \<noteq> 6" "i \<noteq> 8" for i
      using L that by (metis nth_uuid_bytes)
    ultimately show ?R by (simp add: nth_uuid_bytes v6 v8)
  next
    assume ?R
    then show ?L by (auto simp: nth_uuid_bytes v6 v8)
  qed
  finally show ?thesis using id_New_chars by auto
qed

theorem id_New_equal_iff_witness:
  "entropy sample_env (draws sample_env) = Some (\<lambda>i. of_nat i)
   \<and> fst (id_New sample_env) \<noteq> fst (id_New (snd (id_New sample_env)))"
proof -
  have "entropy sample_env (draws sample_env) = Some (\<lambda>i. of_nat i)"
    "entropy (snd (id_New sample_env)) (draws (snd (id_New sample_env))) = Some (\<lambda>i. of_nat (16 + i))"
    by (simp_all add: sample_env_def id_New_def)
  from this(1) id_New_equal_iff [OF this] show ?thesis by force
qed

end
