(* ===== verification/PubSub.thy ===== *)
theory PubSub
  imports Ids
begin

text \<open>
  Package \<^verbatim>\<open>internal/pubsub\<close>: the in-memory room pub/sub. A \<^verbatim>\<open>memorySub\<close> and its buffered channel are
  one object of a heap, addressed by its position; the hub maps room and subscription identifiers
  to such addresses, as the Go maps hold the channels. \<open>sub_closed\<close> is the flag \<^verbatim>\<open>closed\<close> of the subscription,
  \<open>sub_chClosed\<close> says that its channel is closed. A send on a closed channel panics in Go: \<open>chan_send\<close> and
  \<open>ps_Publish\<close> return \<open>None\<close> then. Here every operation is one step; the theory \<open>HubSteps\<close> has the steps of
  publishing and closing one by one, with the locks, and shows that their interleaving cannot panic.
\<close>

section \<open>State\<close>

record memorySub =
  sub_id :: string
  sub_roomID :: string
  sub_closed :: bool
  sub_chClosed :: bool
  sub_cap :: nat
  sub_buf :: "ChatMessage list"

record MemoryRoomPubSub =
  ps_subs :: "(string, (string, nat) gomap) gomap"
  ps_heap :: "memorySub list"

definition NewMemoryRoomPubSub :: MemoryRoomPubSub where
  "NewMemoryRoomPubSub = \<lparr>ps_subs = [], ps_heap = []\<rparr>"

section \<open>Operations\<close>

text \<open>\<^verbatim>\<open>select { case ch <- msg: default: }\<close>: append if there is room, drop otherwise.\<close>

definition chan_send :: "ChatMessage \<Rightarrow> memorySub \<Rightarrow> memorySub option" where
  "chan_send msg c =
    (if sub_chClosed c then None
     else if length (sub_buf c) < sub_cap c then Some (c\<lparr>sub_buf := sub_buf c @ [msg]\<rparr>) else Some c)"

fun publish_to :: "ChatMessage \<Rightarrow> nat list \<Rightarrow> memorySub list \<Rightarrow> memorySub list option" where
  "publish_to msg [] heap = Some heap"
| "publish_to msg (ch # chs) heap =
    (if ch < length heap then
       (case chan_send msg (heap ! ch) of
          None \<Rightarrow> None
        | Some c \<Rightarrow> publish_to msg chs (heap[ch := c]))
     else None)"

definition ps_Publish :: "MemoryRoomPubSub \<Rightarrow> string \<Rightarrow> ChatMessage \<Rightarrow> MemoryRoomPubSub option" where
  "ps_Publish m roomID msg =
    (case map_of (ps_subs m) roomID of
       None \<Rightarrow> Some m
     | Some subs \<Rightarrow>
        map_option (\<lambda>heap. m\<lparr>ps_heap := heap\<rparr>) (publish_to msg (vals subs) (ps_heap m)))"

definition ps_Subscribe :: "genv \<Rightarrow> MemoryRoomPubSub \<Rightarrow> string \<Rightarrow> int \<Rightarrow> nat \<times> MemoryRoomPubSub \<times> genv" where
  "ps_Subscribe g m roomID buffer0 =
    (let buffer = (if buffer0 \<le> 0 then 64 else buffer0);
         (subID, g') = id_New g;
         ch = length (ps_heap m);
         subs1 = (if map_of (ps_subs m) roomID = None
                  then AList.update roomID [] (ps_subs m) else ps_subs m)
     in (ch,
         \<lparr>ps_subs = update2 roomID subID ch subs1,
          ps_heap = ps_heap m @ [\<lparr>sub_id = subID, sub_roomID = roomID, sub_closed = False,
                                  sub_chClosed = False, sub_cap = nat buffer, sub_buf = []\<rparr>]\<rparr>,
         g'))"

definition ps_removeSub :: "string \<Rightarrow> string \<Rightarrow> MemoryRoomPubSub \<Rightarrow> MemoryRoomPubSub" where
  "ps_removeSub roomID subID m =
    (case map_of (ps_subs m) roomID of
       None \<Rightarrow> m
     | Some subs \<Rightarrow>
        (let subs' = AList.delete subID subs
         in if subs' = [] then m\<lparr>ps_subs := AList.delete roomID (ps_subs m)\<rparr>
            else m\<lparr>ps_subs := AList.update roomID subs' (ps_subs m)\<rparr>))"

text \<open>
  What \<^verbatim>\<open>Close\<close> does when the subscription is not closed yet, in its order: set the flag, remove the
  subscription from the hub (under the hub's lock), close the channel (under the subscription's own lock only).
\<close>

datatype close_action = MarkClosed | RemoveSub | CloseChan

definition Close_body :: "close_action list" where
  "Close_body = [MarkClosed, RemoveSub, CloseChan]"

fun close_act :: "nat \<Rightarrow> close_action \<Rightarrow> MemoryRoomPubSub \<Rightarrow> MemoryRoomPubSub" where
  "close_act ch MarkClosed m = m\<lparr>ps_heap := (ps_heap m)[ch := (ps_heap m ! ch)\<lparr>sub_closed := True\<rparr>]\<rparr>"
| "close_act ch RemoveSub m = ps_removeSub (sub_roomID (ps_heap m ! ch)) (sub_id (ps_heap m ! ch)) m"
| "close_act ch CloseChan m = m\<lparr>ps_heap := (ps_heap m)[ch := (ps_heap m ! ch)\<lparr>sub_chClosed := True\<rparr>]\<rparr>"

definition ps_Close :: "MemoryRoomPubSub \<Rightarrow> nat \<Rightarrow> MemoryRoomPubSub" where
  "ps_Close m ch =
    (if ch < length (ps_heap m) \<and> \<not> sub_closed (ps_heap m ! ch) then fold (close_act ch) Close_body m else m)"

text \<open>A non-blocking receive: \<open>Some (Some msg)\<close> a message, \<open>Some None\<close> closed and drained, \<open>None\<close> would block.\<close>

definition ps_recv :: "MemoryRoomPubSub \<Rightarrow> nat \<Rightarrow> ChatMessage option option \<times> MemoryRoomPubSub" where
  "ps_recv m ch =
    (if ch < length (ps_heap m) then
       (case sub_buf (ps_heap m ! ch) of
          msg # rest \<Rightarrow> (Some (Some msg),
             m\<lparr>ps_heap := (ps_heap m)[ch := (ps_heap m ! ch)\<lparr>sub_buf := rest\<rparr>]\<rparr>)
        | [] \<Rightarrow> ((if sub_chClosed (ps_heap m ! ch) then Some None else None), m))
     else (None, m))"

section \<open>Invariant\<close>

text \<open>
  A registered channel exists, is open and knows its own room and identifier; every open
  channel is registered; no buffer exceeds its capacity; a subscription that is marked closed has its channel
  closed; a room without subscribers has no entry.
\<close>

definition ps_inv :: "MemoryRoomPubSub \<Rightarrow> bool" where
  "ps_inv m \<longleftrightarrow> wf_map2 (ps_subs m) \<and> (\<forall>e \<in> set (ps_subs m). snd e \<noteq> [])
     \<and> (\<forall>e \<in> set (ps_subs m). \<forall>x \<in> set (snd e). snd x < length (ps_heap m)
          \<and> sub_roomID (ps_heap m ! snd x) = fst e \<and> sub_id (ps_heap m ! snd x) = fst x
          \<and> \<not> sub_closed (ps_heap m ! snd x))
     \<and> (\<forall>ch < length (ps_heap m). \<not> sub_closed (ps_heap m ! ch) \<longrightarrow>
          map_of (inner (ps_subs m) (sub_roomID (ps_heap m ! ch))) (sub_id (ps_heap m ! ch)) = Some ch)
     \<and> (\<forall>c \<in> set (ps_heap m). length (sub_buf c) \<le> sub_cap c \<and> sub_chClosed c = sub_closed c)"

lemma ps_inv_New: "ps_inv NewMemoryRoomPubSub"
  by (simp add: ps_inv_def NewMemoryRoomPubSub_def)

text \<open>The same facts with maps instead of list entries.\<close>

lemma ps_invD:
  assumes "ps_inv m"
  shows "wf_map2 (ps_subs m)"
    and "(k, x) \<in> set (ps_subs m) \<Longrightarrow> x \<noteq> []"
    and "map_of (inner (ps_subs m) rid) sid = Some ch \<longleftrightarrow> ch < length (ps_heap m)
           \<and> sub_roomID (ps_heap m ! ch) = rid \<and> sub_id (ps_heap m ! ch) = sid
           \<and> \<not> sub_closed (ps_heap m ! ch)"
    and "ch < length (ps_heap m) \<Longrightarrow> length (sub_buf (ps_heap m ! ch)) \<le> sub_cap (ps_heap m ! ch)"
    and "ch < length (ps_heap m) \<Longrightarrow> sub_chClosed (ps_heap m ! ch) = sub_closed (ps_heap m ! ch)"
proof -
  show "wf_map2 (ps_subs m)" using assms by (simp add: ps_inv_def)
  show "x \<noteq> []" if "(k, x) \<in> set (ps_subs m)"
    using assms that unfolding ps_inv_def by force
  show "length (sub_buf (ps_heap m ! ch)) \<le> sub_cap (ps_heap m ! ch)"
    "sub_chClosed (ps_heap m ! ch) = sub_closed (ps_heap m ! ch)" if "ch < length (ps_heap m)"
    using assms that by (simp_all add: ps_inv_def)
  have entry: "ch < length (ps_heap m) \<and> sub_roomID (ps_heap m ! ch) = rid
      \<and> sub_id (ps_heap m ! ch) = sid \<and> \<not> sub_closed (ps_heap m ! ch)"
    if "map_of (inner (ps_subs m) rid) sid = Some ch"
  proof -
    from that obtain x where "(rid, x) \<in> set (ps_subs m)" "(sid, ch) \<in> set x"
      by (meson in_innerD map_of_SomeD)
    moreover have "\<forall>e \<in> set (ps_subs m). \<forall>x \<in> set (snd e). snd x < length (ps_heap m)
          \<and> sub_roomID (ps_heap m ! snd x) = fst e \<and> sub_id (ps_heap m ! snd x) = fst x
          \<and> \<not> sub_closed (ps_heap m ! snd x)"
      using assms by (simp add: ps_inv_def)
    ultimately show ?thesis by fastforce
  qed
  have registered: "map_of (inner (ps_subs m) (sub_roomID (ps_heap m ! ch))) (sub_id (ps_heap m ! ch)) = Some ch"
    if "ch < length (ps_heap m)" "\<not> sub_closed (ps_heap m ! ch)"
    using assms that by (simp add: ps_inv_def)
  show "map_of (inner (ps_subs m) rid) sid = Some ch \<longleftrightarrow> ch < length (ps_heap m)
           \<and> sub_roomID (ps_heap m ! ch) = rid \<and> sub_id (ps_heap m ! ch) = sid
           \<and> \<not> sub_closed (ps_heap m ! ch)"
    using entry registered by blast
qed

lemma ps_invI:
  assumes wf: "wf_map2 (ps_subs m)"
    and ne: "\<And>k x. (k, x) \<in> set (ps_subs m) \<Longrightarrow> x \<noteq> []"
    and reg: "\<And>rid sid ch. map_of (inner (ps_subs m) rid) sid = Some ch \<longleftrightarrow> ch < length (ps_heap m)
           \<and> sub_roomID (ps_heap m ! ch) = rid \<and> sub_id (ps_heap m ! ch) = sid
           \<and> \<not> sub_closed (ps_heap m ! ch)"
    and cap: "\<And>ch. ch < length (ps_heap m) \<Longrightarrow>
           length (sub_buf (ps_heap m ! ch)) \<le> sub_cap (ps_heap m ! ch)
           \<and> sub_chClosed (ps_heap m ! ch) = sub_closed (ps_heap m ! ch)"
  shows "ps_inv m"
proof -
  have entry: "snd x < length (ps_heap m) \<and> sub_roomID (ps_heap m ! snd x) = fst e
      \<and> sub_id (ps_heap m ! snd x) = fst x \<and> \<not> sub_closed (ps_heap m ! snd x)"
    if "e \<in> set (ps_subs m)" "x \<in> set (snd e)" for e x
  proof -
    have "wf_map (ps_subs m)" "wf_map (snd e)"
      using wf that(1) by (auto simp: wf_map2_def)
    then have "map_of (ps_subs m) (fst e) = Some (snd e)" "map_of (snd e) (fst x) = Some (snd x)"
      using that unfolding wf_map_def by (metis map_of_is_SomeI prod.collapse)+
    then have "map_of (inner (ps_subs m) (fst e)) (fst x) = Some (snd x)"
      by (simp add: inner_def)
    then show ?thesis using reg [of "fst e" "fst x" "snd x"] by simp
  qed
  have c: "length (sub_buf c) \<le> sub_cap c \<and> sub_chClosed c = sub_closed c" if "c \<in> set (ps_heap m)" for c
    using that cap by (auto simp: in_set_conv_nth)
  have n: "snd e \<noteq> []" if "e \<in> set (ps_subs m)" for e
    using that ne [of "fst e" "snd e"] by simp
  have r: "map_of (inner (ps_subs m) (sub_roomID (ps_heap m ! ch))) (sub_id (ps_heap m ! ch)) = Some ch"
    if "ch < length (ps_heap m)" "\<not> sub_closed (ps_heap m ! ch)" for ch
    using reg that by blast
  show ?thesis unfolding ps_inv_def
    using wf entry c n r by (intro conjI ballI allI impI) (simp_all (no_asm_simp))
qed

section \<open>Publishing\<close>

text \<open>What a send does to an open channel: append unless the buffer is full.\<close>

definition offered :: "ChatMessage \<Rightarrow> memorySub \<Rightarrow> memorySub" where
  "offered msg c = (if length (sub_buf c) < sub_cap c then c\<lparr>sub_buf := sub_buf c @ [msg]\<rparr> else c)"

lemma offered_fields [simp]:
  "sub_id (offered msg c) = sub_id c" "sub_roomID (offered msg c) = sub_roomID c"
  "sub_closed (offered msg c) = sub_closed c" "sub_chClosed (offered msg c) = sub_chClosed c" "sub_cap (offered msg c) = sub_cap c"
  by (simp_all add: offered_def)

lemma offered_cap: "length (sub_buf c) \<le> sub_cap c \<Longrightarrow> length (sub_buf (offered msg c)) \<le> sub_cap c"
  by (simp add: offered_def)

lemma publish_to_Some:
  assumes "distinct chs" and "\<And>ch. ch \<in> set chs \<Longrightarrow> ch < length heap \<and> \<not> sub_chClosed (heap ! ch)"
  shows "\<exists>heap'. publish_to msg chs heap = Some heap' \<and> length heap' = length heap
    \<and> (\<forall>ch < length heap. heap' ! ch = (if ch \<in> set chs then offered msg (heap ! ch) else heap ! ch))"
  using assms
proof (induction chs arbitrary: heap)
  case (Cons c chs)
  let ?h = "heap[c := offered msg (heap ! c)]"
  have c: "c < length heap" "\<not> sub_chClosed (heap ! c)" using Cons.prems(2) by auto
  have send: "chan_send msg (heap ! c) = Some (offered msg (heap ! c))"
    using c(2) by (simp add: chan_send_def offered_def)
  have "ch < length ?h \<and> \<not> sub_chClosed (?h ! ch)" if "ch \<in> set chs" for ch
    using Cons.prems that by (auto simp: nth_list_update)
  then obtain heap' where h: "publish_to msg chs ?h = Some heap'" "length heap' = length heap"
    and n: "\<And>ch. ch < length heap \<Longrightarrow>
      heap' ! ch = (if ch \<in> set chs then offered msg (?h ! ch) else ?h ! ch)"
    using Cons.IH [of ?h] Cons.prems(1) by auto
  have "heap' ! ch = (if ch \<in> set (c # chs) then offered msg (heap ! ch) else heap ! ch)"
    if "ch < length heap" for ch
    using n [OF that] Cons.prems(1) that by (cases "ch = c") auto
  then show ?case using h c(1) send by auto
qed simp

text \<open>The subscribers of a room: the open channels subscribed to it.\<close>

definition subscriber :: "MemoryRoomPubSub \<Rightarrow> string \<Rightarrow> nat \<Rightarrow> bool" where
  "subscriber m roomID ch \<longleftrightarrow> ch < length (ps_heap m)
     \<and> sub_roomID (ps_heap m ! ch) = roomID \<and> \<not> sub_closed (ps_heap m ! ch)"

lemma in_vals_map_of: "wf_map m \<Longrightarrow> v \<in> set (vals m) \<longleftrightarrow> (\<exists>k. map_of m k = Some v)"
  by (simp add: set_values_map_of ran_def)

lemma ps_room_channels:
  assumes "ps_inv m"
  shows "set (vals (inner (ps_subs m) roomID)) = {ch. subscriber m roomID ch}"
    and "distinct (vals (inner (ps_subs m) roomID))"
proof -
  let ?s = "inner (ps_subs m) roomID"
  have wf: "wf_map ?s" using ps_invD(1) [OF assms] by blast
  have "x \<in> set (vals ?s) \<longleftrightarrow> subscriber m roomID x" for x
    unfolding in_vals_map_of [OF wf] subscriber_def using ps_invD(3) [OF assms, of roomID] by blast
  then show "set (vals ?s) = {ch. subscriber m roomID ch}" by blast
  have "sub_id (ps_heap m ! v) = k" if "(k, v) \<in> set ?s" for k v
  proof -
    have "map_of ?s k = Some v" using wf that by (simp add: wf_map_def)
    then show ?thesis using ps_invD(3) [OF assms] by blast
  qed
  then have "distinct (map (\<lambda>v. sub_id (ps_heap m ! v)) (vals ?s))"
    by (rule distinct_vals [OF wf])
  then show "distinct (vals ?s)" by (simp add: distinct_map)
qed

lemma ps_Publish_effect:
  assumes "ps_inv m"
  shows "\<exists>m'. ps_Publish m roomID msg = Some m' \<and> ps_inv m' \<and> ps_subs m' = ps_subs m
    \<and> length (ps_heap m') = length (ps_heap m)
    \<and> (\<forall>ch < length (ps_heap m). ps_heap m' ! ch =
         (if subscriber m roomID ch then offered msg (ps_heap m ! ch) else ps_heap m ! ch))"
proof -
  let ?chs = "vals (inner (ps_subs m) roomID)"
  have chs: "set ?chs = {ch. subscriber m roomID ch}" "distinct ?chs"
    using ps_room_channels [OF assms] by auto
  have "ch < length (ps_heap m) \<and> \<not> sub_chClosed (ps_heap m ! ch)" if "ch \<in> set ?chs" for ch
    using that chs(1) ps_invD(5) [OF assms] by (simp add: subscriber_def)
  then obtain h where h: "publish_to msg ?chs (ps_heap m) = Some h" "length h = length (ps_heap m)"
    and n: "\<And>ch. ch < length (ps_heap m) \<Longrightarrow>
      h ! ch = (if subscriber m roomID ch then offered msg (ps_heap m ! ch) else ps_heap m ! ch)"
    using publish_to_Some [OF chs(2), of "ps_heap m" msg] chs(1) by auto
  have p: "ps_Publish m roomID msg = Some (m\<lparr>ps_heap := h\<rparr>)"
    using h(1) by (cases "map_of (ps_subs m) roomID") (simp_all add: ps_Publish_def inner_def vals_def)
  have "ps_inv (m\<lparr>ps_heap := h\<rparr>)"
  proof (rule ps_invI)
    fix rid sid ch
    show "map_of (inner (ps_subs (m\<lparr>ps_heap := h\<rparr>)) rid) sid = Some ch \<longleftrightarrow>
        ch < length (ps_heap (m\<lparr>ps_heap := h\<rparr>)) \<and> sub_roomID (ps_heap (m\<lparr>ps_heap := h\<rparr>) ! ch) = rid
        \<and> sub_id (ps_heap (m\<lparr>ps_heap := h\<rparr>) ! ch) = sid \<and> \<not> sub_closed (ps_heap (m\<lparr>ps_heap := h\<rparr>) ! ch)"
      using ps_invD(3) [OF assms, of rid sid ch] h(2) n [of ch] by (auto split: if_splits)
  next
    fix ch
    assume "ch < length (ps_heap (m\<lparr>ps_heap := h\<rparr>))"
    then show "length (sub_buf (ps_heap (m\<lparr>ps_heap := h\<rparr>) ! ch)) \<le> sub_cap (ps_heap (m\<lparr>ps_heap := h\<rparr>) ! ch)
        \<and> sub_chClosed (ps_heap (m\<lparr>ps_heap := h\<rparr>) ! ch) = sub_closed (ps_heap (m\<lparr>ps_heap := h\<rparr>) ! ch)"
      using ps_invD(4,5) [OF assms, of ch] h(2) n [of ch] by (auto simp: offered_cap)
  qed (use ps_invD(1,2) [OF assms] in auto)
  then show ?thesis using p h(2) n by auto
qed

section \<open>Subscribing and closing\<close>

lemma alist_delete_subset: "set (AList.delete k m) \<subseteq> set m"
  by (auto simp: AList.delete_eq)

lemma wf_map2_delete: "wf_map2 m \<Longrightarrow> wf_map2 (AList.delete k m)"
  using alist_delete_subset [of k m] by (auto simp: wf_map2_def)

lemma inner_delete [simp]: "inner (AList.delete k m) k' = (if k' = k then [] else inner m k')"
  by (simp add: inner_def)

lemma alist_update_not_Nil [simp]: "AList.update k v m \<noteq> []" "[] \<noteq> AList.update k v m"
  by (cases m; auto)+

lemma ps_inv_Subscribe:
  assumes inv: "ps_inv m" and fresh: "map_of (inner (ps_subs m) roomID) (fst (id_New g)) = None"
    and run: "ps_Subscribe g m roomID b = (ch, m', g')"
  shows "ps_inv m'" and "subscriber m' roomID ch" and "sub_buf (ps_heap m' ! ch) = []"
    and "ch = length (ps_heap m)" and "length (ps_heap m') = Suc ch"
    and "\<And>c. c < ch \<Longrightarrow> ps_heap m' ! c = ps_heap m ! c"
proof -
  define c0 where "c0 = \<lparr>sub_id = fst (id_New g), sub_roomID = roomID, sub_closed = False,
    sub_chClosed = False, sub_cap = nat (if b \<le> 0 then 64 else b), sub_buf = []\<rparr>"
  define subs1 where "subs1 = (if map_of (ps_subs m) roomID = None
    then AList.update roomID [] (ps_subs m) else ps_subs m)"
  have ch: "ch = length (ps_heap m)" and h: "ps_heap m' = ps_heap m @ [c0]"
    and sb: "ps_subs m' = update2 roomID (fst (id_New g)) ch subs1"
    using run by (auto simp: ps_Subscribe_def c0_def subs1_def Let_def split: prod.splits)
  have in1: "inner subs1 k = inner (ps_subs m) k" for k
    by (auto simp: subs1_def inner_def)
  show "ch = length (ps_heap m)" "length (ps_heap m') = Suc ch" "sub_buf (ps_heap m' ! ch) = []"
    "subscriber m' roomID ch" "\<And>c. c < ch \<Longrightarrow> ps_heap m' ! c = ps_heap m ! c"
    using ch h by (simp_all add: c0_def subscriber_def nth_append)
  show "ps_inv m'"
  proof (rule ps_invI)
    show "wf_map2 (ps_subs m')"
      using ps_invD(1) [OF inv] by (auto simp: sb subs1_def intro!: wf_map2_update2 wf_map2_update)
  next
    fix k x
    assume "(k, x) \<in> set (ps_subs m')"
    then show "x \<noteq> []"
      using ps_invD(2) [OF inv, of k x]
      by (auto simp: sb update2_def subs1_def inner_def dest!: in_alist_update split: if_splits)
  next
    fix c
    assume "c < length (ps_heap m')"
    then show "length (sub_buf (ps_heap m' ! c)) \<le> sub_cap (ps_heap m' ! c)
        \<and> sub_chClosed (ps_heap m' ! c) = sub_closed (ps_heap m' ! c)"
      using ps_invD(4,5) [OF inv, of c] h by (auto simp: nth_append c0_def less_Suc_eq)
  next
    fix rid sid c
    show "map_of (inner (ps_subs m') rid) sid = Some c \<longleftrightarrow> c < length (ps_heap m')
           \<and> sub_roomID (ps_heap m' ! c) = rid \<and> sub_id (ps_heap m' ! c) = sid
           \<and> \<not> sub_closed (ps_heap m' ! c)"
      using ps_invD(3) [OF inv, of rid sid c] fresh ch h
      by (cases "c = ch") (auto simp: sb in1 nth_append c0_def less_Suc_eq)
  qed
qed

lemma ps_removeSub_heap [simp]: "ps_heap (ps_removeSub rid sid m) = ps_heap m"
  by (simp add: ps_removeSub_def Let_def split: option.split)

lemma ps_removeSub_inner:
  "map_of (inner (ps_subs (ps_removeSub rid sid m)) k) i =
     (if k = rid \<and> i = sid then None else map_of (inner (ps_subs m) k) i)"
proof (cases "map_of (ps_subs m) rid")
  case None
  then show ?thesis by (simp add: ps_removeSub_def inner_def)
next
  case (Some x)
  have "map_of x i = None" if "AList.delete sid x = []" "i \<noteq> sid" for i
    using that map_of_alist_delete [of sid x] by (metis fun_upd_apply map_of.simps(1))
  with Some show ?thesis by (auto simp: ps_removeSub_def Let_def inner_def)
qed

lemma ps_removeSub_wf2:
  assumes "wf_map2 (ps_subs m)"
  shows "wf_map2 (ps_subs (ps_removeSub rid sid m))"
proof (cases "map_of (ps_subs m) rid")
  case (Some y)
  then have "wf_map y" using wf_map2_inner [OF assms, of rid] by (simp add: inner_def)
  then show ?thesis using Some assms
    by (auto simp: ps_removeSub_def Let_def intro: wf_map2_update wf_map2_delete)
qed (simp add: ps_removeSub_def assms)

lemma ps_removeSub_wf:
  assumes "ps_inv m"
  shows "wf_map2 (ps_subs (ps_removeSub rid sid m))"
    and "(k, x) \<in> set (ps_subs (ps_removeSub rid sid m)) \<Longrightarrow> x \<noteq> []"
proof -
  show "wf_map2 (ps_subs (ps_removeSub rid sid m))" by (rule ps_removeSub_wf2 [OF ps_invD(1) [OF assms]])
  show "x \<noteq> []" if "(k, x) \<in> set (ps_subs (ps_removeSub rid sid m))"
    using that ps_invD(2) [OF assms] alist_delete_subset [of rid "ps_subs m"]
    by (auto simp: ps_removeSub_def Let_def dest!: in_alist_update split: option.splits if_splits)
qed

lemma ps_Close_run:
  assumes "ch < length (ps_heap m)" "\<not> sub_closed (ps_heap m ! ch)"
  shows "ps_Close m ch = (ps_removeSub (sub_roomID (ps_heap m ! ch)) (sub_id (ps_heap m ! ch)) m)
    \<lparr>ps_heap := (ps_heap m)[ch := (ps_heap m ! ch)\<lparr>sub_closed := True, sub_chClosed := True\<rparr>]\<rparr>"
  using assms by (simp add: ps_Close_def Close_body_def ps_removeSub_def Let_def split: option.split)

lemma ps_Close_noop: "\<not> (ch < length (ps_heap m) \<and> \<not> sub_closed (ps_heap m ! ch)) \<Longrightarrow> ps_Close m ch = m"
  unfolding ps_Close_def by (rule if_not_P)

lemma ps_inv_Close:
  assumes inv: "ps_inv m"
  shows "ps_inv (ps_Close m ch)"
proof (cases "ch < length (ps_heap m) \<and> \<not> sub_closed (ps_heap m ! ch)")
  case True
  let ?s = "ps_heap m ! ch" and ?m = "ps_removeSub (sub_roomID (ps_heap m ! ch)) (sub_id (ps_heap m ! ch)) m"
  let ?m' = "ps_Close m ch"
  have h: "ps_heap ?m' = (ps_heap m)[ch := ?s\<lparr>sub_closed := True, sub_chClosed := True\<rparr>]" and sb: "ps_subs ?m' = ps_subs ?m"
    using True by (simp_all add: ps_Close_run)
  show ?thesis
  proof (rule ps_invI)
    show "wf_map2 (ps_subs ?m')" unfolding sb
      by (rule ps_removeSub_wf(1) [OF inv])
  next
    fix k x
    assume "(k, x) \<in> set (ps_subs ?m')"
    then show "x \<noteq> []" unfolding sb
      by (rule ps_removeSub_wf(2) [OF inv])
  next
    fix c
    assume "c < length (ps_heap ?m')"
    then show "length (sub_buf (ps_heap ?m' ! c)) \<le> sub_cap (ps_heap ?m' ! c)
        \<and> sub_chClosed (ps_heap ?m' ! c) = sub_closed (ps_heap ?m' ! c)"
      using ps_invD(4,5) [OF inv, of c] by (cases "c = ch") (auto simp: h)
  next
    fix rid sid c
    show "map_of (inner (ps_subs ?m') rid) sid = Some c \<longleftrightarrow> c < length (ps_heap ?m')
           \<and> sub_roomID (ps_heap ?m' ! c) = rid \<and> sub_id (ps_heap ?m' ! c) = sid
           \<and> \<not> sub_closed (ps_heap ?m' ! c)"
      using ps_invD(3) [OF inv, of rid sid c] ps_invD(3) [OF inv, of "sub_roomID ?s" "sub_id ?s" ch] True
      unfolding h sb ps_removeSub_inner by (cases "c = ch") (auto split: if_splits)
  qed
qed (use inv in \<open>auto simp: ps_Close_def Let_def\<close>)

lemma ps_inv_recv:
  assumes inv: "ps_inv m"
  shows "ps_inv (snd (ps_recv m ch))"
proof (cases "ch < length (ps_heap m) \<and> sub_buf (ps_heap m ! ch) \<noteq> []")
  case True
  then obtain msg rest where b: "sub_buf (ps_heap m ! ch) = msg # rest"
    by (cases "sub_buf (ps_heap m ! ch)") auto
  let ?c = "(ps_heap m ! ch)\<lparr>sub_buf := rest\<rparr>"
  have h: "snd (ps_recv m ch) = m\<lparr>ps_heap := (ps_heap m)[ch := ?c]\<rparr>"
    using True b by (simp add: ps_recv_def)
  show ?thesis unfolding h
  proof (rule ps_invI)
    fix rid sid c
    show "map_of (inner (ps_subs (m\<lparr>ps_heap := (ps_heap m)[ch := ?c]\<rparr>)) rid) sid = Some c \<longleftrightarrow>
        c < length (ps_heap (m\<lparr>ps_heap := (ps_heap m)[ch := ?c]\<rparr>))
        \<and> sub_roomID (ps_heap (m\<lparr>ps_heap := (ps_heap m)[ch := ?c]\<rparr>) ! c) = rid
        \<and> sub_id (ps_heap (m\<lparr>ps_heap := (ps_heap m)[ch := ?c]\<rparr>) ! c) = sid
        \<and> \<not> sub_closed (ps_heap (m\<lparr>ps_heap := (ps_heap m)[ch := ?c]\<rparr>) ! c)"
      using ps_invD(3) [OF inv, of rid sid c] by (cases "c = ch") auto
  next
    fix c
    assume "c < length (ps_heap (m\<lparr>ps_heap := (ps_heap m)[ch := ?c]\<rparr>))"
    then show "length (sub_buf (ps_heap (m\<lparr>ps_heap := (ps_heap m)[ch := ?c]\<rparr>) ! c))
        \<le> sub_cap (ps_heap (m\<lparr>ps_heap := (ps_heap m)[ch := ?c]\<rparr>) ! c)
        \<and> sub_chClosed (ps_heap (m\<lparr>ps_heap := (ps_heap m)[ch := ?c]\<rparr>) ! c)
          = sub_closed (ps_heap (m\<lparr>ps_heap := (ps_heap m)[ch := ?c]\<rparr>) ! c)"
      using ps_invD(4,5) [OF inv, of c] b by (cases "c = ch") auto
  qed (use ps_invD(1,2) [OF inv] in auto)
next
  case False
  then have "snd (ps_recv m ch) = m"
    by (auto simp: ps_recv_def split: list.split)
  with inv show ?thesis by simp
qed

section \<open>The interface the service relies on\<close>

text \<open>
  A hub keeps one queue of undelivered messages per channel. Publishing never fails, and appends
  the message to the queues of channels of that room only; receiving takes the head of one queue.
\<close>

locale room_pubsub =
  fixes publish :: "'h \<Rightarrow> string \<Rightarrow> ChatMessage \<Rightarrow> 'h option"
    and subscribe :: "genv \<Rightarrow> 'h \<Rightarrow> string \<Rightarrow> int \<Rightarrow> nat \<times> 'h \<times> genv"
    and close :: "'h \<Rightarrow> nat \<Rightarrow> 'h"
    and recv :: "'h \<Rightarrow> nat \<Rightarrow> ChatMessage option option \<times> 'h"
    and room :: "'h \<Rightarrow> nat \<Rightarrow> string option"
    and queue :: "'h \<Rightarrow> nat \<Rightarrow> ChatMessage list"
    and fresh :: "genv \<Rightarrow> 'h \<Rightarrow> string \<Rightarrow> bool"
    and inv :: "'h \<Rightarrow> bool"
  assumes publish: "inv h \<Longrightarrow> \<exists>h'. publish h rid msg = Some h' \<and> inv h' \<and> room h' = room h
      \<and> (\<forall>c. queue h' c = queue h c \<or> room h c = Some rid \<and> queue h' c = queue h c @ [msg])"
    and subscribe: "inv h \<Longrightarrow> fresh g h rid \<Longrightarrow> subscribe g h rid b = (c, h', g') \<Longrightarrow>
      inv h' \<and> room h c = None \<and> room h' = (room h)(c \<mapsto> rid) \<and> queue h' = (queue h)(c := [])"
    and close: "inv h \<Longrightarrow> inv (close h c) \<and> room (close h c) = room h \<and> queue (close h c) = queue h"
    and recv: "inv h \<Longrightarrow> recv h c = (x, h') \<Longrightarrow> inv h' \<and> room h' = room h
      \<and> (case x of Some (Some msg) \<Rightarrow> queue h c = msg # queue h' c \<and> queue h' = (queue h)(c := queue h' c)
         | _ \<Rightarrow> queue h c = [] \<and> h' = h)"
begin

text \<open>Whatever holds of every published message of a room holds of what its channels deliver.\<close>

definition carries :: "(string \<Rightarrow> ChatMessage \<Rightarrow> bool) \<Rightarrow> 'h \<Rightarrow> bool" where
  "carries P h \<longleftrightarrow> (\<forall>c. \<forall>msg \<in> set (queue h c). \<exists>rid. room h c = Some rid \<and> P rid msg)"

lemma carries_publish:
  assumes "inv h" "carries P h" "P rid msg" "publish h rid msg = Some h'"
  shows "inv h' \<and> carries P h'"
  using publish [OF assms(1), of rid msg] assms(2-4) unfolding carries_def
  by (metis (no_types, lifting) in_set_conv_decomp option.inject rotate1.simps(2) set_ConsD set_rotate1)

lemma carries_subscribe:
  assumes "inv h" "carries P h" "fresh g h rid" "subscribe g h rid b = (c, h', g')"
  shows "inv h' \<and> carries P h'"
proof -
  from subscribe [OF assms(1,3,4)] have "inv h'" "room h c = None"
    "room h' = (room h)(c \<mapsto> rid)" "queue h' = (queue h)(c := [])" by auto
  with assms(2) show ?thesis by (auto simp: carries_def)
qed

lemma carries_close: "inv h \<Longrightarrow> carries P h \<Longrightarrow> inv (close h c) \<and> carries P (close h c)"
  using close [of h c] by (simp add: carries_def)

lemma carries_recv:
  assumes "inv h" "carries P h" "recv h c = (x, h')"
  shows "inv h' \<and> carries P h'"
    and "x = Some (Some msg) \<Longrightarrow> \<exists>rid. room h c = Some rid \<and> P rid msg"
proof -
  note r = recv [OF assms(1,3)]
  show "\<exists>rid. room h c = Some rid \<and> P rid msg" if "x = Some (Some msg)"
    using r that assms(2) unfolding carries_def by simp
  have q: "set (queue h' d) \<subseteq> set (queue h d)" for d
    using r by (cases "d = c") (auto split: option.splits, (metis fun_upd_other)+)
  have "inv h'" "room h' = room h" using r by auto
  then show "inv h' \<and> carries P h'" using q assms(2) by (simp add: carries_def) blast
qed

end

definition ps_room :: "MemoryRoomPubSub \<Rightarrow> nat \<Rightarrow> string option" where
  "ps_room m ch = (if ch < length (ps_heap m) then Some (sub_roomID (ps_heap m ! ch)) else None)"

definition ps_queue :: "MemoryRoomPubSub \<Rightarrow> nat \<Rightarrow> ChatMessage list" where
  "ps_queue m ch = (if ch < length (ps_heap m) then sub_buf (ps_heap m ! ch) else [])"

definition ps_fresh :: "genv \<Rightarrow> MemoryRoomPubSub \<Rightarrow> string \<Rightarrow> bool" where
  "ps_fresh g m rid \<longleftrightarrow> map_of (inner (ps_subs m) rid) (fst (id_New g)) = None"

interpretation hub: room_pubsub ps_Publish ps_Subscribe ps_Close ps_recv ps_room ps_queue ps_fresh ps_inv
proof
  fix m rid msg
  assume inv: "ps_inv m"
  then obtain m' where m': "ps_Publish m rid msg = Some m'" "ps_inv m'"
    "length (ps_heap m') = length (ps_heap m)" and
    n: "\<And>ch. ch < length (ps_heap m) \<Longrightarrow> ps_heap m' ! ch =
         (if subscriber m rid ch then offered msg (ps_heap m ! ch) else ps_heap m ! ch)"
    using ps_Publish_effect by blast
  have "ps_room m' = ps_room m"
    using m'(3) n by (auto simp: ps_room_def)
  moreover have "ps_queue m' c = ps_queue m c
      \<or> ps_room m c = Some rid \<and> ps_queue m' c = ps_queue m c @ [msg]" for c
    using m'(3) n [of c] by (auto simp: ps_queue_def ps_room_def subscriber_def offered_def)
  ultimately show "\<exists>h'. ps_Publish m rid msg = Some h' \<and> ps_inv h' \<and> ps_room h' = ps_room m
      \<and> (\<forall>c. ps_queue h' c = ps_queue m c \<or> ps_room m c = Some rid \<and> ps_queue h' c = ps_queue m c @ [msg])"
    using m' by blast
next
  fix m g rid b c m' g'
  assume inv: "ps_inv m" and fresh: "ps_fresh g m rid" and run: "ps_Subscribe g m rid b = (c, m', g')"
  note e = ps_inv_Subscribe [OF inv fresh [unfolded ps_fresh_def] run]
  have "ps_room m' = (ps_room m)(c \<mapsto> rid)" "ps_queue m' = (ps_queue m)(c := [])"
    using e by (auto simp: ps_room_def ps_queue_def subscriber_def less_Suc_eq)
  then show "ps_inv m' \<and> ps_room m c = None \<and> ps_room m' = (ps_room m)(c \<mapsto> rid)
      \<and> ps_queue m' = (ps_queue m)(c := [])"
    using e by (simp add: ps_room_def)
next
  fix m c
  assume inv: "ps_inv m"
  have "ps_room (ps_Close m c) = ps_room m" "ps_queue (ps_Close m c) = ps_queue m"
    by (cases "c < length (ps_heap m) \<and> \<not> sub_closed (ps_heap m ! c)",
        auto simp: ps_room_def ps_queue_def ps_Close_run ps_Close_noop nth_list_update)+
  then show "ps_inv (ps_Close m c) \<and> ps_room (ps_Close m c) = ps_room m
      \<and> ps_queue (ps_Close m c) = ps_queue m"
    using ps_inv_Close [OF inv] by simp
next
  fix m c x m'
  assume inv: "ps_inv m" and run: "ps_recv m c = (x, m')"
  have "ps_room m' = ps_room m"
    using run by (auto simp: ps_recv_def ps_room_def nth_list_update split: if_splits list.splits)
  moreover have "case x of Some (Some msg) \<Rightarrow> ps_queue m c = msg # ps_queue m' c
        \<and> ps_queue m' = (ps_queue m)(c := ps_queue m' c) | _ \<Rightarrow> ps_queue m c = [] \<and> m' = m"
    using run by (auto simp: ps_recv_def ps_queue_def nth_list_update fun_eq_iff split: if_splits list.splits)
  ultimately show "ps_inv m' \<and> ps_room m' = ps_room m
      \<and> (case x of Some (Some msg) \<Rightarrow> ps_queue m c = msg # ps_queue m' c
        \<and> ps_queue m' = (ps_queue m)(c := ps_queue m' c) | _ \<Rightarrow> ps_queue m c = [] \<and> m' = m)"
    using ps_inv_recv [OF inv, of c] run by simp
qed

end
