(* ===== verification/Repository.thy ===== *)
theory Repository
  imports Ids
begin

text \<open>
  Package \<^verbatim>\<open>internal/repository\<close>: the interfaces \<^verbatim>\<open>TxRunner\<close> and \<^verbatim>\<open>ChatRepository\<close>. As in the code, an
  implementation is a value the service is given: a record of the operations over the
  implementation's own state \<open>'s\<close>. What an implementation promises is stated against an abstract
  store \<open>astore\<close> of finite maps: the \<open>spec_\<close> functions give the effect of every writing operation,
  the locale \<open>chat_repository\<close> says that an implementation refines them and what its reads return.
\<close>

section \<open>The interface\<close>

record 's ChatRepository =
  rp_rollback :: "'s \<Rightarrow> 's \<Rightarrow> 's"
  rp_CreateRoom :: "'s \<Rightarrow> ChatRoom \<Rightarrow> (error + unit) \<times> 's"
  rp_GetRoom :: "'s \<Rightarrow> string \<Rightarrow> error + ChatRoom"
  rp_GetActiveBoardLinkedRoom :: "'s \<Rightarrow> string \<Rightarrow> error + ChatRoom"
  rp_UpdateRoom :: "'s \<Rightarrow> ChatRoom \<Rightarrow> (error + unit) \<times> 's"
  rp_ListRoomsByUser :: "'s \<Rightarrow> string \<Rightarrow> int \<Rightarrow> string \<Rightarrow> error + (ChatRoomSummary list \<times> string)"
  rp_GetMember :: "'s \<Rightarrow> string \<Rightarrow> string \<Rightarrow> error + ChatRoomMember"
  rp_CreateMember :: "'s \<Rightarrow> ChatRoomMember \<Rightarrow> (error + unit) \<times> 's"
  rp_UpdateMember :: "'s \<Rightarrow> ChatRoomMember \<Rightarrow> (error + unit) \<times> 's"
  rp_ListActiveMembersByJoinOrder :: "'s \<Rightarrow> string \<Rightarrow> error + ChatRoomMember list"
  rp_CreateMessageWithNextSequence :: "'s \<Rightarrow> ChatMessage \<Rightarrow> (error + ChatMessage) \<times> 's"
  rp_GetMessage :: "'s \<Rightarrow> string \<Rightarrow> string \<Rightarrow> error + ChatMessage"
  rp_UpdateMessage :: "'s \<Rightarrow> ChatMessage \<Rightarrow> (error + unit) \<times> 's"
  rp_ListMessagesBefore :: "'s \<Rightarrow> string \<Rightarrow> int \<Rightarrow> int \<Rightarrow> error + (ChatMessage list \<times> int)"
  rp_ListMessagesAfter :: "'s \<Rightarrow> string \<Rightarrow> int \<Rightarrow> int \<Rightarrow> error + ChatMessage list"
  rp_UpsertDeviceToken :: "'s \<Rightarrow> DeviceToken \<Rightarrow> (error + DeviceToken) \<times> 's"
  rp_DeactivateDeviceToken :: "'s \<Rightarrow> string \<Rightarrow> string \<Rightarrow> time \<Rightarrow> (error + unit) \<times> 's"
  rp_ListActiveDeviceTokensByUserIDs :: "'s \<Rightarrow> string list \<Rightarrow> error + DeviceToken list"

text \<open>
  \<^verbatim>\<open>WithTx\<close>: run the body; when it fails, the store is what the implementation's rollback makes of
  the state before and the state at the failure. The store is one part of the state \<open>'w\<close> the body
  works on, read by \<open>get\<close> and written by \<open>put\<close>.
\<close>

definition WithTx ::
  "'s ChatRepository \<Rightarrow> ('w \<Rightarrow> 's) \<Rightarrow> ('s \<Rightarrow> 'w \<Rightarrow> 'w) \<Rightarrow> ('w, error, 'a) prog \<Rightarrow> ('w, error, 'a) prog" where
  "WithTx R get put fn w =
    (case fn w of
       (Inl e, w') \<Rightarrow> (Inl e, put (rp_rollback R (get w) (get w')) w')
     | (Inr x, w') \<Rightarrow> (Inr x, w'))"

section \<open>The abstract store\<close>

record astore =
  a_rooms :: "string \<rightharpoonup> ChatRoom"
  a_members :: "string \<Rightarrow> string \<rightharpoonup> ChatRoomMember"
  a_messages :: "string \<Rightarrow> string \<rightharpoonup> ChatMessage"
  a_maxSeq :: "string \<Rightarrow> int"
  a_devices :: "string \<Rightarrow> string \<rightharpoonup> DeviceToken"

definition lookup_or :: "error \<Rightarrow> 'a option \<Rightarrow> error + 'a" where
  "lookup_or e x = (case x of None \<Rightarrow> Inl e | Some v \<Rightarrow> Inr v)"

lemma lookup_or_simps [simp]: "lookup_or e None = Inl e" "lookup_or e (Some v) = Inr v"
  by (simp_all add: lookup_or_def)

lemma lookup_or_eq [simp]:
  "lookup_or e x = Inr v \<longleftrightarrow> x = Some v" "lookup_or e x = Inl e' \<longleftrightarrow> x = None \<and> e' = e"
  by (auto simp: lookup_or_def split: option.split)

definition spec_CreateRoom :: "ChatRoom \<Rightarrow> astore \<Rightarrow> (error + unit) \<times> astore" where
  "spec_CreateRoom r a =
    (if a_rooms a (rm_ID r) \<noteq> None then (Inl ErrAlreadyExists, a)
     else if board_room (rm_LinkedBoardID r) r \<and> rm_LinkedBoardID r \<noteq> []
             \<and> (\<exists>r' \<in> ran (a_rooms a). board_room (rm_LinkedBoardID r) r')
     then (Inl ErrAlreadyExists, a)
     else (Inr (), a\<lparr>a_rooms := (a_rooms a)(rm_ID r \<mapsto> r)\<rparr>))"

definition spec_UpdateRoom :: "ChatRoom \<Rightarrow> astore \<Rightarrow> (error + unit) \<times> astore" where
  "spec_UpdateRoom r a =
    (if a_rooms a (rm_ID r) = None then (Inl ErrNotFound, a)
     else (Inr (), a\<lparr>a_rooms := (a_rooms a)(rm_ID r \<mapsto> r)\<rparr>))"

definition put_member :: "ChatRoomMember \<Rightarrow> astore \<Rightarrow> astore" where
  "put_member m a =
    a\<lparr>a_members := (a_members a)(mb_RoomID m := (a_members a (mb_RoomID m))(mb_UserID m \<mapsto> m))\<rparr>"

definition spec_CreateMember :: "ChatRoomMember \<Rightarrow> astore \<Rightarrow> (error + unit) \<times> astore" where
  "spec_CreateMember m a =
    (if a_members a (mb_RoomID m) (mb_UserID m) \<noteq> None then (Inl ErrAlreadyExists, a)
     else (Inr (), put_member m a))"

definition spec_UpdateMember :: "ChatRoomMember \<Rightarrow> astore \<Rightarrow> (error + unit) \<times> astore" where
  "spec_UpdateMember m a =
    (if a_members a (mb_RoomID m) (mb_UserID m) = None then (Inl ErrNotFound, a)
     else (Inr (), put_member m a))"

definition put_message :: "ChatMessage \<Rightarrow> astore \<Rightarrow> astore" where
  "put_message m a =
    a\<lparr>a_messages := (a_messages a)(mg_RoomID m := (a_messages a (mg_RoomID m))(mg_ID m \<mapsto> m))\<rparr>"

definition spec_CreateMessage :: "ChatMessage \<Rightarrow> astore \<Rightarrow> (error + ChatMessage) \<times> astore" where
  "spec_CreateMessage m a =
    (if a_rooms a (mg_RoomID m) = None then (Inl ErrNotFound, a)
     else (let n = a_maxSeq a (mg_RoomID m) + 1; m' = m\<lparr>mg_SequenceNo := n\<rparr>
           in (Inr m', (put_message m' a)\<lparr>a_maxSeq := (a_maxSeq a)(mg_RoomID m := n)\<rparr>)))"

definition spec_UpdateMessage :: "ChatMessage \<Rightarrow> astore \<Rightarrow> (error + unit) \<times> astore" where
  "spec_UpdateMessage m a =
    (if a_messages a (mg_RoomID m) (mg_ID m) = None then (Inl ErrNotFound, a)
     else (Inr (), put_message m a))"

text \<open>Registering a token takes it away from every other device.\<close>

definition release_token :: "DeviceToken \<Rightarrow> string \<Rightarrow> string \<Rightarrow> DeviceToken \<Rightarrow> DeviceToken" where
  "release_token t u d x =
    (if dt_Token x \<noteq> dt_Token t \<or> (u = dt_UserID t \<and> d = dt_DeviceID t) then x
     else x\<lparr>dt_IsActive := False, dt_UpdatedAt := dt_UpdatedAt t,
            dt_UnregisteredAt := Some (dt_UpdatedAt t)\<rparr>)"

definition spec_UpsertDeviceToken :: "DeviceToken \<Rightarrow> astore \<Rightarrow> (error + DeviceToken) \<times> astore" where
  "spec_UpsertDeviceToken t a =
    (let t' = t\<lparr>dt_CreatedAt := (case a_devices a (dt_UserID t) (dt_DeviceID t) of
                   Some x \<Rightarrow> (if dt_CreatedAt x \<noteq> time_zero then dt_CreatedAt x else dt_CreatedAt t)
                 | None \<Rightarrow> dt_CreatedAt t),
                dt_IsActive := True, dt_UnregisteredAt := None\<rparr>;
         ds = (\<lambda>u d. map_option (release_token t u d) (a_devices a u d))
     in (Inr t', a\<lparr>a_devices := ds(dt_UserID t := (ds (dt_UserID t))(dt_DeviceID t \<mapsto> t'))\<rparr>))"

definition spec_DeactivateDeviceToken :: "string \<Rightarrow> string \<Rightarrow> time \<Rightarrow> astore \<Rightarrow> (error + unit) \<times> astore" where
  "spec_DeactivateDeviceToken u d now a =
    (Inr (), a\<lparr>a_devices := (a_devices a)(u := (a_devices a u)(d := map_option
       (\<lambda>x. x\<lparr>dt_IsActive := False, dt_UpdatedAt := now, dt_UnregisteredAt := Some now\<rparr>)
       (a_devices a u d)))\<rparr>)"

section \<open>What the reads return\<close>

definition join_key :: "ChatRoomMember \<Rightarrow> time \<times> string" where
  "join_key m = (mb_JoinedAt m, mb_ID m)"

definition active_members :: "astore \<Rightarrow> string \<Rightarrow> ChatRoomMember set" where
  "active_members a rid = {m \<in> ran (a_members a rid). mb_Status m = MemberStatusActive}"

definition older_messages :: "astore \<Rightarrow> string \<Rightarrow> int \<Rightarrow> ChatMessage set" where
  "older_messages a rid before =
     {m \<in> ran (a_messages a rid). 0 < before \<longrightarrow> mg_SequenceNo m < before}"

definition newer_messages :: "astore \<Rightarrow> string \<Rightarrow> int \<Rightarrow> ChatMessage set" where
  "newer_messages a rid after = {m \<in> ran (a_messages a rid). after < mg_SequenceNo m}"

text \<open>\<open>xs\<close> lists exactly \<open>M\<close>, ordered by \<open>key\<close>.\<close>

definition lists_sorted :: "('a \<Rightarrow> 'k::linorder) \<Rightarrow> 'a set \<Rightarrow> 'a list \<Rightarrow> bool" where
  "lists_sorted key M xs \<longleftrightarrow> distinct xs \<and> set xs = M \<and> sorted (map key xs)"

definition page_limit :: "int \<Rightarrow> int \<Rightarrow> nat" where
  "page_limit dflt limit = nat (if limit \<le> 0 then dflt else limit)"

definition fresh_message_id :: "astore \<Rightarrow> string \<Rightarrow> bool" where
  "fresh_message_id a i \<longleftrightarrow> (\<forall>rid. a_messages a rid i = None)"

text \<open>
  The contract, in three parts. Reads and writes of rooms and members; of messages; of device
  tokens. A failed transaction leaves the store as it was before or as it is at the failure.
  \<open>inv\<close> is the implementation's own representation invariant. Sequence numbers are
  assigned by the repository, one above the room's highest, as long as the \<^verbatim>\<open>int64\<close> range lasts
  and the message identifier is new.
\<close>

locale member_repository =
  fixes R :: "'s ChatRepository" and abs :: "'s \<Rightarrow> astore" and inv :: "'s \<Rightarrow> bool"
  assumes rollback: "rp_rollback R s s' = s \<or> rp_rollback R s s' = s'"
    and CreateRoom: "inv s \<Longrightarrow> rp_CreateRoom R s r = (x, s') \<Longrightarrow>
      inv s' \<and> spec_CreateRoom r (abs s) = (x, abs s')"
    and UpdateRoom: "inv s \<Longrightarrow> rp_UpdateRoom R s r = (x, s') \<Longrightarrow>
      inv s' \<and> spec_UpdateRoom r (abs s) = (x, abs s')"
    and CreateMember: "inv s \<Longrightarrow> rp_CreateMember R s m = (x, s') \<Longrightarrow>
      inv s' \<and> spec_CreateMember m (abs s) = (x, abs s')"
    and UpdateMember: "inv s \<Longrightarrow> rp_UpdateMember R s m = (x, s') \<Longrightarrow>
      inv s' \<and> spec_UpdateMember m (abs s) = (x, abs s')"
    and GetRoom: "inv s \<Longrightarrow> rp_GetRoom R s rid = lookup_or ErrNotFound (a_rooms (abs s) rid)"
    and room_key: "inv s \<Longrightarrow> a_rooms (abs s) rid = Some r \<Longrightarrow> rm_ID r = rid"
    and GetMember: "inv s \<Longrightarrow>
      rp_GetMember R s rid uid = lookup_or ErrNotFound (a_members (abs s) rid uid)"
    and member_key: "inv s \<Longrightarrow> a_members (abs s) rid uid = Some m \<Longrightarrow>
      mb_RoomID m = rid \<and> mb_UserID m = uid"
    and GetActiveBoardLinkedRoom_found: "inv s \<Longrightarrow> rp_GetActiveBoardLinkedRoom R s b = Inr r \<Longrightarrow>
      r \<in> ran (a_rooms (abs s)) \<and> board_room b r"
    and GetActiveBoardLinkedRoom_none: "inv s \<Longrightarrow> rp_GetActiveBoardLinkedRoom R s b = Inl e \<Longrightarrow>
      e = ErrNotFound \<and> (\<forall>r \<in> ran (a_rooms (abs s)). \<not> board_room b r)"
    and ListActiveMembersByJoinOrder: "inv s \<Longrightarrow>
      \<exists>ms. rp_ListActiveMembersByJoinOrder R s rid = Inr ms
         \<and> lists_sorted join_key (active_members (abs s) rid) ms"

locale message_repository =
  fixes R :: "'s ChatRepository" and abs :: "'s \<Rightarrow> astore" and inv :: "'s \<Rightarrow> bool"
  assumes CreateMessageWithNextSequence: "inv s \<Longrightarrow> fresh_message_id (abs s) (mg_ID m) \<Longrightarrow>
      int64_range (a_maxSeq (abs s) (mg_RoomID m) + 1) \<Longrightarrow>
      rp_CreateMessageWithNextSequence R s m = (x, s') \<Longrightarrow>
      inv s' \<and> spec_CreateMessage m (abs s) = (x, abs s')"
    and UpdateMessage: "inv s \<Longrightarrow> rp_UpdateMessage R s m = (y, s') \<Longrightarrow>
      inv s' \<and> spec_UpdateMessage m (abs s) = (y, abs s')"
    and GetMessage: "inv s \<Longrightarrow>
      rp_GetMessage R s rid i = lookup_or ErrNotFound (a_messages (abs s) rid i)"
    and message_key: "inv s \<Longrightarrow> a_messages (abs s) rid i = Some m \<Longrightarrow> mg_RoomID m = rid \<and> mg_ID m = i"
    and ListMessagesBefore: "inv s \<Longrightarrow>
      \<exists>all next. rp_ListMessagesBefore R s rid before limit = Inr (take (page_limit 50 limit) all, next)
        \<and> lists_sorted (\<lambda>m. - mg_SequenceNo m) (older_messages (abs s) rid before) all
        \<and> (next = 0 \<and> length all \<le> page_limit 50 limit
         \<or> page_limit 50 limit \<le> length all \<and> next = mg_SequenceNo (all ! (page_limit 50 limit - 1)))"
    and ListMessagesAfter: "inv s \<Longrightarrow>
      \<exists>all. rp_ListMessagesAfter R s rid after limit = Inr (take (page_limit 100 limit) all)
        \<and> lists_sorted mg_SequenceNo (newer_messages (abs s) rid after) all"

locale device_repository =
  fixes R :: "'s ChatRepository" and abs :: "'s \<Rightarrow> astore" and inv :: "'s \<Rightarrow> bool"
  assumes UpsertDeviceToken: "inv s \<Longrightarrow> rp_UpsertDeviceToken R s t = (x, s') \<Longrightarrow>
      inv s' \<and> spec_UpsertDeviceToken t (abs s) = (x, abs s')"
    and DeactivateDeviceToken: "inv s \<Longrightarrow> rp_DeactivateDeviceToken R s u d now = (y, s') \<Longrightarrow>
      inv s' \<and> spec_DeactivateDeviceToken u d now (abs s) = (y, abs s')"
    and device_key: "inv s \<Longrightarrow> a_devices (abs s) u d = Some t \<Longrightarrow> dt_UserID t = u \<and> dt_DeviceID t = d"
    and ListActiveDeviceTokens: "inv s \<Longrightarrow> distinct us \<Longrightarrow>
      \<exists>ts. rp_ListActiveDeviceTokensByUserIDs R s us = Inr ts
        \<and> lists_sorted (\<lambda>t. (dt_UserID t, dt_DeviceID t))
            {t. \<exists>u \<in> set us. t \<in> ran (a_devices (abs s) u) \<and> dt_IsActive t \<and> TrimSpace (dt_Token t) \<noteq> []} ts"

locale chat_repository = member_repository R abs inv + message_repository R abs inv
  + device_repository R abs inv
  for R :: "'s ChatRepository" and abs :: "'s \<Rightarrow> astore" and inv :: "'s \<Rightarrow> bool"

context member_repository
begin

lemma inv_rollback: "inv s \<Longrightarrow> inv s' \<Longrightarrow> inv (rp_rollback R s s')"
  using rollback [of s s'] by metis

lemma abs_rollback: "abs s' = abs s \<Longrightarrow> abs (rp_rollback R s s') = abs s"
  using rollback [of s s'] by metis

end

end
