(* ===== verification/ServiceCore.thy ===== *)
theory ServiceCore
  imports PubSub Repository
begin

text \<open>
  The state and the primitives of \<^verbatim>\<open>internal/service\<close>. A \<open>ChatService\<close> holds what the Go struct
  holds: the repository (which is also the transaction runner), the optional push sender and
  signers, and the trusted bucket. A \<open>world\<close> is what a request works on: the store, the pub/sub
  hub, the push messages handed to the sender so far, and the environment (clock and entropy).
  A request is one program over the world; requests run one after the other.

  The context at the end gives the weakest preconditions of the repository calls in terms of the
  abstract store, for every implementation of \<open>chat_repository\<close>.
\<close>

named_theorems svc_simps \<open>definitions of the service operations\<close>

section \<open>State\<close>

record push_Message =
  pu_Token :: string
  pu_Title :: string
  pu_Body :: string
  pu_Data :: "(string, string) gomap"

record AttachmentUpload =
  au_ObjectName :: string
  au_UploadURL :: string
  au_FileURL :: string
  au_ExpiresAt :: time

record ImageUpload =
  iu_ObjectName :: string
  iu_UploadURL :: string
  iu_ImageURL :: string
  iu_ExpiresAt :: time

record AttachmentRead =
  ar_ObjectName :: string
  ar_ReadURL :: string
  ar_ExpiresAt :: time

text \<open>The three collaborators. A sender's outcome is ignored by the service, only the call counts.\<close>

type_synonym Sender = "push_Message \<Rightarrow> error option"
type_synonym AttachmentUploadSigner =
  "string \<Rightarrow> string \<Rightarrow> string \<Rightarrow> string \<Rightarrow> (genv, error, AttachmentUpload) prog"
type_synonym ImageUploadSigner =
  "string \<Rightarrow> string \<Rightarrow> string \<Rightarrow> string \<Rightarrow> (genv, error, ImageUpload) prog"
type_synonym AttachmentReadURLSigner = "string \<Rightarrow> (genv, error, AttachmentRead) prog"

record 's ChatService =
  cs_repo :: "'s ChatRepository"
  cs_pushSender :: "Sender option"
  cs_attachmentUploadSigner :: "AttachmentUploadSigner option"
  cs_attachmentReadSigner :: "AttachmentReadURLSigner option"
  cs_trustedAttachmentBucket :: string

record 's world =
  w_db :: 's
  w_ps :: MemoryRoomPubSub
  w_push :: "push_Message list"
  w_env :: genv

section \<open>Construction\<close>

definition service_New :: "'s ChatRepository \<Rightarrow> ('s ChatService \<Rightarrow> 's ChatService) list \<Rightarrow> 's ChatService" where
  "service_New R opts = foldl (\<lambda>svc opt. opt svc)
     \<lparr>cs_repo = R, cs_pushSender = None, cs_attachmentUploadSigner = None,
      cs_attachmentReadSigner = None, cs_trustedAttachmentBucket = []\<rparr> opts"

definition WithAttachmentUploadSigner :: "AttachmentUploadSigner \<Rightarrow> 's ChatService \<Rightarrow> 's ChatService" where
  "WithAttachmentUploadSigner signer s = s\<lparr>cs_attachmentUploadSigner := Some signer\<rparr>"

definition WithAttachmentReadSigner :: "AttachmentReadURLSigner \<Rightarrow> 's ChatService \<Rightarrow> 's ChatService" where
  "WithAttachmentReadSigner signer s = s\<lparr>cs_attachmentReadSigner := Some signer\<rparr>"

definition WithTrustedAttachmentBucket :: "string \<Rightarrow> 's ChatService \<Rightarrow> 's ChatService" where
  "WithTrustedAttachmentBucket bucket s = s\<lparr>cs_trustedAttachmentBucket := TrimSpace bucket\<rparr>"

definition WithPushSender :: "Sender \<Rightarrow> 's ChatService \<Rightarrow> 's ChatService" where
  "WithPushSender sender s = s\<lparr>cs_pushSender := Some sender\<rparr>"

definition imageSignerAdapter :: "ImageUploadSigner \<Rightarrow> AttachmentUploadSigner" where
  "imageSignerAdapter signer roomID userID fileName contentType =
    bindP (signer roomID userID fileName contentType) (\<lambda>out.
    ok \<lparr>au_ObjectName = iu_ObjectName out, au_UploadURL = iu_UploadURL out,
        au_FileURL = iu_ImageURL out, au_ExpiresAt = iu_ExpiresAt out\<rparr>)"

definition WithImageUploadSigner :: "ImageUploadSigner \<Rightarrow> 's ChatService \<Rightarrow> 's ChatService" where
  "WithImageUploadSigner signer s = s\<lparr>cs_attachmentUploadSigner := Some (imageSignerAdapter signer)\<rparr>"

section \<open>Primitives\<close>

definition env :: "(genv \<Rightarrow> 'a \<times> genv) \<Rightarrow> ('s world, error, 'a) prog" where
  "env f w = (let (x, g) = f (w_env w) in (Inr x, w\<lparr>w_env := g\<rparr>))"

definition view :: "('s \<Rightarrow> error + 'a) \<Rightarrow> ('s world, error, 'a) prog" where
  "view f w = (f (w_db w), w)"

definition db :: "('s \<Rightarrow> (error + 'a) \<times> 's) \<Rightarrow> ('s world, error, 'a) prog" where
  "db f w = (let (r, s) = f (w_db w) in (r, w\<lparr>w_db := s\<rparr>))"

definition on_env :: "(genv, error, 'a) prog \<Rightarrow> ('s world, error, 'a) prog" where
  "on_env m w = (let (r, g) = m (w_env w) in (r, w\<lparr>w_env := g\<rparr>))"

definition tx :: "'s ChatService \<Rightarrow> ('s world, error, 'a) prog \<Rightarrow> ('s world, error, 'a) prog" where
  "tx svc = WithTx (cs_repo svc) w_db (\<lambda>s w. w\<lparr>w_db := s\<rparr>)"

lemma wp_env [simp]:
  "wp (env f) E Q w \<longleftrightarrow> Q (fst (f (w_env w))) (w\<lparr>w_env := snd (f (w_env w))\<rparr>)"
  by (simp add: wp_def env_def split: prod.split)

lemma wp_view [simp]:
  "wp (view f) E Q w \<longleftrightarrow> (case f (w_db w) of Inl e \<Rightarrow> E e w | Inr x \<Rightarrow> Q x w)"
  by (simp add: wp_def view_def split: sum.split)

lemma wp_db [simp]:
  "wp (db f) E Q w \<longleftrightarrow> (case fst (f (w_db w)) of
       Inl e \<Rightarrow> E e (w\<lparr>w_db := snd (f (w_db w))\<rparr>) | Inr x \<Rightarrow> Q x (w\<lparr>w_db := snd (f (w_db w))\<rparr>))"
  by (simp add: wp_def db_def split: prod.split sum.split)

lemma wp_on_env [simp]:
  "wp (on_env m) E Q w \<longleftrightarrow>
     wp m (\<lambda>e g. E e (w\<lparr>w_env := g\<rparr>)) (\<lambda>x g. Q x (w\<lparr>w_env := g\<rparr>)) (w_env w)"
  by (simp add: wp_def on_env_def split: prod.split sum.split)

lemma wp_tx [simp]:
  "wp (tx svc m) E Q w \<longleftrightarrow>
     wp m (\<lambda>e w'. E e (w'\<lparr>w_db := rp_rollback (cs_repo svc) (w_db w) (w_db w')\<rparr>)) Q w"
  by (simp add: wp_def tx_def WithTx_def split: prod.split sum.split)

section \<open>Shared guards\<close>

text \<open>The room must be open and the user must have a member record, of whatever status.\<close>

definition validateActiveMembership ::
  "'s ChatService \<Rightarrow> string \<Rightarrow> string \<Rightarrow> ('s world, error, ChatRoom \<times> ChatRoomMember) prog" where
  "validateActiveMembership svc roomID userID =
    bindP (view (\<lambda>s. rp_GetRoom (cs_repo svc) s roomID)) (\<lambda>room.
    if \<not> rm_IsActive room \<or> rm_DeletedAt room \<noteq> None then fail ErrRoomInactive
    else bindP (view (\<lambda>s. rp_GetMember (cs_repo svc) s roomID userID)) (\<lambda>member.
    ok (room, member)))"

definition new_member :: "string \<Rightarrow> string \<Rightarrow> string \<Rightarrow> MemberRole \<Rightarrow> time \<Rightarrow> ChatRoomMember" where
  "new_member i roomID userID role now = \<lparr>mb_ID = i, mb_RoomID = roomID, mb_UserID = userID,
     mb_Role = role, mb_Status = MemberStatusActive, mb_JoinedAt = now, mb_LeftAt = None,
     mb_RemovedAt = None, mb_RemovedByUserID = [], mb_LastReadSequenceNo = 0, mb_LastReadAt = None,
     mb_CreatedAt = now, mb_UpdatedAt = now\<rparr>"

definition rejoined :: "time \<Rightarrow> ChatRoomMember \<Rightarrow> ChatRoomMember" where
  "rejoined now m = m\<lparr>mb_Status := MemberStatusActive, mb_LeftAt := None, mb_JoinedAt := now,
     mb_UpdatedAt := now\<rparr>"

definition ensureActiveMember ::
  "'s ChatService \<Rightarrow> string \<Rightarrow> string \<Rightarrow> time \<Rightarrow> ('s world, error, ChatRoomMember) prog" where
  "ensureActiveMember svc roomID userID now =
    (let create = bindP (env id_New) (\<lambda>i.
           let newMember = new_member i roomID userID MemberRoleMember now in
           bindP (attempt (db (\<lambda>s. rp_CreateMember (cs_repo svc) s newMember))) (\<lambda>r.
           case r of
             Inl err \<Rightarrow> (if err = ErrAlreadyExists
                         then view (\<lambda>s. rp_GetMember (cs_repo svc) s roomID userID) else fail err)
           | Inr _ \<Rightarrow> ok newMember))
     in bindP (attempt (view (\<lambda>s. rp_GetMember (cs_repo svc) s roomID userID))) (\<lambda>r.
        case r of
          Inl err \<Rightarrow> (if err \<noteq> ErrNotFound then fail err else create)
        | Inr m \<Rightarrow>
           (case mb_Status m of
              MemberStatusRemoved \<Rightarrow> fail ErrRemovedCannotRejoin
            | MemberStatusActive \<Rightarrow> ok m
            | MemberStatusLeft \<Rightarrow>
                bindP (db (\<lambda>s. rp_UpdateMember (cs_repo svc) s (rejoined now m))) (\<lambda>_. ok (rejoined now m))
            | MemberStatusOther _ \<Rightarrow> create)))"

definition ensurePassiveMember ::
  "'s ChatService \<Rightarrow> string \<Rightarrow> string \<Rightarrow> string \<Rightarrow> time \<Rightarrow> ('s world, error, unit) prog" where
  "ensurePassiveMember svc roomID userID0 enteringUserID now =
    (let userID = TrimSpace userID0 in
     if userID = [] \<or> userID = enteringUserID then ok ()
     else bindP (attempt (view (\<lambda>s. rp_GetMember (cs_repo svc) s roomID userID))) (\<lambda>r.
       case r of
         Inr _ \<Rightarrow> ok ()
       | Inl err \<Rightarrow>
          if err \<noteq> ErrNotFound then fail err
          else bindP (env id_New) (\<lambda>i.
            bindP (attempt (db (\<lambda>s. rp_CreateMember (cs_repo svc) s
                     (new_member i roomID userID MemberRoleMember now)))) (\<lambda>r.
            case r of
              Inl err \<Rightarrow> (if err \<noteq> ErrAlreadyExists then fail err else ok ())
            | Inr _ \<Rightarrow> ok ()))))"

lemma new_member_sel [simp]:
  "mb_ID (new_member i rid u role now) = i" "mb_RoomID (new_member i rid u role now) = rid"
  "mb_UserID (new_member i rid u role now) = u" "mb_Role (new_member i rid u role now) = role"
  "mb_Status (new_member i rid u role now) = MemberStatusActive"
  "mb_JoinedAt (new_member i rid u role now) = now" "mb_LeftAt (new_member i rid u role now) = None"
  "mb_RemovedAt (new_member i rid u role now) = None"
  "mb_LastReadSequenceNo (new_member i rid u role now) = 0"
  by (simp_all add: new_member_def)

lemma rejoined_sel [simp]:
  "mb_ID (rejoined now m) = mb_ID m" "mb_RoomID (rejoined now m) = mb_RoomID m"
  "mb_UserID (rejoined now m) = mb_UserID m" "mb_Role (rejoined now m) = mb_Role m"
  "mb_Status (rejoined now m) = MemberStatusActive" "mb_JoinedAt (rejoined now m) = now"
  "mb_LeftAt (rejoined now m) = None" "mb_RemovedAt (rejoined now m) = mb_RemovedAt m"
  "mb_LastReadSequenceNo (rejoined now m) = mb_LastReadSequenceNo m"
  by (simp_all add: rejoined_def)

section \<open>Repository calls against the abstract store\<close>

context chat_repository
begin

lemma write_run [simp]:
  assumes "inv s"
  shows "inv (snd (rp_CreateRoom R s r))" "abs (snd (rp_CreateRoom R s r)) = snd (spec_CreateRoom r (abs s))"
    "fst (rp_CreateRoom R s r) = fst (spec_CreateRoom r (abs s))"
    "inv (snd (rp_UpdateRoom R s r))" "abs (snd (rp_UpdateRoom R s r)) = snd (spec_UpdateRoom r (abs s))"
    "fst (rp_UpdateRoom R s r) = fst (spec_UpdateRoom r (abs s))"
    "inv (snd (rp_CreateMember R s m))" "abs (snd (rp_CreateMember R s m)) = snd (spec_CreateMember m (abs s))"
    "fst (rp_CreateMember R s m) = fst (spec_CreateMember m (abs s))"
    "inv (snd (rp_UpdateMember R s m))" "abs (snd (rp_UpdateMember R s m)) = snd (spec_UpdateMember m (abs s))"
    "fst (rp_UpdateMember R s m) = fst (spec_UpdateMember m (abs s))"
    "inv (snd (rp_UpdateMessage R s msg))"
    "abs (snd (rp_UpdateMessage R s msg)) = snd (spec_UpdateMessage msg (abs s))"
    "fst (rp_UpdateMessage R s msg) = fst (spec_UpdateMessage msg (abs s))"
    "inv (snd (rp_UpsertDeviceToken R s t))"
    "abs (snd (rp_UpsertDeviceToken R s t)) = snd (spec_UpsertDeviceToken t (abs s))"
    "fst (rp_UpsertDeviceToken R s t) = fst (spec_UpsertDeviceToken t (abs s))"
    "inv (snd (rp_DeactivateDeviceToken R s u d now))"
    "abs (snd (rp_DeactivateDeviceToken R s u d now)) = snd (spec_DeactivateDeviceToken u d now (abs s))"
    "fst (rp_DeactivateDeviceToken R s u d now) = fst (spec_DeactivateDeviceToken u d now (abs s))"
  using CreateRoom [OF assms, of r] UpdateRoom [OF assms, of r] CreateMember [OF assms, of m]
    UpdateMember [OF assms, of m] UpdateMessage [OF assms, of msg] UpsertDeviceToken [OF assms, of t]
    DeactivateDeviceToken [OF assms, of u d now]
  by (metis fst_conv snd_conv prod.collapse)+

lemma create_message_run [simp]:
  assumes "inv s" "fresh_message_id (abs s) (mg_ID m)" "int64_range (a_maxSeq (abs s) (mg_RoomID m) + 1)"
  shows "inv (snd (rp_CreateMessageWithNextSequence R s m))"
    "abs (snd (rp_CreateMessageWithNextSequence R s m)) = snd (spec_CreateMessage m (abs s))"
    "fst (rp_CreateMessageWithNextSequence R s m) = fst (spec_CreateMessage m (abs s))"
  using CreateMessageWithNextSequence [OF assms] by (metis fst_conv snd_conv prod.collapse)+

definition active_list :: "'s \<Rightarrow> string \<Rightarrow> ChatRoomMember list" where
  "active_list s rid = projr (rp_ListActiveMembersByJoinOrder R s rid)"

lemma active_list:
  assumes "inv s"
  shows "rp_ListActiveMembersByJoinOrder R s rid = Inr (active_list s rid)"
    and "lists_sorted join_key (active_members (abs s) rid) (active_list s rid)"
  using ListActiveMembersByJoinOrder [OF assms, of rid] by (auto simp: active_list_def)

lemmas read_run [simp] = GetRoom GetMember GetMessage active_list(1)

end

end
