(* ===== verification/GoUrl.thy ===== *)
theory GoUrl
  imports GoStrings
begin

text \<open>
  The part of the Go standard library's \<^verbatim>\<open>net/url\<close> that the service uses: \<^verbatim>\<open>url.Parse\<close> with the
  resulting scheme, host and path, and \<^verbatim>\<open>EscapedPath\<close>. A string is a list of bytes. A parse error
  is \<open>None\<close>: the service only asks whether there is one.
\<close>

section \<open>Percent encoding\<close>

datatype encoding = encodePath | encodeHost | encodeZone | encodeUserPassword | encodeFragment

definition in_range :: "char \<Rightarrow> char \<Rightarrow> char \<Rightarrow> bool" where
  "in_range lo hi c \<longleftrightarrow> lo \<le> c \<and> c \<le> hi"

definition is_letter :: "char \<Rightarrow> bool" where
  "is_letter c \<longleftrightarrow> in_range CHR ''a'' CHR ''z'' c \<or> in_range CHR ''A'' CHR ''Z'' c"

definition is_digit :: "char \<Rightarrow> bool" where
  "is_digit = in_range CHR ''0'' CHR ''9''"

definition is_alnum :: "char \<Rightarrow> bool" where
  "is_alnum c \<longleftrightarrow> is_letter c \<or> is_digit c"

definition hex_val :: "char \<Rightarrow> nat option" where
  "hex_val c =
    (if is_digit c then Some (of_char c - 48)
     else if in_range CHR ''a'' CHR ''f'' c then Some (of_char c - 87)
     else if in_range CHR ''A'' CHR ''F'' c then Some (of_char c - 55)
     else None)"

definition upper_hex :: "nat \<Rightarrow> char" where
  "upper_hex n = (if n < 10 then char_of (48 + n) else char_of (55 + n))"

definition shouldEscape :: "encoding \<Rightarrow> char \<Rightarrow> bool" where
  "shouldEscape mode c =
    (if is_alnum c then False
     else if mode \<in> {encodeHost, encodeZone} \<and> c \<in> set (''!$&'' @ [CHR 0x27] @ ''()*+,;=:[]<>'' @ [CHR 0x22]) then False
     else if c \<in> set ''-_.~'' then False
     else if c \<in> set ''$&+,/:;=?@'' \<and> mode = encodePath then c = CHR ''?''
     else if c \<in> set ''$&+,/:;=?@'' \<and> mode = encodeUserPassword then c \<in> set ''@/?:''
     else if c \<in> set ''$&+,/:;=?@'' \<and> mode = encodeFragment then False
     else if mode = encodeFragment \<and> c \<in> set ''!()*'' then False
     else True)"

definition escape_char :: "encoding \<Rightarrow> char \<Rightarrow> string" where
  "escape_char mode c =
    (if shouldEscape mode c then [CHR ''%'', upper_hex (of_char c div 16), upper_hex (of_char c mod 16)] else [c])"

definition escape :: "encoding \<Rightarrow> string \<Rightarrow> string" where
  "escape mode s = concat (map (escape_char mode) s)"

text \<open>A raw character that a host may not contain, and an escape that a host or zone may not use.\<close>

definition bad_raw :: "encoding \<Rightarrow> char \<Rightarrow> bool" where
  "bad_raw mode c \<longleftrightarrow> mode \<in> {encodeHost, encodeZone} \<and> c < CHR 0x80 \<and> shouldEscape mode c"

definition bad_escape :: "encoding \<Rightarrow> nat \<Rightarrow> nat \<Rightarrow> bool" where
  "bad_escape mode h l \<longleftrightarrow>
     mode = encodeHost \<and> h < 8 \<and> \<not> (h = 2 \<and> l = 5)
     \<or> mode = encodeZone \<and> \<not> (h = 2 \<and> l = 5) \<and> h * 16 + l \<noteq> 32 \<and> shouldEscape encodeHost (char_of (h * 16 + l))"

fun unescape :: "encoding \<Rightarrow> string \<Rightarrow> string option" where
  "unescape mode [] = Some []"
| "unescape mode (c # s) =
    (if c = CHR ''%'' then
       (case s of
          a # b # r \<Rightarrow>
            (case (hex_val a, hex_val b) of
               (Some h, Some l) \<Rightarrow>
                 if bad_escape mode h l then None
                 else map_option (Cons (char_of (h * 16 + l))) (unescape mode r)
             | _ \<Rightarrow> None)
        | _ \<Rightarrow> None)
     else if bad_raw mode c then None
     else map_option (Cons c) (unescape mode s))"

definition validEncoded :: "encoding \<Rightarrow> string \<Rightarrow> bool" where
  "validEncoded mode s \<longleftrightarrow>
     list_all (\<lambda>c. c \<in> set (''!$&'' @ [CHR 0x27] @ ''()*+,;=:@[]%'') \<or> \<not> shouldEscape mode c) s"

section \<open>URLs\<close>

record URL =
  url_Scheme :: string
  url_Opaque :: string
  url_Host :: string
  url_Path :: string
  url_RawPath :: string

definition zero_URL :: URL where
  "zero_URL = \<lparr>url_Scheme = [], url_Opaque = [], url_Host = [], url_Path = [], url_RawPath = []\<rparr>"

text \<open>The scheme and the rest; \<open>None\<close> for a leading colon.\<close>

fun scheme_aux :: "string \<Rightarrow> string \<Rightarrow> string \<Rightarrow> (string \<times> string) option" where
  "scheme_aux raw acc [] = Some ([], raw)"
| "scheme_aux raw acc (c # s) =
    (if is_letter c then scheme_aux raw (c # acc) s
     else if is_digit c \<or> c \<in> set ''+-.'' then
       (if acc = [] then Some ([], raw) else scheme_aux raw (c # acc) s)
     else if c = CHR '':'' then (if acc = [] then None else Some (rev acc, s))
     else Some ([], raw))"

definition getScheme :: "string \<Rightarrow> (string \<times> string) option" where
  "getScheme raw = scheme_aux raw [] raw"

definition validOptionalPort :: "string \<Rightarrow> bool" where
  "validOptionalPort port = (case port of [] \<Rightarrow> True
     | c # ds \<Rightarrow> c = CHR '':'' \<and> list_all is_digit ds)"

text \<open>The position of the first \<^verbatim>\<open>%25\<close>, as the text before it and the text from it on.\<close>

fun cut_zone :: "string \<Rightarrow> (string \<times> string) option" where
  "cut_zone [] = None"
| "cut_zone (c # s) = (if HasPrefix (c # s) ''%25'' then Some ([], c # s)
     else map_option (\<lambda>(a, b). (c # a, b)) (cut_zone s))"

definition parseHost :: "string \<Rightarrow> string option" where
  "parseHost host =
    (if HasPrefix host ''['' then
       (case CutLast (CHR '']'') host of
          None \<Rightarrow> None
        | Some (pre, colonPort) \<Rightarrow>
            if \<not> validOptionalPort colonPort then None
            else (case cut_zone pre of
                    Some (a, z) \<Rightarrow>
                      (case (unescape encodeHost a, unescape encodeZone z, unescape encodeHost (CHR '']'' # colonPort)) of
                         (Some x, Some y, Some v) \<Rightarrow> Some (x @ y @ v) | _ \<Rightarrow> None)
                  | None \<Rightarrow> unescape encodeHost host))
     else
       (case CutLast (CHR '':'') host of
          Some (_, port) \<Rightarrow> if validOptionalPort (CHR '':'' # port) then unescape encodeHost host else None
        | None \<Rightarrow> unescape encodeHost host))"

definition validUserinfo :: "string \<Rightarrow> bool" where
  "validUserinfo s \<longleftrightarrow> list_all (\<lambda>c. is_alnum c \<or> c \<in> set (''-._:~!$&'' @ [CHR 0x27] @ ''()*+,;=%@'')) s"

definition parseAuthority :: "string \<Rightarrow> string option" where
  "parseAuthority authority =
    (case CutLast (CHR ''@'') authority of
       None \<Rightarrow> parseHost authority
     | Some (userinfo, h) \<Rightarrow>
        (case parseHost h of
           None \<Rightarrow> None
         | Some host \<Rightarrow>
            if \<not> validUserinfo userinfo then None
            else if (case Cut (CHR '':'') userinfo of (name, pass, _) \<Rightarrow>
                       unescape encodeUserPassword name = None \<or> unescape encodeUserPassword pass = None)
            then None else Some host))"

definition setPath :: "URL \<Rightarrow> string \<Rightarrow> URL option" where
  "setPath u p = map_option (\<lambda>path. u\<lparr>url_Path := path,
     url_RawPath := (if p = escape encodePath path then [] else p)\<rparr>) (unescape encodePath p)"

definition has_ctl :: "string \<Rightarrow> bool" where
  "has_ctl s \<longleftrightarrow> list_ex (\<lambda>c. c < CHR '' '' \<or> c = CHR 0x7F) s"

text \<open>\<^verbatim>\<open>parse\<close> without the fragment; \<open>rest\<close> is what follows the scheme, without the query.\<close>

definition parse_rest :: "string \<Rightarrow> string \<Rightarrow> URL option" where
  "parse_rest scheme rest =
    (let u = zero_URL\<lparr>url_Scheme := scheme\<rparr> in
     if \<not> HasPrefix rest ''/'' \<and> scheme \<noteq> [] then Some (u\<lparr>url_Opaque := rest\<rparr>)
     else if \<not> HasPrefix rest ''/'' \<and> CHR '':'' \<in> set (fst (Cut (CHR ''/'') rest)) then None
     else if (scheme \<noteq> [] \<or> \<not> HasPrefix rest ''///'') \<and> HasPrefix rest ''//'' then
       (let authority = takeWhile (\<lambda>c. c \<noteq> CHR ''/'') (drop 2 rest);
            path = dropWhile (\<lambda>c. c \<noteq> CHR ''/'') (drop 2 rest)
        in case parseAuthority authority of
             None \<Rightarrow> None
           | Some host \<Rightarrow> setPath (u\<lparr>url_Host := host\<rparr>) path)
     else setPath u rest)"

definition parse_url :: "string \<Rightarrow> URL option" where
  "parse_url raw =
    (if has_ctl raw then None
     else if raw = ''*'' then Some (zero_URL\<lparr>url_Path := ''*''\<rparr>)
     else (case getScheme raw of
             None \<Rightarrow> None
           | Some (scheme, rest) \<Rightarrow> parse_rest (ToLower scheme) (fst (Cut (CHR ''?'') rest))))"

definition url_Parse :: "string \<Rightarrow> URL option" where
  "url_Parse raw =
    (case Cut (CHR ''#'') raw of
       (u, frag, _) \<Rightarrow>
         (case parse_url u of
            None \<Rightarrow> None
          | Some url \<Rightarrow> if unescape encodeFragment frag = None then None else Some url))"

definition EscapedPath :: "URL \<Rightarrow> string" where
  "EscapedPath u =
    (if url_RawPath u \<noteq> [] \<and> validEncoded encodePath (url_RawPath u)
        \<and> unescape encodePath (url_RawPath u) = Some (url_Path u) then url_RawPath u
     else if url_Path u = ''*'' then ''*''
     else escape encodePath (url_Path u))"

end
