(* ===== verification/Attachments.thy ===== *)
theory Attachments
  imports ServiceCore GoUrl
begin

text \<open>
  Attachments: the payload checks of \<^verbatim>\<open>internal/service/service.go\<close>, the rule which storage URLs a room
  may refer to, the stored form of a reference and its rewriting for delivery, and the Google Cloud
  Storage signer of \<^verbatim>\<open>internal/upload/gcs\<close>. The storage client's \<^verbatim>\<open>SignedURL\<close> is a parameter.
\<close>

section \<open>Payload checks\<close>

definition extractStringMetadata :: "metadata \<Rightarrow> string \<Rightarrow> string" where
  "extractStringMetadata metadata key =
    (case metadata of
       None \<Rightarrow> []
     | Some m \<Rightarrow> (case map_of m key of Some (AString s) \<Rightarrow> TrimSpace s | _ \<Rightarrow> []))"

definition validateMessagePayload :: "MessageType \<Rightarrow> string \<Rightarrow> string \<Rightarrow> metadata \<Rightarrow> error + unit" where
  "validateMessagePayload messageType content imageURL metadata =
    (let trimmedContent = TrimSpace content;
         trimmedImageURL = TrimSpace imageURL;
         fileURL = extractStringMetadata metadata ''file_url'';
         fileName = extractStringMetadata metadata ''file_name'';
         contentType = extractStringMetadata metadata ''content_type''
     in case messageType of
          MessageTypeText \<Rightarrow>
            if trimmedContent = [] then Inl ErrInvalidArgument
            else if trimmedImageURL \<noteq> [] then Inl ErrInvalidArgument else Inr ()
        | MessageTypeImage \<Rightarrow>
            if trimmedImageURL = [] then Inl ErrInvalidArgument
            else if trimmedContent \<noteq> [] then Inl ErrInvalidArgument
            else if fileURL \<noteq> [] then Inl ErrInvalidArgument else Inr ()
        | MessageTypeFile \<Rightarrow>
            if trimmedImageURL \<noteq> [] then Inl ErrInvalidArgument
            else if trimmedContent \<noteq> [] then Inl ErrInvalidArgument
            else if fileURL = [] \<or> fileName = [] \<or> contentType = [] then Inl ErrInvalidArgument else Inr ()
        | MessageTypeSystem \<Rightarrow> if trimmedContent = [] then Inl ErrInvalidArgument else Inr ()
        | MessageTypeOther _ \<Rightarrow> Inl ErrInvalidArgument)"

definition isAllowedAttachmentContentType :: "string \<Rightarrow> bool" where
  "isAllowedAttachmentContentType contentType \<longleftrightarrow> ToLower (TrimSpace contentType) \<in> set
    [''image/png'', ''image/jpeg'', ''image/webp'', ''application/pdf'', ''application/msword'',
     ''application/vnd.openxmlformats-officedocument.wordprocessingml.document'',
     ''application/vnd.ms-excel'',
     ''application/vnd.openxmlformats-officedocument.spreadsheetml.sheet'',
     ''application/vnd.ms-powerpoint'',
     ''application/vnd.openxmlformats-officedocument.presentationml.presentation'', ''text/plain'']"

definition isAllowedImageContentType :: "string \<Rightarrow> bool" where
  "isAllowedImageContentType contentType \<longleftrightarrow>
     ToLower (TrimSpace contentType) \<in> set [''image/jpeg'', ''image/png'', ''image/webp'']"

definition attachment_extensions :: "string list" where
  "attachment_extensions = [''.png'', ''.jpg'', ''.jpeg'', ''.webp'', ''.pdf'', ''.doc'', ''.docx'', ''.xls'',
     ''.xlsx'', ''.ppt'', ''.pptx'', ''.txt'']"

definition isAllowedAttachmentExtension :: "string \<Rightarrow> bool" where
  "isAllowedAttachmentExtension fileName \<longleftrightarrow> ToLower (Ext (TrimSpace fileName)) \<in> set attachment_extensions"

definition isAllowedImageExtension :: "string \<Rightarrow> bool" where
  "isAllowedImageExtension fileName \<longleftrightarrow>
     ToLower (Ext (TrimSpace fileName)) \<in> set [''.png'', ''.jpg'', ''.jpeg'', ''.webp'']"

definition validateAttachmentUploadRequest :: "string \<Rightarrow> string \<Rightarrow> string \<Rightarrow> error + unit" where
  "validateAttachmentUploadRequest userID fileName contentType =
    (if TrimSpace userID = [] \<or> TrimSpace fileName = [] \<or> TrimSpace contentType = [] then Inl ErrInvalidArgument
     else if \<not> isAllowedAttachmentContentType contentType then Inl ErrInvalidArgument
     else if \<not> isAllowedAttachmentExtension fileName then Inl ErrInvalidArgument
     else Inr ())"

section \<open>Trusted storage URLs\<close>

definition expected_prefix :: "string \<Rightarrow> string \<Rightarrow> string" where
  "expected_prefix bucket roomID =
     ''/'' @ TrimSpace bucket @ ''/chat-attachments/'' @ TrimSpace roomID @ ''/''"

definition extractTrustedStorageObjectName :: "string \<Rightarrow> string \<Rightarrow> string \<Rightarrow> error + string" where
  "extractTrustedStorageObjectName rawURL bucket roomID =
    (case url_Parse (TrimSpace rawURL) of
       None \<Rightarrow> Inl ErrInvalidArgument
     | Some parsed \<Rightarrow>
        if url_Scheme parsed \<noteq> ''https'' then Inl ErrPermissionDenied
        else if \<not> EqualFold (url_Host parsed) ''storage.googleapis.com'' then Inl ErrPermissionDenied
        else if \<not> HasPrefix (EscapedPath parsed) (expected_prefix bucket roomID)
                \<and> \<not> HasPrefix (url_Path parsed) (expected_prefix bucket roomID) then Inl ErrPermissionDenied
        else Inr (TrimPrefix (url_Path parsed) (''/'' @ TrimSpace bucket @ ''/'')))"

definition validateTrustedStorageURL :: "string \<Rightarrow> string \<Rightarrow> string \<Rightarrow> error + unit" where
  "validateTrustedStorageURL rawURL bucket roomID =
    (case extractTrustedStorageObjectName rawURL bucket roomID of Inl e \<Rightarrow> Inl e | Inr _ \<Rightarrow> Inr ())"

definition validateTrustedAttachmentURL ::
  "'s ChatService \<Rightarrow> string \<Rightarrow> MessageType \<Rightarrow> string \<Rightarrow> metadata \<Rightarrow> error + unit" where
  "validateTrustedAttachmentURL svc roomID messageType imageURL metadata =
    (case messageType of
       MessageTypeImage \<Rightarrow>
         if cs_trustedAttachmentBucket svc = [] then Inl ErrNotConfigured
         else validateTrustedStorageURL imageURL (cs_trustedAttachmentBucket svc) roomID
     | MessageTypeFile \<Rightarrow>
         if cs_trustedAttachmentBucket svc = [] then Inl ErrNotConfigured
         else validateTrustedStorageURL (extractStringMetadata metadata ''file_url'')
                (cs_trustedAttachmentBucket svc) roomID
     | _ \<Rightarrow> Inr ())"

section \<open>Stored references\<close>

definition clone_map :: "('k, 'v) gomap \<Rightarrow> ('k, 'v) gomap" where
  "clone_map m = foldl (\<lambda>out (k, v). AList.update k v out) [] m"

definition cloneMetadata :: "metadata \<Rightarrow> metadata" where
  "cloneMetadata metadata = map_option clone_map metadata"

text \<open>\<^verbatim>\<open>if out == nil { out = map[string]any{} }\<close>\<close>

definition cloned_or_empty :: "metadata \<Rightarrow> (string, any) gomap" where
  "cloned_or_empty metadata = (case cloneMetadata metadata of None \<Rightarrow> [] | Some m \<Rightarrow> m)"

definition normalizeAttachmentReferences ::
  "'s ChatService \<Rightarrow> string \<Rightarrow> MessageType \<Rightarrow> string \<Rightarrow> metadata \<Rightarrow> error + (string \<times> metadata)" where
  "normalizeAttachmentReferences svc roomID messageType imageURL metadata =
    (case messageType of
       MessageTypeImage \<Rightarrow>
         (case extractTrustedStorageObjectName imageURL (cs_trustedAttachmentBucket svc) roomID of
            Inl e \<Rightarrow> Inl e
          | Inr objectName \<Rightarrow>
              Inr (objectName, Some (AList.update ''object_name'' (AString objectName) (cloned_or_empty metadata))))
     | MessageTypeFile \<Rightarrow>
         (case extractTrustedStorageObjectName (extractStringMetadata metadata ''file_url'')
                 (cs_trustedAttachmentBucket svc) roomID of
            Inl e \<Rightarrow> Inl e
          | Inr objectName \<Rightarrow>
              Inr (imageURL, Some (AList.update ''object_name'' (AString objectName)
                (AList.update ''file_url'' (AString objectName) (cloned_or_empty metadata)))))
     | _ \<Rightarrow> Inr (imageURL, cloneMetadata metadata))"

definition storedAttachmentObjectName :: "metadata \<Rightarrow> string \<Rightarrow> string" where
  "storedAttachmentObjectName metadata fallback =
    (let objectName = extractStringMetadata metadata ''object_name''; trimmed = TrimSpace fallback in
     if objectName \<noteq> [] then objectName
     else if trimmed = [] then []
     else if HasPrefix trimmed ''https://storage.googleapis.com/'' then
       (case url_Parse trimmed of
          None \<Rightarrow> trimmed
        | Some parsed \<Rightarrow>
           (case Cut (CHR ''/'') (TrimPrefix (url_Path parsed) ''/'') of
              (_, rest, found) \<Rightarrow> if found then rest else trimmed))
     else trimmed)"

definition hydrateMessageForDelivery :: "'s ChatService \<Rightarrow> ChatMessage \<Rightarrow> (genv, error, ChatMessage) prog" where
  "hydrateMessageForDelivery svc msg =
    (case cs_attachmentReadSigner svc of
       None \<Rightarrow> ok msg
     | Some signer \<Rightarrow>
        (case mg_MessageType msg of
           MessageTypeImage \<Rightarrow>
             (let objectName = storedAttachmentObjectName (mg_Metadata msg) (mg_ImageURL msg) in
              if objectName = [] then ok msg
              else bindP (signer objectName) (\<lambda>read.
                ok (msg\<lparr>mg_ImageURL := ar_ReadURL read,
                        mg_Metadata := map_option (AList.update ''object_name'' (AString objectName))
                          (cloneMetadata (mg_Metadata msg))\<rparr>)))
         | MessageTypeFile \<Rightarrow>
             (let objectName = storedAttachmentObjectName (mg_Metadata msg) (mg_FileURL msg) in
              if objectName = [] then ok msg
              else bindP (signer objectName) (\<lambda>read.
                ok (msg\<lparr>mg_FileURL := ar_ReadURL read,
                        mg_Metadata := map_option (\<lambda>m. AList.update ''file_url'' (AString (ar_ReadURL read))
                          (AList.update ''object_name'' (AString objectName) m))
                          (cloneMetadata (mg_Metadata msg))\<rparr>)))
         | _ \<Rightarrow> ok msg))"

section \<open>The Google Cloud Storage signer\<close>

record SignedURLOptions =
  so_Method :: string
  so_Expires :: time
  so_ContentType :: string
  so_GoogleAccessID :: string

record Signer =
  sg_bucket :: string
  sg_googleAccessID :: string
  sg_SignedURL :: "string \<Rightarrow> SignedURLOptions \<Rightarrow> error + string"
  sg_readExpiry :: time

definition uploadExpiry :: time where
  "uploadExpiry = 15 * 60 * 1000000000"

definition defaultReadExpiry :: time where
  "defaultReadExpiry = 30 * 60 * 1000000000"

definition WithReadURLExpiry :: "time \<Rightarrow> Signer \<Rightarrow> Signer" where
  "WithReadURLExpiry expiry s = (if expiry > 0 then s\<lparr>sg_readExpiry := expiry\<rparr> else s)"

text \<open>\<open>client\<close> is the outcome of creating the storage client: an error, or the bucket's \<^verbatim>\<open>SignedURL\<close>.\<close>

definition NewSigner ::
  "(string \<Rightarrow> error + (string \<Rightarrow> SignedURLOptions \<Rightarrow> error + string)) \<Rightarrow> string \<Rightarrow> string \<Rightarrow>
     (Signer \<Rightarrow> Signer) list \<Rightarrow> error + Signer" where
  "NewSigner client bucketName googleAccessID opts =
    (if TrimSpace bucketName = [] then Inl (ErrOther ''bucket name is required'')
     else case client (TrimSpace bucketName) of
            Inl err \<Rightarrow> Inl err
          | Inr handle \<Rightarrow>
             Inr (foldl (\<lambda>s opt. opt s)
               \<lparr>sg_bucket = TrimSpace bucketName, sg_googleAccessID = TrimSpace googleAccessID,
                sg_SignedURL = handle, sg_readExpiry = defaultReadExpiry\<rparr> opts))"

definition safe_char :: "char \<Rightarrow> bool" where
  "safe_char c \<longleftrightarrow> is_alnum c \<or> c = CHR ''_'' \<or> c = CHR ''-''"

text \<open>The regular expression replaces every maximal run of other bytes by one hyphen.\<close>

function replace_unsafe :: "string \<Rightarrow> string" where
  "replace_unsafe [] = []"
| "replace_unsafe (c # s) =
    (if safe_char c then c # replace_unsafe s
     else CHR ''-'' # replace_unsafe (dropWhile (\<lambda>c. \<not> safe_char c) s))"
  by pat_completeness auto
termination
  by (relation "measure length") (auto simp: le_imp_less_Suc length_dropWhile_le)

definition trim_hyphens :: "string \<Rightarrow> string" where
  "trim_hyphens s = rev (dropWhile ((=) CHR ''-'') (rev (dropWhile ((=) CHR ''-'') s)))"

definition sanitizePathSegment :: "string \<Rightarrow> string" where
  "sanitizePathSegment val =
    (let cleaned = trim_hyphens (replace_unsafe (TrimSpace val))
     in if cleaned = [] then ''unknown'' else cleaned)"

definition buildObjectName :: "string \<Rightarrow> string \<Rightarrow> genv \<Rightarrow> string \<times> genv" where
  "buildObjectName roomID fileName g =
    (let base = Base (TrimSpace fileName);
         ext0 = ToLower (Ext base);
         ext = (if ext0 = [] then ''.bin'' else ext0);
         (i, g') = id_New g
     in (''chat-attachments/'' @ sanitizePathSegment roomID @ ''/'' @ i @ ext, g'))"

definition gcs_CreateAttachmentUploadURL :: "Signer \<Rightarrow> AttachmentUploadSigner" where
  "gcs_CreateAttachmentUploadURL s roomID userID fileName contentType g =
    (let (now, g1) = time_Now g;
         (objectName, g2) = buildObjectName roomID fileName g1;
         fileURL = ''https://storage.googleapis.com/'' @ sg_bucket s @ ''/'' @ objectName;
         opts = \<lparr>so_Method = ''PUT'', so_Expires = now + uploadExpiry,
                 so_ContentType = ToLower (TrimSpace contentType), so_GoogleAccessID = sg_googleAccessID s\<rparr>
     in case sg_SignedURL s objectName opts of
          Inl err \<Rightarrow> (Inl err, g2)
        | Inr uploadURL \<Rightarrow>
           (Inr \<lparr>au_ObjectName = objectName, au_UploadURL = uploadURL, au_FileURL = fileURL,
                 au_ExpiresAt = now + uploadExpiry\<rparr>, g2))"

definition gcs_CreateImageUploadURL :: "Signer \<Rightarrow> ImageUploadSigner" where
  "gcs_CreateImageUploadURL s roomID userID fileName contentType =
    bindP (gcs_CreateAttachmentUploadURL s roomID userID fileName contentType) (\<lambda>out.
    ok \<lparr>iu_ObjectName = au_ObjectName out, iu_UploadURL = au_UploadURL out,
        iu_ImageURL = au_FileURL out, iu_ExpiresAt = au_ExpiresAt out\<rparr>)"

definition gcs_CreateAttachmentReadURL :: "Signer \<Rightarrow> AttachmentReadURLSigner" where
  "gcs_CreateAttachmentReadURL s objectName g =
    (let (now, g1) = time_Now g; trimmedObjectName = TrimSpace objectName in
     if trimmedObjectName = [] then (Inl (ErrOther ''object name is required''), g1)
     else case sg_SignedURL s trimmedObjectName
                 \<lparr>so_Method = ''GET'', so_Expires = now + sg_readExpiry s, so_ContentType = [],
                  so_GoogleAccessID = sg_googleAccessID s\<rparr> of
            Inl err \<Rightarrow> (Inl err, g1)
          | Inr readURL \<Rightarrow>
             (Inr \<lparr>ar_ObjectName = trimmedObjectName, ar_ReadURL = readURL,
                   ar_ExpiresAt = now + sg_readExpiry s\<rparr>, g1))"

end
