(* ===== verification/Messages.thy ===== *)
theory Messages
  imports Attachments
begin

text \<open>
  The operations of \<^verbatim>\<open>internal/service/service.go\<close> on messages, read cursors, push notifications,
  device tokens and upload URLs. Publishing to the hub and handing a message to the push sender are
  effects on the world.
\<close>

section \<open>Push notifications\<close>

definition chatPushBody :: "ChatMessage \<Rightarrow> string" where
  "chatPushBody msg =
    (let fallback = ''You have a new chat message.'' in
     case mg_MessageType msg of
       MessageTypeText \<Rightarrow>
         (let preview = Join (Fields (mg_Content msg)) '' '' in
          if preview = [] then fallback
          else if length (runes preview) > 120 then string_of_runes (take 117 (runes preview)) @ ''...''
          else preview)
     | _ \<Rightarrow> fallback)"

definition cloneStringMap :: "(string, string) gomap \<Rightarrow> (string, string) gomap" where
  "cloneStringMap m = clone_map m"

fun recipients :: "string \<Rightarrow> string list \<Rightarrow> ChatRoomMember list \<Rightarrow> string list" where
  "recipients sender seen [] = []"
| "recipients sender seen (m # ms) =
    (if mb_UserID m = sender \<or> mb_Status m \<noteq> MemberStatusActive then recipients sender seen ms
     else if mb_UserID m \<in> set seen then recipients sender seen ms
     else mb_UserID m # recipients sender (mb_UserID m # seen) ms)"

definition push_data :: "ChatMessage \<Rightarrow> (string, string) gomap" where
  "push_data msg = [(''type'', ''chat_message''), (''room_id'', mg_RoomID msg), (''message_id'', mg_ID msg)]"

definition push_for :: "ChatMessage \<Rightarrow> DeviceToken \<Rightarrow> push_Message" where
  "push_for msg token = \<lparr>pu_Token = dt_Token token, pu_Title = ''New message'', pu_Body = chatPushBody msg,
     pu_Data = cloneStringMap (push_data msg)\<rparr>"

text \<open>One call of the sender; its outcome is discarded.\<close>

definition push_Send :: "Sender \<Rightarrow> push_Message \<Rightarrow> ('s world, error, unit) prog" where
  "push_Send sender m w = (let _ = sender m in (Inr (), w\<lparr>w_push := w_push w @ [m]\<rparr>))"

fun send_all :: "Sender \<Rightarrow> ChatMessage \<Rightarrow> DeviceToken list \<Rightarrow> ('s world, error, unit) prog" where
  "send_all sender msg [] = ok ()"
| "send_all sender msg (t # ts) =
    (if TrimSpace (dt_Token t) = [] then send_all sender msg ts
     else bindP (push_Send sender (push_for msg t)) (\<lambda>_. send_all sender msg ts))"

definition dispatchChatMessagePush ::
  "'s ChatService \<Rightarrow> string \<Rightarrow> string \<Rightarrow> ChatMessage \<Rightarrow> ('s world, error, unit) prog" where
  "dispatchChatMessagePush svc roomID senderUserID msg =
    (case cs_pushSender svc of
       None \<Rightarrow> ok ()
     | Some sender \<Rightarrow>
        bindP (attempt (view (\<lambda>s. rp_ListActiveMembersByJoinOrder (cs_repo svc) s roomID))) (\<lambda>r.
        case r of
          Inl _ \<Rightarrow> ok ()
        | Inr members \<Rightarrow>
           (let recipientUserIDs = recipients senderUserID [] members in
            if recipientUserIDs = [] then ok ()
            else
             bindP (attempt (view (\<lambda>s. rp_ListActiveDeviceTokensByUserIDs (cs_repo svc) s recipientUserIDs))) (\<lambda>r.
             case r of
               Inl _ \<Rightarrow> ok ()
             | Inr tokens \<Rightarrow> send_all sender msg tokens))))"

section \<open>Messages\<close>

text \<open>A publish on the hub; a send on a closed channel would stop the process.\<close>

definition publish :: "string \<Rightarrow> ChatMessage \<Rightarrow> ('s world, error, unit) prog" where
  "publish roomID msg w =
    (case ps_Publish (w_ps w) roomID msg of
       None \<Rightarrow> (Inl (ErrOther ''send on closed channel''), w)
     | Some ps \<Rightarrow> (Inr (), w\<lparr>w_ps := ps\<rparr>))"

definition new_message ::
  "string \<Rightarrow> string \<Rightarrow> string \<Rightarrow> MessageType \<Rightarrow> string \<Rightarrow> string \<Rightarrow> metadata \<Rightarrow> time \<Rightarrow> ChatMessage" where
  "new_message i roomID sender mt content imageURL metadata now = \<lparr>mg_ID = i, mg_RoomID = roomID,
     mg_SenderUserID = sender, mg_MessageType = mt, mg_SequenceNo = 0, mg_Content = content,
     mg_ImageURL = imageURL, mg_FileURL = extractStringMetadata metadata ''file_url'',
     mg_Metadata = metadata, mg_IsDeleted = False, mg_DeletedAt = None, mg_DeletedByUserID = [],
     mg_CreatedAt = now, mg_UpdatedAt = now\<rparr>"

definition svc_SendMessage ::
  "'s ChatService \<Rightarrow> string \<Rightarrow> string \<Rightarrow> MessageType \<Rightarrow> string \<Rightarrow> string \<Rightarrow> metadata \<Rightarrow>
     ('s world, error, ChatMessage) prog" where
  "svc_SendMessage svc roomID senderUserID messageType content imageURL0 metadata0 =
    bindP (validateActiveMembership svc roomID senderUserID) (\<lambda>(room, member).
    if \<not> rm_IsActive room \<or> mb_Status member \<noteq> MemberStatusActive then fail ErrInvalidState
    else
     bindP (of_result (validateMessagePayload messageType content imageURL0 metadata0)) (\<lambda>_.
     bindP (of_result (validateTrustedAttachmentURL svc roomID messageType imageURL0 metadata0)) (\<lambda>_.
     bindP (of_result (normalizeAttachmentReferences svc roomID messageType imageURL0 metadata0)) (\<lambda>(imageURL, metadata).
     bindP (env time_Now) (\<lambda>now.
     bindP (env id_New) (\<lambda>i.
     let msg = new_message i roomID senderUserID messageType content imageURL metadata now in
     bindP (tx svc
       (bindP (db (\<lambda>s. rp_CreateMessageWithNextSequence (cs_repo svc) s msg)) (\<lambda>saved.
        bindP (db (\<lambda>s. rp_UpdateRoom (cs_repo svc) s (room\<lparr>rm_UpdatedAt := now\<rparr>))) (\<lambda>_.
        ok saved)))) (\<lambda>saved.
     bindP (publish roomID saved) (\<lambda>_.
     bindP (dispatchChatMessagePush svc roomID senderUserID saved) (\<lambda>_.
     on_env (hydrateMessageForDelivery svc saved))))))))))"

definition redacted :: "ChatMessage \<Rightarrow> ChatMessage" where
  "redacted msg = msg\<lparr>mg_Content := [], mg_ImageURL := [], mg_FileURL := [], mg_Metadata := None\<rparr>"

definition deleted :: "time \<Rightarrow> string \<Rightarrow> ChatMessage \<Rightarrow> ChatMessage" where
  "deleted now owner msg = msg\<lparr>mg_IsDeleted := True, mg_DeletedAt := Some now, mg_DeletedByUserID := owner,
     mg_Content := [], mg_ImageURL := [], mg_FileURL := [], mg_Metadata := None, mg_UpdatedAt := now\<rparr>"

definition svc_DeleteMessage ::
  "'s ChatService \<Rightarrow> string \<Rightarrow> string \<Rightarrow> string \<Rightarrow> ('s world, error, ChatMessage) prog" where
  "svc_DeleteMessage svc roomID messageID ownerUserID =
    bindP (env time_Now) (\<lambda>now.
    tx svc
     (bindP (view (\<lambda>s. rp_GetRoom (cs_repo svc) s roomID)) (\<lambda>room.
      if rm_OwnerUserID room \<noteq> ownerUserID then fail ErrPermissionDenied
      else
       bindP (view (\<lambda>s. rp_GetMessage (cs_repo svc) s roomID messageID)) (\<lambda>msg.
       bindP (db (\<lambda>s. rp_UpdateMessage (cs_repo svc) s (deleted now ownerUserID msg))) (\<lambda>_.
       ok (deleted now ownerUserID msg))))))"

text \<open>What a reader gets: deleted messages without content, the others with fresh read URLs.\<close>

definition present :: "'s ChatService \<Rightarrow> ChatMessage \<Rightarrow> (genv, error, ChatMessage) prog" where
  "present svc msg = (if mg_IsDeleted msg then ok (redacted msg) else hydrateMessageForDelivery svc msg)"

fun present_all :: "'s ChatService \<Rightarrow> ChatMessage list \<Rightarrow> (genv, error, ChatMessage list) prog" where
  "present_all svc [] = ok []"
| "present_all svc (m # ms) =
    bindP (present svc m) (\<lambda>x. bindP (present_all svc ms) (\<lambda>xs. ok (x # xs)))"

definition svc_GetMessages ::
  "'s ChatService \<Rightarrow> string \<Rightarrow> string \<Rightarrow> int \<Rightarrow> int \<Rightarrow> ('s world, error, ChatMessage list \<times> int) prog" where
  "svc_GetMessages svc roomID userID beforeSequence limit0 =
    bindP (validateActiveMembership svc roomID userID) (\<lambda>(room, member).
    if \<not> rm_IsActive room then fail ErrRoomInactive
    else if mb_Status member \<noteq> MemberStatusActive then
      (if mb_Status member = MemberStatusRemoved then fail ErrMemberRemoved else fail ErrMemberLeft)
    else
     let limit = (if limit0 \<le> 0 \<or> limit0 > 100 then 50 else limit0) in
     bindP (view (\<lambda>s. rp_ListMessagesBefore (cs_repo svc) s roomID beforeSequence limit)) (\<lambda>(msgs, nextCursor).
     bindP (on_env (present_all svc msgs)) (\<lambda>msgs.
     ok (msgs, nextCursor))))"

section \<open>Read cursors\<close>

definition read_up_to :: "time \<Rightarrow> int \<Rightarrow> ChatRoomMember \<Rightarrow> ChatRoomMember" where
  "read_up_to now n m = m\<lparr>
     mb_LastReadSequenceNo := (if n > mb_LastReadSequenceNo m then n else mb_LastReadSequenceNo m),
     mb_LastReadAt := Some now, mb_UpdatedAt := now\<rparr>"

definition svc_MarkAsRead ::
  "'s ChatService \<Rightarrow> string \<Rightarrow> string \<Rightarrow> int \<Rightarrow> ('s world, error, ChatRoomMember) prog" where
  "svc_MarkAsRead svc roomID userID lastReadSequenceNo =
    bindP (view (\<lambda>s. rp_GetMember (cs_repo svc) s roomID userID)) (\<lambda>m.
    if mb_Status m \<noteq> MemberStatusActive then fail ErrInvalidState
    else
     bindP (env time_Now) (\<lambda>now.
     let m' = read_up_to now lastReadSequenceNo m in
     bindP (db (\<lambda>s. rp_UpdateMember (cs_repo svc) s m')) (\<lambda>_. ok m')))"

definition svc_MarkChatRoomRead :: "'s ChatService \<Rightarrow> string \<Rightarrow> string \<Rightarrow> ('s world, error, ChatRoomMember) prog" where
  "svc_MarkChatRoomRead svc roomID userID =
    bindP (validateActiveMembership svc roomID userID) (\<lambda>(_, member).
    if mb_Status member \<noteq> MemberStatusActive then fail ErrInvalidState
    else
     bindP (view (\<lambda>s. rp_ListMessagesBefore (cs_repo svc) s roomID 0 1)) (\<lambda>(msgs, _).
     let latestSequenceNo = (case msgs of [] \<Rightarrow> 0 | m # _ \<Rightarrow> mg_SequenceNo m) in
     bindP (env time_Now) (\<lambda>now.
     let member' = read_up_to now latestSequenceNo member in
     bindP (db (\<lambda>s. rp_UpdateMember (cs_repo svc) s member')) (\<lambda>_. ok member'))))"

definition svc_ListMyRooms ::
  "'s ChatService \<Rightarrow> string \<Rightarrow> int \<Rightarrow> string \<Rightarrow> ('s world, error, ChatRoomSummary list \<times> string) prog" where
  "svc_ListMyRooms svc userID limit0 pageToken =
    (let limit = (if limit0 \<le> 0 \<or> limit0 > 100 then 20 else limit0)
     in view (\<lambda>s. rp_ListRoomsByUser (cs_repo svc) s userID limit pageToken))"

section \<open>Device tokens\<close>

definition isValidDevicePlatform :: "DevicePlatform \<Rightarrow> bool" where
  "isValidDevicePlatform platform = (case platform of
     DevicePlatformIOS \<Rightarrow> True | DevicePlatformAndroid \<Rightarrow> True | DevicePlatformOther _ \<Rightarrow> False)"

definition svc_RegisterDeviceToken ::
  "'s ChatService \<Rightarrow> string \<Rightarrow> string \<Rightarrow> string \<Rightarrow> DevicePlatform \<Rightarrow> ('s world, error, DeviceToken) prog" where
  "svc_RegisterDeviceToken svc userID0 deviceID0 token0 platform =
    (let userID = TrimSpace userID0; deviceID = TrimSpace deviceID0; token = TrimSpace token0 in
     if userID = [] \<or> deviceID = [] \<or> token = [] then fail ErrInvalidArgument
     else if \<not> isValidDevicePlatform platform then fail ErrInvalidArgument
     else
      bindP (env time_Now) (\<lambda>now.
      db (\<lambda>s. rp_UpsertDeviceToken (cs_repo svc) s
        \<lparr>dt_UserID = userID, dt_DeviceID = deviceID, dt_Token = token, dt_Platform = platform,
         dt_IsActive = True, dt_CreatedAt = now, dt_UpdatedAt = now, dt_LastSeenAt = now,
         dt_UnregisteredAt = None\<rparr>)))"

definition svc_UnregisterDeviceToken :: "'s ChatService \<Rightarrow> string \<Rightarrow> string \<Rightarrow> ('s world, error, unit) prog" where
  "svc_UnregisterDeviceToken svc userID0 deviceID0 =
    (let userID = TrimSpace userID0; deviceID = TrimSpace deviceID0 in
     if userID = [] \<or> deviceID = [] then fail ErrInvalidArgument
     else bindP (env time_Now) (\<lambda>now.
       db (\<lambda>s. rp_DeactivateDeviceToken (cs_repo svc) s userID deviceID now)))"

section \<open>Upload URLs\<close>

definition svc_CreateAttachmentUploadURL ::
  "'s ChatService \<Rightarrow> string \<Rightarrow> string \<Rightarrow> string \<Rightarrow> string \<Rightarrow> ('s world, error, AttachmentUpload) prog" where
  "svc_CreateAttachmentUploadURL svc roomID userID fileName contentType =
    (case cs_attachmentUploadSigner svc of
       None \<Rightarrow> fail ErrNotConfigured
     | Some signer \<Rightarrow>
        bindP (validateActiveMembership svc roomID userID) (\<lambda>_.
        bindP (of_result (validateAttachmentUploadRequest userID fileName contentType)) (\<lambda>_.
        on_env (signer roomID userID fileName contentType))))"

definition svc_CreateImageUploadURL ::
  "'s ChatService \<Rightarrow> string \<Rightarrow> string \<Rightarrow> string \<Rightarrow> string \<Rightarrow> ('s world, error, ImageUpload) prog" where
  "svc_CreateImageUploadURL svc roomID userID fileName contentType =
    (if \<not> isAllowedImageContentType contentType \<or> \<not> isAllowedImageExtension fileName
     then fail ErrInvalidArgument
     else
      bindP (svc_CreateAttachmentUploadURL svc roomID userID fileName contentType) (\<lambda>out.
      ok \<lparr>iu_ObjectName = au_ObjectName out, iu_UploadURL = au_UploadURL out,
          iu_ImageURL = au_FileURL out, iu_ExpiresAt = au_ExpiresAt out\<rparr>))"

lemmas message_operations [svc_simps] = svc_SendMessage_def svc_DeleteMessage_def svc_GetMessages_def
  svc_MarkAsRead_def svc_MarkChatRoomRead_def svc_ListMyRooms_def svc_RegisterDeviceToken_def
  svc_UnregisterDeviceToken_def svc_CreateAttachmentUploadURL_def svc_CreateImageUploadURL_def

end
