(* ===== verification/Rooms.thy ===== *)
theory Rooms
  imports ServiceCore
begin

text \<open>
  The operations of \<^verbatim>\<open>internal/service/service.go\<close> that create rooms and change who belongs to them.
  Each is the whole Go method: the order of its reads and writes, its early returns and the part
  that runs in a transaction. The abstract store's invariant \<open>rooms_inv\<close> says what these operations
  maintain between requests.
\<close>

section \<open>Operations\<close>

definition new_room :: "string \<Rightarrow> RoomType \<Rightarrow> string \<Rightarrow> string \<Rightarrow> string \<Rightarrow> time \<Rightarrow> ChatRoom" where
  "new_room i rt title board owner now = \<lparr>rm_ID = i, rm_RoomType = rt, rm_Title = title,
     rm_LinkedBoardID = board, rm_OwnerUserID = owner, rm_IsActive = True, rm_CreatedAt = now,
     rm_UpdatedAt = now, rm_DeletedAt = None\<rparr>"

definition svc_CreateRoom :: "'s ChatService \<Rightarrow> string \<Rightarrow> string \<Rightarrow> ('s world, error, ChatRoom) prog" where
  "svc_CreateRoom svc creatorUserID title =
    bindP (env time_Now) (\<lambda>now.
    bindP (env id_New) (\<lambda>roomID.
    let room = new_room roomID RoomTypeGeneralGroup (TrimSpace title) [] creatorUserID now in
    bindP (env id_New) (\<lambda>memberID.
    let member = new_member memberID roomID creatorUserID MemberRoleOwner now in
    bindP (tx svc
      (bindP (db (\<lambda>s. rp_CreateRoom (cs_repo svc) s room)) (\<lambda>_.
       db (\<lambda>s. rp_CreateMember (cs_repo svc) s member)))) (\<lambda>_.
    ok room))))"

definition svc_CreateBoardLinkedRoom ::
  "'s ChatService \<Rightarrow> string \<Rightarrow> string \<Rightarrow> string \<Rightarrow> ('s world, error, ChatRoom \<times> bool) prog" where
  "svc_CreateBoardLinkedRoom svc creatorUserID boardID title =
    bindP (attempt (view (\<lambda>s. rp_GetActiveBoardLinkedRoom (cs_repo svc) s boardID))) (\<lambda>r.
    case r of
      Inr _ \<Rightarrow> ok (zero_ChatRoom, True)
    | Inl err \<Rightarrow>
       if err \<noteq> ErrNotFound then fail err
       else
        bindP (env time_Now) (\<lambda>now.
        bindP (env id_New) (\<lambda>roomID.
        let room = new_room roomID RoomTypeBoardLinkedGroup (TrimSpace title) boardID creatorUserID now in
        bindP (env id_New) (\<lambda>memberID.
        let member = new_member memberID roomID creatorUserID MemberRoleOwner now in
        bindP (attempt (tx svc
          (bindP (db (\<lambda>s. rp_CreateRoom (cs_repo svc) s room)) (\<lambda>_.
           db (\<lambda>s. rp_CreateMember (cs_repo svc) s member))))) (\<lambda>r.
        case r of
          Inl err \<Rightarrow> (if err = ErrAlreadyExists then ok (zero_ChatRoom, True) else fail err)
        | Inr _ \<Rightarrow> ok (room, False))))))"

record BoardChatRoomEntryInput =
  in_UserID :: string
  in_BoardID :: string
  in_BoardOwnerUserID :: string
  in_Title :: string

record BoardChatRoomEntry =
  en_Room :: ChatRoom
  en_Member :: ChatRoomMember
  en_AlreadyExists :: bool

definition enterExistingBoardChatRoom ::
  "'s ChatService \<Rightarrow> BoardChatRoomEntryInput \<Rightarrow> ('s world, error, BoardChatRoomEntry) prog" where
  "enterExistingBoardChatRoom svc inp =
    bindP (env time_Now) (\<lambda>now.
    tx svc
      (bindP (view (\<lambda>s. rp_GetActiveBoardLinkedRoom (cs_repo svc) s (in_BoardID inp))) (\<lambda>room.
       bindP (ensureActiveMember svc (rm_ID room) (in_UserID inp) now) (\<lambda>member.
       bindP (ensurePassiveMember svc (rm_ID room) (in_BoardOwnerUserID inp) (in_UserID inp) now) (\<lambda>_.
       ok \<lparr>en_Room = room, en_Member = member, en_AlreadyExists = True\<rparr>)))))"

definition createBoardChatRoom ::
  "'s ChatService \<Rightarrow> BoardChatRoomEntryInput \<Rightarrow> ('s world, error, BoardChatRoomEntry) prog" where
  "createBoardChatRoom svc inp =
    bindP (env time_Now) (\<lambda>now.
    bindP (env id_New) (\<lambda>roomID.
    let room = new_room roomID RoomTypeBoardLinkedGroup (in_Title inp) (in_BoardID inp) (in_UserID inp) now in
    bindP (env id_New) (\<lambda>memberID.
    let member = new_member memberID roomID (in_UserID inp) MemberRoleOwner now in
    bindP (tx svc
      (bindP (db (\<lambda>s. rp_CreateRoom (cs_repo svc) s room)) (\<lambda>_.
       bindP (db (\<lambda>s. rp_CreateMember (cs_repo svc) s member)) (\<lambda>_.
       ensurePassiveMember svc roomID (in_BoardOwnerUserID inp) (in_UserID inp) now)))) (\<lambda>_.
    ok \<lparr>en_Room = room, en_Member = member, en_AlreadyExists = False\<rparr>))))"

definition svc_GetOrCreateBoardChatRoom ::
  "'s ChatService \<Rightarrow> BoardChatRoomEntryInput \<Rightarrow> ('s world, error, BoardChatRoomEntry) prog" where
  "svc_GetOrCreateBoardChatRoom svc in0 =
    (let inp = \<lparr>in_UserID = TrimSpace (in_UserID in0), in_BoardID = TrimSpace (in_BoardID in0),
                in_BoardOwnerUserID = TrimSpace (in_BoardOwnerUserID in0), in_Title = TrimSpace (in_Title in0)\<rparr> in
     if in_UserID inp = [] \<or> in_BoardID inp = [] then fail ErrInvalidArgument
     else
      bindP (attempt (enterExistingBoardChatRoom svc inp)) (\<lambda>r.
      case r of
        Inr entry \<Rightarrow> ok (entry\<lparr>en_AlreadyExists := True\<rparr>)
      | Inl err \<Rightarrow>
         if err \<noteq> ErrNotFound then fail err
         else
          bindP (attempt (createBoardChatRoom svc inp)) (\<lambda>r.
          case r of
            Inr entry \<Rightarrow> ok entry
          | Inl err \<Rightarrow>
             if err = ErrAlreadyExists
             then bindP (enterExistingBoardChatRoom svc inp) (\<lambda>entry. ok (entry\<lparr>en_AlreadyExists := True\<rparr>))
             else fail err)))"

definition svc_JoinRoom :: "'s ChatService \<Rightarrow> string \<Rightarrow> string \<Rightarrow> ('s world, error, ChatRoomMember) prog" where
  "svc_JoinRoom svc roomID userID =
    bindP (view (\<lambda>s. rp_GetRoom (cs_repo svc) s roomID)) (\<lambda>room.
    if \<not> rm_IsActive room \<or> rm_DeletedAt room \<noteq> None then fail ErrRoomInactive
    else
     bindP (attempt (view (\<lambda>s. rp_GetMember (cs_repo svc) s roomID userID))) (\<lambda>r.
     if (case r of Inl err \<Rightarrow> err \<noteq> ErrNotFound | Inr _ \<Rightarrow> False) then fail (projl r)
     else
      bindP (env time_Now) (\<lambda>now.
      let create = bindP (env id_New) (\<lambda>i.
            let newMember = new_member i roomID userID MemberRoleMember now in
            bindP (db (\<lambda>s. rp_CreateMember (cs_repo svc) s newMember)) (\<lambda>_. ok newMember))
      in case r of
           Inl _ \<Rightarrow> create
         | Inr m \<Rightarrow>
            (case mb_Status m of
               MemberStatusRemoved \<Rightarrow> fail ErrRemovedCannotRejoin
             | MemberStatusActive \<Rightarrow> ok m
             | MemberStatusLeft \<Rightarrow>
                 bindP (db (\<lambda>s. rp_UpdateMember (cs_repo svc) s (rejoined now m))) (\<lambda>_. ok (rejoined now m))
             | MemberStatusOther _ \<Rightarrow> create))))"

definition departed :: "time \<Rightarrow> ChatRoomMember \<Rightarrow> ChatRoomMember" where
  "departed now m = m\<lparr>mb_Status := MemberStatusLeft, mb_LeftAt := Some now, mb_UpdatedAt := now,
     mb_Role := (if mb_Role m = MemberRoleOwner then MemberRoleMember else mb_Role m)\<rparr>"

definition closed_room :: "time \<Rightarrow> ChatRoom \<Rightarrow> ChatRoom" where
  "closed_room now r = r\<lparr>rm_IsActive := False, rm_DeletedAt := Some now, rm_UpdatedAt := now\<rparr>"

definition older_member :: "ChatRoomMember \<Rightarrow> ChatRoomMember \<Rightarrow> bool" where
  "older_member a b =
    (if mb_JoinedAt a = mb_JoinedAt b then mb_ID a < mb_ID b else mb_JoinedAt a < mb_JoinedAt b)"

definition svc_LeaveRoom ::
  "'s ChatService \<Rightarrow> string \<Rightarrow> string \<Rightarrow> ('s world, error, ChatRoomMember \<times> ChatRoom) prog" where
  "svc_LeaveRoom svc roomID userID =
    bindP (env time_Now) (\<lambda>now.
    tx svc
     (bindP (view (\<lambda>s. rp_GetRoom (cs_repo svc) s roomID)) (\<lambda>room.
      bindP (view (\<lambda>s. rp_GetMember (cs_repo svc) s roomID userID)) (\<lambda>member0.
      if mb_Status member0 \<noteq> MemberStatusActive then fail ErrInvalidState
      else
       let member = departed now member0 in
       bindP (db (\<lambda>s. rp_UpdateMember (cs_repo svc) s member)) (\<lambda>_.
       if rm_OwnerUserID room \<noteq> userID then ok (member, room)
       else
        bindP (view (\<lambda>s. rp_ListActiveMembersByJoinOrder (cs_repo svc) s roomID)) (\<lambda>activeMembers.
        case sort_stable older_member activeMembers of
          [] \<Rightarrow>
            let room' = closed_room now room in
            bindP (db (\<lambda>s. rp_UpdateRoom (cs_repo svc) s room')) (\<lambda>_. ok (member, room'))
        | first # _ \<Rightarrow>
            let newOwner = first\<lparr>mb_Role := MemberRoleOwner, mb_UpdatedAt := now\<rparr> in
            bindP (db (\<lambda>s. rp_UpdateMember (cs_repo svc) s newOwner)) (\<lambda>_.
            let room' = room\<lparr>rm_OwnerUserID := mb_UserID newOwner, rm_UpdatedAt := now\<rparr> in
            bindP (db (\<lambda>s. rp_UpdateRoom (cs_repo svc) s room')) (\<lambda>_. ok (member, room')))))))))"

definition expelled :: "time \<Rightarrow> string \<Rightarrow> ChatRoomMember \<Rightarrow> ChatRoomMember" where
  "expelled now owner m = m\<lparr>mb_Status := MemberStatusRemoved, mb_RemovedAt := Some now,
     mb_RemovedByUserID := owner, mb_LeftAt := None, mb_UpdatedAt := now\<rparr>"

definition svc_RemoveMember ::
  "'s ChatService \<Rightarrow> string \<Rightarrow> string \<Rightarrow> string \<Rightarrow> ('s world, error, ChatRoomMember) prog" where
  "svc_RemoveMember svc roomID ownerUserID targetUserID =
    (if targetUserID = ownerUserID then fail ErrPermissionDenied
     else
      bindP (env time_Now) (\<lambda>now.
      tx svc
       (bindP (view (\<lambda>s. rp_GetRoom (cs_repo svc) s roomID)) (\<lambda>room.
        if rm_OwnerUserID room \<noteq> ownerUserID then fail ErrPermissionDenied
        else if rm_OwnerUserID room = targetUserID then fail ErrPermissionDenied
        else
         bindP (view (\<lambda>s. rp_GetMember (cs_repo svc) s roomID targetUserID)) (\<lambda>target.
         bindP (db (\<lambda>s. rp_UpdateMember (cs_repo svc) s (expelled now ownerUserID target))) (\<lambda>_.
         ok (expelled now ownerUserID target)))))))"

definition svc_DeactivateRoom :: "'s ChatService \<Rightarrow> string \<Rightarrow> string \<Rightarrow> ('s world, error, ChatRoom) prog" where
  "svc_DeactivateRoom svc roomID ownerUserID =
    bindP (env time_Now) (\<lambda>now.
    bindP (view (\<lambda>s. rp_GetRoom (cs_repo svc) s roomID)) (\<lambda>room.
    if rm_OwnerUserID room \<noteq> ownerUserID then fail ErrPermissionDenied
    else
     let room' = closed_room now room in
     bindP (db (\<lambda>s. rp_UpdateRoom (cs_repo svc) s room')) (\<lambda>_. ok room')))"

lemmas room_operations [svc_simps] = svc_CreateRoom_def svc_CreateBoardLinkedRoom_def enterExistingBoardChatRoom_def
  createBoardChatRoom_def svc_GetOrCreateBoardChatRoom_def svc_JoinRoom_def svc_LeaveRoom_def
  svc_RemoveMember_def svc_DeactivateRoom_def

end
