(* ===== verification/GoCodec.thy ===== *)
theory GoCodec
  imports GoStrings
begin

text \<open>
  \<^verbatim>\<open>strconv\<close> in base ten and \<^verbatim>\<open>encoding/base64\<close>, with the round trips the page tokens of the
  repositories rely on.
\<close>

section \<open>Decimal numbers\<close>

definition digit_char :: "nat \<Rightarrow> char" where
  "digit_char d = char_of (48 + d)"

definition digit_val :: "char \<Rightarrow> nat option" where
  "digit_val c =
    (let n = (of_char c :: nat) in if 48 \<le> n \<and> n \<le> 57 then Some (n - 48) else None)"

fun dec_nat :: "nat \<Rightarrow> string" where
  "dec_nat n = (if n < 10 then [digit_char n] else dec_nat (n div 10) @ [digit_char (n mod 10)])"

declare dec_nat.simps [simp del]

text \<open>The verb \<^verbatim>\<open>%d\<close> of \<^verbatim>\<open>fmt.Sprintf\<close>.\<close>

definition FormatInt :: "int \<Rightarrow> string" where
  "FormatInt i = (if i < 0 then CHR ''-'' # dec_nat (nat (- i)) else dec_nat (nat i))"

fun parse_digits :: "nat \<Rightarrow> string \<Rightarrow> nat option" where
  "parse_digits acc [] = Some acc"
| "parse_digits acc (c # cs) =
     (case digit_val c of None \<Rightarrow> None | Some d \<Rightarrow> parse_digits (10 * acc + d) cs)"

text \<open>\<^verbatim>\<open>strconv.Atoi\<close> and \<^verbatim>\<open>strconv.ParseInt(s, 10, 64)\<close>: \<open>None\<close> is a syntax or a range error.\<close>

definition Atoi :: "string \<Rightarrow> int option" where
  "Atoi s =
    (let (neg, ds) = (case s of
           [] \<Rightarrow> (False, [])
         | c # cs \<Rightarrow> if c = CHR ''-'' then (True, cs) else if c = CHR ''+'' then (False, cs)
                    else (False, s))
     in if ds = [] then None
        else (case parse_digits 0 ds of
                None \<Rightarrow> None
              | Some n \<Rightarrow>
                  let i = (if neg then - int n else int n)
                  in if int64_range i then Some i else None))"

lemma digit_val_digit_char [simp]: "d < 10 \<Longrightarrow> digit_val (digit_char d) = Some d"
  by (simp add: digit_val_def digit_char_def Let_def)

lemma parse_digits_append:
  "parse_digits acc (xs @ ys) =
     (case parse_digits acc xs of None \<Rightarrow> None | Some n \<Rightarrow> parse_digits n ys)"
  by (induction xs arbitrary: acc) (auto split: option.split)

lemma parse_dec_nat [simp]: "parse_digits 0 (dec_nat n) = Some n"
proof (induction n rule: dec_nat.induct)
  case (1 n)
  show ?case
  proof (cases "n < 10")
    case True
    then show ?thesis by (simp add: dec_nat.simps [of n])
  next
    case False
    with 1 have "parse_digits 0 (dec_nat (n div 10)) = Some (n div 10)" by simp
    with False show ?thesis
      by (simp add: dec_nat.simps [of n] parse_digits_append)
  qed
qed

lemma digit_char_not_sign [simp]:
  "d < 10 \<Longrightarrow> digit_char d \<noteq> CHR ''-''" "d < 10 \<Longrightarrow> digit_char d \<noteq> CHR ''+''"
  "d < 10 \<Longrightarrow> digit_char d \<noteq> CHR ''|''"
  by (auto simp: digit_char_def dest!: arg_cong [where f = "of_char :: char \<Rightarrow> nat"])

lemma set_dec_nat: "set (dec_nat n) \<subseteq> digit_char ` {..<10}"
  by (induction n rule: dec_nat.induct) (subst dec_nat.simps, auto)

lemma dec_nat_Cons: obtains d cs where "dec_nat n = digit_char d # cs" and "d < 10"
proof -
  have "dec_nat n \<noteq> []" by (subst dec_nat.simps) simp
  then obtain c cs where c: "dec_nat n = c # cs" by (cases "dec_nat n") auto
  then have "c \<in> digit_char ` {..<10}" using set_dec_nat [of n] by auto
  with c that show thesis by auto
qed

text \<open>Printing a number and reading it back.\<close>

lemma Atoi_FormatInt: "int64_range i \<Longrightarrow> Atoi (FormatInt i) = Some i"
proof (cases "i < 0")
  case True
  assume r: "int64_range i"
  have "dec_nat (nat (- i)) \<noteq> []" by (subst dec_nat.simps) simp
  with True r show ?thesis by (simp add: Atoi_def FormatInt_def)
next
  case False
  assume r: "int64_range i"
  obtain d cs where "dec_nat (nat i) = digit_char d # cs" "d < 10" by (rule dec_nat_Cons)
  moreover have "parse_digits 0 (dec_nat (nat i)) = Some (nat i)" by simp
  ultimately show ?thesis using False r by (simp add: Atoi_def FormatInt_def)
qed

section \<open>Base64\<close>

definition b64_char :: "nat \<Rightarrow> char" where
  "b64_char v =
    (if v < 26 then char_of (65 + v) else if v < 52 then char_of (71 + v)
     else if v < 62 then char_of (v - 4) else if v = 62 then CHR ''+'' else CHR ''/'')"

definition b64_val :: "char \<Rightarrow> nat option" where
  "b64_val c =
    (let n = (of_char c :: nat) in
     if 65 \<le> n \<and> n \<le> 90 then Some (n - 65) else if 97 \<le> n \<and> n \<le> 122 then Some (n - 71)
     else if 48 \<le> n \<and> n \<le> 57 then Some (n + 4)
     else if c = CHR ''+'' then Some 62 else if c = CHR ''/'' then Some 63 else None)"

text \<open>\<^verbatim>\<open>StdEncoding.EncodeToString\<close>, on the byte values.\<close>

fun b64_encode :: "nat list \<Rightarrow> string" where
  "b64_encode [] = []"
| "b64_encode [a] = [b64_char (a div 4), b64_char ((a mod 4) * 16), CHR ''='', CHR ''='']"
| "b64_encode [a, b] =
     [b64_char (a div 4), b64_char ((a mod 4) * 16 + b div 16), b64_char ((b mod 16) * 4), CHR ''='']"
| "b64_encode (a # b # c # rest) =
     b64_char (a div 4) # b64_char ((a mod 4) * 16 + b div 16)
     # b64_char ((b mod 16) * 4 + c div 64) # b64_char (c mod 64) # b64_encode rest"

definition EncodeToString :: "string \<Rightarrow> string" where
  "EncodeToString s = b64_encode (map of_char s)"

text \<open>
  \<^verbatim>\<open>StdEncoding.DecodeString\<close>: carriage returns and line feeds are skipped, padding is required
  and may only end the input, and the unused bits of the last quantum are ignored.
\<close>

fun b64_decode :: "string \<Rightarrow> nat list option" where
  "b64_decode [] = Some []"
| "b64_decode (c1 # c2 # c3 # c4 # rest) =
    (case (b64_val c1, b64_val c2) of
       (Some a, Some b) \<Rightarrow>
         (if c3 = CHR ''='' then
            (if c4 = CHR ''='' \<and> rest = [] then Some [a * 4 + b div 16] else None)
          else case b64_val c3 of
            None \<Rightarrow> None
          | Some c \<Rightarrow>
             (if c4 = CHR ''='' then
                (if rest = [] then Some [a * 4 + b div 16, (b mod 16) * 16 + c div 4] else None)
              else case b64_val c4 of
                None \<Rightarrow> None
              | Some d \<Rightarrow>
                 map_option (\<lambda>r. (a * 4 + b div 16) # ((b mod 16) * 16 + c div 4)
                                   # ((c mod 4) * 64 + d) # r) (b64_decode rest)))
     | _ \<Rightarrow> None)"
| "b64_decode _ = None"

definition DecodeString :: "string \<Rightarrow> string option" where
  "DecodeString s =
    map_option bytes (b64_decode (filter (\<lambda>c. c \<noteq> CHR 0x0D \<and> c \<noteq> CHR 0x0A) s))"

lemma b64_val_char: "v < 64 \<Longrightarrow> b64_val (b64_char v) = Some v"
  by (auto simp: b64_char_def b64_val_def Let_def)

lemma b64_char_chars:
  assumes "v < 64"
  shows "b64_val (b64_char v) = Some v" "b64_char v \<noteq> CHR ''=''"
    "b64_char v \<noteq> CHR 0x0D" "b64_char v \<noteq> CHR 0x0A"
proof -
  note v = b64_val_char [OF assms]
  show "b64_val (b64_char v) = Some v" by (rule v)
  have "b64_val (CHR ''='') = None" "b64_val (CHR 0x0D) = None" "b64_val (CHR 0x0A) = None"
    by (simp_all add: b64_val_def)
  with v show "b64_char v \<noteq> CHR ''=''" "b64_char v \<noteq> CHR 0x0D" "b64_char v \<noteq> CHR 0x0A"
    by (metis option.distinct(1))+
qed

lemma quantum16: "(y::nat) < 16 \<Longrightarrow> (x * 16 + y) div 16 = x \<and> (x * 16 + y) mod 16 = y"
  by simp

lemma quantum4: "(y::nat) < 4 \<Longrightarrow> (x * 4 + y) div 4 = x \<and> (x * 4 + y) mod 4 = y"
  by simp

text \<open>The sextets of a group of three bytes.\<close>

lemma sextets:
  fixes a b c :: nat
  assumes "a < 256" "b < 256" "c < 256"
  shows "a div 4 < 64" "(a mod 4) * 16 + b div 16 < 64" "(b mod 16) * 4 + c div 64 < 64"
    "c mod 64 < 64" "(a mod 4) * 16 < 64" "(b mod 16) * 4 < 64"
    "((a mod 4) * 16 + b div 16) div 16 = a mod 4"
    "((a mod 4) * 16 + b div 16) mod 16 = b div 16"
    "((b mod 16) * 4 + c div 64) div 4 = b mod 16"
    "((b mod 16) * 4 + c div 64) mod 4 = c div 64" "b div 16 < 16"
proof -
  have d: "b div 16 < 16" "c div 64 < 4" "a mod 4 < 4" "b mod 16 < 16"
    using assms by (simp_all add: less_mult_imp_div_less)
  show "b div 16 < 16" by (rule d)
  show "a div 4 < 64" using assms by (simp add: less_mult_imp_div_less)
  show "(a mod 4) * 16 + b div 16 < 64" "(b mod 16) * 4 + c div 64 < 64"
    "(a mod 4) * 16 < 64" "(b mod 16) * 4 < 64" "c mod 64 < 64"
    using d by simp_all
  show "((a mod 4) * 16 + b div 16) div 16 = a mod 4" "((a mod 4) * 16 + b div 16) mod 16 = b div 16"
    using quantum16 [OF d(1)] by auto
  show "((b mod 16) * 4 + c div 64) div 4 = b mod 16" "((b mod 16) * 4 + c div 64) mod 4 = c div 64"
    using quantum4 [OF d(2)] by auto
qed

lemma b64_roundtrip: "\<forall>x \<in> set xs. x < 256 \<Longrightarrow> b64_decode (b64_encode xs) = Some xs"
proof (induction xs rule: b64_encode.induct)
  case (2 a)
  then show ?case using sextets [of a 0 0] by (simp add: b64_char_chars)
next
  case (3 a b)
  then show ?case using sextets [of a b 0] by (simp add: b64_char_chars)
next
  case (4 a b c rest)
  then show ?case using sextets [of a b c] by (simp add: b64_char_chars)
qed simp

lemma b64_encode_no_newline:
  "\<forall>x \<in> set xs. x < 256 \<Longrightarrow> \<forall>c \<in> set (b64_encode xs). c \<noteq> CHR 0x0D \<and> c \<noteq> CHR 0x0A"
proof (induction xs rule: b64_encode.induct)
  case (2 a)
  then show ?case using sextets [of a 0 0] by (simp add: b64_char_chars)
next
  case (3 a b)
  then show ?case using sextets [of a b 0] by (simp add: b64_char_chars)
next
  case (4 a b c rest)
  then show ?case using sextets [of a b c] by (simp add: b64_char_chars)
qed simp

text \<open>Decoding what was encoded gives the string back.\<close>

lemma DecodeString_EncodeToString: "DecodeString (EncodeToString s) = Some s"
proof -
  have b: "\<forall>x \<in> set (map of_char s). (x :: nat) < 256" by auto
  have "filter (\<lambda>c. c \<noteq> CHR 0x0D \<and> c \<noteq> CHR 0x0A) (b64_encode (map of_char s))
      = b64_encode (map of_char s)"
    using b64_encode_no_newline [OF b] by (intro filter_True) blast
  then show ?thesis
    by (simp add: DecodeString_def EncodeToString_def b64_roundtrip [OF b] bytes_def comp_def)
qed

end
