(* ===== verification/MemoryStore.thy ===== *)
theory MemoryStore
  imports Repository GoCodec
begin

text \<open>
  Package \<^verbatim>\<open>internal/repository/memory\<close>: the in-memory \<^verbatim>\<open>Store\<close>. The maps are Go maps, a \<open>range\<close> loop
  visits them in list order. The interpretation at the end shows that the store refines the
  abstract store of \<^verbatim>\<open>Repository\<close>, so everything proved of the service against the contract holds for
  the service on this store. \<^verbatim>\<open>WithTx\<close> takes the lock and runs the body; it does not roll back.
\<close>

section \<open>State\<close>

record Store =
  st_rooms :: "(string, ChatRoom) gomap"
  st_members :: "(string, (string, ChatRoomMember) gomap) gomap"
  st_messages :: "(string, (string, ChatMessage) gomap) gomap"
  st_devices :: "(string, (string, DeviceToken) gomap) gomap"
  st_maxSeq :: "(string, int) gomap"

definition NewStore :: Store where
  "NewStore = \<lparr>st_rooms = [], st_members = [], st_messages = [], st_devices = [], st_maxSeq = []\<rparr>"

definition mem_WithTx :: "('w, error, 'a) prog \<Rightarrow> ('w, error, 'a) prog" where
  "mem_WithTx fn w = fn w"

section \<open>Rooms\<close>

definition mem_CreateRoom :: "Store \<Rightarrow> ChatRoom \<Rightarrow> (error + unit) \<times> Store" where
  "mem_CreateRoom s room =
    (if map_of (st_rooms s) (rm_ID room) \<noteq> None then (Inl ErrAlreadyExists, s)
     else if rm_RoomType room = RoomTypeBoardLinkedGroup \<and> rm_LinkedBoardID room \<noteq> []
             \<and> rm_IsActive room \<and> rm_DeletedAt room = None
             \<and> list_ex (\<lambda>r. rm_RoomType r = RoomTypeBoardLinkedGroup
                  \<and> rm_LinkedBoardID r = rm_LinkedBoardID room
                  \<and> rm_IsActive r \<and> rm_DeletedAt r = None) (vals (st_rooms s))
     then (Inl ErrAlreadyExists, s)
     else (Inr (), s\<lparr>st_rooms := AList.update (rm_ID room) room (st_rooms s)\<rparr>))"

definition mem_GetRoom :: "Store \<Rightarrow> string \<Rightarrow> error + ChatRoom" where
  "mem_GetRoom s roomID =
    (case map_of (st_rooms s) roomID of None \<Rightarrow> Inl ErrNotFound | Some room \<Rightarrow> Inr room)"

definition mem_GetActiveBoardLinkedRoom :: "Store \<Rightarrow> string \<Rightarrow> error + ChatRoom" where
  "mem_GetActiveBoardLinkedRoom s boardID =
    (case find (\<lambda>room. rm_RoomType room = RoomTypeBoardLinkedGroup \<and> rm_LinkedBoardID room = boardID
                  \<and> rm_IsActive room \<and> rm_DeletedAt room = None) (vals (st_rooms s)) of
       Some room \<Rightarrow> Inr room
     | None \<Rightarrow> Inl ErrNotFound)"

definition mem_UpdateRoom :: "Store \<Rightarrow> ChatRoom \<Rightarrow> (error + unit) \<times> Store" where
  "mem_UpdateRoom s room =
    (if map_of (st_rooms s) (rm_ID room) = None then (Inl ErrNotFound, s)
     else (Inr (), s\<lparr>st_rooms := AList.update (rm_ID room) room (st_rooms s)\<rparr>))"

text \<open>The loop over the messages of a room that counts the unread ones and finds the last one.\<close>

definition redact_preview :: "ChatMessage \<Rightarrow> ChatMessage" where
  "redact_preview msg =
    (if mg_IsDeleted msg then msg\<lparr>mg_Content := [], mg_ImageURL := [], mg_Metadata := None\<rparr> else msg)"

fun scan_messages :: "string \<Rightarrow> int \<Rightarrow> ChatMessage list \<Rightarrow> int \<times> ChatMessage option \<Rightarrow> int \<times> ChatMessage option" where
  "scan_messages userID lastRead [] (unread, lst) = (unread, lst)"
| "scan_messages userID lastRead (msg # msgs) (unread, lst) =
     scan_messages userID lastRead msgs
       ((if lastRead < mg_SequenceNo msg \<and> mg_SenderUserID msg \<noteq> userID then unread + 1 else unread),
        (case lst of
           None \<Rightarrow> Some (redact_preview msg)
         | Some l \<Rightarrow> if mg_SequenceNo l < mg_SequenceNo msg then Some (redact_preview msg) else lst))"

definition room_summary :: "Store \<Rightarrow> string \<Rightarrow> string \<times> (string, ChatRoomMember) gomap \<Rightarrow> ChatRoomSummary option" where
  "room_summary s userID e =
    (case map_of (snd e) userID of
       None \<Rightarrow> None
     | Some m \<Rightarrow>
        if mb_Status m \<noteq> MemberStatusActive then None
        else (case map_of (st_rooms s) (fst e) of
                None \<Rightarrow> None
              | Some room \<Rightarrow>
                 (case scan_messages userID (mb_LastReadSequenceNo m)
                         (vals (inner (st_messages s) (fst e))) (0, None) of
                    (unread, lst) \<Rightarrow>
                      Some \<lparr>sm_Room = room, sm_LastMessage = lst, sm_UnreadCnt = unread\<rparr>)))"

definition mem_page_start :: "string \<Rightarrow> int" where
  "mem_page_start pageToken =
    (if pageToken = [] then 0
     else case DecodeString pageToken of
            None \<Rightarrow> 0
          | Some d \<Rightarrow> (case Atoi d of None \<Rightarrow> 0 | Some idx \<Rightarrow> if 0 \<le> idx then idx else 0))"

definition mem_ListRoomsByUser :: "Store \<Rightarrow> string \<Rightarrow> int \<Rightarrow> string \<Rightarrow> error + (ChatRoomSummary list \<times> string)" where
  "mem_ListRoomsByUser s userID limit0 pageToken =
    (let limit = (if limit0 \<le> 0 then 20 else limit0);
         rooms = sort_stable (\<lambda>a b. rm_UpdatedAt (sm_Room b) < rm_UpdatedAt (sm_Room a))
                   (List.map_filter (room_summary s userID) (st_members s));
         n = int (length rooms);
         start = mem_page_start pageToken
     in if n \<le> start then Inr ([], [])
        else (let end0 = wrap64 (start + limit);
                  end1 = (if n < end0 then n else end0);
                  nextToken = (if end1 < n then EncodeToString (FormatInt end1) else [])
              in if end1 < start then Inl (ErrOther ''runtime error: slice bounds out of range'')
                 else Inr (take (nat (end1 - start)) (drop (nat start) rooms), nextToken)))"

section \<open>Members\<close>

definition mem_GetMember :: "Store \<Rightarrow> string \<Rightarrow> string \<Rightarrow> error + ChatRoomMember" where
  "mem_GetMember s roomID userID =
    (case map_of (st_members s) roomID of
       None \<Rightarrow> Inl ErrNotFound
     | Some roomMembers \<Rightarrow>
        (case map_of roomMembers userID of None \<Rightarrow> Inl ErrNotFound | Some m \<Rightarrow> Inr m))"

definition mem_CreateMember :: "Store \<Rightarrow> ChatRoomMember \<Rightarrow> (error + unit) \<times> Store" where
  "mem_CreateMember s member =
    (let members = (if map_of (st_members s) (mb_RoomID member) = None
                    then AList.update (mb_RoomID member) [] (st_members s) else st_members s)
     in if map_of (inner members (mb_RoomID member)) (mb_UserID member) \<noteq> None
        then (Inl ErrAlreadyExists, s\<lparr>st_members := members\<rparr>)
        else (Inr (), s\<lparr>st_members := update2 (mb_RoomID member) (mb_UserID member) member members\<rparr>))"

definition mem_UpdateMember :: "Store \<Rightarrow> ChatRoomMember \<Rightarrow> (error + unit) \<times> Store" where
  "mem_UpdateMember s member =
    (case map_of (st_members s) (mb_RoomID member) of
       None \<Rightarrow> (Inl ErrNotFound, s)
     | Some roomMembers \<Rightarrow>
        if map_of roomMembers (mb_UserID member) = None then (Inl ErrNotFound, s)
        else (Inr (), s\<lparr>st_members := update2 (mb_RoomID member) (mb_UserID member) member (st_members s)\<rparr>))"

definition joined_before :: "ChatRoomMember \<Rightarrow> ChatRoomMember \<Rightarrow> bool" where
  "joined_before a b =
    (if mb_JoinedAt a = mb_JoinedAt b then mb_ID a < mb_ID b else mb_JoinedAt a < mb_JoinedAt b)"

definition mem_ListActiveMembersByJoinOrder :: "Store \<Rightarrow> string \<Rightarrow> error + ChatRoomMember list" where
  "mem_ListActiveMembersByJoinOrder s roomID =
    (case map_of (st_members s) roomID of
       None \<Rightarrow> Inr []
     | Some roomMembers \<Rightarrow>
        Inr (sort_stable joined_before
              (filter (\<lambda>m. mb_Status m = MemberStatusActive) (vals roomMembers))))"

section \<open>Messages\<close>

definition max_seq :: "Store \<Rightarrow> string \<Rightarrow> int" where
  "max_seq s roomID = (case map_of (st_maxSeq s) roomID of None \<Rightarrow> 0 | Some n \<Rightarrow> n)"

definition mem_CreateMessageWithNextSequence :: "Store \<Rightarrow> ChatMessage \<Rightarrow> (error + ChatMessage) \<times> Store" where
  "mem_CreateMessageWithNextSequence s msg =
    (if map_of (st_rooms s) (mg_RoomID msg) = None then (Inl ErrNotFound, s)
     else (let seq = wrap64 (max_seq s (mg_RoomID msg) + 1);
               msg' = msg\<lparr>mg_SequenceNo := seq\<rparr>
           in (Inr msg',
               s\<lparr>st_maxSeq := AList.update (mg_RoomID msg) seq (st_maxSeq s),
                 st_messages := update2 (mg_RoomID msg) (mg_ID msg) msg' (st_messages s)\<rparr>)))"

definition mem_GetMessage :: "Store \<Rightarrow> string \<Rightarrow> string \<Rightarrow> error + ChatMessage" where
  "mem_GetMessage s roomID messageID =
    (case map_of (st_messages s) roomID of
       None \<Rightarrow> Inl ErrNotFound
     | Some roomMsgs \<Rightarrow>
        (case map_of roomMsgs messageID of None \<Rightarrow> Inl ErrNotFound | Some msg \<Rightarrow> Inr msg))"

definition mem_UpdateMessage :: "Store \<Rightarrow> ChatMessage \<Rightarrow> (error + unit) \<times> Store" where
  "mem_UpdateMessage s msg =
    (case map_of (st_messages s) (mg_RoomID msg) of
       None \<Rightarrow> (Inl ErrNotFound, s)
     | Some roomMsgs \<Rightarrow>
        if map_of roomMsgs (mg_ID msg) = None then (Inl ErrNotFound, s)
        else (Inr (), s\<lparr>st_messages := update2 (mg_RoomID msg) (mg_ID msg) msg (st_messages s)\<rparr>))"

definition mem_ListMessagesBefore :: "Store \<Rightarrow> string \<Rightarrow> int \<Rightarrow> int \<Rightarrow> error + (ChatMessage list \<times> int)" where
  "mem_ListMessagesBefore s roomID beforeSequence limit0 =
    (case map_of (st_messages s) roomID of
       None \<Rightarrow> Inr ([], 0)
     | Some roomMsgs \<Rightarrow>
        (let limit = (if limit0 \<le> 0 then 50 else limit0);
             all = sort_stable (\<lambda>a b. mg_SequenceNo b < mg_SequenceNo a)
                     (filter (\<lambda>msg. \<not> (0 < beforeSequence \<and> beforeSequence \<le> mg_SequenceNo msg))
                       (vals roomMsgs))
         in if int (length all) \<le> limit then Inr (all, 0)
            else (let page = take (nat limit) all
                  in Inr (page, mg_SequenceNo (page ! (length page - 1))))))"

definition mem_ListMessagesAfter :: "Store \<Rightarrow> string \<Rightarrow> int \<Rightarrow> int \<Rightarrow> error + ChatMessage list" where
  "mem_ListMessagesAfter s roomID afterSequence limit0 =
    (case map_of (st_messages s) roomID of
       None \<Rightarrow> Inr []
     | Some roomMsgs \<Rightarrow>
        (let limit = (if limit0 \<le> 0 then 100 else limit0);
             all = sort_stable (\<lambda>a b. mg_SequenceNo a < mg_SequenceNo b)
                     (filter (\<lambda>msg. \<not> mg_SequenceNo msg \<le> afterSequence) (vals roomMsgs))
         in if limit < int (length all) then Inr (take (nat limit) all) else Inr all))"

section \<open>Device tokens\<close>

text \<open>The body of the double loop of \<^verbatim>\<open>UpsertDeviceToken\<close>.\<close>

definition mem_release :: "DeviceToken \<Rightarrow> string \<Rightarrow> string \<times> DeviceToken \<Rightarrow> string \<times> DeviceToken" where
  "mem_release token userID e =
    (let deviceID = fst e; existing = snd e in
     if dt_Token existing \<noteq> dt_Token token \<or> (userID = dt_UserID token \<and> deviceID = dt_DeviceID token)
     then (deviceID, existing)
     else (deviceID, existing\<lparr>dt_IsActive := False, dt_UpdatedAt := dt_UpdatedAt token,
                              dt_UnregisteredAt := Some (dt_UpdatedAt token)\<rparr>))"

definition mem_UpsertDeviceToken :: "Store \<Rightarrow> DeviceToken \<Rightarrow> (error + DeviceToken) \<times> Store" where
  "mem_UpsertDeviceToken s token =
    (let devices = map (\<lambda>(userID, userDevices). (userID, map (mem_release token userID) userDevices))
                     (st_devices s);
         token1 = (case map_of (inner devices (dt_UserID token)) (dt_DeviceID token) of
                     Some existing \<Rightarrow> (if dt_CreatedAt existing \<noteq> time_zero
                                       then token\<lparr>dt_CreatedAt := dt_CreatedAt existing\<rparr> else token)
                   | None \<Rightarrow> token);
         token2 = token1\<lparr>dt_IsActive := True, dt_UnregisteredAt := None\<rparr>
     in (Inr token2,
         s\<lparr>st_devices := update2 (dt_UserID token) (dt_DeviceID token) token2 devices\<rparr>))"

definition mem_DeactivateDeviceToken :: "Store \<Rightarrow> string \<Rightarrow> string \<Rightarrow> time \<Rightarrow> (error + unit) \<times> Store" where
  "mem_DeactivateDeviceToken s userID deviceID now =
    (case map_of (st_devices s) userID of
       None \<Rightarrow> (Inr (), s)
     | Some userDevices \<Rightarrow>
        (case map_of userDevices deviceID of
           None \<Rightarrow> (Inr (), s)
         | Some token \<Rightarrow>
            (Inr (), s\<lparr>st_devices := update2 userID deviceID
               (token\<lparr>dt_IsActive := False, dt_UpdatedAt := now, dt_UnregisteredAt := Some now\<rparr>)
               (st_devices s)\<rparr>)))"

definition mem_ListActiveDeviceTokensByUserIDs :: "Store \<Rightarrow> string list \<Rightarrow> error + DeviceToken list" where
  "mem_ListActiveDeviceTokensByUserIDs s userIDs =
    Inr (sort_stable
      (\<lambda>a b. if dt_UserID a = dt_UserID b then dt_DeviceID a < dt_DeviceID b
             else dt_UserID a < dt_UserID b)
      (concat (map (\<lambda>userID. filter (\<lambda>token. dt_IsActive token \<and> TrimSpace (dt_Token token) \<noteq> [])
                              (vals (inner (st_devices s) userID))) userIDs)))"

section \<open>The store as a repository\<close>

definition memory_repo :: "Store ChatRepository" where
  "memory_repo = \<lparr>
     rp_rollback = (\<lambda>before at_failure. at_failure),
     rp_CreateRoom = mem_CreateRoom, rp_GetRoom = mem_GetRoom,
     rp_GetActiveBoardLinkedRoom = mem_GetActiveBoardLinkedRoom, rp_UpdateRoom = mem_UpdateRoom,
     rp_ListRoomsByUser = mem_ListRoomsByUser, rp_GetMember = mem_GetMember,
     rp_CreateMember = mem_CreateMember, rp_UpdateMember = mem_UpdateMember,
     rp_ListActiveMembersByJoinOrder = mem_ListActiveMembersByJoinOrder,
     rp_CreateMessageWithNextSequence = mem_CreateMessageWithNextSequence,
     rp_GetMessage = mem_GetMessage, rp_UpdateMessage = mem_UpdateMessage,
     rp_ListMessagesBefore = mem_ListMessagesBefore, rp_ListMessagesAfter = mem_ListMessagesAfter,
     rp_UpsertDeviceToken = mem_UpsertDeviceToken,
     rp_DeactivateDeviceToken = mem_DeactivateDeviceToken,
     rp_ListActiveDeviceTokensByUserIDs = mem_ListActiveDeviceTokensByUserIDs\<rparr>"

lemma memory_repo_simps [simp]:
  "rp_rollback memory_repo b f = f"
  "rp_CreateRoom memory_repo = mem_CreateRoom" "rp_GetRoom memory_repo = mem_GetRoom"
  "rp_GetActiveBoardLinkedRoom memory_repo = mem_GetActiveBoardLinkedRoom"
  "rp_UpdateRoom memory_repo = mem_UpdateRoom"
  "rp_ListRoomsByUser memory_repo = mem_ListRoomsByUser"
  "rp_GetMember memory_repo = mem_GetMember" "rp_CreateMember memory_repo = mem_CreateMember"
  "rp_UpdateMember memory_repo = mem_UpdateMember"
  "rp_ListActiveMembersByJoinOrder memory_repo = mem_ListActiveMembersByJoinOrder"
  "rp_CreateMessageWithNextSequence memory_repo = mem_CreateMessageWithNextSequence"
  "rp_GetMessage memory_repo = mem_GetMessage" "rp_UpdateMessage memory_repo = mem_UpdateMessage"
  "rp_ListMessagesBefore memory_repo = mem_ListMessagesBefore"
  "rp_ListMessagesAfter memory_repo = mem_ListMessagesAfter"
  "rp_UpsertDeviceToken memory_repo = mem_UpsertDeviceToken"
  "rp_DeactivateDeviceToken memory_repo = mem_DeactivateDeviceToken"
  "rp_ListActiveDeviceTokensByUserIDs memory_repo = mem_ListActiveDeviceTokensByUserIDs"
  by (simp_all add: memory_repo_def)

lemma WithTx_memory:
  assumes "\<And>w. put (get w) w = w"
  shows "WithTx memory_repo get put fn = mem_WithTx fn"
  using assms by (intro ext) (simp add: WithTx_def mem_WithTx_def split: prod.split sum.split)

section \<open>Refinement of the abstract store\<close>

definition mem_abs :: "Store \<Rightarrow> astore" where
  "mem_abs s = \<lparr>a_rooms = map_of (st_rooms s),
     a_members = (\<lambda>rid. map_of (inner (st_members s) rid)),
     a_messages = (\<lambda>rid. map_of (inner (st_messages s) rid)),
     a_maxSeq = max_seq s,
     a_devices = (\<lambda>uid. map_of (inner (st_devices s) uid))\<rparr>"

text \<open>The representation invariant: keys are unique and agree with the identifiers stored.\<close>

definition mem_inv :: "Store \<Rightarrow> bool" where
  "mem_inv s \<longleftrightarrow> wf_map (st_rooms s) \<and> keyed rm_ID (st_rooms s)
     \<and> wf_map2 (st_members s) \<and> keyed2 mb_RoomID mb_UserID (st_members s)
     \<and> wf_map2 (st_messages s) \<and> keyed2 mg_RoomID mg_ID (st_messages s)
     \<and> wf_map2 (st_devices s) \<and> keyed2 dt_UserID dt_DeviceID (st_devices s)
     \<and> wf_map (st_maxSeq s)"

lemma mem_abs_sel [simp]:
  "a_rooms (mem_abs s) = map_of (st_rooms s)"
  "a_members (mem_abs s) rid = map_of (inner (st_members s) rid)"
  "a_messages (mem_abs s) rid = map_of (inner (st_messages s) rid)"
  "a_maxSeq (mem_abs s) = max_seq s"
  "a_devices (mem_abs s) uid = map_of (inner (st_devices s) uid)"
  by (simp_all add: mem_abs_def)

lemma mem_invD:
  assumes "mem_inv s"
  shows "wf_map (st_rooms s)" "keyed rm_ID (st_rooms s)"
    "wf_map (inner (st_members s) k)" "keyed2 mb_RoomID mb_UserID (st_members s)"
    "wf_map (inner (st_messages s) k)" "keyed2 mg_RoomID mg_ID (st_messages s)"
    "wf_map (inner (st_devices s) k)" "keyed2 dt_UserID dt_DeviceID (st_devices s)"
  using assms by (auto simp: mem_inv_def)

lemma mem_inv_NewStore: "mem_inv NewStore"
  by (simp add: mem_inv_def NewStore_def)

lemma case_map_of_inner:
  "(case map_of m k of None \<Rightarrow> Inl e | Some x \<Rightarrow> (case map_of x i of None \<Rightarrow> Inl e | Some v \<Rightarrow> Inr v))
   = lookup_or e (map_of (inner m k) i)"
  by (simp add: inner_def lookup_or_def split: option.split)

lemma max_seq_frame [simp]:
  "max_seq (s\<lparr>st_rooms := a\<rparr>) = max_seq s" "max_seq (s\<lparr>st_members := b\<rparr>) = max_seq s"
  "max_seq (s\<lparr>st_messages := c\<rparr>) = max_seq s" "max_seq (s\<lparr>st_devices := d\<rparr>) = max_seq s"
  by (simp_all add: max_seq_def fun_eq_iff)

text \<open>Each kind of write keeps the invariant and is the abstract write.\<close>

lemma mem_inv_write:
  assumes "mem_inv s"
  shows "mem_inv (s\<lparr>st_rooms := AList.update (rm_ID r) r (st_rooms s)\<rparr>)"
    "mem_inv (s\<lparr>st_members := update2 (mb_RoomID m) (mb_UserID m) m (st_members s)\<rparr>)"
    "mem_inv (s\<lparr>st_messages := update2 (mg_RoomID g) (mg_ID g) g (st_messages s)\<rparr>)"
    "mem_inv (s\<lparr>st_maxSeq := AList.update k n (st_maxSeq s)\<rparr>)"
    "mem_inv (s\<lparr>st_members := AList.update k [] (st_members s)\<rparr>)"
  using assms by (simp_all add: mem_inv_def keyed2_update_Nil wf_map2_update)

lemma mem_abs_write:
  "mem_abs (s\<lparr>st_rooms := AList.update k r (st_rooms s)\<rparr>) =
     (mem_abs s)\<lparr>a_rooms := (map_of (st_rooms s))(k \<mapsto> r)\<rparr>"
  "mem_abs (s\<lparr>st_members := update2 (mb_RoomID m) (mb_UserID m) m (st_members s)\<rparr>) =
     put_member m (mem_abs s)"
  "mem_abs (s\<lparr>st_messages := update2 (mg_RoomID g) (mg_ID g) g (st_messages s)\<rparr>) =
     put_message g (mem_abs s)"
  by (simp_all add: mem_abs_def put_member_def put_message_def max_seq_def fun_eq_iff)

lemma mem_CreateRoom_refines:
  assumes "mem_inv s" "mem_CreateRoom s r = (x, s')"
  shows "mem_inv s' \<and> spec_CreateRoom r (mem_abs s) = (x, mem_abs s')"
proof -
  have ex: "list_ex P (vals (st_rooms s)) \<longleftrightarrow> (\<exists>r' \<in> ran (map_of (st_rooms s)). P r')" for P
    using set_values_map_of [OF mem_invD(1) [OF assms(1)]] by (simp add: list_ex_iff)
  show ?thesis
  proof (cases "map_of (st_rooms s) (rm_ID r) \<noteq> None \<or> board_room (rm_LinkedBoardID r) r
      \<and> rm_LinkedBoardID r \<noteq> [] \<and> (\<exists>r' \<in> ran (map_of (st_rooms s)). board_room (rm_LinkedBoardID r) r')")
    case True
    then have "x = Inl ErrAlreadyExists" "s' = s"
      using assms(2) by (auto simp: mem_CreateRoom_def ex board_room_def room_open_def split: if_splits)
    then show ?thesis using True assms(1) by (auto simp: spec_CreateRoom_def)
  next
    case False
    then have "x = Inr ()" "s' = s\<lparr>st_rooms := AList.update (rm_ID r) r (st_rooms s)\<rparr>"
      using assms(2) by (auto simp: mem_CreateRoom_def ex board_room_def room_open_def split: if_splits)
    then show ?thesis
      using False mem_inv_write(1) [OF assms(1)] by (simp add: spec_CreateRoom_def mem_abs_write)
  qed
qed

lemma mem_UpdateRoom_refines:
  "mem_inv s \<Longrightarrow> mem_UpdateRoom s r = (x, s') \<Longrightarrow>
   mem_inv s' \<and> spec_UpdateRoom r (mem_abs s) = (x, mem_abs s')"
  by (auto simp: mem_UpdateRoom_def spec_UpdateRoom_def mem_inv_write mem_abs_write split: if_splits)

lemma inner_update_Nil: "map_of m k = None \<Longrightarrow> inner (AList.update k [] m) = inner m"
  by (rule ext) (simp add: inner_def)

lemma update2_update_Nil:
  "map_of m k = None \<Longrightarrow> mem_abs (s\<lparr>st_members := AList.update k [] m\<rparr>) = mem_abs (s\<lparr>st_members := m\<rparr>)"
  by (simp add: mem_abs_def inner_update_Nil)

lemma mem_CreateMember_refines:
  assumes "mem_inv s" "mem_CreateMember s m = (x, s')"
  shows "mem_inv s' \<and> spec_CreateMember m (mem_abs s) = (x, mem_abs s')"
proof -
  define t where "t = (if map_of (st_members s) (mb_RoomID m) = None
    then s\<lparr>st_members := AList.update (mb_RoomID m) [] (st_members s)\<rparr> else s)"
  have t: "mem_inv t" "mem_abs t = mem_abs s"
    using assms(1) mem_inv_write(5) [OF assms(1)] update2_update_Nil [of "st_members s" "mb_RoomID m" s]
    by (simp_all add: t_def)
  have "(x, s') = (if map_of (inner (st_members t) (mb_RoomID m)) (mb_UserID m) \<noteq> None
    then (Inl ErrAlreadyExists, t)
    else (Inr (), t\<lparr>st_members := update2 (mb_RoomID m) (mb_UserID m) m (st_members t)\<rparr>))"
    using assms(2) by (auto simp: mem_CreateMember_def t_def Let_def split: if_splits)
  moreover have "a_members (mem_abs t) = a_members (mem_abs s)" by (simp only: t)
  then have "map_of (inner (st_members t) (mb_RoomID m)) = map_of (inner (st_members s) (mb_RoomID m))"
    by (metis mem_abs_sel(2))
  ultimately show ?thesis using t mem_inv_write(2) [OF t(1)]
    by (auto simp: spec_CreateMember_def mem_abs_write split: if_splits)
qed

lemma mem_UpdateMember_alt:
  "mem_UpdateMember s m =
    (if map_of (inner (st_members s) (mb_RoomID m)) (mb_UserID m) = None then (Inl ErrNotFound, s)
     else (Inr (), s\<lparr>st_members := update2 (mb_RoomID m) (mb_UserID m) m (st_members s)\<rparr>))"
  by (cases "map_of (st_members s) (mb_RoomID m)") (simp_all add: mem_UpdateMember_def inner_def)

lemma mem_UpdateMember_refines:
  "mem_inv s \<Longrightarrow> mem_UpdateMember s m = (x, s') \<Longrightarrow>
   mem_inv s' \<and> spec_UpdateMember m (mem_abs s) = (x, mem_abs s')"
  by (auto simp: mem_UpdateMember_alt spec_UpdateMember_def mem_inv_write mem_abs_write split: if_splits)

lemma mem_UpdateMessage_alt:
  "mem_UpdateMessage s m =
    (if map_of (inner (st_messages s) (mg_RoomID m)) (mg_ID m) = None then (Inl ErrNotFound, s)
     else (Inr (), s\<lparr>st_messages := update2 (mg_RoomID m) (mg_ID m) m (st_messages s)\<rparr>))"
  by (cases "map_of (st_messages s) (mg_RoomID m)") (simp_all add: mem_UpdateMessage_def inner_def)

lemma mem_UpdateMessage_refines:
  "mem_inv s \<Longrightarrow> mem_UpdateMessage s m = (x, s') \<Longrightarrow>
   mem_inv s' \<and> spec_UpdateMessage m (mem_abs s) = (x, mem_abs s')"
  by (auto simp: mem_UpdateMessage_alt spec_UpdateMessage_def mem_inv_write mem_abs_write split: if_splits)

lemma mem_CreateMessage_refines:
  "mem_inv s \<Longrightarrow> int64_range (max_seq s (mg_RoomID m) + 1) \<Longrightarrow>
   mem_CreateMessageWithNextSequence s m = (x, s') \<Longrightarrow>
   mem_inv s' \<and> spec_CreateMessage m (mem_abs s) = (x, mem_abs s')"
  by (auto simp: mem_CreateMessageWithNextSequence_def spec_CreateMessage_def put_message_def
      mem_inv_def mem_abs_def max_seq_def fun_eq_iff Let_def split: if_splits)

lemma wf_map_map_snd: "wf_map m \<Longrightarrow> (\<And>e. fst (f e) = fst e) \<Longrightarrow> wf_map (map f m)"
  by (simp add: wf_map_def comp_def)

text \<open>The double loop of \<open>mem_UpsertDeviceToken\<close> releases the token from every other device.\<close>

definition release_all :: "DeviceToken \<Rightarrow> (string, (string, DeviceToken) gomap) gomap \<Rightarrow> (string, (string, DeviceToken) gomap) gomap" where
  "release_all t ds = map (\<lambda>(u, m). (u, map (mem_release t u) m)) ds"

lemma mem_release_eq: "mem_release t u e = (fst e, release_token t u (fst e) (snd e))"
  by (simp add: mem_release_def release_token_def Let_def)

lemma inner_release_all: "inner (release_all t ds) u = map (mem_release t u) (inner ds u)"
  by (induction ds) (auto simp: release_all_def inner_def)

lemma map_of_release:
  "map_of (map (mem_release t u) m) d = map_option (release_token t u d) (map_of m d)"
  by (induction m) (auto simp: mem_release_eq)

lemma release_token_keys [simp]:
  "dt_UserID (release_token t u d x) = dt_UserID x" "dt_DeviceID (release_token t u d x) = dt_DeviceID x"
  "dt_CreatedAt (release_token t u d x) = dt_CreatedAt x"
  by (simp_all add: release_token_def)

lemma wf_map2_release_all: "wf_map2 ds \<Longrightarrow> wf_map2 (release_all t ds)"
  by (auto simp: wf_map2_def release_all_def wf_map_def comp_def case_prod_beta mem_release_eq)

lemma keyed2_release_all:
  assumes "keyed2 dt_UserID dt_DeviceID ds"
  shows "keyed2 dt_UserID dt_DeviceID (release_all t ds)"
proof (rule keyed2I)
  fix k x i v
  assume "(k, x) \<in> set (release_all t ds)" and "(i, v) \<in> set x"
  then obtain m v0 where "(k, m) \<in> set ds" "(i, v0) \<in> set m" "v = release_token t k i v0"
    by (auto simp: release_all_def mem_release_eq)
  then show "dt_UserID v = k \<and> dt_DeviceID v = i"
    using keyed2D [OF assms] by simp
qed

lemma mem_UpsertDeviceToken_refines:
  assumes "mem_inv s" "mem_UpsertDeviceToken s t = (x, s')"
  shows "mem_inv s' \<and> spec_UpsertDeviceToken t (mem_abs s) = (x, mem_abs s')"
proof -
  define ds where "ds = release_all t (st_devices s)"
  have ds: "wf_map2 ds" "keyed2 dt_UserID dt_DeviceID ds"
    using assms(1) by (auto simp: ds_def mem_inv_def wf_map2_release_all keyed2_release_all)
  have look: "map_of (inner ds u) d = map_option (release_token t u d) (map_of (inner (st_devices s) u) d)" for u d
    by (simp add: ds_def inner_release_all map_of_release)
  obtain t' where t': "x = Inr t'" "s' = s\<lparr>st_devices := update2 (dt_UserID t) (dt_DeviceID t) t' ds\<rparr>"
    "t' = t\<lparr>dt_CreatedAt := (case map_of (inner (st_devices s) (dt_UserID t)) (dt_DeviceID t) of
        Some e \<Rightarrow> (if dt_CreatedAt e \<noteq> time_zero then dt_CreatedAt e else dt_CreatedAt t)
      | None \<Rightarrow> dt_CreatedAt t), dt_IsActive := True, dt_UnregisteredAt := None\<rparr>"
    using assms(2) unfolding mem_UpsertDeviceToken_def release_all_def [symmetric] ds_def [symmetric]
    by (auto simp: Let_def look split: option.splits)
  have k: "dt_UserID t' = dt_UserID t" "dt_DeviceID t' = dt_DeviceID t"
    by (simp_all add: t'(3))
  have "mem_inv s'" using assms(1) ds k by (simp add: t'(2) mem_inv_def)
  moreover have "spec_UpsertDeviceToken t (mem_abs s) = (x, mem_abs s')"
    by (simp add: spec_UpsertDeviceToken_def Let_def t'(1,2) t'(3) [symmetric])
       (simp add: mem_abs_def fun_eq_iff look)
  ultimately show ?thesis by blast
qed

lemma mem_DeactivateDeviceToken_refines:
  assumes "mem_inv s" "mem_DeactivateDeviceToken s u d now = (x, s')"
  shows "mem_inv s' \<and> spec_DeactivateDeviceToken u d now (mem_abs s) = (x, mem_abs s')"
proof (cases "map_of (inner (st_devices s) u) d")
  case None
  then have "x = Inr ()" "s' = s"
    using assms(2) by (auto simp: mem_DeactivateDeviceToken_def inner_def split: option.splits)
  with None assms(1) show ?thesis
    by (simp add: spec_DeactivateDeviceToken_def) (simp add: mem_abs_def fun_upd_idem)
next
  case (Some t)
  then have "map_of (st_devices s) u \<noteq> None" by (auto simp: inner_def split: option.splits)
  with Some have r: "x = Inr ()" "s' = s\<lparr>st_devices := update2 u d
      (t\<lparr>dt_IsActive := False, dt_UpdatedAt := now, dt_UnregisteredAt := Some now\<rparr>) (st_devices s)\<rparr>"
    using assms(2) by (auto simp: mem_DeactivateDeviceToken_def inner_def split: option.splits)
  have "dt_UserID t = u \<and> dt_DeviceID t = d"
    using keyed2_map_of [OF mem_invD(8) [OF assms(1)] Some] .
  then have "mem_inv s'" using assms(1) by (simp add: r mem_inv_def)
  then show ?thesis using Some
    by (simp add: spec_DeactivateDeviceToken_def r) (simp add: mem_abs_def fun_eq_iff)
qed

text \<open>Filtering and sorting the values of an inner map lists what the abstract map holds.\<close>

lemma lists_sorted_vals:
  fixes key :: "'v \<Rightarrow> 'a::linorder"
  assumes "wf_map m" "keyed g m" and "\<And>a b. lt a b \<longleftrightarrow> key a < key b"
  shows "lists_sorted key {v \<in> ran (map_of m). P v} (sort_stable lt (filter P (vals m)))"
proof -
  have "set (filter P (vals m)) = {v \<in> ran (map_of m). P v}"
    using set_values_map_of [OF assms(1)] by auto
  then show ?thesis
    using distinct_vals_keyed [OF assms(1,2)]
    by (simp add: lists_sorted_def sort_stable_key [OF assms(3)])
qed

lemma joined_before_key: "joined_before a b \<longleftrightarrow> join_key a < join_key b"
  by (auto simp: joined_before_def join_key_def less_prod_def)

lemma mem_ListActiveMembers_alt:
  "mem_ListActiveMembersByJoinOrder s rid =
     Inr (sort_stable joined_before
       (filter (\<lambda>m. mb_Status m = MemberStatusActive) (vals (inner (st_members s) rid))))"
  by (simp add: mem_ListActiveMembersByJoinOrder_def inner_def vals_def split: option.split)

lemma mem_ListActiveMembers_reads:
  assumes "mem_inv s"
  shows "\<exists>ms. mem_ListActiveMembersByJoinOrder s rid = Inr ms
    \<and> lists_sorted join_key (active_members (mem_abs s) rid) ms"
proof -
  have "lists_sorted join_key (active_members (mem_abs s) rid) (sort_stable joined_before
      (filter (\<lambda>m. mb_Status m = MemberStatusActive) (vals (inner (st_members s) rid))))"
    unfolding active_members_def mem_abs_sel
    by (rule lists_sorted_vals) (auto simp: joined_before_key intro: assms mem_invD keyed_inner)
  then show ?thesis by (auto simp: mem_ListActiveMembers_alt)
qed

definition mem_older :: "Store \<Rightarrow> string \<Rightarrow> int \<Rightarrow> ChatMessage list" where
  "mem_older s rid before = sort_stable (\<lambda>a b. mg_SequenceNo b < mg_SequenceNo a)
     (filter (\<lambda>msg. \<not> (0 < before \<and> before \<le> mg_SequenceNo msg)) (vals (inner (st_messages s) rid)))"

lemma mem_older_sorted:
  assumes "mem_inv s"
  shows "lists_sorted (\<lambda>m. - mg_SequenceNo m) (older_messages (mem_abs s) rid before) (mem_older s rid before)"
proof -
  have eq: "older_messages (mem_abs s) rid before =
      {m \<in> ran (map_of (inner (st_messages s) rid)). \<not> (0 < before \<and> before \<le> mg_SequenceNo m)}"
    by (auto simp: older_messages_def)
  show ?thesis
    unfolding mem_older_def eq
    by (rule lists_sorted_vals [OF mem_invD(5) [OF assms] keyed_inner [OF mem_invD(6) [OF assms]]]) simp
qed

lemma mem_ListMessagesBefore_alt:
  "mem_ListMessagesBefore s rid before limit =
    (if length (mem_older s rid before) \<le> page_limit 50 limit then Inr (mem_older s rid before, 0)
     else Inr (take (page_limit 50 limit) (mem_older s rid before),
               mg_SequenceNo (mem_older s rid before ! (page_limit 50 limit - 1))))"
proof -
  have "int n \<le> l \<longleftrightarrow> n \<le> nat l" if "0 < l" for n and l :: int using that by linarith
  then show ?thesis
    by (cases "map_of (st_messages s) rid")
       (auto simp: mem_ListMessagesBefore_def mem_older_def inner_def page_limit_def Let_def vals_def min_def)
qed

lemma mem_ListMessagesBefore_reads:
  assumes "mem_inv s"
  shows "\<exists>all next. mem_ListMessagesBefore s rid before limit = Inr (take (page_limit 50 limit) all, next)
    \<and> lists_sorted (\<lambda>m. - mg_SequenceNo m) (older_messages (mem_abs s) rid before) all
    \<and> (next = 0 \<and> length all \<le> page_limit 50 limit
         \<or> page_limit 50 limit \<le> length all \<and> next = mg_SequenceNo (all ! (page_limit 50 limit - 1)))"
  using mem_older_sorted [OF assms, of rid before]
  by (intro exI [of _ "mem_older s rid before"]) (auto simp: mem_ListMessagesBefore_alt)

definition mem_newer :: "Store \<Rightarrow> string \<Rightarrow> int \<Rightarrow> ChatMessage list" where
  "mem_newer s rid after = sort_stable (\<lambda>a b. mg_SequenceNo a < mg_SequenceNo b)
     (filter (\<lambda>msg. \<not> mg_SequenceNo msg \<le> after) (vals (inner (st_messages s) rid)))"

lemma mem_newer_sorted:
  assumes "mem_inv s"
  shows "lists_sorted mg_SequenceNo (newer_messages (mem_abs s) rid after) (mem_newer s rid after)"
proof -
  have eq: "newer_messages (mem_abs s) rid after =
      {m \<in> ran (map_of (inner (st_messages s) rid)). \<not> mg_SequenceNo m \<le> after}"
    by (auto simp: newer_messages_def)
  show ?thesis
    unfolding mem_newer_def eq
    by (rule lists_sorted_vals [OF mem_invD(5) [OF assms] keyed_inner [OF mem_invD(6) [OF assms]]]) simp
qed

lemma mem_ListMessagesAfter_alt:
  "mem_ListMessagesAfter s rid after limit = Inr (take (page_limit 100 limit) (mem_newer s rid after))"
proof -
  have "l < int n \<longleftrightarrow> nat l < n" if "0 < l" for n and l :: int using that by linarith
  then show ?thesis
    by (cases "map_of (st_messages s) rid")
       (auto simp: mem_ListMessagesAfter_def mem_newer_def inner_def page_limit_def Let_def vals_def)
qed

lemma mem_ListActiveDeviceTokens_reads:
  assumes "mem_inv s" "distinct us"
  shows "\<exists>ts. mem_ListActiveDeviceTokensByUserIDs s us = Inr ts
    \<and> lists_sorted (\<lambda>t. (dt_UserID t, dt_DeviceID t))
        {t. \<exists>u \<in> set us. t \<in> ran (a_devices (mem_abs s) u) \<and> dt_IsActive t \<and> TrimSpace (dt_Token t) \<noteq> []} ts"
proof -
  let ?P = "\<lambda>t. dt_IsActive t \<and> TrimSpace (dt_Token t) \<noteq> []"
  let ?f = "\<lambda>u. filter ?P (vals (inner (st_devices s) u))"
  have user: "dt_UserID t = u" if "t \<in> set (?f u)" for t u
    using that keyed2_inner [OF mem_invD(8) [OF assms(1)]] by (force simp: vals_def)
  have "distinct (concat (map ?f us))"
    using assms(2)
  proof (induction us)
    case (Cons u us)
    have "distinct (?f u)"
      using distinct_vals_keyed [OF mem_invD(7) keyed_inner [OF mem_invD(8)]] assms(1) by auto
    moreover have "set (?f u) \<inter> set (concat (map ?f us)) = {}"
      using user Cons.prems by (auto 4 3)
    ultimately show ?case using Cons by simp
  qed simp
  moreover have "set (concat (map ?f us)) =
      {t. \<exists>u \<in> set us. t \<in> ran (a_devices (mem_abs s) u) \<and> ?P t}"
    using set_values_map_of [OF mem_invD(7) [OF assms(1)]] by auto
  moreover have "mem_ListActiveDeviceTokensByUserIDs s us =
      Inr (sort_key (\<lambda>t. (dt_UserID t, dt_DeviceID t)) (concat (map ?f us)))"
    unfolding mem_ListActiveDeviceTokensByUserIDs_def
    by (intro arg_cong [where f = Inr] sort_stable_key) (auto simp: less_prod_def)
  ultimately show ?thesis by (simp add: lists_sorted_def)
qed

lemma mem_GetActiveBoardLinkedRoom_alt:
  "mem_GetActiveBoardLinkedRoom s b = lookup_or ErrNotFound (find (board_room b) (vals (st_rooms s)))"
proof -
  have "board_room b = (\<lambda>room. rm_RoomType room = RoomTypeBoardLinkedGroup \<and> rm_LinkedBoardID room = b
      \<and> rm_IsActive room \<and> rm_DeletedAt room = None)"
    by (rule ext) (auto simp: board_room_def room_open_def)
  then show ?thesis
    by (simp add: mem_GetActiveBoardLinkedRoom_def lookup_or_def split: option.split)
qed

section \<open>The interpretation\<close>

interpretation mem: chat_repository memory_repo mem_abs mem_inv
proof
  fix s :: Store and b r e rid before limit us
  assume s: "mem_inv s"
  show "\<exists>all next. rp_ListMessagesBefore memory_repo s rid before limit =
        Inr (take (page_limit 50 limit) all, next)
      \<and> lists_sorted (\<lambda>m. - mg_SequenceNo m) (older_messages (mem_abs s) rid before) all
      \<and> (next = 0 \<and> length all \<le> page_limit 50 limit
         \<or> page_limit 50 limit \<le> length all \<and> next = mg_SequenceNo (all ! (page_limit 50 limit - 1)))"
    unfolding memory_repo_simps by (rule mem_ListMessagesBefore_reads [OF s])
  show "distinct us \<Longrightarrow> \<exists>ts. rp_ListActiveDeviceTokensByUserIDs memory_repo s us = Inr ts
      \<and> lists_sorted (\<lambda>t. (dt_UserID t, dt_DeviceID t)) {t. \<exists>u \<in> set us.
          t \<in> ran (a_devices (mem_abs s) u) \<and> dt_IsActive t \<and> TrimSpace (dt_Token t) \<noteq> []} ts"
    unfolding memory_repo_simps by (rule mem_ListActiveDeviceTokens_reads [OF s])
  have rooms: "set (vals (st_rooms s)) = ran (a_rooms (mem_abs s))"
    using set_values_map_of [OF mem_invD(1) [OF s]] by simp
  show "rp_GetActiveBoardLinkedRoom memory_repo s b = Inr r \<Longrightarrow>
      r \<in> ran (a_rooms (mem_abs s)) \<and> board_room b r"
    using rooms by (auto simp: mem_GetActiveBoardLinkedRoom_alt dest: find_SomeD)
  show "rp_GetActiveBoardLinkedRoom memory_repo s b = Inl e \<Longrightarrow>
      e = ErrNotFound \<and> (\<forall>r \<in> ran (a_rooms (mem_abs s)). \<not> board_room b r)"
    using rooms by (auto simp: mem_GetActiveBoardLinkedRoom_alt find_None_iff)
qed (auto simp: mem_GetRoom_def lookup_or_def [symmetric] mem_GetMember_def mem_GetMessage_def
      case_map_of_inner mem_ListMessagesAfter_alt
    dest: mem_CreateRoom_refines mem_UpdateRoom_refines mem_CreateMember_refines
      mem_UpdateMember_refines mem_CreateMessage_refines mem_UpdateMessage_refines
      mem_UpsertDeviceToken_refines mem_DeactivateDeviceToken_refines
    intro: mem_ListActiveMembers_reads mem_newer_sorted keyed_map_of keyed2_map_of [THEN conjunct1] keyed2_map_of [THEN conjunct2] mem_invD)

end
