(* ===== verification/RoomInvariant.thy ===== *)
theory RoomInvariant
  imports Rooms MemoryStore
begin

text \<open>
  What the room operations maintain, on the abstract store and for every repository: an open room
  has exactly one owner, who is an active member; nobody else has the owner role; a member's status
  and its time stamps agree; members belong to existing rooms; a board has at most one open room.
\<close>

section \<open>The invariant\<close>

definition member_ok :: "ChatRoomMember \<Rightarrow> bool" where
  "member_ok m \<longleftrightarrow> mb_Role m \<in> {MemberRoleOwner, MemberRoleMember}
     \<and> (mb_Status m = MemberStatusActive \<and> mb_LeftAt m = None \<and> mb_RemovedAt m = None
        \<or> mb_Status m = MemberStatusLeft \<and> mb_LeftAt m \<noteq> None \<and> mb_RemovedAt m = None
        \<or> mb_Status m = MemberStatusRemoved \<and> mb_LeftAt m = None \<and> mb_RemovedAt m \<noteq> None)"

definition members_ok :: "ChatRoom \<Rightarrow> (string \<rightharpoonup> ChatRoomMember) \<Rightarrow> bool" where
  "members_ok r ms \<longleftrightarrow>
     (\<forall>u m. ms u = Some m \<longrightarrow> member_ok m \<and> (mb_Role m = MemberRoleOwner \<longrightarrow> u = rm_OwnerUserID r))
     \<and> (room_open r \<longrightarrow> (\<exists>m. ms (rm_OwnerUserID r) = Some m
          \<and> mb_Status m = MemberStatusActive \<and> mb_Role m = MemberRoleOwner))"

definition room_ok :: "ChatRoom option \<Rightarrow> (string \<rightharpoonup> ChatRoomMember) \<Rightarrow> bool" where
  "room_ok x ms = (case x of None \<Rightarrow> ms = Map.empty | Some r \<Rightarrow> members_ok r ms)"

definition board_key :: "ChatRoom \<Rightarrow> string option" where
  "board_key r = (if rm_RoomType r = RoomTypeBoardLinkedGroup \<and> room_open r \<and> rm_LinkedBoardID r \<noteq> []
     then Some (rm_LinkedBoardID r) else None)"

definition boards_ok :: "(string \<rightharpoonup> ChatRoom) \<Rightarrow> bool" where
  "boards_ok rs \<longleftrightarrow> (\<forall>i j r r'. rs i = Some r \<longrightarrow> rs j = Some r' \<longrightarrow> board_key r \<noteq> None \<longrightarrow>
     board_key r = board_key r' \<longrightarrow> i = j)"

definition rooms_inv :: "astore \<Rightarrow> bool" where
  "rooms_inv a \<longleftrightarrow> (\<forall>rid. room_ok (a_rooms a rid) (a_members a rid)) \<and> boards_ok (a_rooms a)"

section \<open>Writes that keep it\<close>

lemma put_member_sel [simp]:
  "a_rooms (put_member m a) = a_rooms a"
  "a_members (put_member m a) =
     (a_members a)(mb_RoomID m := (a_members a (mb_RoomID m))(mb_UserID m \<mapsto> m))"
  "a_messages (put_member m a) = a_messages a" "a_maxSeq (put_member m a) = a_maxSeq a"
  "a_devices (put_member m a) = a_devices a"
  by (simp_all add: put_member_def)

lemma rooms_invD:
  "rooms_inv a \<Longrightarrow> a_rooms a rid = Some r \<Longrightarrow> members_ok r (a_members a rid)"
  "rooms_inv a \<Longrightarrow> a_rooms a rid = None \<Longrightarrow> a_members a rid = Map.empty"
  "rooms_inv a \<Longrightarrow> boards_ok (a_rooms a)"
  by (auto simp: rooms_inv_def room_ok_def dest: spec [of _ rid])

lemma rooms_inv_member:
  assumes "rooms_inv a" "a_rooms a (mb_RoomID m) = Some r"
    "members_ok r ((a_members a (mb_RoomID m))(mb_UserID m \<mapsto> m))"
  shows "rooms_inv (put_member m a)"
  using assms by (simp add: rooms_inv_def room_ok_def)

lemma board_key_eq: "b \<noteq> [] \<Longrightarrow> board_key r = Some b \<longleftrightarrow> board_room b r"
  by (auto simp: board_key_def board_room_def)

lemma boards_okD:
  "boards_ok rs \<Longrightarrow> rs i = Some r \<Longrightarrow> rs j = Some r' \<Longrightarrow> board_key r \<noteq> None \<Longrightarrow>
     board_key r = board_key r' \<Longrightarrow> i = j"
  unfolding boards_ok_def by blast

lemma boards_ok_upd:
  assumes "boards_ok rs" and "\<And>j r'. board_key r \<noteq> None \<Longrightarrow> rs j = Some r' \<Longrightarrow>
      board_key r' = board_key r \<Longrightarrow> j = i"
  shows "boards_ok (rs(i \<mapsto> r))"
  unfolding boards_ok_def
proof (intro allI impI)
  fix j k r1 r2
  assume j: "(rs(i \<mapsto> r)) j = Some r1" and k: "(rs(i \<mapsto> r)) k = Some r2"
    and b: "board_key r1 \<noteq> None" "board_key r1 = board_key r2"
  show "j = k"
  proof (cases "j = i"; cases "k = i")
    assume c: "j = i" "k \<noteq> i"
    then have r: "r1 = r" and "rs k = Some r2" using j k by simp_all
    then have "k = i" using assms(2) b by metis
    with c show ?thesis by blast
  next
    assume c: "j \<noteq> i" "k = i"
    then have r: "r2 = r" and "rs j = Some r1" using j k by simp_all
    then have "j = i" using assms(2) b by metis
    with c show ?thesis by blast
  next
    assume "j \<noteq> i" "k \<noteq> i"
    then have "rs j = Some r1" "rs k = Some r2" using j k by simp_all
    then show ?thesis by (rule boards_okD [OF assms(1) _ _ b])
  qed simp
qed

lemma rooms_inv_replace:
  assumes "rooms_inv a" "a_rooms a i = Some r0" "members_ok r ms"
    "room_open r \<Longrightarrow> room_open r0 \<and> rm_RoomType r = rm_RoomType r0 \<and> rm_LinkedBoardID r = rm_LinkedBoardID r0"
  shows "rooms_inv (a\<lparr>a_members := (a_members a)(i := ms), a_rooms := (a_rooms a)(i \<mapsto> r)\<rparr>)"
proof -
  have "board_key r \<noteq> None \<Longrightarrow> board_key r = board_key r0"
    using assms(4) by (auto simp: board_key_def split: if_splits)
  then have "boards_ok ((a_rooms a)(i \<mapsto> r))"
    using boards_okD [OF rooms_invD(3) [OF assms(1)], of _ _ i r0] assms(2)
    by (intro boards_ok_upd rooms_invD(3) [OF assms(1)]) auto
  then show ?thesis using assms by (simp add: rooms_inv_def room_ok_def)
qed

lemma rooms_inv_room:
  assumes "rooms_inv a" "a_rooms a i = Some r0" "members_ok r (a_members a i)"
    "room_open r \<Longrightarrow> room_open r0 \<and> rm_RoomType r = rm_RoomType r0 \<and> rm_LinkedBoardID r = rm_LinkedBoardID r0"
  shows "rooms_inv (a\<lparr>a_rooms := (a_rooms a)(i \<mapsto> r)\<rparr>)"
  using rooms_inv_replace [OF assms] by simp

text \<open>A new room with its owner as only member.\<close>

lemma rooms_inv_new:
  assumes "rooms_inv a" "a_rooms a i = None" "rm_OwnerUserID r = mb_UserID m" "mb_RoomID m = i"
    "member_ok m" "mb_Role m = MemberRoleOwner" "mb_Status m = MemberStatusActive"
    "\<And>b r'. board_key r = Some b \<Longrightarrow> r' \<in> ran (a_rooms a) \<Longrightarrow> \<not> board_room b r'"
  shows "rooms_inv (put_member m (a\<lparr>a_rooms := (a_rooms a)(i \<mapsto> r)\<rparr>))"
proof -
  have "a_members a i = Map.empty" using rooms_invD(2) [OF assms(1,2)] .
  moreover have "boards_ok ((a_rooms a)(i \<mapsto> r))"
  proof (rule boards_ok_upd [OF rooms_invD(3) [OF assms(1)]])
    fix j r'
    assume "board_key r \<noteq> None" and j: "a_rooms a j = Some r'" and e: "board_key r' = board_key r"
    then obtain b where b: "board_key r = Some b" "b \<noteq> []" by (auto simp: board_key_def split: if_splits)
    then have "board_room b r'" using e board_key_eq by metis
    with assms(8) [OF b(1)] j show "j = i" by (auto simp: ran_def)
  qed
  ultimately show ?thesis
    using assms by (simp add: rooms_inv_def room_ok_def members_ok_def)
qed

lemma members_ok_put:
  assumes "members_ok r ms" "member_ok m" "mb_Role m = MemberRoleOwner \<Longrightarrow> u = rm_OwnerUserID r"
    "room_open r \<Longrightarrow> u = rm_OwnerUserID r \<Longrightarrow> mb_Status m = MemberStatusActive \<and> mb_Role m = MemberRoleOwner"
  shows "members_ok r (ms(u \<mapsto> m))"
  unfolding members_ok_def
proof (intro conjI allI impI)
  fix v m'
  assume "(ms(u \<mapsto> m)) v = Some m'"
  then show "member_ok m'" "mb_Role m' = MemberRoleOwner \<Longrightarrow> v = rm_OwnerUserID r"
    using assms(1-3) by (simp_all add: members_ok_def split: if_split_asm)
next
  assume "room_open r"
  then show "\<exists>m'. (ms(u \<mapsto> m)) (rm_OwnerUserID r) = Some m'
      \<and> mb_Status m' = MemberStatusActive \<and> mb_Role m' = MemberRoleOwner"
    using assms(1,4) by (simp add: members_ok_def)
qed

lemma members_okD:
  "members_ok r ms \<Longrightarrow> ms u = Some m \<Longrightarrow> member_ok m"
  "members_ok r ms \<Longrightarrow> ms u = Some m \<Longrightarrow> mb_Role m = MemberRoleOwner \<Longrightarrow> u = rm_OwnerUserID r"
  unfolding members_ok_def by blast+

lemma members_ok_shut:
  "members_ok r ms \<Longrightarrow> \<not> room_open r' \<Longrightarrow> rm_OwnerUserID r' = rm_OwnerUserID r \<Longrightarrow> members_ok r' ms"
  by (simp add: members_ok_def)

lemma members_ok_owner:
  assumes "members_ok r ms" "room_open r"
  obtains m where "ms (rm_OwnerUserID r) = Some m" "mb_Status m = MemberStatusActive"
    "mb_Role m = MemberRoleOwner"
  using assms unfolding members_ok_def by blast

lemma members_ok_not_owner:
  assumes "members_ok r ms" "room_open r" "\<And>m. ms u = Some m \<Longrightarrow> mb_Status m \<noteq> MemberStatusActive"
  shows "u \<noteq> rm_OwnerUserID r"
  by (rule members_ok_owner [OF assms(1,2)]) (use assms(3) in blast)

lemma member_ok_new [simp]:
  "role \<in> {MemberRoleOwner, MemberRoleMember} \<Longrightarrow> member_ok (new_member i rid u role now)"
  by (auto simp: member_ok_def)

lemma member_ok_rejoined [simp]:
  "member_ok m \<Longrightarrow> mb_Status m = MemberStatusLeft \<Longrightarrow> member_ok (rejoined now m)"
  by (auto simp: member_ok_def)

lemma member_ok_departed [simp]:
  "member_ok m \<Longrightarrow> mb_Status m = MemberStatusActive \<Longrightarrow> member_ok (departed now m)"
  by (auto simp: member_ok_def departed_def)

lemma member_ok_expelled [simp]: "member_ok m \<Longrightarrow> member_ok (expelled now u m)"
  by (auto simp: member_ok_def expelled_def)

lemma room_sel [simp]:
  "rm_ID (closed_room now r) = rm_ID r" "\<not> room_open (closed_room now r)"
  "rm_OwnerUserID (closed_room now r) = rm_OwnerUserID r" "rm_IsActive (closed_room now r) = False"
  "rm_ID (new_room i rt t b u now) = i" "room_open (new_room i rt t b u now)"
  "rm_LinkedBoardID (new_room i rt t b u now) = b" "rm_OwnerUserID (new_room i rt t b u now) = u"
  "rm_RoomType (new_room i rt t b u now) = rt"
  by (simp_all add: closed_room_def new_room_def room_open_def)

lemma member_sel [simp]:
  "mb_RoomID (departed now m) = mb_RoomID m" "mb_UserID (departed now m) = mb_UserID m"
  "mb_Status (departed now m) = MemberStatusLeft"
  "mb_RoomID (expelled now u m) = mb_RoomID m" "mb_UserID (expelled now u m) = mb_UserID m"
  "mb_Status (expelled now u m) = MemberStatusRemoved" "mb_Role (expelled now u m) = mb_Role m"
  by (simp_all add: departed_def expelled_def)

section \<open>What never goes back\<close>

text \<open>
  The histories of rooms, members and messages: a room keeps its kind and once closed stays closed;
  a removed member stays removed and a read cursor never moves back; a message keeps its place,
  its room and its sender, and once deleted stays deleted; nothing disappears.
\<close>

definition room_later :: "ChatRoom \<Rightarrow> ChatRoom \<Rightarrow> bool" where
  "room_later r r' \<longleftrightarrow> (room_open r' \<longrightarrow> room_open r) \<and> rm_RoomType r' = rm_RoomType r
     \<and> rm_LinkedBoardID r' = rm_LinkedBoardID r \<and> rm_CreatedAt r' = rm_CreatedAt r"

definition member_later :: "ChatRoomMember \<Rightarrow> ChatRoomMember \<Rightarrow> bool" where
  "member_later m m' \<longleftrightarrow> (mb_Status m = MemberStatusRemoved \<longrightarrow> mb_Status m' = MemberStatusRemoved)
     \<and> mb_LastReadSequenceNo m \<le> mb_LastReadSequenceNo m' \<and> mb_ID m' = mb_ID m"

definition message_later :: "ChatMessage \<Rightarrow> ChatMessage \<Rightarrow> bool" where
  "message_later m m' \<longleftrightarrow> mg_SequenceNo m' = mg_SequenceNo m \<and> mg_SenderUserID m' = mg_SenderUserID m
     \<and> mg_MessageType m' = mg_MessageType m \<and> (mg_IsDeleted m' \<or> m' = m)"

text \<open>Every entry of \<open>f\<close> has a successor in \<open>g\<close>.\<close>

definition map_later :: "('v \<Rightarrow> 'v \<Rightarrow> bool) \<Rightarrow> ('k \<rightharpoonup> 'v) \<Rightarrow> ('k \<rightharpoonup> 'v) \<Rightarrow> bool" where
  "map_later later f g \<longleftrightarrow> (\<forall>k x. f k = Some x \<longrightarrow> (\<exists>y. g k = Some y \<and> later x y))"

definition progress :: "astore \<Rightarrow> astore \<Rightarrow> bool" where
  "progress a a' \<longleftrightarrow> map_later room_later (a_rooms a) (a_rooms a')
     \<and> (\<forall>rid. map_later member_later (a_members a rid) (a_members a' rid))
     \<and> (\<forall>rid. map_later message_later (a_messages a rid) (a_messages a' rid))
     \<and> (\<forall>rid. a_maxSeq a rid \<le> a_maxSeq a' rid)"

lemma later_refl [simp]: "room_later r r" "member_later m m" "message_later x x"
  by (simp_all add: room_later_def member_later_def message_later_def)

lemma later_trans:
  "room_later r1 r2 \<Longrightarrow> room_later r2 r3 \<Longrightarrow> room_later r1 r3"
  "member_later m1 m2 \<Longrightarrow> member_later m2 m3 \<Longrightarrow> member_later m1 m3"
  "message_later x1 x2 \<Longrightarrow> message_later x2 x3 \<Longrightarrow> message_later x1 x3"
  by (auto simp: room_later_def member_later_def message_later_def)

lemma map_laterD: "map_later later f g \<Longrightarrow> f k = Some x \<Longrightarrow> \<exists>y. g k = Some y \<and> later x y"
  by (simp add: map_later_def)

lemma map_laterI: "(\<And>k x. f k = Some x \<Longrightarrow> \<exists>y. g k = Some y \<and> later x y) \<Longrightarrow> map_later later f g"
  by (simp add: map_later_def)

lemma map_later_refl [simp]: "(\<And>x. later x x) \<Longrightarrow> map_later later f f"
  by (simp add: map_later_def)

lemma map_later_trans:
  assumes "map_later later f g" "map_later later g h" "\<And>x y z. later x y \<Longrightarrow> later y z \<Longrightarrow> later x z"
  shows "map_later later f h"
proof (rule map_laterI)
  fix k x
  assume "f k = Some x"
  from map_laterD [OF assms(1) this] obtain y where y: "g k = Some y" "later x y" by blast
  from map_laterD [OF assms(2) y(1)] obtain z where "h k = Some z" "later y z" by blast
  with y(2) assms(3) show "\<exists>z. h k = Some z \<and> later x z" by blast
qed

lemma map_later_upd:
  assumes "\<And>x. later x x" "\<And>x. f k = Some x \<Longrightarrow> later x y"
  shows "map_later later f (f(k \<mapsto> y))"
  using assms by (intro map_laterI) auto

lemma progress_refl [simp]: "progress a a"
  by (simp add: progress_def)

lemma progress_trans [trans]:
  assumes "progress a b" "progress b c"
  shows "progress a c"
  unfolding progress_def
proof (intro conjI allI)
  note ab = assms(1) [unfolded progress_def] and bc = assms(2) [unfolded progress_def]
  show "map_later room_later (a_rooms a) (a_rooms c)"
    using ab bc later_trans(1) by (blast intro: map_later_trans)
  fix rid
  show "map_later member_later (a_members a rid) (a_members c rid)"
    using ab bc later_trans(2) by (blast intro: map_later_trans)
  show "map_later message_later (a_messages a rid) (a_messages c rid)"
    using ab bc later_trans(3) by (blast intro: map_later_trans)
  show "a_maxSeq a rid \<le> a_maxSeq c rid" using ab bc by (meson order_trans)
qed

lemma progressD:
  "progress a a' \<Longrightarrow> a_rooms a i = Some r \<Longrightarrow> \<exists>r'. a_rooms a' i = Some r' \<and> room_later r r'"
  "progress a a' \<Longrightarrow> a_members a i u = Some m \<Longrightarrow> \<exists>m'. a_members a' i u = Some m' \<and> member_later m m'"
  "progress a a' \<Longrightarrow> a_messages a i k = Some x \<Longrightarrow> \<exists>x'. a_messages a' i k = Some x' \<and> message_later x x'"
  "progress a a' \<Longrightarrow> a_maxSeq a i \<le> a_maxSeq a' i"
  unfolding progress_def map_later_def by blast+

lemma progress_member:
  "(\<And>m0. a_members a (mb_RoomID m) (mb_UserID m) = Some m0 \<Longrightarrow> member_later m0 m) \<Longrightarrow>
     progress a (put_member m a)"
  by (simp add: progress_def map_later_upd)

lemma progress_new_member [simp]:
  "a_members a (mb_RoomID m) (mb_UserID m) = None \<Longrightarrow> progress a (put_member m a)"
  by (rule progress_member) simp

lemma progress_known_member [simp]:
  "a_members a (mb_RoomID m) (mb_UserID m) = Some m0 \<Longrightarrow> member_later m0 m \<Longrightarrow> progress a (put_member m a)"
  by (rule progress_member) simp

lemma progress_room:
  "(\<And>r0. a_rooms a i = Some r0 \<Longrightarrow> room_later r0 r) \<Longrightarrow> progress a (a\<lparr>a_rooms := (a_rooms a)(i \<mapsto> r)\<rparr>)"
  by (simp add: progress_def map_later_upd)

lemma progress_new_room:
  assumes "a_rooms a i = None" "a_members a i u = None" "mb_RoomID m = i" "mb_UserID m = u"
  shows "progress a (put_member m (a\<lparr>a_rooms := (a_rooms a)(i \<mapsto> r)\<rparr>))"
proof -
  have "progress a (a\<lparr>a_rooms := (a_rooms a)(i \<mapsto> r)\<rparr>)" using assms(1) by (intro progress_room) simp
  then show ?thesis by (rule progress_trans) (use assms in simp)
qed

lemma member_later_simps [simp]:
  "mb_Status m \<noteq> MemberStatusRemoved \<Longrightarrow> member_later m (rejoined now m)"
  "mb_Status m \<noteq> MemberStatusRemoved \<Longrightarrow> member_later m (departed now m)"
  "member_later m (expelled now u m)"
  by (simp_all add: member_later_def rejoined_def departed_def expelled_def)

lemma room_later_closed [simp]: "room_later r (closed_room now r)"
  by (simp add: room_later_def) (simp add: closed_room_def)

section \<open>What leaving a room does\<close>

text \<open>
  The other active members of a room, and the effect of \<^verbatim>\<open>LeaveRoom\<close>: the leaver's record is closed; a
  leaving owner hands the room to the other active member who joined first (the smaller record
  identifier on a tie), or closes the room when nobody is left.
\<close>

definition others :: "astore \<Rightarrow> string \<Rightarrow> string \<Rightarrow> ChatRoomMember set" where
  "others a rid u = {m \<in> active_members a rid. mb_UserID m \<noteq> u}"

definition leave_effect ::
  "time \<Rightarrow> string \<Rightarrow> string \<Rightarrow> astore \<Rightarrow> ChatRoomMember \<Rightarrow> ChatRoom \<Rightarrow> astore \<Rightarrow> bool" where
  "leave_effect now rid u a m r' a' \<longleftrightarrow>
    (\<exists>r m0. a_rooms a rid = Some r \<and> a_members a rid u = Some m0
      \<and> mb_Status m0 = MemberStatusActive \<and> m = departed now m0
      \<and> (if rm_OwnerUserID r \<noteq> u then r' = r \<and> a' = put_member m a
         else if others a rid u = {} then r' = closed_room now r
           \<and> a' = (put_member m a)\<lparr>a_rooms := (a_rooms a)(rid \<mapsto> r')\<rparr>
         else (\<exists>n \<in> others a rid u. (\<forall>x \<in> others a rid u. join_key n \<le> join_key x)
           \<and> r' = r\<lparr>rm_OwnerUserID := mb_UserID n, rm_UpdatedAt := now\<rparr>
           \<and> a' = (put_member (n\<lparr>mb_Role := MemberRoleOwner, mb_UpdatedAt := now\<rparr>) (put_member m a))
                    \<lparr>a_rooms := (a_rooms a)(rid \<mapsto> r')\<rparr>)))"

lemma sort_members_sorted:
  assumes "lists_sorted join_key M ms"
  shows "sort_stable older_member ms = ms"
proof -
  have "sort_stable older_member ms = sort_key join_key ms"
    by (rule sort_stable_key) (auto simp: older_member_def join_key_def less_prod_def')
  also have "\<dots> = ms"
    using assms by (simp add: lists_sorted_def sort_key_id_if_sorted)
  finally show ?thesis .
qed

lemma members_ok_transfer:
  assumes "members_ok r ms" "rm_OwnerUserID r = u" "member_ok m" "mb_Role m = MemberRoleMember"
    "member_ok n" "mb_Role n = MemberRoleOwner" "mb_Status n = MemberStatusActive" "rm_OwnerUserID r' = v"
  shows "members_ok r' (ms(u \<mapsto> m, v \<mapsto> n))"
  unfolding members_ok_def
proof (intro conjI allI impI)
  fix x y
  assume x: "(ms(u \<mapsto> m, v \<mapsto> n)) x = Some y"
  then have "x = v \<and> y = n \<or> x \<noteq> v \<and> x = u \<and> y = m \<or> x \<noteq> v \<and> x \<noteq> u \<and> ms x = Some y"
    by (simp split: if_split_asm)
  then show "member_ok y" "mb_Role y = MemberRoleOwner \<Longrightarrow> x = rm_OwnerUserID r'"
    using members_okD [OF assms(1)] assms(2-8) by auto
qed (use assms in simp)

text \<open>The three ways to leave: not as the owner, as the last member, or handing the room over.\<close>

lemma leave_effect_cases [consumes 2, case_names member last pass]:
  assumes "leave_effect now rid u a m r' a'"
    and key: "\<forall>v x. a_members a rid v = Some x \<longrightarrow> mb_RoomID x = rid \<and> mb_UserID x = v"
  obtains r m0 where "a_rooms a rid = Some r" "a_members a rid u = Some m0" "mb_Status m0 = MemberStatusActive"
      "m = departed now m0" "mb_RoomID m = rid" "mb_UserID m = u" "rm_OwnerUserID r \<noteq> u" "r' = r" "a' = put_member m a"
  | r m0 where "a_rooms a rid = Some r" "a_members a rid u = Some m0" "mb_Status m0 = MemberStatusActive"
      "m = departed now m0" "mb_RoomID m = rid" "mb_UserID m = u" "rm_OwnerUserID r = u" "others a rid u = {}"
      "r' = closed_room now r" "a' = (put_member m a)\<lparr>a_rooms := (a_rooms a)(rid \<mapsto> r')\<rparr>"
  | r m0 n v where "a_rooms a rid = Some r" "a_members a rid u = Some m0" "mb_Status m0 = MemberStatusActive"
      "m = departed now m0" "mb_RoomID m = rid" "mb_UserID m = u" "rm_OwnerUserID r = u"
      "n \<in> others a rid u" "\<forall>x \<in> others a rid u. join_key n \<le> join_key x"
      "a_members a rid v = Some n" "mb_Status n = MemberStatusActive" "v \<noteq> u" "mb_UserID n = v" "mb_RoomID n = rid"
      "r' = r\<lparr>rm_OwnerUserID := v, rm_UpdatedAt := now\<rparr>"
      "a' = (put_member (n\<lparr>mb_Role := MemberRoleOwner, mb_UpdatedAt := now\<rparr>) (put_member m a))
          \<lparr>a_rooms := (a_rooms a)(rid \<mapsto> r')\<rparr>"
proof -
  from assms(1) obtain r m0 where r: "a_rooms a rid = Some r" "a_members a rid u = Some m0" "mb_Status m0 = MemberStatusActive"
    "m = departed now m0"
    and c: "if rm_OwnerUserID r \<noteq> u then r' = r \<and> a' = put_member m a
         else if others a rid u = {} then r' = closed_room now r
           \<and> a' = (put_member m a)\<lparr>a_rooms := (a_rooms a)(rid \<mapsto> r')\<rparr>
         else (\<exists>n \<in> others a rid u. (\<forall>x \<in> others a rid u. join_key n \<le> join_key x)
           \<and> r' = r\<lparr>rm_OwnerUserID := mb_UserID n, rm_UpdatedAt := now\<rparr>
           \<and> a' = (put_member (n\<lparr>mb_Role := MemberRoleOwner, mb_UpdatedAt := now\<rparr>) (put_member m a))
                    \<lparr>a_rooms := (a_rooms a)(rid \<mapsto> r')\<rparr>)"
    unfolding leave_effect_def by blast
  have k: "mb_RoomID m = rid" "mb_UserID m = u" using key r(2) by (simp_all add: r(4))
  have active: "\<exists>v. a_members a rid v = Some n \<and> mb_Status n = MemberStatusActive \<and> v \<noteq> u \<and> mb_UserID n = v \<and> mb_RoomID n = rid"
    if "n \<in> others a rid u" for n using that key by (auto simp: others_def active_members_def ran_def)
  show thesis
  proof (cases "rm_OwnerUserID r = u \<and> others a rid u \<noteq> {}")
    case True
    with c obtain n where n: "n \<in> others a rid u" "\<forall>x \<in> others a rid u. join_key n \<le> join_key x"
      "r' = r\<lparr>rm_OwnerUserID := mb_UserID n, rm_UpdatedAt := now\<rparr>"
      "a' = (put_member (n\<lparr>mb_Role := MemberRoleOwner, mb_UpdatedAt := now\<rparr>) (put_member m a))\<lparr>a_rooms := (a_rooms a)(rid \<mapsto> r')\<rparr>"
      by auto
    with active [OF n(1)] True show ?thesis using that(3) [OF r k] by blast
  qed (use c in \<open>auto split: if_splits intro: that(1,2) [OF r k]\<close>)
qed

lemma leave_effect_inv:
  assumes inv: "rooms_inv a" and eff: "leave_effect now rid u a m r' a'"
    and key: "\<forall>v x. a_members a rid v = Some x \<longrightarrow> mb_RoomID x = rid \<and> mb_UserID x = v"
  shows "rooms_inv a'"
proof -
  have m_ok: "member_ok (departed now m0)" "mb_Role (departed now m0) = MemberRoleMember"
    "mb_Status (departed now m0) = MemberStatusLeft"
    if "a_rooms a rid = Some r" "a_members a rid u = Some m0" "mb_Status m0 = MemberStatusActive" for r m0
    using members_okD(1) [OF rooms_invD(1) [OF inv that(1)] that(2)] that(3) by (auto simp: departed_def member_ok_def)
  from eff key show ?thesis
  proof (cases rule: leave_effect_cases)
    case (member r m0)
    have "members_ok r ((a_members a rid)(u \<mapsto> m))"
      using rooms_invD(1) [OF inv member(1)] m_ok [OF member(1-3)] member(4-7) by (intro members_ok_put) simp_all
    with member inv show ?thesis by (simp add: rooms_inv_member)
  next
    case (last r m0)
    have "members_ok r' ((a_members a rid)(u \<mapsto> m))"
      using members_ok_shut [OF rooms_invD(1) [OF inv last(1)], of "closed_room now r"] m_ok [OF last(1-3)] unfolding last(4,9)
      by (intro members_ok_put) simp_all
    from rooms_inv_replace [OF inv last(1) this] last show ?thesis by (simp add: put_member_def)
  next
    case (pass r m0 n v)
    note ok = rooms_invD(1) [OF inv pass(1)] and m = m_ok [OF pass(1-3)]
    have "members_ok r' ((a_members a rid)(u \<mapsto> m, v \<mapsto> n\<lparr>mb_Role := MemberRoleOwner, mb_UpdatedAt := now\<rparr>))"
      using members_okD(1) [OF ok pass(10)] pass(11-14) unfolding pass(4,15)
      by (intro members_ok_transfer [OF ok pass(7) m(1,2)]) (simp_all add: member_ok_def m(3))
    from rooms_inv_replace [OF inv pass(1) this] pass show ?thesis by (simp add: put_member_def room_open_def)
  qed
qed

lemma leave_effect_progress:
  assumes eff: "leave_effect now rid u a m r' a'"
    and key: "\<forall>v x. a_members a rid v = Some x \<longrightarrow> mb_RoomID x = rid \<and> mb_UserID x = v"
  shows "progress a a'"
proof -
  have left: "progress a (put_member m a)"
    if "a_members a rid u = Some m0" "mb_Status m0 = MemberStatusActive" "m = departed now m0" "mb_RoomID m = rid" "mb_UserID m = u" for m0
    using that by (intro progress_member) simp
  have room: "progress b (b\<lparr>a_rooms := (a_rooms a)(rid \<mapsto> r'')\<rparr>)"
    if "a_rooms a rid = Some r" "a_rooms b = a_rooms a" "room_later r r''" for b r r''
    using that progress_room [of b rid r''] by simp
  from eff key show ?thesis
  proof (cases rule: leave_effect_cases)
    case (member r m0)
    then show ?thesis using left by blast
  next
    case (last r m0)
    from progress_trans [OF left [OF last(2-6)] room [OF last(1)], of r'] last(9,10) show ?thesis by simp
  next
    case (pass r m0 n v)
    let ?n = "n\<lparr>mb_Role := MemberRoleOwner, mb_UpdatedAt := now\<rparr>"
    have "progress (put_member m a) (put_member ?n (put_member m a))"
      using pass by (intro progress_member) (auto simp: member_later_def)
    then have "progress a (put_member ?n (put_member m a))" using left [OF pass(2-6)] progress_trans by blast
    moreover have "progress (put_member ?n (put_member m a)) a'"
      unfolding pass(16) by (rule room [OF pass(1)]) (simp_all add: pass(15) room_later_def room_open_def)
    ultimately show ?thesis by (rule progress_trans)
  qed
qed

section \<open>The operations keep it\<close>

text \<open>The input of \<^verbatim>\<open>GetOrCreateBoardChatRoom\<close> as it is used.\<close>

definition trimmed :: "BoardChatRoomEntryInput \<Rightarrow> BoardChatRoomEntryInput" where
  "trimmed inp = \<lparr>in_UserID = TrimSpace (in_UserID inp), in_BoardID = TrimSpace (in_BoardID inp),
     in_BoardOwnerUserID = TrimSpace (in_BoardOwnerUserID inp), in_Title = TrimSpace (in_Title inp)\<rparr>"

text \<open>The answer to \<^verbatim>\<open>JoinRoom\<close>; \<open>i\<close> and \<open>now\<close> are the identifier and the time a new record gets.\<close>

definition join_answer :: "astore \<Rightarrow> string \<Rightarrow> string \<Rightarrow> string \<Rightarrow> time \<Rightarrow> error + ChatRoomMember" where
  "join_answer a rid u i now =
    (case a_rooms a rid of
       None \<Rightarrow> Inl ErrNotFound
     | Some r \<Rightarrow>
        if \<not> room_open r then Inl ErrRoomInactive
        else (case a_members a rid u of
                None \<Rightarrow> Inr (new_member i rid u MemberRoleMember now)
              | Some m \<Rightarrow> if mb_Status m = MemberStatusRemoved then Inl ErrRemovedCannotRejoin
                  else if mb_Status m = MemberStatusLeft then Inr (rejoined now m) else Inr m))"

lemma put_member_same: "a_members a (mb_RoomID m) (mb_UserID m) = Some m \<Longrightarrow> put_member m a = a"
  by (simp add: put_member_def fun_upd_idem)

text \<open>The user was removed from the board's open room.\<close>

definition barred :: "astore \<Rightarrow> string \<Rightarrow> string \<Rightarrow> bool" where
  "barred a b u \<longleftrightarrow> (\<exists>r m. a_rooms a (rm_ID r) = Some r \<and> board_room b r
     \<and> a_members a (rm_ID r) u = Some m \<and> mb_Status m = MemberStatusRemoved)"

text \<open>Nothing outside the store and the environment changes.\<close>

definition quiet :: "'s world \<Rightarrow> 's world \<Rightarrow> bool" where
  "quiet w w' \<longleftrightarrow> w_ps w' = w_ps w \<and> w_push w' = w_push w"

lemma quiet_upd [simp]:
  "quiet w (w'\<lparr>w_db := s\<rparr>) \<longleftrightarrow> quiet w w'" "quiet w (w'\<lparr>w_env := g\<rparr>) \<longleftrightarrow> quiet w w'" "quiet w w"
  by (simp_all add: quiet_def)

context chat_repository
begin

definition good :: "'s world \<Rightarrow> bool" where
  "good w \<longleftrightarrow> inv (w_db w) \<and> rooms_inv (abs (w_db w))"

text \<open>A failed request that wrote nothing leaves the abstract store as it was.\<close>

definition untouched :: "'s world \<Rightarrow> 's world \<Rightarrow> bool" where
  "untouched w w' \<longleftrightarrow> inv (w_db w') \<and> abs (w_db w') = abs (w_db w) \<and> quiet w w'"

lemma untouched_refl [simp]: "inv (w_db w) \<Longrightarrow> untouched w w"
  by (simp add: untouched_def)

lemma untouched_env [simp]: "untouched w (w'\<lparr>w_env := g\<rparr>) \<longleftrightarrow> untouched w w'"
  "untouched (w\<lparr>w_env := g\<rparr>) w' \<longleftrightarrow> untouched w w'"
  by (simp_all add: untouched_def quiet_def)

lemma untouched_rollback [simp]:
  "inv (w_db w) \<Longrightarrow> inv s \<Longrightarrow> abs s = abs (w_db w) \<Longrightarrow> quiet w w' \<Longrightarrow>
     untouched w (w'\<lparr>w_db := rp_rollback R (w_db w) s\<rparr>)"
  by (simp add: untouched_def inv_rollback abs_rollback)

lemma wp_tx_untouched:
  assumes "cs_repo svc = R" "inv (w_db w)" "wp m (\<lambda>e w'. untouched w w' \<and> P e) Q w"
  shows "wp (tx svc m) (\<lambda>e w'. untouched w w' \<and> P e) Q w"
  using assms(3) unfolding wp_tx assms(1)
  by (rule wp_mono) (use assms(2) in \<open>auto simp: untouched_def inv_rollback abs_rollback quiet_def\<close>)

lemma untouched_good: "untouched w w' \<Longrightarrow> good w \<Longrightarrow> good w'"
  by (simp add: untouched_def good_def)

lemma goodD: "good w \<Longrightarrow> inv (w_db w)" "good w \<Longrightarrow> rooms_inv (abs (w_db w))"
  by (simp_all add: good_def)

lemma good_member:
  "good w \<Longrightarrow> a_rooms (abs (w_db w)) rid = Some r \<Longrightarrow> a_members (abs (w_db w)) rid u = Some m \<Longrightarrow>
     member_ok m \<and> mb_RoomID m = rid \<and> mb_UserID m = u \<and> (mb_Role m = MemberRoleOwner \<longrightarrow> u = rm_OwnerUserID r)"
  using rooms_invD(1) [of "abs (w_db w)" rid r] member_key [of "w_db w" rid u m]
  by (simp add: good_def members_ok_def)

lemma good_member_room:
  assumes "good w" "a_members (abs (w_db w)) rid u = Some m"
  obtains r where "a_rooms (abs (w_db w)) rid = Some r"
  using assms rooms_invD(2) [of "abs (w_db w)" rid] by (cases "a_rooms (abs (w_db w)) rid") (auto simp: good_def)

lemma good_new_member:
  assumes "good w" "a_rooms (abs (w_db w)) rid = Some r" "room_open r" "a_members (abs (w_db w)) rid u = None"
  shows "rooms_inv (put_member (new_member i rid u MemberRoleMember now) (abs (w_db w)))"
proof -
  note ok = rooms_invD(1) [OF goodD(2) [OF assms(1)] assms(2)]
  have "u \<noteq> rm_OwnerUserID r"
    using assms(4) by (intro members_ok_not_owner [OF ok assms(3)]) simp
  with ok assms show ?thesis
    by (intro rooms_inv_member [of _ _ r] members_ok_put) (simp_all add: goodD)
qed

lemma good_rejoined:
  assumes "good w" "a_rooms (abs (w_db w)) rid = Some r" "room_open r"
    "a_members (abs (w_db w)) rid u = Some m" "mb_Status m = MemberStatusLeft"
  shows "rooms_inv (put_member (rejoined now m) (abs (w_db w)))"
proof -
  note ok = rooms_invD(1) [OF goodD(2) [OF assms(1)] assms(2)] and m = good_member [OF assms(1,2,4)]
  have "u \<noteq> rm_OwnerUserID r"
    using assms(4,5) by (intro members_ok_not_owner [OF ok assms(3)]) simp
  with ok m assms show ?thesis
    by (intro rooms_inv_member [of _ _ r] members_ok_put) (simp_all add: goodD)
qed

text \<open>Entering a room: the user has an active record afterwards, created or reactivated if needed.\<close>

lemma wp_ensureActiveMember:
  assumes g: "good w" and R: "cs_repo svc = R" and r: "a_rooms (abs (w_db w)) rid = Some r" "room_open r"
  shows "wp (ensureActiveMember svc rid u now)
    (\<lambda>e w'. untouched w w' \<and> e = ErrRemovedCannotRejoin
        \<and> (\<exists>m. a_members (abs (w_db w)) rid u = Some m \<and> mb_Status m = MemberStatusRemoved))
    (\<lambda>m w'. good w' \<and> quiet w w' \<and> mb_Status m = MemberStatusActive \<and> mb_RoomID m = rid \<and> mb_UserID m = u
        \<and> progress (abs (w_db w)) (abs (w_db w'))
        \<and> (a_members (abs (w_db w)) rid u = Some m \<and> abs (w_db w') = abs (w_db w)
           \<or> abs (w_db w') = put_member m (abs (w_db w)))) w"
proof (cases "a_members (abs (w_db w)) rid u")
  case None
  with good_new_member [OF g r] g R show ?thesis
    by (simp add: ensureActiveMember_def Let_def good_def spec_CreateMember_def)
next
  case (Some m)
  note m = good_member [OF g r(1) Some]
  consider "mb_Status m = MemberStatusActive" | "mb_Status m = MemberStatusRemoved"
    | "mb_Status m = MemberStatusLeft" using m by (auto simp: member_ok_def)
  then show ?thesis
  proof cases
    case 3
    with good_rejoined [OF g r Some] Some m g R show ?thesis
      by (simp add: ensureActiveMember_def Let_def good_def spec_UpdateMember_def)
  qed (use Some m g R in \<open>simp_all add: ensureActiveMember_def Let_def goodD\<close>)
qed

lemma wp_ensurePassiveMember:
  assumes g: "good w" and R: "cs_repo svc = R" and r: "a_rooms (abs (w_db w)) rid = Some r" "room_open r"
  shows "wp (ensurePassiveMember svc rid u0 entering now) (\<lambda>e w'. False)
    (\<lambda>_ w'. good w' \<and> quiet w w' \<and> (abs (w_db w') = abs (w_db w)
       \<or> (\<exists>i. a_members (abs (w_db w)) rid (TrimSpace u0) = None
            \<and> abs (w_db w') = put_member (new_member i rid (TrimSpace u0) MemberRoleMember now) (abs (w_db w))))) w"
proof (cases "a_members (abs (w_db w)) rid (TrimSpace u0)")
  case None
  with good_new_member [OF g r] g R show ?thesis
    by (auto simp: ensurePassiveMember_def Let_def good_def spec_CreateMember_def)
qed (use g R in \<open>simp add: ensurePassiveMember_def Let_def goodD\<close>)

text \<open>Joining: every answer, and the record the user has afterwards.\<close>

lemma wp_JoinRoom:
  assumes g: "good w" and R: "cs_repo svc = R"
  defines "i \<equiv> fst (id_New (snd (time_Now (w_env w))))" and "now \<equiv> fst (time_Now (w_env w))"
  shows "wp (svc_JoinRoom svc rid u)
    (\<lambda>e w'. untouched w w' \<and> join_answer (abs (w_db w)) rid u i now = Inl e)
    (\<lambda>m w'. good w' \<and> quiet w w' \<and> join_answer (abs (w_db w)) rid u i now = Inr m
        \<and> mb_Status m = MemberStatusActive \<and> mb_RoomID m = rid \<and> mb_UserID m = u
        \<and> progress (abs (w_db w)) (abs (w_db w')) \<and> abs (w_db w') = put_member m (abs (w_db w))) w"
proof (cases "a_rooms (abs (w_db w)) rid")
  case (Some r)
  show ?thesis
  proof (cases "room_open r")
    case True
    note r = Some True
    have ro: "rm_IsActive r" "rm_DeletedAt r = None" using True by (simp_all add: room_open_def)
    show ?thesis
    proof (cases "a_members (abs (w_db w)) rid u")
      case None
      with good_new_member [OF g r] g R r ro show ?thesis
        by (simp add: svc_JoinRoom_def Let_def good_def spec_CreateMember_def join_answer_def i_def now_def)
    next
      case m0: (Some m)
      note m = good_member [OF g r(1) m0]
      have same: "put_member m (abs (w_db w)) = abs (w_db w)" using m0 m by (simp add: put_member_same)
      consider "mb_Status m = MemberStatusActive" | "mb_Status m = MemberStatusRemoved"
        | "mb_Status m = MemberStatusLeft" using m by (auto simp: member_ok_def)
      then show ?thesis
      proof cases
        case 3
        with good_rejoined [OF g r m0] m0 m g R r ro show ?thesis
          by (simp add: svc_JoinRoom_def Let_def good_def spec_UpdateMember_def join_answer_def now_def)
      qed (use m0 m g R r ro same in \<open>simp_all add: svc_JoinRoom_def Let_def good_def join_answer_def\<close>)
    qed
  qed (use Some g R in \<open>auto simp: svc_JoinRoom_def room_open_def goodD join_answer_def\<close>)
qed (use g R in \<open>simp add: svc_JoinRoom_def goodD join_answer_def\<close>)

lemma active_after_departure:
  assumes "inv s" "a_members (abs s) rid u = Some m0"
  shows "active_members (put_member (departed now m0) (abs s)) rid = others (abs s) rid u"
proof -
  have k: "mb_RoomID m0 = rid" "mb_UserID m0 = u" using member_key [OF assms] by auto
  have "x \<in> active_members (put_member (departed now m0) (abs s)) rid \<longleftrightarrow> x \<in> others (abs s) rid u" for x
  proof
    assume "x \<in> active_members (put_member (departed now m0) (abs s)) rid"
    then obtain v where "((a_members (abs s) rid)(u \<mapsto> departed now m0)) v = Some x"
      "mb_Status x = MemberStatusActive" by (auto simp: active_members_def ran_def k)
    then have "v \<noteq> u" "a_members (abs s) rid v = Some x" by (auto split: if_split_asm)
    then show "x \<in> others (abs s) rid u"
      using member_key [OF assms(1), of rid v x] \<open>mb_Status x = MemberStatusActive\<close>
      by (auto simp: others_def active_members_def ran_def)
  next
    assume "x \<in> others (abs s) rid u"
    then obtain v where v: "a_members (abs s) rid v = Some x" "mb_UserID x \<noteq> u" "mb_Status x = MemberStatusActive"
      by (auto simp: others_def active_members_def ran_def)
    then have "v \<noteq> u" using member_key [OF assms(1) v(1)] by simp
    then show "x \<in> active_members (put_member (departed now m0) (abs s)) rid"
      using v by (auto simp: active_members_def ran_def k intro!: exI [of _ v])
  qed
  then show ?thesis by blast
qed

text \<open>
  Leaving: the store after the member's own record is closed, and what the rest of the operation does
  in the three cases (not the owner, the last member, handing the room over).
\<close>

definition departure :: "'s \<Rightarrow> time \<Rightarrow> ChatRoomMember \<Rightarrow> 's" where
  "departure s now m = snd (rp_UpdateMember R s (departed now m))"

lemma departure_store:
  assumes "inv s" "a_members (abs s) rid u = Some m"
  shows "inv (departure s now m)" "abs (departure s now m) = put_member (departed now m) (abs s)"
    and departure_list: "lists_sorted join_key (others (abs s) rid u) (active_list (departure s now m) rid)"
proof -
  have k: "mb_RoomID m = rid" "mb_UserID m = u" using member_key [OF assms] by auto
  show *: "inv (departure s now m)" "abs (departure s now m) = put_member (departed now m) (abs s)"
    using assms k by (simp_all add: departure_def spec_UpdateMember_def)
  show "lists_sorted join_key (others (abs s) rid u) (active_list (departure s now m) rid)"
    using active_list(2) [OF *(1), of rid] active_after_departure [OF assms] by (simp add: *(2))
qed

definition leaves :: "'s ChatService \<Rightarrow> string \<Rightarrow> string \<Rightarrow> 's world \<Rightarrow> bool" where
  "leaves svc rid u w = wp (svc_LeaveRoom svc rid u) (\<lambda>e w'. False)
    (\<lambda>(m, r) w'. good w' \<and> quiet w w'
        \<and> leave_effect (fst (time_Now (w_env w))) rid u (abs (w_db w)) m r (abs (w_db w'))) w"

lemma good_leave_effect:
  assumes "good w" "inv (w_db w')" "leave_effect now rid u (abs (w_db w)) m r (abs (w_db w'))"
  shows "good w'"
  using leave_effect_inv [OF goodD(2) [OF assms(1)] assms(3)] member_key [OF goodD(1) [OF assms(1)]] assms(2)
  by (simp add: good_def)

lemma leaves_member:
  assumes g: "good w" and R: "cs_repo svc = R" and m: "a_members (abs (w_db w)) rid u = Some m" "mb_Status m = MemberStatusActive"
    and r: "a_rooms (abs (w_db w)) rid = Some r" "rm_OwnerUserID r \<noteq> u"
  shows "leaves svc rid u w"
proof -
  define now where "now = fst (time_Now (w_env w))"
  let ?s1 = "departure (w_db w) now m"
  note s1 = departure_store [OF goodD(1) [OF g] m(1), of now]
  have k: "mb_RoomID m = rid" "mb_UserID m = u" using member_key [OF goodD(1) [OF g] m(1)] by auto
  have eff: "leave_effect now rid u (abs (w_db w)) (departed now m) r (abs ?s1)"
    using m r by (simp add: leave_effect_def s1(2))
  with good_leave_effect [OF g, of "w\<lparr>w_env := snd (time_Now (w_env w)), w_db := ?s1\<rparr>"] s1 m r goodD(1) [OF g] R k
  show ?thesis
    by (simp add: leaves_def svc_LeaveRoom_def Let_def spec_UpdateMember_def flip: now_def departure_def)
qed

lemma leaves_last:
  assumes g: "good w" and R: "cs_repo svc = R" and m: "a_members (abs (w_db w)) rid u = Some m" "mb_Status m = MemberStatusActive"
    and r: "a_rooms (abs (w_db w)) rid = Some r" "rm_OwnerUserID r = u" and none: "others (abs (w_db w)) rid u = {}"
  shows "leaves svc rid u w"
proof -
  define now where "now = fst (time_Now (w_env w))"
  let ?s1 = "departure (w_db w) now m"
  note inv = goodD(1) [OF g]
  note s1 = departure_store [OF inv m(1), of now]
  have k: "mb_RoomID m = rid" "mb_UserID m = u" "rm_ID r = rid"
    using member_key [OF inv m(1)] room_key [OF inv r(1)] by auto
  have lst: "rp_ListActiveMembersByJoinOrder R ?s1 rid = Inr []"
    using active_list(1) [OF s1(1), of rid] departure_list [OF inv m(1), of now] none by (simp add: lists_sorted_def)
  define s2 where "s2 = snd (rp_UpdateRoom R ?s1 (closed_room now r))"
  have s2: "inv s2" "abs s2 = (abs ?s1)\<lparr>a_rooms := (a_rooms (abs (w_db w)))(rid \<mapsto> closed_room now r)\<rparr>"
    using s1 r k by (simp_all add: s2_def spec_UpdateRoom_def)
  have eff: "leave_effect now rid u (abs (w_db w)) (departed now m) (closed_room now r) (abs s2)"
    using m r none by (simp add: leave_effect_def s2(2) s1(2))
  with good_leave_effect [OF g, of "w\<lparr>w_env := snd (time_Now (w_env w)), w_db := s2\<rparr>"] s1 s2 m r inv R k lst
  show ?thesis
    by (simp add: leaves_def svc_LeaveRoom_def Let_def spec_UpdateMember_def spec_UpdateRoom_def
             del: read_run(4) flip: now_def departure_def s2_def)
qed

lemma leaves_owner:
  assumes g: "good w" and R: "cs_repo svc = R" and m: "a_members (abs (w_db w)) rid u = Some m" "mb_Status m = MemberStatusActive"
    and r: "a_rooms (abs (w_db w)) rid = Some r" "rm_OwnerUserID r = u" and some: "others (abs (w_db w)) rid u \<noteq> {}"
  shows "leaves svc rid u w"
proof -
  define now where "now = fst (time_Now (w_env w))"
  let ?s1 = "departure (w_db w) now m"
  note inv = goodD(1) [OF g]
  note s1 = departure_store [OF inv m(1), of now] and srt = departure_list [OF inv m(1), of now]
  have k: "mb_RoomID m = rid" "mb_UserID m = u" "rm_ID r = rid"
    using member_key [OF inv m(1)] room_key [OF inv r(1)] by auto
  obtain n ns where ns: "active_list ?s1 rid = n # ns"
    using srt some by (cases "active_list ?s1 rid") (auto simp: lists_sorted_def)
  then have n: "n \<in> others (abs (w_db w)) rid u" "\<forall>x \<in> others (abs (w_db w)) rid u. join_key n \<le> join_key x"
    using srt by (auto simp: lists_sorted_def)
  then obtain v where v: "a_members (abs (w_db w)) rid v = Some n" "v \<noteq> u" "mb_UserID n = v" "mb_RoomID n = rid"
    using member_key [OF inv] by (auto simp: others_def active_members_def ran_def)
  let ?n = "n\<lparr>mb_Role := MemberRoleOwner, mb_UpdatedAt := now\<rparr>" and ?r = "r\<lparr>rm_OwnerUserID := v, rm_UpdatedAt := now\<rparr>"
  define s2 where "s2 = snd (rp_UpdateMember R ?s1 ?n)"
  define s3 where "s3 = snd (rp_UpdateRoom R s2 ?r)"
  have s2: "inv s2" "abs s2 = put_member ?n (abs ?s1)"
    using s1 v k by (simp_all add: s2_def spec_UpdateMember_def)
  have s3: "inv s3" "abs s3 = (abs s2)\<lparr>a_rooms := (a_rooms (abs (w_db w)))(rid \<mapsto> ?r)\<rparr>"
    using s1 s2 r k by (simp_all add: s3_def spec_UpdateRoom_def)
  have eff: "leave_effect now rid u (abs (w_db w)) (departed now m) ?r (abs s3)"
    using m r some n v(3) by (auto simp: leave_effect_def s3(2) s2(2) s1(2))
  have srt': "sort_stable older_member (n # ns) = n # ns" using sort_members_sorted [OF srt] ns by simp
  from eff good_leave_effect [OF g, of "w\<lparr>w_env := snd (time_Now (w_env w)), w_db := s3\<rparr>"] s1 s2 s3 m r inv R k ns srt' v
  show ?thesis
    by (simp add: leaves_def svc_LeaveRoom_def Let_def spec_UpdateMember_def spec_UpdateRoom_def
             del: sort_stable_simps flip: now_def departure_def s2_def s3_def)
qed

lemma wp_LeaveRoom:
  assumes g: "good w" and R: "cs_repo svc = R"
  shows "wp (svc_LeaveRoom svc rid u)
    (\<lambda>e w'. untouched w w' \<and> (case a_members (abs (w_db w)) rid u of
        None \<Rightarrow> e = ErrNotFound | Some m \<Rightarrow> e = ErrInvalidState \<and> mb_Status m \<noteq> MemberStatusActive))
    (\<lambda>(m, r) w'. good w' \<and> quiet w w'
        \<and> leave_effect (fst (time_Now (w_env w))) rid u (abs (w_db w)) m r (abs (w_db w'))) w"
proof (cases "a_members (abs (w_db w)) rid u")
  case None
  with g R show ?thesis
    by (cases "a_rooms (abs (w_db w)) rid") (simp_all add: svc_LeaveRoom_def goodD)
next
  case (Some m)
  from good_member_room [OF g Some] obtain r where r: "a_rooms (abs (w_db w)) rid = Some r" .
  show ?thesis
  proof (cases "mb_Status m = MemberStatusActive")
    case True
    have "leaves svc rid u w"
      using leaves_member [OF g R Some True r] leaves_last [OF g R Some True r] leaves_owner [OF g R Some True r] by blast
    then show ?thesis unfolding leaves_def by (rule wp_mono) auto
  qed (use Some r g R in \<open>simp add: svc_LeaveRoom_def goodD\<close>)
qed

text \<open>Removing a member and closing a room: only the owner may, and the owner cannot be removed.\<close>

lemma wp_RemoveMember:
  assumes g: "good w" and R: "cs_repo svc = R"
  shows "wp (svc_RemoveMember svc rid owner target)
    (\<lambda>e w'. untouched w w' \<and>
       (if target = owner then e = ErrPermissionDenied else case a_rooms (abs (w_db w)) rid of
          None \<Rightarrow> e = ErrNotFound
        | Some r \<Rightarrow> if rm_OwnerUserID r \<noteq> owner then e = ErrPermissionDenied
            else e = ErrNotFound \<and> a_members (abs (w_db w)) rid target = None))
    (\<lambda>m w'. good w' \<and> quiet w w' \<and> target \<noteq> owner
        \<and> (\<exists>r m0. a_rooms (abs (w_db w)) rid = Some r \<and> rm_OwnerUserID r = owner
             \<and> a_members (abs (w_db w)) rid target = Some m0
             \<and> m = expelled (fst (time_Now (w_env w))) owner m0
             \<and> abs (w_db w') = put_member m (abs (w_db w)))) w"
proof (cases "\<exists>r m0. target \<noteq> owner \<and> a_rooms (abs (w_db w)) rid = Some r \<and> rm_OwnerUserID r = owner
    \<and> a_members (abs (w_db w)) rid target = Some m0")
  case True
  then obtain r m0 where r: "target \<noteq> owner" "a_rooms (abs (w_db w)) rid = Some r" "rm_OwnerUserID r = owner"
    and m0: "a_members (abs (w_db w)) rid target = Some m0" by blast
  note m = good_member [OF g r(2) m0] and ok = rooms_invD(1) [OF goodD(2) [OF g] r(2)]
  have "rm_OwnerUserID r \<noteq> target" using r by blast
  then have "rooms_inv (put_member (expelled now owner m0) (abs (w_db w)))" for now
    using r(2) m ok by (intro rooms_inv_member [OF goodD(2) [OF g], where r = r] members_ok_put) auto
  with g R r m0 m show ?thesis
    by (simp add: svc_RemoveMember_def good_def spec_UpdateMember_def)
next
  case False
  with g R show ?thesis
    by (cases "a_rooms (abs (w_db w)) rid"; cases "a_members (abs (w_db w)) rid target")
       (auto simp: svc_RemoveMember_def goodD)
qed

lemma wp_DeactivateRoom:
  assumes g: "good w" and R: "cs_repo svc = R"
  shows "wp (svc_DeactivateRoom svc rid owner)
    (\<lambda>e w'. untouched w w' \<and>
       (case a_rooms (abs (w_db w)) rid of
          None \<Rightarrow> e = ErrNotFound | Some r \<Rightarrow> e = ErrPermissionDenied \<and> rm_OwnerUserID r \<noteq> owner))
    (\<lambda>r' w'. good w' \<and> quiet w w' \<and> (\<exists>r. a_rooms (abs (w_db w)) rid = Some r \<and> rm_OwnerUserID r = owner
        \<and> r' = closed_room (fst (time_Now (w_env w))) r
        \<and> abs (w_db w') = (abs (w_db w))\<lparr>a_rooms := (a_rooms (abs (w_db w)))(rid \<mapsto> r')\<rparr>)) w"
proof (cases "a_rooms (abs (w_db w)) rid")
  case (Some r)
  note ok = rooms_invD(1) [OF goodD(2) [OF g] Some]
  have "rooms_inv ((abs (w_db w))\<lparr>a_rooms := (a_rooms (abs (w_db w)))(rid \<mapsto> closed_room now r)\<rparr>)" for now
    by (rule rooms_inv_room [OF goodD(2) [OF g] Some members_ok_shut [OF ok]]) simp_all
  moreover have "rm_ID r = rid" using room_key [OF goodD(1) [OF g] Some] .
  ultimately show ?thesis using g R Some
    by (simp add: svc_DeactivateRoom_def Let_def good_def spec_UpdateRoom_def)
qed (use g R in \<open>simp add: svc_DeactivateRoom_def goodD\<close>)

text \<open>Creating a room with its owner.\<close>

lemma good_new_room:
  assumes "good w" "a_rooms (abs (w_db w)) i = None" "rm_OwnerUserID r = u"
    "\<And>b r'. board_key r = Some b \<Longrightarrow> r' \<in> ran (a_rooms (abs (w_db w))) \<Longrightarrow> \<not> board_room b r'"
  shows "a_members (abs (w_db w)) i = Map.empty"
    and "rooms_inv (put_member (new_member j i u MemberRoleOwner now)
           ((abs (w_db w))\<lparr>a_rooms := (a_rooms (abs (w_db w)))(i \<mapsto> r)\<rparr>))"
  using assms rooms_inv_new [OF goodD(2) [OF assms(1)] assms(2), of r "new_member j i u MemberRoleOwner now"]
    rooms_invD(2) [OF goodD(2) [OF assms(1)] assms(2)] by simp_all

lemma wp_CreateRoom:
  assumes g: "good w" and R: "cs_repo svc = R"
  shows "wp (svc_CreateRoom svc u title)
    (\<lambda>e w'. untouched w w' \<and> e = ErrAlreadyExists \<and> a_rooms (abs (w_db w)) (fst (id_New (snd (time_Now (w_env w))))) \<noteq> None)
    (\<lambda>r w'. good w' \<and> quiet w w' \<and> a_rooms (abs (w_db w)) (rm_ID r) = None \<and> room_open r
        \<and> rm_ID r = fst (id_New (snd (time_Now (w_env w))))
        \<and> rm_OwnerUserID r = u \<and> rm_Title r = TrimSpace title \<and> rm_RoomType r = RoomTypeGeneralGroup
        \<and> (\<exists>j. abs (w_db w') = put_member (new_member j (rm_ID r) u MemberRoleOwner (rm_CreatedAt r))
             ((abs (w_db w))\<lparr>a_rooms := (a_rooms (abs (w_db w)))(rm_ID r \<mapsto> r)\<rparr>))) w"
proof -
  define now where "now = fst (time_Now (w_env w))"
  define g1 where "g1 = snd (time_Now (w_env w))"
  define i where "i = fst (id_New g1)"
  define j where "j = fst (id_New (snd (id_New g1)))"
  let ?r = "new_room i RoomTypeGeneralGroup (TrimSpace title) [] u now"
  have "\<not> board_room [] ?r" "board_key ?r = None" by (simp_all add: board_room_def board_key_def)
  moreover have "rm_Title ?r = TrimSpace title" "rm_CreatedAt ?r = now" by (simp_all add: new_room_def)
  ultimately show ?thesis
    using g R good_new_room(1) [OF g, of i ?r u] good_new_room(2) [OF g, of i ?r u j now]
    by (cases "a_rooms (abs (w_db w)) i")
       (auto simp: svc_CreateRoom_def Let_def good_def spec_CreateRoom_def spec_CreateMember_def
             simp flip: now_def g1_def i_def j_def)
qed

text \<open>Rooms linked to a board.\<close>

lemma wp_CreateBoardLinkedRoom:
  assumes g: "good w" and R: "cs_repo svc = R"
  shows "wp (svc_CreateBoardLinkedRoom svc u b title) (\<lambda>e w'. False)
    (\<lambda>(r, existed) w'. good w' \<and> quiet w w' \<and>
       (if existed then abs (w_db w') = abs (w_db w)
        else (\<forall>r' \<in> ran (a_rooms (abs (w_db w))). \<not> board_room b r') \<and> board_room b r
          \<and> a_rooms (abs (w_db w)) (rm_ID r) = None \<and> rm_OwnerUserID r = u
          \<and> (\<exists>j. abs (w_db w') = put_member (new_member j (rm_ID r) u MemberRoleOwner (rm_CreatedAt r))
             ((abs (w_db w))\<lparr>a_rooms := (a_rooms (abs (w_db w)))(rm_ID r \<mapsto> r)\<rparr>)))) w"
proof (cases "rp_GetActiveBoardLinkedRoom R (w_db w) b")
  case (Inl e)
  from GetActiveBoardLinkedRoom_none [OF goodD(1) [OF g] Inl]
  have e: "e = ErrNotFound" and none: "\<forall>r' \<in> ran (a_rooms (abs (w_db w))). \<not> board_room b r'" by auto
  define now where "now = fst (time_Now (w_env w))"
  define g1 where "g1 = snd (time_Now (w_env w))"
  define i where "i = fst (id_New g1)"
  define j where "j = fst (id_New (snd (id_New g1)))"
  let ?r = "new_room i RoomTypeBoardLinkedGroup (TrimSpace title) b u now"
  have r: "board_room b ?r" "rm_CreatedAt ?r = now" by (simp_all add: board_room_def new_room_def room_open_def)
  have bk: "\<not> board_room b' r'" if "board_key ?r = Some b'" "r' \<in> ran (a_rooms (abs (w_db w)))" for b' r'
    using none that by (auto simp: board_key_def split: if_splits)
  show ?thesis
  proof (cases "a_rooms (abs (w_db w)) i")
    case None
    with g R Inl e none r good_new_room(1) [OF g None, of ?r u] good_new_room(2) [OF g None, of ?r u j now] bk
    show ?thesis
      by (auto simp: svc_CreateBoardLinkedRoom_def Let_def good_def spec_CreateRoom_def spec_CreateMember_def
            simp flip: now_def g1_def i_def j_def)
  next
    case (Some x)
    with g R Inl e show ?thesis
      by (simp add: svc_CreateBoardLinkedRoom_def Let_def good_def spec_CreateRoom_def inv_rollback abs_rollback
               flip: now_def g1_def i_def j_def)
  qed
qed (use g R in \<open>simp add: svc_CreateBoardLinkedRoom_def goodD\<close>)

text \<open>
  Entering an existing board room: the room the repository finds, the user active in it, and the
  board owner, if one is named, a member of it.
\<close>

definition entered :: "BoardChatRoomEntryInput \<Rightarrow> 's world \<Rightarrow> BoardChatRoomEntry \<Rightarrow> bool" where
  "entered inp w' en \<longleftrightarrow>
     a_rooms (abs (w_db w')) (rm_ID (en_Room en)) = Some (en_Room en) \<and> board_room (in_BoardID inp) (en_Room en)
     \<and> a_members (abs (w_db w')) (rm_ID (en_Room en)) (in_UserID inp) = Some (en_Member en)
     \<and> mb_Status (en_Member en) = MemberStatusActive
     \<and> (TrimSpace (in_BoardOwnerUserID inp) \<noteq> [] \<longrightarrow>
          a_members (abs (w_db w')) (rm_ID (en_Room en)) (TrimSpace (in_BoardOwnerUserID inp)) \<noteq> None)"

lemma wp_passive_entered:
  assumes g: "good w" and R: "cs_repo svc = R" and r: "a_rooms (abs (w_db w)) rid = Some r" "board_room (in_BoardID inp) r"
    and m: "a_members (abs (w_db w)) rid (in_UserID inp) = Some m" "mb_Status m = MemberStatusActive"
    and q: "quiet w0 w" and tr: "TrimSpace (in_BoardOwnerUserID inp) = in_BoardOwnerUserID inp"
  shows "wp (ensurePassiveMember svc rid (in_BoardOwnerUserID inp) (in_UserID inp) now) (\<lambda>e w'. False)
    (\<lambda>_ w'. good w' \<and> quiet w0 w' \<and> a_rooms (abs (w_db w')) = a_rooms (abs (w_db w))
       \<and> progress (abs (w_db w)) (abs (w_db w'))
       \<and> entered inp w' \<lparr>en_Room = r, en_Member = m, en_AlreadyExists = ex\<rparr>) w"
proof -
  have o: "room_open r" and k: "rm_ID r = rid"
    using r(2) room_key [OF goodD(1) [OF g] r(1)] by (simp_all add: board_room_def)
  show ?thesis
  proof (cases "a_members (abs (w_db w)) rid (in_BoardOwnerUserID inp)")
    case None
    then have "in_UserID inp \<noteq> in_BoardOwnerUserID inp" using m by auto
    with g R None good_new_member [OF g r(1) o None] r m q k tr show ?thesis
      by (simp add: ensurePassiveMember_def Let_def spec_CreateMember_def entered_def good_def)
  qed (use g R r m q k tr in \<open>simp add: ensurePassiveMember_def Let_def entered_def goodD\<close>)
qed

text \<open>The members of the room that is entered: the user becomes active, the owner of the board gets a record.\<close>

definition board_room_entered :: "'s world \<Rightarrow> BoardChatRoomEntryInput \<Rightarrow> BoardChatRoomEntry \<Rightarrow> 's world \<Rightarrow> bool" where
  "board_room_entered w inp en w' \<longleftrightarrow> good w' \<and> quiet w w' \<and> progress (abs (w_db w)) (abs (w_db w')) \<and> entered inp w' en
     \<and> en_AlreadyExists en \<and> a_rooms (abs (w_db w')) = a_rooms (abs (w_db w))"

lemma wp_enter_members:
  assumes g: "good w" and R: "cs_repo svc = R" and w1: "good w1" "w_db w1 = w_db w" "quiet w w1"
    and tr: "TrimSpace (in_BoardOwnerUserID inp) = in_BoardOwnerUserID inp"
    and r: "a_rooms (abs (w_db w)) (rm_ID r) = Some r" "board_room (in_BoardID inp) r" "room_open r"
  shows "wp (bindP (ensureActiveMember svc (rm_ID r) (in_UserID inp) now) (\<lambda>member.
         bindP (ensurePassiveMember svc (rm_ID r) (in_BoardOwnerUserID inp) (in_UserID inp) now) (\<lambda>_.
         ok \<lparr>en_Room = r, en_Member = member, en_AlreadyExists = True\<rparr>)))
    (\<lambda>e w'. untouched w1 w' \<and> e = ErrRemovedCannotRejoin \<and> barred (abs (w_db w)) (in_BoardID inp) (in_UserID inp))
    (board_room_entered w inp) w1"
proof -
  have r1: "a_rooms (abs (w_db w1)) (rm_ID r) = Some r" using r(1) w1(2) by simp
  show ?thesis
    unfolding wp_bindP wp_ok
  proof (rule wp_mono [OF wp_ensureActiveMember [OF w1(1) R r1 r(3), of "in_UserID inp" now]], goal_cases)
    case (1 e w2)
    then show ?case using r w1(2) by (auto simp: barred_def ran_def)
  next
    case (2 m w2)
    then have w2: "good w2" "quiet w w2" "a_rooms (abs (w_db w2)) (rm_ID r) = Some r"
      "a_rooms (abs (w_db w2)) = a_rooms (abs (w_db w))"
      "a_members (abs (w_db w2)) (rm_ID r) (in_UserID inp) = Some m" "mb_Status m = MemberStatusActive"
      "progress (abs (w_db w)) (abs (w_db w2))"
      using r1 w1 by (auto simp: quiet_def)
    show ?case
      by (rule wp_mono [OF wp_passive_entered [OF w2(1) R w2(3) r(2) w2(5,6,2) tr, of now True]])
         (use w2(4,7) in \<open>auto simp: board_room_entered_def intro: progress_trans\<close>)
  qed
qed

lemma wp_enterExisting:
  assumes g: "good w" and R: "cs_repo svc = R"
    and tr: "TrimSpace (in_BoardOwnerUserID inp) = in_BoardOwnerUserID inp"
  shows "wp (enterExistingBoardChatRoom svc inp)
    (\<lambda>e w'. untouched w w' \<and>
       (if \<exists>r \<in> ran (a_rooms (abs (w_db w))). board_room (in_BoardID inp) r
        then e = ErrRemovedCannotRejoin \<and> barred (abs (w_db w)) (in_BoardID inp) (in_UserID inp)
        else e = ErrNotFound))
    (board_room_entered w inp) w"
proof (cases "rp_GetActiveBoardLinkedRoom R (w_db w) (in_BoardID inp)")
  case (Inl e)
  from GetActiveBoardLinkedRoom_none [OF goodD(1) [OF g] Inl] Inl g R show ?thesis
    by (auto simp: enterExistingBoardChatRoom_def goodD)
next
  case (Inr r)
  from GetActiveBoardLinkedRoom_found [OF goodD(1) [OF g] Inr] room_key [OF goodD(1) [OF g]]
  have r: "a_rooms (abs (w_db w)) (rm_ID r) = Some r" "board_room (in_BoardID inp) r" "room_open r"
    "\<exists>r \<in> ran (a_rooms (abs (w_db w))). board_room (in_BoardID inp) r"
    by (auto simp: ran_def board_room_def)
  define now where "now = fst (time_Now (w_env w))"
  define w1 where "w1 = w\<lparr>w_env := snd (time_Now (w_env w))\<rparr>"
  have w1: "good w1" "w_db w1 = w_db w" "quiet w w1" using g by (simp_all add: w1_def good_def)
  have "wp (tx svc (bindP (view (\<lambda>s. rp_GetActiveBoardLinkedRoom (cs_repo svc) s (in_BoardID inp))) (\<lambda>room.
       bindP (ensureActiveMember svc (rm_ID room) (in_UserID inp) now) (\<lambda>member.
       bindP (ensurePassiveMember svc (rm_ID room) (in_BoardOwnerUserID inp) (in_UserID inp) now) (\<lambda>_.
       ok \<lparr>en_Room = room, en_Member = member, en_AlreadyExists = True\<rparr>)))))
    (\<lambda>e w'. untouched w1 w' \<and> e = ErrRemovedCannotRejoin \<and> barred (abs (w_db w)) (in_BoardID inp) (in_UserID inp))
    (board_room_entered w inp) w1"
    using wp_enter_members [OF g R w1 tr r(1-3), of now] Inr R w1(2)
    by (intro wp_tx_untouched [OF R goodD(1) [OF w1(1)]]) simp
  then show ?thesis
    using r(4) unfolding enterExistingBoardChatRoom_def wp_bindP wp_env
    by (simp only: flip: now_def w1_def) (simp add: w1_def)
qed

text \<open>The room and its first member, and then the passive member that the owner of the board becomes.\<close>

definition board_room_created :: "'s world \<Rightarrow> BoardChatRoomEntryInput \<Rightarrow> BoardChatRoomEntry \<Rightarrow> 's world \<Rightarrow> bool" where
  "board_room_created w inp en w' \<longleftrightarrow> good w' \<and> quiet w w' \<and> progress (abs (w_db w)) (abs (w_db w')) \<and> entered inp w' en
     \<and> \<not> en_AlreadyExists en \<and> rm_OwnerUserID (en_Room en) = in_UserID inp
     \<and> a_rooms (abs (w_db w)) (rm_ID (en_Room en)) = None
     \<and> a_rooms (abs (w_db w')) = (a_rooms (abs (w_db w)))(rm_ID (en_Room en) \<mapsto> en_Room en)"

lemma wp_new_board_room:
  fixes inp i j now
  defines "r \<equiv> new_room i RoomTypeBoardLinkedGroup (in_Title inp) (in_BoardID inp) (in_UserID inp) now"
    and "m \<equiv> new_member j i (in_UserID inp) MemberRoleOwner now"
  assumes g: "good w" and R: "cs_repo svc = R" and w1: "w_db w1 = w_db w" "quiet w w1" and new: "a_rooms (abs (w_db w)) i = None"
    and tr: "TrimSpace (in_BoardOwnerUserID inp) = in_BoardOwnerUserID inp"
    and none: "\<forall>r' \<in> ran (a_rooms (abs (w_db w))). \<not> board_room (in_BoardID inp) r'"
  shows "wp (bindP (db (\<lambda>s. rp_CreateRoom (cs_repo svc) s r)) (\<lambda>_.
       bindP (db (\<lambda>s. rp_CreateMember (cs_repo svc) s m)) (\<lambda>_.
       ensurePassiveMember svc i (in_BoardOwnerUserID inp) (in_UserID inp) now)))
    (\<lambda>e w'. False) (\<lambda>_ w'. board_room_created w inp \<lparr>en_Room = r, en_Member = m, en_AlreadyExists = False\<rparr> w') w1"
proof -
  let ?a = "put_member m ((abs (w_db w))\<lparr>a_rooms := (a_rooms (abs (w_db w)))(i \<mapsto> r)\<rparr>)"
  have r: "board_room (in_BoardID inp) r" "rm_OwnerUserID r = in_UserID inp" "rm_ID r = i" "rm_LinkedBoardID r = in_BoardID inp"
    by (simp_all add: r_def board_room_def)
  have m: "mb_RoomID m = i" "mb_UserID m = in_UserID inp" "mb_Status m = MemberStatusActive" by (simp_all add: m_def)
  have "\<not> board_room b' r'" if "board_key r = Some b'" "r' \<in> ran (a_rooms (abs (w_db w)))" for b' r'
    using none that r(1) by (auto simp: board_key_def board_room_def split: if_splits)
  note fresh = good_new_room [OF g new r(2), unfolded atomize_imp, rule_format, OF this]
  define s2 where "s2 = snd (rp_CreateMember R (snd (rp_CreateRoom R (w_db w) r)) m)"
  have s2: "inv s2" "abs s2 = ?a"
    using goodD(1) [OF g] new none fresh(1) by (auto simp: s2_def spec_CreateRoom_def spec_CreateMember_def r m)
  have pr: "progress (abs (w_db w)) ?a" by (rule progress_new_room [OF new _ m(1,2)]) (simp add: fresh(1))
  have ga: "good (w1\<lparr>w_db := s2\<rparr>)" using s2 fresh(2) by (simp add: good_def m_def)
  have "wp (ensurePassiveMember svc i (in_BoardOwnerUserID inp) (in_UserID inp) now) (\<lambda>e w'. False)
     (\<lambda>_ w'. good w' \<and> quiet w w' \<and> a_rooms (abs (w_db w')) = a_rooms (abs (w_db (w1\<lparr>w_db := s2\<rparr>)))
       \<and> progress (abs (w_db (w1\<lparr>w_db := s2\<rparr>))) (abs (w_db w'))
       \<and> entered inp w' \<lparr>en_Room = r, en_Member = m, en_AlreadyExists = False\<rparr>) (w1\<lparr>w_db := s2\<rparr>)"
    using s2 m r w1(2) by (intro wp_passive_entered [OF ga R _ _ _ _ _ tr]) (simp_all add: quiet_def)
  then have "wp (ensurePassiveMember svc i (in_BoardOwnerUserID inp) (in_UserID inp) now) (\<lambda>e w'. False)
     (\<lambda>_ w'. board_room_created w inp \<lparr>en_Room = r, en_Member = m, en_AlreadyExists = False\<rparr> w') (w1\<lparr>w_db := s2\<rparr>)"
    by (rule wp_mono) (use new s2 pr r in \<open>auto simp: board_room_created_def intro: progress_trans\<close>)
  then show ?thesis
    using goodD(1) [OF g] w1(1) new none fresh(1) R unfolding wp_bindP
    by (simp add: spec_CreateRoom_def spec_CreateMember_def r m flip: s2_def)
qed

lemma wp_createBoard:
  assumes g: "good w" and R: "cs_repo svc = R"
    and tr: "TrimSpace (in_BoardOwnerUserID inp) = in_BoardOwnerUserID inp"
    and none: "\<forall>r' \<in> ran (a_rooms (abs (w_db w))). \<not> board_room (in_BoardID inp) r'"
  shows "wp (createBoardChatRoom svc inp) (\<lambda>e w'. untouched w w' \<and> e = ErrAlreadyExists) (board_room_created w inp) w"
proof -
  define now where "now = fst (time_Now (w_env w))"
  define g1 where "g1 = snd (time_Now (w_env w))"
  define i where "i = fst (id_New g1)"
  define j where "j = fst (id_New (snd (id_New g1)))"
  define r where "r = new_room i RoomTypeBoardLinkedGroup (in_Title inp) (in_BoardID inp) (in_UserID inp) now"
  define m where "m = new_member j i (in_UserID inp) MemberRoleOwner now"
  define w1 where "w1 = w\<lparr>w_env := snd (id_New (snd (id_New g1)))\<rparr>"
  have w1: "inv (w_db w1)" "w_db w1 = w_db w" "quiet w w1" using g by (simp_all add: w1_def goodD)
  have rid: "rm_ID r = i" by (simp add: r_def)
  let ?tx = "bindP (db (\<lambda>s. rp_CreateRoom (cs_repo svc) s r)) (\<lambda>_.
       bindP (db (\<lambda>s. rp_CreateMember (cs_repo svc) s m)) (\<lambda>_.
       ensurePassiveMember svc i (in_BoardOwnerUserID inp) (in_UserID inp) now))"
  have "wp ?tx (\<lambda>e w'. untouched w1 w' \<and> e = ErrAlreadyExists)
    (\<lambda>_ w'. board_room_created w inp \<lparr>en_Room = r, en_Member = m, en_AlreadyExists = False\<rparr> w') w1"
  proof (cases "a_rooms (abs (w_db w)) i")
    case (Some x)
    then show ?thesis using w1 R by (simp add: spec_CreateRoom_def rid untouched_def)
  next
    case None
    from wp_new_board_room [OF g R w1(2,3) None tr none, of now j] show ?thesis
      unfolding r_def m_def by (rule wp_mono) auto
  qed
  then have "wp (tx svc ?tx) (\<lambda>e w'. untouched w1 w' \<and> e = ErrAlreadyExists)
    (\<lambda>_ w'. board_room_created w inp \<lparr>en_Room = r, en_Member = m, en_AlreadyExists = False\<rparr> w') w1"
    by (rule wp_tx_untouched [OF R w1(1)])
  then show ?thesis
    unfolding createBoardChatRoom_def wp_bindP wp_env Let_def
    by (simp add: w1_def del: wp_tx flip: now_def g1_def i_def j_def r_def m_def)
qed

text \<open>Entering a board's room, created on demand.\<close>

lemma entered_board:
  "entered inp w' en \<Longrightarrow> a_rooms (abs (w_db w')) = rs \<Longrightarrow> \<exists>r \<in> ran rs. board_room (in_BoardID inp) r"
  unfolding entered_def by (metis ranI)

lemma entered_exists [simp]: "entered inp w' (en\<lparr>en_AlreadyExists := x\<rparr>) = entered inp w' en"
  by (simp add: entered_def)

lemma wp_GetOrCreate:
  assumes g: "good w" and R: "cs_repo svc = R"
  shows "wp (svc_GetOrCreateBoardChatRoom svc inp)
    (\<lambda>e w'. untouched w w' \<and> e \<in> {ErrInvalidArgument, ErrRemovedCannotRejoin, ErrNotFound}
       \<and> (e = ErrRemovedCannotRejoin \<longleftrightarrow> TrimSpace (in_UserID inp) \<noteq> [] \<and> TrimSpace (in_BoardID inp) \<noteq> []
            \<and> (\<exists>r \<in> ran (a_rooms (abs (w_db w))). board_room (TrimSpace (in_BoardID inp)) r))
       \<and> (e = ErrInvalidArgument \<longleftrightarrow> TrimSpace (in_UserID inp) = [] \<or> TrimSpace (in_BoardID inp) = [])
       \<and> (e = ErrRemovedCannotRejoin \<longrightarrow> barred (abs (w_db w)) (TrimSpace (in_BoardID inp)) (TrimSpace (in_UserID inp))))
    (\<lambda>en w'. good w' \<and> quiet w w' \<and> progress (abs (w_db w)) (abs (w_db w')) \<and> entered (trimmed inp) w' en
        \<and> (en_AlreadyExists en \<longleftrightarrow> (\<exists>r \<in> ran (a_rooms (abs (w_db w))). board_room (TrimSpace (in_BoardID inp)) r))
        \<and> (if en_AlreadyExists en then a_rooms (abs (w_db w')) = a_rooms (abs (w_db w))
           else rm_OwnerUserID (en_Room en) = TrimSpace (in_UserID inp)
             \<and> a_rooms (abs (w_db w)) (rm_ID (en_Room en)) = None
             \<and> a_rooms (abs (w_db w')) = (a_rooms (abs (w_db w)))(rm_ID (en_Room en) \<mapsto> en_Room en))) w"
  (is "wp _ ?E ?Q w")
proof (cases "TrimSpace (in_UserID inp) = [] \<or> TrimSpace (in_BoardID inp) = []")
  case False
  let ?in = "trimmed inp"
  have tr: "TrimSpace (in_BoardOwnerUserID ?in) = in_BoardOwnerUserID ?in" by (simp add: trimmed_def TrimSpace_idem)
  have b: "in_BoardID ?in = TrimSpace (in_BoardID inp)" "in_UserID ?in = TrimSpace (in_UserID inp)"
    by (simp_all add: trimmed_def)
  let ?again = "bindP (enterExistingBoardChatRoom svc ?in) (\<lambda>entry. ok (entry\<lparr>en_AlreadyExists := True\<rparr>))"
  let ?create = "bindP (attempt (createBoardChatRoom svc ?in)) (\<lambda>r. case r of Inr entry \<Rightarrow> ok entry
     | Inl err \<Rightarrow> if err = ErrAlreadyExists then ?again else fail err)"
  note again = wp_enterExisting [OF _ R tr]
  have create: "wp ?create ?E ?Q w1"
    if none: "\<not> (\<exists>r \<in> ran (a_rooms (abs (w_db w))). board_room (in_BoardID ?in) r)" and u: "untouched w w1" for w1
  proof -
    have g1: "good w1" and a1: "abs (w_db w1) = abs (w_db w)" and q1: "quiet w w1"
      using u untouched_good [OF u g] by (auto simp: untouched_def)
    have n1: "\<forall>r' \<in> ran (a_rooms (abs (w_db w1))). \<not> board_room (in_BoardID ?in) r'" using none a1 by simp
    have retry: "wp ?again ?E ?Q w2" if "untouched w1 w2" for w2
    proof -
      have u2: "untouched w w2" and g2: "good w2"
        using that u untouched_good [OF that g1] by (auto simp: untouched_def quiet_def)
      show ?thesis unfolding wp_bindP wp_ok
        by (rule wp_mono [OF again [OF g2]])
           (use u2 none False b in \<open>auto simp: untouched_def quiet_def board_room_entered_def dest!: entered_board [OF _ refl]\<close>)
    qed
    show ?thesis unfolding wp_bindP wp_attempt
      by (rule wp_mono [OF wp_createBoard [OF g1 R tr n1]])
         (use retry q1 a1 none b in \<open>auto simp: quiet_def board_room_created_def\<close>)
  qed
  have "wp (bindP (attempt (enterExistingBoardChatRoom svc ?in)) (\<lambda>r. case r of
      Inr entry \<Rightarrow> ok (entry\<lparr>en_AlreadyExists := True\<rparr>)
    | Inl err \<Rightarrow> if err \<noteq> ErrNotFound then fail err else ?create)) ?E ?Q w"
    unfolding wp_bindP wp_attempt
  proof (rule wp_mono [OF again [OF g]], goal_cases)
    case (1 e w1)
    show ?case
    proof (cases "e = ErrNotFound")
      case True
      then have "wp ?create ?E ?Q w1" using 1 by (intro create) (auto split: if_splits)
      with True show ?thesis by simp
    qed (use 1 False b in \<open>auto split: if_splits\<close>)
  next
    case (2 en w1)
    then show ?case using b entered_board [of ?in w1 en] by (auto simp: board_room_entered_def)
  qed
  with False show ?thesis
    unfolding svc_GetOrCreateBoardChatRoom_def Let_def trimmed_def by simp
qed (use g in \<open>auto simp: svc_GetOrCreateBoardChatRoom_def Let_def goodD\<close>)

end

end
