(* ===== verification/MessageInvariant.thy ===== *)
theory MessageInvariant
  imports Messages RoomInvariant
begin

text \<open>
  What the message operations maintain: the messages of a room carry the sequence numbers
  \<open>1, ..., n\<close>, each once, where \<open>n\<close> is the room's counter; deleted messages have no content left;
  an active push token belongs to one device. The room operations do not touch any of this.
\<close>

section \<open>The invariant\<close>

definition message_ok :: "ChatMessage \<Rightarrow> bool" where
  "message_ok m \<longleftrightarrow> (mg_IsDeleted m \<longrightarrow> mg_Content m = [] \<and> mg_ImageURL m = [] \<and> mg_FileURL m = []
     \<and> mg_Metadata m = None \<and> mg_DeletedAt m \<noteq> None)"

definition numbered :: "(string \<rightharpoonup> ChatMessage) \<Rightarrow> int \<Rightarrow> bool" where
  "numbered ms n \<longleftrightarrow> 0 \<le> n \<and> inj_on mg_SequenceNo (ran ms) \<and> mg_SequenceNo ` ran ms = {1..n}"

definition messages_inv :: "astore \<Rightarrow> bool" where
  "messages_inv a \<longleftrightarrow> (\<forall>rid. numbered (a_messages a rid) (a_maxSeq a rid))
     \<and> (\<forall>rid. \<forall>m \<in> ran (a_messages a rid). message_ok m)
     \<and> (\<forall>rid. a_rooms a rid = None \<longrightarrow> a_messages a rid = Map.empty)"

definition tokens_inv :: "astore \<Rightarrow> bool" where
  "tokens_inv a \<longleftrightarrow> (\<forall>u d u' d' t t'. a_devices a u d = Some t \<longrightarrow> a_devices a u' d' = Some t' \<longrightarrow>
     dt_IsActive t \<longrightarrow> dt_IsActive t' \<longrightarrow> dt_Token t = dt_Token t' \<longrightarrow> u = u' \<and> d = d')"

section \<open>Writes that keep it\<close>

lemma put_message_sel [simp]:
  "a_rooms (put_message m a) = a_rooms a" "a_members (put_message m a) = a_members a"
  "a_messages (put_message m a) =
     (a_messages a)(mg_RoomID m := (a_messages a (mg_RoomID m))(mg_ID m \<mapsto> m))"
  "a_maxSeq (put_message m a) = a_maxSeq a" "a_devices (put_message m a) = a_devices a"
  by (simp_all add: put_message_def)

lemma numbered_append:
  assumes "numbered ms n" "ms i = None" "mg_SequenceNo m = n + 1"
  shows "numbered (ms(i \<mapsto> m)) (n + 1)"
proof -
  have img: "mg_SequenceNo ` ran ms = {1..n}" and n: "0 \<le> n" and inj: "inj_on mg_SequenceNo (ran ms)"
    using assms(1) by (auto simp: numbered_def)
  have "mg_SequenceNo m \<notin> mg_SequenceNo ` ran ms" using img assms(3) by simp
  then have "inj_on mg_SequenceNo (insert m (ran ms))" using inj by (simp add: inj_on_insert) blast
  moreover have "insert (n + 1) {1..n} = {1..n + 1}" using n by auto
  ultimately show ?thesis
    using n img assms(2,3) by (simp add: numbered_def ran_map_upd)
qed

lemma ran_replace:
  assumes "ms i = Some m0" "\<And>j m. ms j = Some m \<Longrightarrow> mg_ID m = j" "mg_ID m' = i"
  shows "ran (ms(i \<mapsto> m')) = (\<lambda>m. if m = m0 then m' else m) ` ran ms"
proof -
  have "x \<in> ran (ms(i \<mapsto> m')) \<longleftrightarrow> x \<in> (\<lambda>m. if m = m0 then m' else m) ` ran ms" for x
  proof
    assume "x \<in> ran (ms(i \<mapsto> m'))"
    then obtain j where j: "(ms(i \<mapsto> m')) j = Some x" by (auto simp: ran_def)
    show "x \<in> (\<lambda>m. if m = m0 then m' else m) ` ran ms"
    proof (cases "j = i")
      case True
      then have "x = m'" using j by simp
      then show ?thesis using assms(1) by (auto simp: ran_def image_iff)
    next
      case False
      then have "ms j = Some x" using j by simp
      moreover have "x \<noteq> m0" using False assms(1,2) calculation by metis
      ultimately show ?thesis by (force simp: ran_def)
    qed
  next
    assume "x \<in> (\<lambda>m. if m = m0 then m' else m) ` ran ms"
    then obtain j m where m: "ms j = Some m" "x = (if m = m0 then m' else m)" by (auto simp: ran_def)
    show "x \<in> ran (ms(i \<mapsto> m'))"
    proof (cases "m = m0")
      case True
      then show ?thesis using m by (simp add: ran_def) (metis)
    next
      case False
      then have "j \<noteq> i" using m assms(1) by auto
      then show ?thesis using m False by (auto simp: ran_def intro!: exI [of _ j])
    qed
  qed
  then show ?thesis by blast
qed

lemma numbered_replace:
  assumes "numbered ms n" "ms i = Some m0" "\<And>j m. ms j = Some m \<Longrightarrow> mg_ID m = j"
    "mg_ID m' = i" "mg_SequenceNo m' = mg_SequenceNo m0"
  shows "numbered (ms(i \<mapsto> m')) n"
proof -
  let ?f = "\<lambda>m. if m = m0 then m' else m"
  have r: "ran (ms(i \<mapsto> m')) = ?f ` ran ms" by (rule ran_replace) (use assms in blast)+
  have sq: "mg_SequenceNo (?f m) = mg_SequenceNo m" for m using assms(5) by simp
  have "inj_on mg_SequenceNo (?f ` ran ms)"
    using assms(1) sq unfolding numbered_def inj_on_def by (metis (no_types, lifting) imageE)
  moreover have "mg_SequenceNo ` ?f ` ran ms = mg_SequenceNo ` ran ms"
    unfolding image_image sq ..
  ultimately show ?thesis
    using assms(1) unfolding numbered_def r by presburger
qed

lemma messages_invD:
  "messages_inv a \<Longrightarrow> numbered (a_messages a rid) (a_maxSeq a rid)"
  "messages_inv a \<Longrightarrow> m \<in> ran (a_messages a rid) \<Longrightarrow> message_ok m"
  "messages_inv a \<Longrightarrow> a_messages a rid \<noteq> Map.empty \<Longrightarrow> \<exists>r. a_rooms a rid = Some r"
  unfolding messages_inv_def by blast+

lemma messages_inv_append:
  assumes "messages_inv a" "fresh_message_id a (mg_ID m)" "a_rooms a (mg_RoomID m) \<noteq> None"
    "mg_SequenceNo m = a_maxSeq a (mg_RoomID m) + 1" "message_ok m"
  shows "messages_inv ((put_message m a)\<lparr>a_maxSeq := (a_maxSeq a)(mg_RoomID m := a_maxSeq a (mg_RoomID m) + 1)\<rparr>)"
proof -
  let ?r = "mg_RoomID m"
  have fr: "a_messages a ?r (mg_ID m) = None" using assms(2) by (simp add: fresh_message_id_def)
  have "numbered ((a_messages a ?r)(mg_ID m \<mapsto> m)) (a_maxSeq a ?r + 1)"
    by (rule numbered_append [OF messages_invD(1) [OF assms(1)] fr assms(4)])
  moreover have "message_ok x" if "x \<in> ran ((a_messages a ?r)(mg_ID m \<mapsto> m))" for x
    using that fr assms(5) messages_invD(2) [OF assms(1)] by (auto simp: ran_map_upd)
  ultimately show ?thesis using assms(1,3) by (simp add: messages_inv_def)
qed

lemma messages_inv_replace:
  assumes "messages_inv a" "a_messages a (mg_RoomID m) (mg_ID m) = Some m0"
    "\<And>j x. a_messages a (mg_RoomID m) j = Some x \<Longrightarrow> mg_ID x = j"
    "mg_SequenceNo m = mg_SequenceNo m0" "message_ok m"
  shows "messages_inv (put_message m a)"
proof -
  let ?r = "mg_RoomID m"
  have "numbered ((a_messages a ?r)(mg_ID m \<mapsto> m)) (a_maxSeq a ?r)"
    by (rule numbered_replace [OF messages_invD(1) [OF assms(1)] assms(2,3) _ assms(4)]) simp_all
  moreover have "message_ok x" if "x \<in> ran ((a_messages a ?r)(mg_ID m \<mapsto> m))" for x
    using that assms(5) messages_invD(2) [OF assms(1), of x ?r] by (auto simp: ran_def split: if_splits)
  moreover have "a_rooms a ?r \<noteq> None" using messages_invD(3) [OF assms(1), of ?r] assms(2) by (metis option.distinct(1))
  ultimately show ?thesis using assms(1) by (simp add: messages_inv_def)
qed

lemma messages_inv_frame:
  "messages_inv a \<Longrightarrow> a_messages a' = a_messages a \<Longrightarrow> a_maxSeq a' = a_maxSeq a \<Longrightarrow>
     dom (a_rooms a) \<subseteq> dom (a_rooms a') \<Longrightarrow> messages_inv a'"
  unfolding messages_inv_def by (metis domIff subsetD)

text \<open>Registering and releasing tokens.\<close>

lemma tokens_invI:
  "(\<And>u d u' d' t t'. a_devices a u d = Some t \<Longrightarrow> a_devices a u' d' = Some t' \<Longrightarrow> dt_IsActive t \<Longrightarrow>
     dt_IsActive t' \<Longrightarrow> dt_Token t = dt_Token t' \<Longrightarrow> u = u' \<and> d = d') \<Longrightarrow> tokens_inv a"
  unfolding tokens_inv_def by blast

lemma tokens_invD:
  "tokens_inv a \<Longrightarrow> a_devices a u d = Some t \<Longrightarrow> a_devices a u' d' = Some t' \<Longrightarrow> dt_IsActive t \<Longrightarrow>
     dt_IsActive t' \<Longrightarrow> dt_Token t = dt_Token t' \<Longrightarrow> u = u' \<and> d = d'"
  unfolding tokens_inv_def by blast

lemma tokens_inv_sub:
  assumes "tokens_inv a" and "\<And>u d t. a_devices a' u d = Some t \<Longrightarrow> dt_IsActive t \<Longrightarrow>
      \<exists>t0. a_devices a u d = Some t0 \<and> dt_IsActive t0 \<and> dt_Token t0 = dt_Token t"
  shows "tokens_inv a'"
proof (rule tokens_invI)
  fix u d u' d' t t'
  assume "a_devices a' u d = Some t" "a_devices a' u' d' = Some t'" "dt_IsActive t" "dt_IsActive t'"
    and e: "dt_Token t = dt_Token t'"
  then obtain x x' where "a_devices a u d = Some x" "a_devices a u' d' = Some x'" "dt_IsActive x"
    "dt_IsActive x'" "dt_Token x = dt_Token t" "dt_Token x' = dt_Token t'" using assms(2) by metis
  with e show "u = u' \<and> d = d'" using tokens_invD [OF assms(1)] by metis
qed

lemma release_token_active:
  "dt_IsActive (release_token t u d x) \<Longrightarrow> \<not> (u = dt_UserID t \<and> d = dt_DeviceID t) \<Longrightarrow>
     release_token t u d x = x \<and> dt_Token x \<noteq> dt_Token t"
  by (simp add: release_token_def split: if_splits)

lemma upsert_other:
  "\<not> (u = dt_UserID t \<and> d = dt_DeviceID t) \<Longrightarrow>
     a_devices (snd (spec_UpsertDeviceToken t a)) u d = map_option (release_token t u d) (a_devices a u d)"
  by (auto simp: spec_UpsertDeviceToken_def Let_def)

lemma tokens_inv_upsert:
  assumes "tokens_inv a"
  shows "tokens_inv (snd (spec_UpsertDeviceToken t a))"
proof -
  let ?a = "snd (spec_UpsertDeviceToken t a)" and ?u = "dt_UserID t" and ?d = "dt_DeviceID t"
  obtain t' where self: "a_devices ?a ?u ?d = Some t'" "dt_Token t' = dt_Token t"
    by (simp add: spec_UpsertDeviceToken_def Let_def)
  have other: "\<exists>x. a_devices a u d = Some x \<and> dt_IsActive x \<and> dt_Token x = dt_Token y \<and> dt_Token y \<noteq> dt_Token t"
    if y: "a_devices ?a u d = Some y" "dt_IsActive y" and n: "\<not> (u = ?u \<and> d = ?d)" for u d y
  proof -
    obtain x where x: "a_devices a u d = Some x" "y = release_token t u d x"
      using y(1) unfolding upsert_other [OF n] by blast
    then show ?thesis using release_token_active [of t u d x] y(2) n by simp
  qed
  show ?thesis
  proof (rule tokens_invI)
    fix u d u' d' x y
    assume x: "a_devices ?a u d = Some x" "dt_IsActive x" and y: "a_devices ?a u' d' = Some y" "dt_IsActive y"
      and e: "dt_Token x = dt_Token y"
    consider "u = ?u \<and> d = ?d" "u' = ?u \<and> d' = ?d" | "u = ?u \<and> d = ?d" "\<not> (u' = ?u \<and> d' = ?d)"
      | "\<not> (u = ?u \<and> d = ?d)" "u' = ?u \<and> d' = ?d" | "\<not> (u = ?u \<and> d = ?d)" "\<not> (u' = ?u \<and> d' = ?d)" by blast
    then show "u = u' \<and> d = d'"
    proof cases
      case 2
      then show ?thesis using other [OF y] x self e by auto
    next
      case 3
      then show ?thesis using other [OF x] y self e by auto
    next
      case 4
      with other [OF x] other [OF y] obtain p q where
        "a_devices a u d = Some p" "dt_IsActive p" "dt_Token p = dt_Token x"
        "a_devices a u' d' = Some q" "dt_IsActive q" "dt_Token q = dt_Token y" by blast
      with e show ?thesis using tokens_invD [OF assms, of u d p u' d' q] by simp
    qed simp
  qed
qed

section \<open>Room operations leave messages and devices alone\<close>

lemma keeps_if [intro]: "(b \<Longrightarrow> keeps P x) \<Longrightarrow> (\<not> b \<Longrightarrow> keeps P y) \<Longrightarrow> keeps P (if b then x else y)"
  by simp

lemma keeps_case_sum [intro]:
  "(\<And>a. r = Inl a \<Longrightarrow> keeps P (f a)) \<Longrightarrow> (\<And>b. r = Inr b \<Longrightarrow> keeps P (g b)) \<Longrightarrow> keeps P (case r of Inl a \<Rightarrow> f a | Inr b \<Rightarrow> g b)"
  by (cases r) simp_all

lemma keeps_case_list [intro]:
  "(xs = [] \<Longrightarrow> keeps P n) \<Longrightarrow> (\<And>y ys. xs = y # ys \<Longrightarrow> keeps P (c y ys)) \<Longrightarrow>
     keeps P (case xs of [] \<Rightarrow> n | y # ys \<Rightarrow> c y ys)"
  by (cases xs) simp_all

lemma keeps_case_status [intro]:
  "keeps P a \<Longrightarrow> keeps P b \<Longrightarrow> keeps P c \<Longrightarrow> (\<And>x. keeps P (d x)) \<Longrightarrow>
     keeps P (case st of MemberStatusActive \<Rightarrow> a | MemberStatusRemoved \<Rightarrow> b | MemberStatusLeft \<Rightarrow> c | MemberStatusOther x \<Rightarrow> d x)"
  by (cases st) simp_all

lemmas keeps_structure = keeps_bindP keeps_pure keeps_attempt keeps_if keeps_case_sum keeps_case_list keeps_case_status

context chat_repository
begin

definition framed :: "'s world \<Rightarrow> 's world \<Rightarrow> bool" where
  "framed w0 w \<longleftrightarrow> inv (w_db w) \<and> a_messages (abs (w_db w)) = a_messages (abs (w_db w0))
     \<and> a_maxSeq (abs (w_db w)) = a_maxSeq (abs (w_db w0)) \<and> a_devices (abs (w_db w)) = a_devices (abs (w_db w0))
     \<and> dom (a_rooms (abs (w_db w0))) \<subseteq> dom (a_rooms (abs (w_db w))) \<and> quiet w0 w"

lemma framed_refl: "inv (w_db w) \<Longrightarrow> framed w w"
  by (simp add: framed_def)

lemma keeps_view [intro]: "keeps P (view f)"
  by (simp add: keeps_def view_def)

lemma keeps_env [intro]: "keeps (framed w0) (env f)"
  by (auto simp: keeps_def env_def framed_def quiet_def split: prod.split)

lemma keeps_db [intro]:
  assumes "cs_repo svc = R"
  shows "keeps (framed w0) (db (\<lambda>s. rp_CreateRoom (cs_repo svc) s r))"
    "keeps (framed w0) (db (\<lambda>s. rp_UpdateRoom (cs_repo svc) s r))"
    "keeps (framed w0) (db (\<lambda>s. rp_CreateMember (cs_repo svc) s m))"
    "keeps (framed w0) (db (\<lambda>s. rp_UpdateMember (cs_repo svc) s m))"
  using assms
  by (auto simp: keeps_def db_def framed_def quiet_def spec_CreateRoom_def spec_UpdateRoom_def
      spec_CreateMember_def spec_UpdateMember_def split_beta)

lemma keeps_tx [intro]:
  assumes "cs_repo svc = R" "keeps (framed w0) m"
  shows "keeps (framed w0) (tx svc m)"
proof (rule keepsI)
  fix w
  assume w: "framed w0 w"
  with assms(2) have w': "framed w0 (snd (m w))" by blast
  show "framed w0 (snd (tx svc m w))"
    using w w' assms(1) rollback [of "w_db w" "w_db (snd (m w))"]
    by (cases "m w") (auto simp: tx_def WithTx_def framed_def quiet_def split: sum.split)
qed

lemma keeps_ensure [intro]:
  assumes "cs_repo svc = R"
  shows "keeps (framed w0) (ensureActiveMember svc rid u now)"
    "keeps (framed w0) (ensurePassiveMember svc rid v u now)"
  unfolding ensureActiveMember_def ensurePassiveMember_def Let_def
  by (intro keeps_structure keeps_view keeps_env keeps_db [OF assms])+

lemma keeps_rooms:
  assumes "cs_repo svc = R"
  shows "keeps (framed w0) (svc_CreateRoom svc u t)"
    "keeps (framed w0) (svc_CreateBoardLinkedRoom svc u b t)"
    "keeps (framed w0) (svc_GetOrCreateBoardChatRoom svc inp)"
    "keeps (framed w0) (svc_JoinRoom svc rid u)"
    "keeps (framed w0) (svc_LeaveRoom svc rid u)"
    "keeps (framed w0) (svc_RemoveMember svc rid u v)"
    "keeps (framed w0) (svc_DeactivateRoom svc rid u)"
  unfolding room_operations Let_def
  by (intro keeps_structure keeps_view keeps_env keeps_db [OF assms] keeps_tx [OF assms] keeps_ensure [OF assms])+

end

section \<open>Push recipients\<close>

definition push_targets :: "astore \<Rightarrow> string \<Rightarrow> string \<Rightarrow> DeviceToken set" where
  "push_targets a rid sender = {t. \<exists>m \<in> active_members a rid. mb_UserID m \<noteq> sender
     \<and> t \<in> ran (a_devices a (mb_UserID m)) \<and> dt_IsActive t \<and> TrimSpace (dt_Token t) \<noteq> []}"

lemma set_recipients:
  "set (recipients sender seen ms) =
     {mb_UserID m | m. m \<in> set ms \<and> mb_UserID m \<noteq> sender \<and> mb_Status m = MemberStatusActive} - set seen"
  by (induction sender seen ms rule: recipients.induct) auto

lemma distinct_recipients: "distinct (recipients sender seen ms)"
  by (induction sender seen ms rule: recipients.induct) (auto simp: set_recipients)

lemma push_Send_run: "push_Send sender m w = (Inr (), w\<lparr>w_push := w_push w @ [m]\<rparr>)"
  by (simp add: push_Send_def Let_def)

lemma send_all_run:
  "\<forall>t \<in> set ts. TrimSpace (dt_Token t) \<noteq> [] \<Longrightarrow>
     send_all sender msg ts w = (Inr (), w\<lparr>w_push := w_push w @ map (push_for msg) ts\<rparr>)"
  by (induction ts arbitrary: w) (simp_all add: bindP_def push_Send_run)

lemma lists_sorted_Nil: "lists_sorted key M [] \<longleftrightarrow> M = {}"
  by (auto simp: lists_sorted_def)

section \<open>Message operations\<close>

text \<open>The stored message and the store after it was sent.\<close>

definition saved_message :: "astore \<Rightarrow> ChatMessage \<Rightarrow> ChatMessage" where
  "saved_message a m = m\<lparr>mg_SequenceNo := a_maxSeq a (mg_RoomID m) + 1\<rparr>"

definition sent_store :: "astore \<Rightarrow> ChatMessage \<Rightarrow> ChatRoom \<Rightarrow> astore" where
  "sent_store a m r = (put_message m a)\<lparr>a_maxSeq := (a_maxSeq a)(mg_RoomID m := mg_SequenceNo m),
     a_rooms := (a_rooms a)(mg_RoomID m \<mapsto> r)\<rparr>"

context chat_repository
begin

lemma wp_dispatch:
  assumes inv: "inv (w_db w)" and R: "cs_repo svc = R"
  shows "wp (dispatchChatMessagePush svc rid sender msg) (\<lambda>e w'. False)
    (\<lambda>_ w'. \<exists>ts. w' = w\<lparr>w_push := w_push w @ map (push_for msg) ts\<rparr>
       \<and> (if cs_pushSender svc = None then ts = []
          else lists_sorted (\<lambda>t. (dt_UserID t, dt_DeviceID t)) (push_targets (abs (w_db w)) rid sender) ts)) w"
proof (cases "cs_pushSender svc")
  case None
  then show ?thesis by (simp add: dispatchChatMessagePush_def)
next
  case (Some snd)
  let ?ms = "active_list (w_db w) rid"
  let ?us = "recipients sender [] ?ms"
  have set: "set ?ms = active_members (abs (w_db w)) rid"
    using active_list(2) [OF inv] by (simp add: lists_sorted_def)
  have us: "set ?us = {mb_UserID m | m. m \<in> active_members (abs (w_db w)) rid \<and> mb_UserID m \<noteq> sender}"
    by (auto simp: set_recipients set active_members_def)
  from ListActiveDeviceTokens [OF inv distinct_recipients, of sender "[]" ?ms] obtain ts where
    ts: "rp_ListActiveDeviceTokensByUserIDs R (w_db w) ?us = Inr ts"
    and srt: "lists_sorted (\<lambda>t. (dt_UserID t, dt_DeviceID t)) {t. \<exists>u \<in> set ?us.
       t \<in> ran (a_devices (abs (w_db w)) u) \<and> dt_IsActive t \<and> TrimSpace (dt_Token t) \<noteq> []} ts" by blast
  have targets: "{t. \<exists>u \<in> set ?us. t \<in> ran (a_devices (abs (w_db w)) u) \<and> dt_IsActive t
      \<and> TrimSpace (dt_Token t) \<noteq> []} = push_targets (abs (w_db w)) rid sender"
    unfolding us push_targets_def by blast
  have ne: "\<forall>t \<in> set ts. TrimSpace (dt_Token t) \<noteq> []" using srt by (auto simp: lists_sorted_def)
  have nil: "push_targets (abs (w_db w)) rid sender = {}" if "?us = []"
    unfolding targets [symmetric] that by simp
  show ?thesis
  proof (cases "?us = []")
    case True
    then show ?thesis using Some R inv nil
      by (simp add: dispatchChatMessagePush_def Let_def lists_sorted_Nil exI [of _ "[]"])
  next
    case False
    have "wp (send_all snd msg ts) (\<lambda>e w'. False) (\<lambda>_ w'. \<exists>ts. w' = w\<lparr>w_push := w_push w @ map (push_for msg) ts\<rparr>
       \<and> lists_sorted (\<lambda>t. (dt_UserID t, dt_DeviceID t)) (push_targets (abs (w_db w)) rid sender) ts) w"
      unfolding wp_def send_all_run [OF ne] using srt targets by auto
    with False Some R inv ts show ?thesis
      by (simp add: dispatchChatMessagePush_def Let_def)
  qed
qed

lemma wp_validate:
  assumes inv: "inv (w_db w)" and R: "cs_repo svc = R"
  shows "wp (validateActiveMembership svc rid u) E Q w \<longleftrightarrow>
    (case a_rooms (abs (w_db w)) rid of
       None \<Rightarrow> E ErrNotFound w
     | Some r \<Rightarrow> if room_open r then (case a_members (abs (w_db w)) rid u of None \<Rightarrow> E ErrNotFound w | Some m \<Rightarrow> Q (r, m) w)
                 else E ErrRoomInactive w)"
  using inv R
  by (cases "a_rooms (abs (w_db w)) rid"; cases "a_members (abs (w_db w)) rid u")
     (auto simp: validateActiveMembership_def room_open_def)

end

end
