(* ===== verification/MessageRules.thy ===== *)
theory MessageRules
  imports MessageInvariant
begin

text \<open>
  The effect of every message operation, for every repository that keeps its contract, and that the
  invariants of \<open>RoomInvariant\<close> and \<open>MessageInvariant\<close> are kept.
\<close>

section \<open>Sending\<close>

text \<open>The identifier and the time the next message gets.\<close>

definition next_time :: "'s world \<Rightarrow> time" where
  "next_time w = fst (time_Now (w_env w))"

definition next_message_id :: "'s world \<Rightarrow> string" where
  "next_message_id w = fst (id_New (snd (time_Now (w_env w))))"

text \<open>Who may send what: the checks before anything is stored.\<close>

definition may_send ::
  "'s ChatService \<Rightarrow> astore \<Rightarrow> string \<Rightarrow> string \<Rightarrow> MessageType \<Rightarrow> string \<Rightarrow> string \<Rightarrow> metadata \<Rightarrow> bool" where
  "may_send svc a rid sender mt content img md \<longleftrightarrow>
     (\<exists>r m. a_rooms a rid = Some r \<and> room_open r \<and> a_members a rid sender = Some m \<and> mb_Status m = MemberStatusActive)
     \<and> validateMessagePayload mt content img md = Inr ()
     \<and> validateTrustedAttachmentURL svc rid mt img md = Inr ()"

definition stored_form ::
  "'s ChatService \<Rightarrow> 's world \<Rightarrow> string \<Rightarrow> string \<Rightarrow> MessageType \<Rightarrow> string \<Rightarrow> string \<Rightarrow> metadata \<Rightarrow> ChatMessage" where
  "stored_form svc w rid sender mt content img md =
    (case normalizeAttachmentReferences svc rid mt img md of
       Inr (img', md') \<Rightarrow> new_message (next_message_id w) rid sender mt content img' md' (next_time w)
     | Inl _ \<Rightarrow> new_message (next_message_id w) rid sender mt content img md (next_time w))"

lemma new_message_sel [simp]:
  "mg_ID (new_message i rid u mt c img md now) = i" "mg_RoomID (new_message i rid u mt c img md now) = rid"
  "mg_SenderUserID (new_message i rid u mt c img md now) = u"
  "mg_IsDeleted (new_message i rid u mt c img md now) = False"
  "mg_MessageType (new_message i rid u mt c img md now) = mt"
  "mg_Content (new_message i rid u mt c img md now) = c"
  by (simp_all add: new_message_def)

lemma stored_form_sel [simp]:
  "mg_ID (stored_form svc w rid u mt c img md) = next_message_id w"
  "mg_RoomID (stored_form svc w rid u mt c img md) = rid"
  "mg_SenderUserID (stored_form svc w rid u mt c img md) = u"
  "mg_IsDeleted (stored_form svc w rid u mt c img md) = False"
  "mg_MessageType (stored_form svc w rid u mt c img md) = mt"
  "mg_Content (stored_form svc w rid u mt c img md) = c"
  by (simp_all add: stored_form_def split: sum.split prod.split)

lemma saved_message_sel [simp]:
  "mg_ID (saved_message a m) = mg_ID m" "mg_RoomID (saved_message a m) = mg_RoomID m"
  "mg_SenderUserID (saved_message a m) = mg_SenderUserID m" "mg_IsDeleted (saved_message a m) = mg_IsDeleted m"
  "mg_SequenceNo (saved_message a m) = a_maxSeq a (mg_RoomID m) + 1"
  by (simp_all add: saved_message_def)

text \<open>An image or file URL that passed the check is normalised.\<close>

lemma trusted_normalizes:
  "validateTrustedAttachmentURL svc rid mt img md = Inr () \<Longrightarrow>
     \<exists>x. normalizeAttachmentReferences svc rid mt img md = Inr x"
  by (cases mt) (auto simp: validateTrustedAttachmentURL_def normalizeAttachmentReferences_def
      validateTrustedStorageURL_def split: if_splits sum.splits)

lemma sent_store_sel [simp]:
  "a_members (sent_store a m r) = a_members a" "a_devices (sent_store a m r) = a_devices a"
  "a_rooms (sent_store a m r) = (a_rooms a)(mg_RoomID m \<mapsto> r)"
  "a_maxSeq (sent_store a m r) = (a_maxSeq a)(mg_RoomID m := mg_SequenceNo m)"
  "a_messages (sent_store a m r) = (a_messages a)(mg_RoomID m := (a_messages a (mg_RoomID m))(mg_ID m \<mapsto> m))"
  by (simp_all add: sent_store_def)

lemma sent_store_rooms_inv:
  assumes "rooms_inv a" "a_rooms a (mg_RoomID m) = Some r"
  shows "rooms_inv (sent_store a m (r\<lparr>rm_UpdatedAt := now\<rparr>))"
proof -
  have "members_ok (r\<lparr>rm_UpdatedAt := now\<rparr>) (a_members a (mg_RoomID m))"
    using rooms_invD(1) [OF assms] by (simp add: members_ok_def room_open_def)
  from rooms_inv_room [OF assms this] show ?thesis
    by (simp add: rooms_inv_def room_open_def)
qed

lemma sent_store_messages_inv:
  assumes "messages_inv a" "fresh_message_id a (mg_ID m)" "a_rooms a (mg_RoomID m) = Some r0"
    "\<not> mg_IsDeleted m"
  shows "messages_inv (sent_store a (saved_message a m) r)"
proof -
  have "messages_inv ((put_message (saved_message a m) a)
      \<lparr>a_maxSeq := (a_maxSeq a)(mg_RoomID m := a_maxSeq a (mg_RoomID m) + 1)\<rparr>)"
    using messages_inv_append [OF assms(1), of "saved_message a m"] assms(2-4) by (simp add: message_ok_def)
  then show ?thesis by (rule messages_inv_frame) (auto simp: sent_store_def)
qed

context chat_repository
begin

text \<open>Everything the service maintains.\<close>

definition sound :: "'s world \<Rightarrow> bool" where
  "sound w \<longleftrightarrow> good w \<and> messages_inv (abs (w_db w)) \<and> tokens_inv (abs (w_db w)) \<and> ps_inv (w_ps w)"

lemma soundD:
  "sound w \<Longrightarrow> good w" "sound w \<Longrightarrow> inv (w_db w)" "sound w \<Longrightarrow> rooms_inv (abs (w_db w))"
  "sound w \<Longrightarrow> messages_inv (abs (w_db w))" "sound w \<Longrightarrow> tokens_inv (abs (w_db w))" "sound w \<Longrightarrow> ps_inv (w_ps w)"
  by (simp_all add: sound_def good_def)

lemma untouched_sound: "untouched w w' \<Longrightarrow> sound w \<Longrightarrow> sound w'"
  by (simp add: untouched_def sound_def good_def quiet_def)

definition can_send :: "'s world \<Rightarrow> string \<Rightarrow> bool" where
  "can_send w rid \<longleftrightarrow> fresh_message_id (abs (w_db w)) (next_message_id w)
     \<and> int64_range (a_maxSeq (abs (w_db w)) rid + 1)"

text \<open>The message \<open>saved\<close> is stored with the next number, published, and pushed to the other members.\<close>

definition sent :: "'s ChatService \<Rightarrow> string \<Rightarrow> ChatMessage \<Rightarrow> 's world \<Rightarrow> 's world \<Rightarrow> bool" where
  "sent svc rid saved w w' \<longleftrightarrow>
    (\<exists>r ts. a_rooms (abs (w_db w)) rid = Some r
      \<and> abs (w_db w') = sent_store (abs (w_db w)) saved (r\<lparr>rm_UpdatedAt := next_time w\<rparr>)
      \<and> ps_Publish (w_ps w) rid saved = Some (w_ps w')
      \<and> w_push w' = w_push w @ map (push_for saved) ts
      \<and> (if cs_pushSender svc = None then ts = []
         else lists_sorted (\<lambda>t. (dt_UserID t, dt_DeviceID t))
           (push_targets (abs (w_db w)) rid (mg_SenderUserID saved)) ts))"

lemma sent_env [simp]: "sent svc rid m w (w'\<lparr>w_env := g\<rparr>) = sent svc rid m w w'"
  by (simp add: sent_def)

lemma sound_env [simp]: "sound (w\<lparr>w_env := g\<rparr>) = sound w"
  by (simp add: sound_def good_def)

lemma wp_publish:
  assumes "ps_inv (w_ps w)" "ps_Publish (w_ps w) rid msg = Some ps"
  shows "wp (publish rid msg) E Q w = Q () (w\<lparr>w_ps := ps\<rparr>)"
  using assms by (simp add: wp_def publish_def)

text \<open>The transaction, the publish and the pushes.\<close>

lemma wp_store_and_notify:
  assumes w: "sound w" and R: "cs_repo svc = R" and r: "a_rooms (abs (w_db w)) rid = Some r"
    and m: "mg_RoomID m = rid" "fresh_message_id (abs (w_db w)) (mg_ID m)" "\<not> mg_IsDeleted m"
    and n: "int64_range (a_maxSeq (abs (w_db w)) rid + 1)" and now: "next_time w0 = now"
    and w0: "w = w0\<lparr>w_env := g\<rparr>"
  shows "wp (bindP (tx svc
       (bindP (db (\<lambda>s. rp_CreateMessageWithNextSequence (cs_repo svc) s m)) (\<lambda>saved.
        bindP (db (\<lambda>s. rp_UpdateRoom (cs_repo svc) s (r\<lparr>rm_UpdatedAt := now\<rparr>))) (\<lambda>_.
        ok saved)))) (\<lambda>saved.
     bindP (publish rid saved) (\<lambda>_.
     bindP (dispatchChatMessagePush svc rid (mg_SenderUserID m) saved) (\<lambda>_. ok saved))))
    (\<lambda>e w'. False) (\<lambda>saved w'. saved = saved_message (abs (w_db w)) m \<and> sound w' \<and> sent svc rid saved w0 w') w"
proof -
  let ?a = "abs (w_db w)"
  define saved where "saved = saved_message ?a m"
  define s1 where "s1 = snd (rp_CreateMessageWithNextSequence R (w_db w) m)"
  define s2 where "s2 = snd (rp_UpdateRoom R s1 (r\<lparr>rm_UpdatedAt := now\<rparr>))"
  have inv: "inv (w_db w)" and rid: "rm_ID r = rid" using soundD(2) [OF w] room_key [OF _ r] by auto
  have s1: "inv s1" "fst (rp_CreateMessageWithNextSequence R (w_db w) m) = Inr saved"
    "a_rooms (abs s1) = a_rooms ?a" "abs s1 = (put_message saved ?a)\<lparr>a_maxSeq := (a_maxSeq ?a)(rid := mg_SequenceNo saved)\<rparr>"
    using inv m n r by (simp_all add: s1_def saved_def saved_message_def spec_CreateMessage_def Let_def)
  have s2: "inv s2" "fst (rp_UpdateRoom R s1 (r\<lparr>rm_UpdatedAt := now\<rparr>)) = Inr ()"
    "abs s2 = sent_store ?a saved (r\<lparr>rm_UpdatedAt := now\<rparr>)"
    using s1 r m rid by (simp_all add: s2_def spec_UpdateRoom_def sent_store_def saved_def)
  obtain ps where ps: "ps_Publish (w_ps w) rid saved = Some ps" "ps_inv ps"
    using ps_Publish_effect [OF soundD(6) [OF w]] by blast
  define w2 where "w2 = w\<lparr>w_db := s2, w_ps := ps\<rparr>"
  have w2: "w_db w2 = s2" "w_ps w2 = ps" "w_push w2 = w_push w" by (simp_all add: w2_def)
  have pt: "push_targets (abs s2) rid u = push_targets ?a rid u" for u
    by (simp add: push_targets_def active_members_def s2(3))
  have snd2: "sound (w2\<lparr>w_push := x\<rparr>)" for x
    using s2 ps(2) sent_store_rooms_inv [OF soundD(3) [OF w], of saved r now]
      sent_store_messages_inv [OF soundD(4) [OF w] m(2), of r "r\<lparr>rm_UpdatedAt := now\<rparr>"] r m soundD(5) [OF w]
    by (simp add: sound_def good_def w2 saved_def tokens_inv_def)
  have "wp (bindP (dispatchChatMessagePush svc rid (mg_SenderUserID m) saved) (\<lambda>_. ok saved)) (\<lambda>e w'. False)
      (\<lambda>x w'. x = saved \<and> sound w' \<and> sent svc rid saved w0 w') w2"
    unfolding wp_bindP
    by (rule wp_mono [OF wp_dispatch [OF _ R]])
       (use s2 snd2 w2 pt r ps(1) in \<open>auto simp: sent_def now saved_def w0\<close>)
  then show ?thesis
    using inv R s1 s2 ps wp_publish [OF soundD(6) [OF w] ps(1)]
    by (simp add: wp_publish w2_def soundD(6) [OF w] flip: saved_def s1_def s2_def)
qed

text \<open>
  The whole request. It fails without effect when a check fails. Otherwise the message is stored,
  published and pushed; the answer is the message with its read URL, or the read signer's error.
\<close>

text \<open>The same followed by the conversion for delivery, the only call that can fail once the message is stored.\<close>

definition delivered :: "'s ChatService \<Rightarrow> string \<Rightarrow> ChatMessage \<Rightarrow> 's world \<Rightarrow> error + ChatMessage \<Rightarrow> 's world \<Rightarrow> bool" where
  "delivered svc rid saved w x w' \<longleftrightarrow> sound w' \<and> sent svc rid saved w w' \<and> (\<exists>g g'. hydrateMessageForDelivery svc saved g = (x, g'))"

lemma wp_store_and_deliver:
  assumes w: "sound w" and R: "cs_repo svc = R" and r: "a_rooms (abs (w_db w)) rid = Some r"
    and m: "mg_RoomID m = rid" "fresh_message_id (abs (w_db w)) (mg_ID m)" "\<not> mg_IsDeleted m"
    and n: "int64_range (a_maxSeq (abs (w_db w)) rid + 1)" and now: "next_time w0 = now"
    and w0: "w = w0\<lparr>w_env := g\<rparr>"
  shows "wp (bindP (tx svc
       (bindP (db (\<lambda>s. rp_CreateMessageWithNextSequence (cs_repo svc) s m)) (\<lambda>saved.
        bindP (db (\<lambda>s. rp_UpdateRoom (cs_repo svc) s (r\<lparr>rm_UpdatedAt := now\<rparr>))) (\<lambda>_.
        ok saved)))) (\<lambda>saved.
     bindP (publish rid saved) (\<lambda>_.
     bindP (dispatchChatMessagePush svc rid (mg_SenderUserID m) saved) (\<lambda>_.
     on_env (hydrateMessageForDelivery svc saved)))))
    (\<lambda>e w'. delivered svc rid (saved_message (abs (w_db w)) m) w0 (Inl e) w')
    (\<lambda>x w'. delivered svc rid (saved_message (abs (w_db w)) m) w0 (Inr x) w') w"
    (is "wp (bindP ?tx (\<lambda>saved. bindP (?pub saved) (\<lambda>_. bindP (?push saved) (\<lambda>_. ?hyd saved)))) ?E ?Q w")
proof -
  let ?store = "bindP ?tx (\<lambda>saved. bindP (?pub saved) (\<lambda>_. bindP (?push saved) (\<lambda>_. ok saved)))"
  have "wp (bindP ?store ?hyd) ?E ?Q w"
    unfolding wp_bindP [of ?store]
  proof (rule wp_mono [OF wp_store_and_notify [OF assms]], goal_cases)
    case (2 saved w2)
    then show ?case
      unfolding wp_on_env by (intro wpI) (auto simp: delivered_def)
  qed simp
  then show ?thesis by (simp only: bindP_assoc bindP_ok)
qed

lemma wp_SendMessage_accepted:
  assumes w: "sound w" and R: "cs_repo svc = R" and can: "can_send w rid"
    and may: "may_send svc (abs (w_db w)) rid u mt content img md"
  defines "saved \<equiv> saved_message (abs (w_db w)) (stored_form svc w rid u mt content img md)"
  shows "wp (svc_SendMessage svc rid u mt content img md)
    (\<lambda>e w'. delivered svc rid saved w (Inl e) w') (\<lambda>x w'. delivered svc rid saved w (Inr x) w') w"
proof -
  from may obtain r m where r: "a_rooms (abs (w_db w)) rid = Some r" "room_open r"
    "a_members (abs (w_db w)) rid u = Some m" "mb_Status m = MemberStatusActive"
    and v: "validateMessagePayload mt content img md = Inr ()" "validateTrustedAttachmentURL svc rid mt img md = Inr ()"
    by (auto simp: may_send_def)
  from trusted_normalizes [OF v(2)] obtain img' md' where
    nrm: "normalizeAttachmentReferences svc rid mt img md = Inr (img', md')" by (metis surj_pair)
  define now where "now = next_time w"
  define w1 where "w1 = w\<lparr>w_env := snd (id_New (snd (time_Now (w_env w))))\<rparr>"
  define msg where "msg = new_message (next_message_id w) rid u mt content img' md' now"
  have msg: "msg = stored_form svc w rid u mt content img md" by (simp add: stored_form_def nrm msg_def now_def)
  have "mg_RoomID msg = rid" "mg_SenderUserID msg = u" "mg_ID msg = next_message_id w" "\<not> mg_IsDeleted msg"
    by (simp_all add: msg)
  then have tail: "wp (bindP (tx svc
       (bindP (db (\<lambda>s. rp_CreateMessageWithNextSequence (cs_repo svc) s msg)) (\<lambda>saved.
        bindP (db (\<lambda>s. rp_UpdateRoom (cs_repo svc) s (r\<lparr>rm_UpdatedAt := now\<rparr>))) (\<lambda>_.
        ok saved)))) (\<lambda>saved. bindP (publish rid saved) (\<lambda>_.
     bindP (dispatchChatMessagePush svc rid u saved) (\<lambda>_. on_env (hydrateMessageForDelivery svc saved)))))
     (\<lambda>e w'. delivered svc rid saved w (Inl e) w') (\<lambda>x w'. delivered svc rid saved w (Inr x) w') w1"
    using wp_store_and_deliver [of w1 svc rid r msg w now, OF _ R] w r(1) can
    by (simp add: w1_def can_send_def now_def saved_def msg)
  have ro: "rm_IsActive r" using r(2) by (simp add: room_open_def)
  show ?thesis
    unfolding svc_SendMessage_def wp_bindP [of "validateActiveMembership svc rid u"] wp_validate [OF soundD(2) [OF w] R] r option.case
    using tail r(2,4) ro v nrm
    by (simp add: Let_def msg_def w1_def now_def next_time_def next_message_id_def del: wp_tx wp_db)
qed

lemma wp_SendMessage:
  assumes w: "sound w" and R: "cs_repo svc = R" and can: "can_send w rid"
  shows "wp (svc_SendMessage svc rid u mt content img md)
    (\<lambda>e w'. if may_send svc (abs (w_db w)) rid u mt content img md
        then sound w' \<and> (\<exists>saved g g'. saved = saved_message (abs (w_db w)) (stored_form svc w rid u mt content img md)
               \<and> sent svc rid saved w w' \<and> hydrateMessageForDelivery svc saved g = (Inl e, g'))
        else untouched w w')
    (\<lambda>x w'. may_send svc (abs (w_db w)) rid u mt content img md \<and> sound w'
        \<and> (\<exists>saved g g'. saved = saved_message (abs (w_db w)) (stored_form svc w rid u mt content img md)
               \<and> sent svc rid saved w w' \<and> hydrateMessageForDelivery svc saved g = (Inr x, g'))) w"
proof (cases "may_send svc (abs (w_db w)) rid u mt content img md")
  case True
  from wp_SendMessage_accepted [OF w R can True] True show ?thesis
    by - (erule wp_mono, auto simp: delivered_def)
next
  case False
  then show ?thesis
    using soundD(2) [OF w] R
    unfolding svc_SendMessage_def wp_bindP [of "validateActiveMembership svc rid u"] wp_validate [OF soundD(2) [OF w] R]
    by (auto simp: may_send_def room_open_def split: option.split sum.split)
qed

text \<open>Deleting: only the owner; the message keeps its place and loses its content.\<close>

lemma sound_store:
  assumes "sound w" "inv s" "rooms_inv (abs s)" "messages_inv (abs s)" "tokens_inv (abs s)"
  shows "sound (w\<lparr>w_db := s\<rparr>)"
  using assms by (simp add: sound_def good_def)

lemma wp_DeleteMessage:
  assumes w: "sound w" and R: "cs_repo svc = R"
  shows "wp (svc_DeleteMessage svc rid i owner)
    (\<lambda>e w'. untouched w w' \<and>
       (case a_rooms (abs (w_db w)) rid of
          None \<Rightarrow> e = ErrNotFound
        | Some r \<Rightarrow> if rm_OwnerUserID r \<noteq> owner then e = ErrPermissionDenied
            else e = ErrNotFound \<and> a_messages (abs (w_db w)) rid i = None))
    (\<lambda>m w'. sound w' \<and> quiet w w' \<and> (\<exists>r m0. a_rooms (abs (w_db w)) rid = Some r \<and> rm_OwnerUserID r = owner
        \<and> a_messages (abs (w_db w)) rid i = Some m0 \<and> m = deleted (next_time w) owner m0
        \<and> abs (w_db w') = put_message m (abs (w_db w)))) w"
proof (cases "\<exists>r m0. a_rooms (abs (w_db w)) rid = Some r \<and> rm_OwnerUserID r = owner
    \<and> a_messages (abs (w_db w)) rid i = Some m0")
  case True
  then obtain r m0 where r: "a_rooms (abs (w_db w)) rid = Some r" "rm_OwnerUserID r = owner"
    and m0: "a_messages (abs (w_db w)) rid i = Some m0" by blast
  note inv = soundD(2) [OF w]
  have k: "mg_RoomID m0 = rid" "mg_ID m0 = i" using message_key [OF inv m0] by auto
  let ?m = "deleted (next_time w) owner m0"
  have sel: "mg_RoomID ?m = rid" "mg_ID ?m = i" "mg_SequenceNo ?m = mg_SequenceNo m0" "message_ok ?m"
    by (simp_all add: deleted_def k message_ok_def)
  have "messages_inv (put_message ?m (abs (w_db w)))"
    by (rule messages_inv_replace [OF soundD(4) [OF w]]) (use sel m0 message_key [OF inv] in auto)
  moreover have "rooms_inv (put_message ?m (abs (w_db w)))" "tokens_inv (put_message ?m (abs (w_db w)))"
    using soundD(3,5) [OF w] by (simp_all add: rooms_inv_def tokens_inv_def)
  ultimately have "sound (w\<lparr>w_env := g, w_db := snd (rp_UpdateMessage R (w_db w) ?m)\<rparr>)" for g
    using inv m0 sel by (intro sound_store) (simp_all add: w spec_UpdateMessage_def)
  with r m0 inv R sel show ?thesis
    by (simp add: svc_DeleteMessage_def spec_UpdateMessage_def flip: next_time_def)
next
  case False
  with soundD(2) [OF w] R show ?thesis
    by (cases "a_rooms (abs (w_db w)) rid"; cases "a_messages (abs (w_db w)) rid i")
       (auto simp: svc_DeleteMessage_def)
qed

text \<open>Read cursors only move forward.\<close>

lemma good_read:
  assumes "good w" "a_members (abs (w_db w)) rid u = Some m"
  shows "rooms_inv (put_member (read_up_to now n m) (abs (w_db w)))"
proof -
  from good_member_room [OF assms] obtain r where r: "a_rooms (abs (w_db w)) rid = Some r" .
  note m = good_member [OF assms(1) r assms(2)] and ok = rooms_invD(1) [OF goodD(2) [OF assms(1)] r]
  have sel: "mb_RoomID (read_up_to now n m) = rid" "mb_UserID (read_up_to now n m) = u"
    "mb_Role (read_up_to now n m) = mb_Role m" "mb_Status (read_up_to now n m) = mb_Status m"
    "member_ok (read_up_to now n m)"
    using m by (simp_all add: read_up_to_def member_ok_def)
  have "mb_Status m = MemberStatusActive \<and> mb_Role m = MemberRoleOwner" if "room_open r" "u = rm_OwnerUserID r"
    by (rule members_ok_owner [OF ok that(1)]) (use assms(2) that(2) in simp)
  then have "members_ok r ((a_members (abs (w_db w)) rid)(u \<mapsto> read_up_to now n m))"
    using sel m by (intro members_ok_put [OF ok]) simp_all
  then show ?thesis
    using sel r by (intro rooms_inv_member [OF goodD(2) [OF assms(1)]]) simp_all
qed

lemma sound_read:
  assumes "sound w" "a_members (abs (w_db w)) rid u = Some m"
  shows "sound (w\<lparr>w_env := g, w_db := snd (rp_UpdateMember R (w_db w) (read_up_to now n m))\<rparr>)"
proof -
  have k: "mb_RoomID (read_up_to now n m) = rid" "mb_UserID (read_up_to now n m) = u"
    using member_key [OF soundD(2) [OF assms(1)] assms(2)] by (simp_all add: read_up_to_def)
  have "messages_inv (put_member (read_up_to now n m) (abs (w_db w)))"
    by (rule messages_inv_frame [OF soundD(4) [OF assms(1)]]) simp_all
  moreover have "tokens_inv (put_member (read_up_to now n m) (abs (w_db w)))"
    using soundD(5) [OF assms(1)] by (simp add: tokens_inv_def)
  ultimately show ?thesis
    using soundD(2) [OF assms(1)] k assms good_read [OF soundD(1) [OF assms(1)] assms(2)]
    by (intro sound_store) (simp_all add: spec_UpdateMember_def)
qed

lemma wp_MarkAsRead:
  assumes w: "sound w" and R: "cs_repo svc = R"
  shows "wp (svc_MarkAsRead svc rid u n)
    (\<lambda>e w'. untouched w w' \<and> (case a_members (abs (w_db w)) rid u of
        None \<Rightarrow> e = ErrNotFound | Some m \<Rightarrow> e = ErrInvalidState \<and> mb_Status m \<noteq> MemberStatusActive))
    (\<lambda>m' w'. sound w' \<and> quiet w w' \<and> (\<exists>m. a_members (abs (w_db w)) rid u = Some m \<and> mb_Status m = MemberStatusActive
        \<and> m' = read_up_to (next_time w) n m \<and> abs (w_db w') = put_member m' (abs (w_db w)))) w"
proof (cases "a_members (abs (w_db w)) rid u")
  case (Some m)
  have k: "mb_RoomID (read_up_to t n m) = rid" "mb_UserID (read_up_to t n m) = u" for t
    using member_key [OF soundD(2) [OF w] Some] by (simp_all add: read_up_to_def)
  show ?thesis using Some soundD(2) [OF w] R k sound_read [OF w Some]
    by (simp add: svc_MarkAsRead_def Let_def spec_UpdateMember_def next_time_def)
qed (use soundD(2) [OF w] R in \<open>simp add: svc_MarkAsRead_def\<close>)

text \<open>The newest message of a room has the room's counter as its number.\<close>

lemma latest_message:
  assumes w: "sound w"
  obtains msgs nxt where "rp_ListMessagesBefore R (w_db w) rid 0 1 = Inr (msgs, nxt)"
    "(case msgs of [] \<Rightarrow> 0 | m # _ \<Rightarrow> mg_SequenceNo m) = a_maxSeq (abs (w_db w)) rid"
proof -
  let ?M = "ran (a_messages (abs (w_db w)) rid)" and ?n = "a_maxSeq (abs (w_db w)) rid"
  from ListMessagesBefore [OF soundD(2) [OF w], of rid 0 1] obtain all nxt where
    r: "rp_ListMessagesBefore R (w_db w) rid 0 1 = Inr (take 1 all, nxt)"
    and srt: "lists_sorted (\<lambda>m. - mg_SequenceNo m) ?M all"
    by (auto simp: page_limit_def older_messages_def)
  have num: "mg_SequenceNo ` ?M = {1..?n}" "0 \<le> ?n"
    using messages_invD(1) [OF soundD(4) [OF w], of rid] by (auto simp: numbered_def)
  have "(case take 1 all of [] \<Rightarrow> 0 | m # _ \<Rightarrow> mg_SequenceNo m) = ?n"
  proof (cases all)
    case Nil
    then have "{1..?n} = {}" using srt num by (simp add: lists_sorted_def)
    then show ?thesis using num Nil by simp
  next
    case (Cons m ms)
    have M: "?M = set all" using srt by (simp add: lists_sorted_def)
    have "m \<in> ?M" using Cons M by simp
    then have m: "mg_SequenceNo m \<in> {1..?n}" using num(1) by blast
    have mx: "\<forall>x \<in> ?M. mg_SequenceNo x \<le> mg_SequenceNo m"
      using srt Cons by (auto simp: lists_sorted_def)
    have "?n \<in> mg_SequenceNo ` ?M" using m unfolding num(1) by simp
    then obtain x where "x \<in> ?M" "mg_SequenceNo x = ?n" by auto
    then show ?thesis using mx m Cons by force
  qed
  with r that show thesis by blast
qed

lemma wp_MarkChatRoomRead:
  assumes w: "sound w" and R: "cs_repo svc = R"
  shows "wp (svc_MarkChatRoomRead svc rid u)
    (\<lambda>e w'. untouched w w' \<and> (case a_rooms (abs (w_db w)) rid of
        None \<Rightarrow> e = ErrNotFound
      | Some r \<Rightarrow> if \<not> room_open r then e = ErrRoomInactive else
          (case a_members (abs (w_db w)) rid u of
             None \<Rightarrow> e = ErrNotFound | Some m \<Rightarrow> e = ErrInvalidState \<and> mb_Status m \<noteq> MemberStatusActive)))
    (\<lambda>m' w'. sound w' \<and> quiet w w' \<and> (\<exists>r m. a_rooms (abs (w_db w)) rid = Some r \<and> room_open r
        \<and> a_members (abs (w_db w)) rid u = Some m \<and> mb_Status m = MemberStatusActive
        \<and> m' = read_up_to (next_time w) (a_maxSeq (abs (w_db w)) rid) m
        \<and> abs (w_db w') = put_member m' (abs (w_db w)))) w"
proof -
  obtain msgs nxt where l: "rp_ListMessagesBefore R (w_db w) rid 0 1 = Inr (msgs, nxt)"
    "(case msgs of [] \<Rightarrow> 0 | m # _ \<Rightarrow> mg_SequenceNo m) = a_maxSeq (abs (w_db w)) rid"
    using latest_message [OF w] .
  have k: "mb_RoomID (read_up_to t n m) = rid" "mb_UserID (read_up_to t n m) = u"
    if "a_members (abs (w_db w)) rid u = Some m" for t n m
    using member_key [OF soundD(2) [OF w] that] by (simp_all add: read_up_to_def)
  show ?thesis
    unfolding svc_MarkChatRoomRead_def wp_bindP [of "validateActiveMembership svc rid u"] wp_validate [OF soundD(2) [OF w] R]
    using l soundD(2) [OF w] R sound_read [OF w] k
    by (auto simp: Let_def spec_UpdateMember_def next_time_def split: option.split)
qed

end

end
