(* ===== verification/MessageReads.thy ===== *)
theory MessageReads
  imports MessageRules
begin

text \<open>
  Reading: what a page of \<^verbatim>\<open>GetMessages\<close> holds, that following its cursors lists the whole history,
  and the requests that leave rooms and messages alone (device tokens, upload URLs, room lists).
\<close>

section \<open>Presentation\<close>

text \<open>Rewriting for delivery changes only the references; a deleted message shows no content.\<close>

definition same_message :: "ChatMessage \<Rightarrow> ChatMessage \<Rightarrow> bool" where
  "same_message m x \<longleftrightarrow>
     x = m\<lparr>mg_ImageURL := mg_ImageURL x, mg_FileURL := mg_FileURL x, mg_Metadata := mg_Metadata x\<rparr>"

definition presented :: "ChatMessage \<Rightarrow> ChatMessage \<Rightarrow> bool" where
  "presented m x \<longleftrightarrow> (if mg_IsDeleted m then x = redacted m else same_message m x)"

lemma hydrate_same:
  "hydrateMessageForDelivery svc m g = (Inr x, g') \<Longrightarrow> same_message m x"
  by (auto simp: hydrateMessageForDelivery_def same_message_def Let_def bindP_def
      split: option.splits MessageType.splits if_splits prod.splits sum.splits)

lemma present_presented: "present svc m g = (Inr x, g') \<Longrightarrow> presented m x"
  by (auto simp: present_def presented_def hydrate_same split: if_splits)

lemma present_all_presented: "present_all svc ms g = (Inr xs, g') \<Longrightarrow> list_all2 presented ms xs"
proof (induction ms arbitrary: g xs g')
  case (Cons m ms)
  from Cons.prems obtain x g1 ys g2 where "present svc m g = (Inr x, g1)" "present_all svc ms g1 = (Inr ys, g2)" "xs = x # ys"
    by (auto elim!: bindP_InrE)
  then show ?case using Cons.IH present_presented by auto
qed simp

lemma present_all_error:
  "present_all svc ms g = (Inl e, g') \<Longrightarrow> \<exists>m g g'. hydrateMessageForDelivery svc m g = (Inl e, g')"
  by (induction ms arbitrary: g)
     (auto simp: bindP_def present_def split: prod.splits sum.splits if_splits)

lemma hydrate_error:
  assumes "hydrateMessageForDelivery svc m g = (Inl e, g')"
  shows "\<exists>signer object. cs_attachmentReadSigner svc = Some signer \<and> signer object g = (Inl e, g')"
  using assms
  by (auto simp: hydrateMessageForDelivery_def bindP_def Let_def
      split: option.splits MessageType.splits if_splits prod.splits sum.splits)

text \<open>Without a read signer nothing is rewritten.\<close>

definition shown_unsigned :: "ChatMessage \<Rightarrow> ChatMessage" where
  "shown_unsigned m = (if mg_IsDeleted m then redacted m else m)"

lemma present_all_unsigned:
  "cs_attachmentReadSigner svc = None \<Longrightarrow> present_all svc ms g = (Inr xs, g') \<Longrightarrow> xs = map shown_unsigned ms"
  by (induction ms arbitrary: xs g g')
     (auto simp: present_def hydrateMessageForDelivery_def shown_unsigned_def bindP_def split: prod.splits sum.splits if_splits)

lemma presented_seq: "presented m x \<Longrightarrow> mg_SequenceNo x = mg_SequenceNo m"
  unfolding presented_def same_message_def redacted_def
  by (metis (no_types, lifting) ChatMessage.select_convs(5) ChatMessage.surjective ChatMessage.update_convs(6,7,8,9))

lemma presented_ID: "presented m x \<Longrightarrow> mg_ID x = mg_ID m"
  unfolding presented_def same_message_def redacted_def
  by (cases m; cases x) (simp split: if_splits)

lemma list_all2_in: "list_all2 P xs ys \<Longrightarrow> y \<in> set ys \<Longrightarrow> \<exists>x \<in> set xs. P x y"
  by (induction rule: list_all2_induct) auto

lemma presented_seqs: "list_all2 presented ms xs \<Longrightarrow> map mg_SequenceNo xs = map mg_SequenceNo ms"
  by (induction rule: list_all2_induct) (simp_all add: presented_seq)

section \<open>Numbered histories\<close>

text \<open>The highest number below the cursor; the cursor \<open>0\<close> is no bound.\<close>

definition top_before :: "int \<Rightarrow> int \<Rightarrow> int" where
  "top_before n before = (if 0 < before then min n (before - 1) else n)"

lemma older_numbers:
  assumes "numbered (a_messages a rid) n"
  shows "mg_SequenceNo ` older_messages a rid before = {1..top_before n before}"
proof -
  have img: "mg_SequenceNo ` ran (a_messages a rid) = {1..n}" using assms by (simp add: numbered_def)
  have "k \<in> mg_SequenceNo ` older_messages a rid before \<longleftrightarrow> k \<in> {1..top_before n before}" for k
  proof -
    have "k \<in> mg_SequenceNo ` older_messages a rid before \<longleftrightarrow>
        k \<in> mg_SequenceNo ` ran (a_messages a rid) \<and> (0 < before \<longrightarrow> k < before)"
      by (auto simp: older_messages_def)
    then show ?thesis unfolding img by (auto simp: top_before_def)
  qed
  then show ?thesis by blast
qed

lemma descending_numbers:
  assumes srt: "lists_sorted (\<lambda>m. - mg_SequenceNo m) M all" and img: "mg_SequenceNo ` M = {1..n}"
    and inj: "inj_on mg_SequenceNo M"
  shows "map mg_SequenceNo all = rev [1..n]"
proof -
  have M: "distinct all" "set all = M" "sorted (map (\<lambda>m. - mg_SequenceNo m) all)"
    using srt by (auto simp: lists_sorted_def)
  have neg: "map (\<lambda>m. - mg_SequenceNo m) all = map uminus (map mg_SequenceNo all)" by simp
  have "sorted (rev (map mg_SequenceNo all))"
    using M(3) unfolding neg sorted_wrt_rev sorted_wrt_map by (simp add: sorted_wrt_map)
  moreover have "distinct (map mg_SequenceNo all)" using M(1,2) inj by (simp add: distinct_map)
  moreover have "set (rev (map mg_SequenceNo all)) = set [1..n]" using M(2) img by simp
  ultimately have "rev (map mg_SequenceNo all) = [1..n]"
    by (intro sorted_distinct_set_unique) (simp_all del: set_upto)
  then show ?thesis by (metis rev_rev_ident)
qed

lemma nth_rev_upto:
  assumes "k < nat n"
  shows "rev [1..n] ! k = n - int k"
proof -
  have "rev [1..n] ! k = [1..n] ! (nat n - Suc k)" using assms by (simp add: rev_nth)
  also have "\<dots> = 1 + int (nat n - Suc k)" using assms by (intro nth_upto) linarith
  finally show ?thesis using assms by linarith
qed

lemma drop_rev_upto: "drop k (rev [1..n]) = rev [1..n - int k]"
proof (induction k arbitrary: n)
  case (Suc k)
  show ?case
  proof (cases "1 \<le> n")
    case True
    then have "rev [1..n] = n # rev [1..n - 1]" by (simp add: upto_rec2)
    then show ?thesis using Suc [of "n - 1"] by (simp add: algebra_simps)
  qed (simp add: upto_empty)
qed simp

section \<open>Pages\<close>

text \<open>The page size the service uses.\<close>

definition page_size :: "int \<Rightarrow> nat" where
  "page_size limit = nat (if limit \<le> 0 \<or> limit > 100 then 50 else limit)"

lemma page_size_pos [simp]: "0 < page_size limit"
  by (simp add: page_size_def)

lemma page_limit_page_size: "page_limit 50 (if limit \<le> 0 \<or> limit > 100 then 50 else limit) = page_size limit"
  by (auto simp: page_limit_def page_size_def)

text \<open>The cursor returned with a page of a history whose highest number below \<open>before\<close> is \<open>h\<close>.\<close>

definition next_ok :: "int \<Rightarrow> nat \<Rightarrow> int \<Rightarrow> bool" where
  "next_ok h k nxt \<longleftrightarrow> nxt = 0 \<and> h \<le> int k \<or> int k \<le> h \<and> nxt = h - int k + 1"

context chat_repository
begin

lemma history_page:
  assumes w: "sound w"
  obtains all nxt where "rp_ListMessagesBefore R (w_db w) rid before (if limit \<le> 0 \<or> limit > 100 then 50 else limit)
      = Inr (take (page_size limit) all, nxt)"
    "set all = older_messages (abs (w_db w)) rid before"
    "map mg_SequenceNo all = rev [1..top_before (a_maxSeq (abs (w_db w)) rid) before]"
    "next_ok (top_before (a_maxSeq (abs (w_db w)) rid) before) (page_size limit) nxt"
proof -
  let ?a = "abs (w_db w)" and ?k = "page_size limit"
  let ?h = "top_before (a_maxSeq ?a rid) before"
  have num: "numbered (a_messages ?a rid) (a_maxSeq ?a rid)" using messages_invD(1) [OF soundD(4) [OF w]] .
  from ListMessagesBefore [OF soundD(2) [OF w], of rid before "if limit \<le> 0 \<or> limit > 100 then 50 else limit"]
  obtain all nxt where all: "rp_ListMessagesBefore R (w_db w) rid before (if limit \<le> 0 \<or> limit > 100 then 50 else limit)
      = Inr (take ?k all, nxt)"
    and srt: "lists_sorted (\<lambda>m. - mg_SequenceNo m) (older_messages ?a rid before) all"
    and nx: "nxt = 0 \<and> length all \<le> ?k \<or> ?k \<le> length all \<and> nxt = mg_SequenceNo (all ! (?k - 1))"
    unfolding page_limit_page_size by blast
  have "inj_on mg_SequenceNo (older_messages ?a rid before)"
    using num by (auto simp: numbered_def older_messages_def inj_on_def)
  from descending_numbers [OF srt older_numbers [OF num] this]
  have seqs: "map mg_SequenceNo all = rev [1..?h]" .
  then have len: "length all = nat ?h" by (metis length_map length_rev length_upto diff_add_cancel)
  have nh: "0 \<le> ?h" using num by (auto simp: numbered_def top_before_def)
  have "next_ok ?h ?k nxt"
    using nx
  proof
    assume c: "?k \<le> length all \<and> nxt = mg_SequenceNo (all ! (?k - 1))"
    have "?k - 1 < length all" using c page_size_pos [of limit] by linarith
    then have "mg_SequenceNo (all ! (?k - 1)) = map mg_SequenceNo all ! (?k - 1)" by simp
    then have "nxt = rev [1..?h] ! (?k - 1)" using c seqs by metis
    also have "\<dots> = ?h - int (?k - 1)"
      using c len page_size_pos [of limit] by (intro nth_rev_upto) linarith
    finally have "nxt = ?h - int (?k - 1)" .
    then show ?thesis unfolding next_ok_def using c len page_size_pos [of limit] nh by linarith
  qed (use len in \<open>auto simp: next_ok_def\<close>)
  with that all srt seqs show thesis by (simp add: lists_sorted_def)
qed

text \<open>Who may read a room.\<close>

definition reader :: "'s world \<Rightarrow> string \<Rightarrow> string \<Rightarrow> bool" where
  "reader w rid u \<longleftrightarrow> (\<exists>r m. a_rooms (abs (w_db w)) rid = Some r \<and> room_open r
     \<and> a_members (abs (w_db w)) rid u = Some m \<and> mb_Status m = MemberStatusActive)"

lemma wp_GetMessages:
  assumes w: "sound w" and R: "cs_repo svc = R"
  shows "wp (svc_GetMessages svc rid u before limit)
    (\<lambda>e w'. untouched w w' \<and> (reader w rid u \<longrightarrow> (\<exists>m g g'. hydrateMessageForDelivery svc m g = (Inl e, g'))))
    (\<lambda>(xs, nxt) w'. untouched w w' \<and> reader w rid u
       \<and> (\<exists>all. set all = older_messages (abs (w_db w)) rid before
            \<and> map mg_SequenceNo all = rev [1..top_before (a_maxSeq (abs (w_db w)) rid) before]
            \<and> list_all2 presented (take (page_size limit) all) xs
            \<and> (cs_attachmentReadSigner svc = None \<longrightarrow> xs = map shown_unsigned (take (page_size limit) all)))
       \<and> next_ok (top_before (a_maxSeq (abs (w_db w)) rid) before) (page_size limit) nxt) w"
proof (cases "reader w rid u")
  case True
  then obtain r m where r: "a_rooms (abs (w_db w)) rid = Some r" "room_open r"
    "a_members (abs (w_db w)) rid u = Some m" "mb_Status m = MemberStatusActive" by (auto simp: reader_def)
  from history_page [OF w] obtain all nxt where
    pg: "rp_ListMessagesBefore R (w_db w) rid before (if limit \<le> 0 \<or> limit > 100 then 50 else limit)
      = Inr (take (page_size limit) all, nxt)"
    and all: "set all = older_messages (abs (w_db w)) rid before"
    "map mg_SequenceNo all = rev [1..top_before (a_maxSeq (abs (w_db w)) rid) before]"
    "next_ok (top_before (a_maxSeq (abs (w_db w)) rid) before) (page_size limit) nxt" .
  have "wp (present_all svc (take (page_size limit) all)) (\<lambda>e g. \<exists>m g g'. hydrateMessageForDelivery svc m g = (Inl e, g'))
      (\<lambda>xs g. list_all2 presented (take (page_size limit) all) xs
         \<and> (cs_attachmentReadSigner svc = None \<longrightarrow> xs = map shown_unsigned (take (page_size limit) all))) (w_env w)"
    by (rule wpI) (auto dest: present_all_presented present_all_error present_all_unsigned)
  moreover have "rm_IsActive r" using r(2) by (simp add: room_open_def)
  ultimately show ?thesis
    unfolding svc_GetMessages_def wp_bindP [of "validateActiveMembership svc rid u"] wp_validate [OF soundD(2) [OF w] R] r option.case
    using r pg all True soundD(2) [OF w] R unfolding Let_def
    by (auto elim!: wp_mono)
next
  case False
  then show ?thesis
    unfolding svc_GetMessages_def wp_bindP [of "validateActiveMembership svc rid u"] wp_validate [OF soundD(2) [OF w] R]
    using soundD(2) [OF w] by (auto simp: reader_def room_open_def split: option.split)
qed

end

text \<open>
  A client that asks for the next page until the cursor is \<open>0\<close>. \<open>None\<close> when the fuel runs out, the
  error when a page fails.
\<close>

fun read_history ::
  "nat \<Rightarrow> 's ChatService \<Rightarrow> string \<Rightarrow> string \<Rightarrow> int \<Rightarrow> int \<Rightarrow> 's world \<Rightarrow> (error + ChatMessage list) option" where
  "read_history 0 svc rid u before limit w = None"
| "read_history (Suc n) svc rid u before limit w =
    (case svc_GetMessages svc rid u before limit w of
       (Inl e, _) \<Rightarrow> Some (Inl e)
     | (Inr (xs, nxt), w') \<Rightarrow>
         if nxt = 0 then Some (Inr xs)
         else (case read_history n svc rid u nxt limit w' of
                 None \<Rightarrow> None
               | Some (Inl e) \<Rightarrow> Some (Inl e)
               | Some (Inr ys) \<Rightarrow> Some (Inr (xs @ ys))))"

context chat_repository
begin

lemma untouched_trans: "untouched w w' \<Longrightarrow> untouched w' w'' \<Longrightarrow> untouched w w''"
  by (simp add: untouched_def quiet_def)

lemma reader_untouched: "untouched w w' \<Longrightarrow> reader w' rid u = reader w rid u"
  by (simp add: untouched_def reader_def)

text \<open>
  Following the cursors lists every message below the first one, in descending order. The hypothesis is
  that no page fails: signing a read URL succeeds.
\<close>

lemma read_history_complete:
  assumes "sound w" "cs_repo svc = R" "\<And>m g e g'. hydrateMessageForDelivery svc m g \<noteq> (Inl e, g')" "reader w rid u"
    "top_before (a_maxSeq (abs (w_db w)) rid) before < int n"
  shows "\<exists>all xs. read_history n svc rid u before limit w = Some (Inr xs)
    \<and> set all = older_messages (abs (w_db w)) rid before
    \<and> map mg_SequenceNo all = rev [1..top_before (a_maxSeq (abs (w_db w)) rid) before]
    \<and> list_all2 presented all xs \<and> (cs_attachmentReadSigner svc = None \<longrightarrow> xs = map shown_unsigned all)"
  using assms
proof (induction n arbitrary: before w)
  case 0
  have "0 \<le> a_maxSeq (abs (w_db w)) rid"
    using messages_invD(1) [OF soundD(4) [OF 0(1)], of rid] by (simp add: numbered_def)
  with 0(5) show ?case by (simp add: top_before_def split: if_splits)
next
  case (Suc n)
  let ?m = "a_maxSeq (abs (w_db w)) rid" and ?k = "page_size limit"
  let ?h = "top_before ?m before"
  obtain r w' where run: "svc_GetMessages svc rid u before limit w = (r, w')" by fastforce
  from wpD [OF wp_GetMessages [OF Suc.prems(1,2)] run] Suc.prems(3,4)
  obtain xs nxt all where r: "r = Inr (xs, nxt)" and un: "untouched w w'" and set: "set all = older_messages (abs (w_db w)) rid before"
    and all: "map mg_SequenceNo all = rev [1..?h]" "list_all2 presented (take ?k all) xs"
    "cs_attachmentReadSigner svc = None \<Longrightarrow> xs = map shown_unsigned (take ?k all)" and nx: "next_ok ?h ?k nxt"
    by (auto split: sum.splits prod.splits)
  have len: "length all = length [1..?h]" using arg_cong [OF all(1), of length] by simp
  show ?case
  proof (cases "nxt = 0")
    case True
    then have "?h \<le> int ?k" using nx by (auto simp: next_ok_def)
    then have "take ?k all = all" using len by simp
    with True all set run r show ?thesis by (intro exI [of _ all] exI [of _ xs]) simp
  next
    case False
    then have k: "int ?k \<le> ?h" "nxt = ?h - int ?k + 1" using nx by (auto simp: next_ok_def)
    have w': "sound w'" "abs (w_db w') = abs (w_db w)" "reader w' rid u"
      using untouched_sound [OF un Suc.prems(1)] un reader_untouched [OF un] Suc.prems(4) by (auto simp: untouched_def)
    have top: "top_before ?m nxt = ?h - int ?k"
      using k by (auto simp: top_before_def split: if_splits)
    then have "top_before (a_maxSeq (abs (w_db w')) rid) nxt < int n"
      unfolding w'(2) using Suc.prems(5) page_size_pos [of limit] by linarith
    from Suc.IH [OF w'(1) Suc.prems(2,3) w'(3) this] obtain rest ys where
      ys: "read_history n svc rid u nxt limit w' = Some (Inr ys)" "set rest = older_messages (abs (w_db w)) rid nxt"
        "map mg_SequenceNo rest = rev [1..?h - int ?k]" "list_all2 presented rest ys"
        "cs_attachmentReadSigner svc = None \<Longrightarrow> ys = map shown_unsigned rest"
      by (auto simp: w'(2) top)
    have "inj_on mg_SequenceNo (ran (a_messages (abs (w_db w)) rid))"
      using messages_invD(1) [OF soundD(4) [OF Suc.prems(1)], of rid] by (simp add: numbered_def)
    moreover have "set rest \<union> set (drop ?k all) \<subseteq> ran (a_messages (abs (w_db w)) rid)"
      using set ys(2) set_drop_subset [of ?k all] by (auto simp: older_messages_def)
    moreover have "map mg_SequenceNo rest = map mg_SequenceNo (drop ?k all)"
      using ys(3) all(1) drop_rev_upto [of ?k ?h] by (simp flip: drop_map)
    ultimately have "rest = drop ?k all" by (intro map_inj_on [of mg_SequenceNo]) (auto intro: inj_on_subset)
    then have "list_all2 presented all (xs @ ys)" "cs_attachmentReadSigner svc = None \<Longrightarrow> xs @ ys = map shown_unsigned all"
      using list_all2_appendI [OF all(2) ys(4)] all(3) ys(5) by (simp_all add: flip: map_append)
    with ys False run r all(1) set show ?thesis by (intro exI [of _ all] exI [of _ "xs @ ys"]) simp
  qed
qed

section \<open>Requests that do not touch rooms and messages\<close>

lemma sound_devices:
  assumes "sound w" "inv s" "abs s = (abs (w_db w))\<lparr>a_devices := d\<rparr>" "tokens_inv (abs s)"
  shows "sound (w\<lparr>w_env := g, w_db := s\<rparr>)"
  using assms by (simp add: sound_def good_def rooms_inv_def messages_inv_def)

lemma wp_RegisterDeviceToken:
  assumes w: "sound w" and R: "cs_repo svc = R"
  shows "wp (svc_RegisterDeviceToken svc u d t p)
    (\<lambda>e w'. untouched w w' \<and> e = ErrInvalidArgument
       \<and> (TrimSpace u = [] \<or> TrimSpace d = [] \<or> TrimSpace t = [] \<or> \<not> isValidDevicePlatform p))
    (\<lambda>x w'. sound w' \<and> quiet w w' \<and> abs (w_db w') = (abs (w_db w))\<lparr>a_devices := a_devices (abs (w_db w'))\<rparr>
       \<and> dt_Token x = TrimSpace t \<and> dt_IsActive x
       \<and> a_devices (abs (w_db w')) (TrimSpace u) (TrimSpace d) = Some x) w"
proof -
  let ?t = "\<lambda>now. \<lparr>dt_UserID = TrimSpace u, dt_DeviceID = TrimSpace d, dt_Token = TrimSpace t, dt_Platform = p,
    dt_IsActive = True, dt_CreatedAt = now, dt_UpdatedAt = now, dt_LastSeenAt = now, dt_UnregisteredAt = None\<rparr>"
  have inv: "inv (w_db w)" using soundD(2) [OF w] .
  have "sound (w\<lparr>w_env := g, w_db := snd (rp_UpsertDeviceToken R (w_db w) (?t now))\<rparr>)" for g now
    using inv tokens_inv_upsert [OF soundD(5) [OF w], of "?t now"]
    by (intro sound_devices [OF w]) (simp_all add: spec_UpsertDeviceToken_def Let_def)
  then show ?thesis
    using inv R by (auto simp: svc_RegisterDeviceToken_def Let_def spec_UpsertDeviceToken_def)
qed

lemma wp_UnregisterDeviceToken:
  assumes w: "sound w" and R: "cs_repo svc = R"
  shows "wp (svc_UnregisterDeviceToken svc u d)
    (\<lambda>e w'. untouched w w' \<and> e = ErrInvalidArgument \<and> (TrimSpace u = [] \<or> TrimSpace d = []))
    (\<lambda>_ w'. sound w' \<and> quiet w w' \<and> abs (w_db w') = (abs (w_db w))\<lparr>a_devices := a_devices (abs (w_db w'))\<rparr>
       \<and> (\<forall>x. a_devices (abs (w_db w')) (TrimSpace u) (TrimSpace d) = Some x \<longrightarrow> \<not> dt_IsActive x)) w"
proof -
  have inv: "inv (w_db w)" using soundD(2) [OF w] .
  let ?s = "\<lambda>now. snd (rp_DeactivateDeviceToken R (w_db w) (TrimSpace u) (TrimSpace d) now)"
  have "tokens_inv (abs (?s now))" for now
    by (rule tokens_inv_sub [OF soundD(5) [OF w]])
       (auto simp: inv spec_DeactivateDeviceToken_def split: if_splits)
  then have "sound (w\<lparr>w_env := g, w_db := ?s now\<rparr>)" for g now
    using inv by (intro sound_devices [OF w]) (simp_all add: spec_DeactivateDeviceToken_def)
  then show ?thesis
    using inv R by (auto simp: svc_UnregisterDeviceToken_def Let_def spec_DeactivateDeviceToken_def)
qed

lemma wp_uploads:
  assumes w: "sound w" and R: "cs_repo svc = R"
  shows "wp (svc_CreateAttachmentUploadURL svc rid u fn ct) (\<lambda>e w'. untouched w w') (\<lambda>x w'. untouched w w') w"
    "wp (svc_CreateImageUploadURL svc rid u fn ct) (\<lambda>e w'. untouched w w') (\<lambda>x w'. untouched w w') w"
    "wp (svc_ListMyRooms svc u n tok) (\<lambda>e w'. untouched w w') (\<lambda>x w'. untouched w w') w"
proof -
  have inv: "inv (w_db w)" using soundD(2) [OF w] .
  show a: "wp (svc_CreateAttachmentUploadURL svc rid u fn ct) (\<lambda>e w'. untouched w w') (\<lambda>x w'. untouched w w') w"
    using inv R unfolding svc_CreateAttachmentUploadURL_def
    by (auto simp: wp_validate [OF inv R] intro!: wpI split: option.split sum.split)
  show "wp (svc_CreateImageUploadURL svc rid u fn ct) (\<lambda>e w'. untouched w w') (\<lambda>x w'. untouched w w') w"
    using inv a unfolding svc_CreateImageUploadURL_def by simp
  show "wp (svc_ListMyRooms svc u n tok) (\<lambda>e w'. untouched w w') (\<lambda>x w'. untouched w w') w"
    using inv by (simp add: svc_ListMyRooms_def Let_def split: sum.split)
qed

end

end
