(* ===== verification/AttachmentSafety.thy ===== *)
theory AttachmentSafety
  imports Attachments MemoryStore
begin

text \<open>
  What the attachment rules guarantee. Percent encoding round-trips, so a URL's escaped and decoded
  paths agree; hence a URL that is accepted for a room names an object below that room's prefix, and
  every URL the signer issues for the room is accepted and normalised to the object it was issued for.
\<close>

section \<open>Percent encoding round-trips\<close>

lemma hex_val_upper_hex [simp]: "n < 16 \<Longrightarrow> hex_val (upper_hex n) = Some n"
proof -
  assume "n < 16"
  then have "n \<in> set [0..<16]" by simp
  moreover have "list_all (\<lambda>n. hex_val (upper_hex n) = Some n) [0..<16]" by code_simp
  ultimately show ?thesis by (simp add: list_all_iff)
qed

lemma path_mode [simp]: "\<not> bad_raw encodePath c" "\<not> bad_escape encodePath h l"
  by (simp_all add: bad_raw_def bad_escape_def)

lemma percent_escaped [simp]: "shouldEscape encodePath CHR ''%''"
  by code_simp

lemma byte_of_nibbles [simp]: "char_of (of_char c div 16 * 16 + of_char c mod 16 :: nat) = c"
  by (simp add: div_mult_mod_eq)

lemma of_char_nibbles [simp]: "(of_char c :: nat) div 16 < 16" "(of_char c :: nat) mod 16 < 16"
proof -
  have "(of_char c :: nat) < 256" by (metis mod_less_divisor of_char_mod_256 zero_less_numeral)
  then show "(of_char c :: nat) div 16 < 16" "(of_char c :: nat) mod 16 < 16"
    using less_mult_imp_div_less [of "of_char c" 16 16] by simp_all
qed

lemma unescape_escape_append:
  "unescape encodePath (escape encodePath s @ t) = map_option ((@) s) (unescape encodePath t)"
proof (induction s)
  case (Cons c s)
  have "unescape encodePath (escape_char encodePath c @ r) = map_option (Cons c) (unescape encodePath r)" for r
  proof (cases "shouldEscape encodePath c")
    case False
    then have "c \<noteq> CHR ''%''" by auto
    with False show ?thesis by (simp add: escape_char_def)
  qed (simp add: escape_char_def)
  with Cons show ?case by (cases "unescape encodePath t") (simp_all add: escape_def)
qed (cases "unescape encodePath t"; simp add: escape_def)

lemma unescape_escape: "unescape encodePath (escape encodePath s) = Some s"
  using unescape_escape_append [of s "[]"] by simp

lemma unescape_plain_append:
  "CHR ''%'' \<notin> set s \<Longrightarrow> unescape encodePath (s @ t) = map_option ((@) s) (unescape encodePath t)"
  by (cases "unescape encodePath t"; induction s) auto

lemma unescape_EscapedPath:
  assumes "url_RawPath u \<noteq> [] \<Longrightarrow> unescape encodePath (url_RawPath u) = Some (url_Path u)"
  shows "unescape encodePath (EscapedPath u) = Some (url_Path u)"
proof -
  have "unescape encodePath ''*'' = Some ''*''" by code_simp
  then show ?thesis using assms by (auto simp: EscapedPath_def unescape_escape)
qed

lemma setPath_RawPath:
  "setPath u p = Some v \<Longrightarrow> url_RawPath v \<noteq> [] \<Longrightarrow> unescape encodePath (url_RawPath v) = Some (url_Path v)"
  by (auto simp: setPath_def)

lemma url_Parse_RawPath:
  assumes "url_Parse s = Some u" "url_RawPath u \<noteq> []"
  shows "unescape encodePath (url_RawPath u) = Some (url_Path u)"
proof -
  obtain p where p: "parse_url p = Some u"
    using assms(1) by (auto simp: url_Parse_def split: prod.splits option.splits if_splits)
  have "\<exists>v q. setPath v q = Some u"
    using p assms(2)
    by (auto simp: parse_url_def parse_rest_def Let_def zero_URL_def split: prod.splits option.splits if_splits)
  then show ?thesis using setPath_RawPath assms(2) by blast
qed

section \<open>Accepted references stay in their room\<close>

lemma expected_prefix_percent:
  "CHR ''%'' \<notin> set (TrimSpace bucket) \<Longrightarrow> CHR ''%'' \<notin> set (TrimSpace room) \<Longrightarrow>
     CHR ''%'' \<notin> set (expected_prefix bucket room)"
  by (simp add: expected_prefix_def)

lemma trusted_path_prefix:
  assumes parse: "url_Parse s = Some u" and pre: "HasPrefix (EscapedPath u) p \<or> HasPrefix (url_Path u) p"
    and plain: "CHR ''%'' \<notin> set p"
  shows "HasPrefix (url_Path u) p"
  using pre
proof
  assume "HasPrefix (EscapedPath u) p"
  then obtain r where "EscapedPath u = p @ r" by (auto simp: HasPrefix_iff)
  then have "map_option ((@) p) (unescape encodePath r) = Some (url_Path u)"
    using unescape_EscapedPath [OF url_Parse_RawPath [OF parse]] unescape_plain_append [OF plain] by simp
  then obtain z where "url_Path u = p @ z" by (cases "unescape encodePath r") (auto dest: sym)
  then show ?thesis by (auto simp: HasPrefix_iff)
qed

lemma extractTrusted_InrE:
  assumes "extractTrustedStorageObjectName rawURL bucket room = Inr obj"
  obtains u where "url_Parse (TrimSpace rawURL) = Some u" "url_Scheme u = ''https''"
    "EqualFold (url_Host u) ''storage.googleapis.com''"
    "HasPrefix (EscapedPath u) (expected_prefix bucket room) \<or> HasPrefix (url_Path u) (expected_prefix bucket room)"
    "obj = TrimPrefix (url_Path u) (''/'' @ TrimSpace bucket @ ''/'')"
  using assms unfolding extractTrustedStorageObjectName_def
  by (auto simp del: EqualFold.simps split: option.split_asm if_split_asm)

section \<open>Issued references are accepted\<close>

definition plain_char :: "char \<Rightarrow> bool" where
  "plain_char c \<longleftrightarrow> is_alnum c \<or> c \<in> set ''-_./''"

lemma is_alnum_code: "is_alnum c \<longleftrightarrow> (let n = of_char c :: nat in
    97 \<le> n \<and> n \<le> 122 \<or> 65 \<le> n \<and> n \<le> 90 \<or> 48 \<le> n \<and> n \<le> 57)"
  by (simp add: is_alnum_def is_letter_def is_digit_def in_range_def less_eq_char_def Let_def)

lemma plain_char_facts:
  assumes "plain_char c"
  shows "c \<noteq> CHR ''%''" "c \<noteq> CHR ''?''" "c \<noteq> CHR ''#''" "\<not> c < CHR '' ''" "c \<noteq> CHR 0x7F"
    "\<not> shouldEscape encodePath c" "visible c" "is_ascii c"
proof -
  have "is_alnum c \<or> c = CHR ''-'' \<or> c = CHR ''_'' \<or> c = CHR ''.'' \<or> c = CHR ''/''"
    using assms by (auto simp: plain_char_def)
  then show "\<not> shouldEscape encodePath c" by (auto simp: shouldEscape_def)
  have n: "45 \<le> (of_char c :: nat) \<and> of_char c \<le> (122 :: nat) \<and> of_char c \<noteq> (63 :: nat)"
    using assms by (auto simp: plain_char_def is_alnum_code Let_def)
  then show "c \<noteq> CHR ''%''" "c \<noteq> CHR ''?''" "c \<noteq> CHR ''#''" "\<not> c < CHR '' ''" "c \<noteq> CHR 0x7F"
    "visible c" "is_ascii c"
    by (auto simp: less_char_def visible_def is_ascii_def)
qed

definition storage_root :: string where
  "storage_root = ''https://storage.googleapis.com''"

lemma plain_path:
  assumes "list_all plain_char p"
  shows "unescape encodePath p = Some p" "escape encodePath p = p" "CHR ''?'' \<notin> set p" "CHR ''#'' \<notin> set p"
    "\<not> has_ctl p" "CHR ''%'' \<notin> set p"
proof -
  have c: "plain_char x" if "x \<in> set p" for x using assms that by (simp add: list_all_iff)
  show n: "CHR ''?'' \<notin> set p" "CHR ''#'' \<notin> set p" "CHR ''%'' \<notin> set p"
    using c plain_char_facts(1-3) by blast+
  show "\<not> has_ctl p"
    unfolding has_ctl_def list_ex_iff using c plain_char_facts(4,5) by blast
  show "unescape encodePath p = Some p" using unescape_plain_append [OF n(3), of "[]"] by simp
  show "escape encodePath p = p"
    using assms by (induction p) (simp_all add: escape_def escape_char_def plain_char_facts)
qed

lemma url_Parse_storage:
  assumes "list_all plain_char p"
  shows "url_Parse (storage_root @ ''/'' @ p) = Some \<lparr>url_Scheme = ''https'', url_Opaque = [],
    url_Host = ''storage.googleapis.com'', url_Path = ''/'' @ p, url_RawPath = []\<rparr>"
proof -
  let ?p = "''/'' @ p" and ?rest = "''//storage.googleapis.com'' @ ''/'' @ p"
  have pp: "list_all plain_char ?p" using assms by (simp add: plain_char_def)
  note path = plain_path [OF pp]
  have cut: "Cut (CHR ''#'') (storage_root @ ?p) = (storage_root @ ?p, [], False)"
    using path(4) by (intro Cut_none) (simp add: storage_root_def)
  have q: "Cut (CHR ''?'') ?rest = (?rest, [], False)"
    using path(3) by (intro Cut_none) simp
  have ctl: "\<not> has_ctl (storage_root @ ?p)"
    using path(5) by (auto simp: has_ctl_def storage_root_def)
  have sch: "getScheme (storage_root @ ?p) = Some (''https'', ?rest)"
    by (simp add: getScheme_def storage_root_def is_letter_def is_digit_def in_range_def)
  have auth: "parseAuthority ''storage.googleapis.com'' = Some ''storage.googleapis.com''"
    by code_simp
  have low: "ToLower ''https'' = ''https''" by code_simp
  have pre: "HasPrefix ?rest ''//''" "HasPrefix ?rest ''/''" by (simp_all add: HasPrefix_def)
  have tk: "takeWhile (\<lambda>c. c \<noteq> CHR ''/'') (drop 2 ?rest) = ''storage.googleapis.com''"
    "dropWhile (\<lambda>c. c \<noteq> CHR ''/'') (drop 2 ?rest) = ?p" by simp_all
  have "parse_rest ''https'' ?rest = Some \<lparr>url_Scheme = ''https'', url_Opaque = [],
      url_Host = ''storage.googleapis.com'', url_Path = ?p, url_RawPath = []\<rparr>"
    unfolding parse_rest_def Let_def tk auth using pre path(1,2)
    by (simp add: setPath_def zero_URL_def)
  then have "parse_url (storage_root @ ?p) = Some \<lparr>url_Scheme = ''https'', url_Opaque = [],
      url_Host = ''storage.googleapis.com'', url_Path = ?p, url_RawPath = []\<rparr>"
    unfolding parse_url_def sch using ctl low q by (simp add: storage_root_def)
  then show ?thesis unfolding url_Parse_def cut by simp
qed

lemma safe_plain: "safe_char c \<Longrightarrow> plain_char c"
  by (auto simp: safe_char_def plain_char_def)

lemma replace_unsafe_safe: "list_all safe_char (replace_unsafe s)"
  by (induction s rule: replace_unsafe.induct) (auto simp: safe_char_def)

lemma trim_hyphens_subset: "set (trim_hyphens s) \<subseteq> set s"
  by (auto simp: trim_hyphens_def dest!: set_dropWhileD)

lemma sanitize_safe: "list_all safe_char (sanitizePathSegment v)"
proof -
  have "list_all safe_char ''unknown''" by code_simp
  moreover have "list_all safe_char (trim_hyphens (replace_unsafe (TrimSpace v)))"
    using replace_unsafe_safe [of "TrimSpace v"] trim_hyphens_subset by (fastforce simp: list_all_iff)
  ultimately show ?thesis by (simp add: sanitizePathSegment_def Let_def)
qed

lemma replace_unsafe_id: "list_all safe_char s \<Longrightarrow> replace_unsafe s = s"
  by (induction s) auto

lemma sanitize_id:
  assumes "list_all safe_char s" "s \<noteq> []" "hd s \<noteq> CHR ''-''" "last s \<noteq> CHR ''-''"
  shows "sanitizePathSegment s = s" and "TrimSpace s = s"
proof -
  have "safe_char (hd s)" "safe_char (last s)" using assms(1,2) by (simp_all add: list_all_iff)
  then have "visible (hd s)" "visible (last s)" using plain_char_facts(7) safe_plain by blast+
  then show t: "TrimSpace s = s" by (intro TrimSpace_visible) simp
  have "dropWhile ((=) CHR ''-'') s = s" using assms(2,3) by (cases s) auto
  moreover have "dropWhile ((=) CHR ''-'') (rev s) = rev s"
    using assms(2,4) by (cases s rule: rev_cases) auto
  ultimately have "trim_hyphens s = s" by (simp add: trim_hyphens_def)
  then show "sanitizePathSegment s = s"
    using assms(2) t replace_unsafe_id [OF assms(1)] by (simp add: sanitizePathSegment_def)
qed

lemma ext_rev_takeWhile: "ext_rev (takeWhile ((\<noteq>) CHR ''/'') r) acc = ext_rev r acc"
  by (induction r arbitrary: acc) auto

lemma Ext_Base:
  assumes "Ext p \<noteq> []"
  shows "Ext (Base p) = Ext p"
proof -
  obtain c r where r: "rev p = c # r" and c: "c \<noteq> CHR ''/''"
    using assms by (cases "rev p") (auto simp: Ext_def split: if_splits)
  have "p \<noteq> []" using r by auto
  moreover have "dropWhile ((=) CHR ''/'') (rev p) = rev p" using c by (simp add: r)
  ultimately have "Base p = rev (takeWhile ((\<noteq>) CHR ''/'') (rev p))"
    using r c by (simp add: Base_def)
  then show ?thesis by (simp add: Ext_def ext_rev_takeWhile)
qed

lemma allowed_extension:
  assumes "isAllowedAttachmentExtension fileName"
  shows "ToLower (Ext (Base (TrimSpace fileName))) \<in> set attachment_extensions"
proof (cases "Ext (TrimSpace fileName) = []")
  case True
  then show ?thesis using assms
    by (simp add: isAllowedAttachmentExtension_def attachment_extensions_def ToLower_def)
qed (use assms Ext_Base in \<open>simp add: isAllowedAttachmentExtension_def\<close>)

lemma extension_plain:
  "e \<in> set attachment_extensions \<Longrightarrow> e \<noteq> [] \<and> list_all plain_char e"
proof -
  have "list_all (\<lambda>e. e \<noteq> [] \<and> list_all plain_char e) attachment_extensions" by code_simp
  then show "e \<in> set attachment_extensions \<Longrightarrow> e \<noteq> [] \<and> list_all plain_char e"
    unfolding list_all_iff by blast
qed

text \<open>The object name the signer builds for an allowed file in a room.\<close>

lemma uuid_plain: "uuid_char c \<Longrightarrow> safe_char c"
proof -
  have "list_all safe_char ''0123456789abcdef-''" by code_simp
  then show "uuid_char c \<Longrightarrow> safe_char c" by (simp only: uuid_char_def list_all_iff)
qed

lemma buildObjectName_shape:
  assumes "isAllowedAttachmentExtension fileName" "buildObjectName room fileName g = (obj, g')"
  obtains rest where "obj = ''chat-attachments/'' @ sanitizePathSegment room @ ''/'' @ rest"
    "list_all plain_char obj"
proof -
  let ?e = "ToLower (Ext (Base (TrimSpace fileName)))"
  note e = extension_plain [OF allowed_extension [OF assms(1)]]
  have obj: "obj = ''chat-attachments/'' @ sanitizePathSegment room @ ''/'' @ fst (id_New g) @ ?e"
    using assms(2) e by (auto simp: buildObjectName_def Let_def split: prod.splits)
  have "list_all plain_char ''chat-attachments/''" by code_simp
  moreover have "list_all plain_char (sanitizePathSegment room)"
    using sanitize_safe [of room] safe_plain by (auto simp: list_all_iff)
  moreover have "list_all plain_char (fst (id_New g))"
    using id_New_chars uuid_plain safe_plain by (fastforce simp: list_all_iff)
  ultimately have "list_all plain_char obj" using e by (simp add: obj plain_char_def)
  with that obj show thesis by blast
qed

lemma issued_url_accepted:
  assumes bucket: "list_all plain_char bucket" and obj: "list_all plain_char obj"
    and pre: "obj = ''chat-attachments/'' @ TrimSpace room @ ''/'' @ rest"
  shows "extractTrustedStorageObjectName (storage_root @ ''/'' @ bucket @ ''/'' @ obj) bucket room = Inr obj"
proof -
  let ?p = "bucket @ ''/'' @ obj"
  have p: "list_all plain_char ?p" using bucket obj by (simp add: plain_char_def)
  have "obj \<noteq> []" using pre by simp
  then have "visible (last (storage_root @ ''/'' @ ?p))"
    using obj plain_char_facts(7) by (simp add: list_all_iff)
  moreover have "visible (hd (storage_root @ ''/'' @ ?p))" by (simp add: storage_root_def visible_def)
  ultimately have t: "TrimSpace (storage_root @ ''/'' @ ?p) = storage_root @ ''/'' @ ?p"
    by (intro TrimSpace_visible) blast
  have b: "TrimSpace bucket = bucket"
    using bucket plain_char_facts(7) by (intro TrimSpace_visible) (auto simp: list_all_iff)
  have pre': "HasPrefix (''/'' @ ?p) (expected_prefix bucket room)"
    by (auto simp: HasPrefix_iff expected_prefix_def b pre)
  have f: "EqualFold ''storage.googleapis.com'' ''storage.googleapis.com''" by code_simp
  have "TrimPrefix (''/'' @ ?p) (''/'' @ bucket @ ''/'') = obj"
    using TrimPrefix_append [of "''/'' @ bucket @ ''/''" obj] by simp
  with pre' f show ?thesis
    unfolding extractTrustedStorageObjectName_def t url_Parse_storage [OF p] b by simp
qed

lemma clone_map_append: "foldl (\<lambda>out (k, v). AList.update k v out) acc (m @ [(k, v)]) =
    AList.update k v (foldl (\<lambda>out (k, v). AList.update k v out) acc m)"
  by simp

lemma alist_update_new: "k \<notin> fst ` set m \<Longrightarrow> AList.update k v m = m @ [(k, v)]"
  by (induction m) auto

text \<open>Copying a Go map entry by entry gives the map.\<close>

lemma clone_map_id: "wf_map m \<Longrightarrow> clone_map m = m"
proof (induction m rule: rev_induct)
  case (snoc e m)
  then have "clone_map m = m" "fst e \<notin> fst ` set m" by (auto simp: wf_map_def)
  then show ?case
    by (cases e) (simp add: clone_map_def alist_update_new)
qed (simp add: clone_map_def)

lemma extract_object_name [simp]:
  "extractStringMetadata (Some (AList.update ''object_name'' (AString x) m)) ''object_name'' = TrimSpace x"
  by (simp add: extractStringMetadata_def)

text \<open>The object an accepted URL is reduced to lies below the room's prefix.\<close>

lemma extractTrusted_room:
  assumes "extractTrustedStorageObjectName rawURL bucket room = Inr obj"
    and "CHR ''%'' \<notin> set (TrimSpace bucket)" and "CHR ''%'' \<notin> set (TrimSpace room)"
  shows "\<exists>u rest. url_Parse (TrimSpace rawURL) = Some u \<and> url_Scheme u = ''https''
    \<and> EqualFold (url_Host u) ''storage.googleapis.com''
    \<and> url_Path u = ''/'' @ TrimSpace bucket @ ''/'' @ obj
    \<and> obj = ''chat-attachments/'' @ TrimSpace room @ ''/'' @ rest"
proof -
  from extractTrusted_InrE [OF assms(1)] obtain u where u: "url_Parse (TrimSpace rawURL) = Some u"
    "url_Scheme u = ''https''" "EqualFold (url_Host u) ''storage.googleapis.com''"
    "HasPrefix (EscapedPath u) (expected_prefix bucket room) \<or> HasPrefix (url_Path u) (expected_prefix bucket room)"
    and obj: "obj = TrimPrefix (url_Path u) (''/'' @ TrimSpace bucket @ ''/'')" .
  from trusted_path_prefix [OF u(1,4) expected_prefix_percent [OF assms(2,3)]] obtain r where
    p: "url_Path u = (''/'' @ TrimSpace bucket @ ''/'') @ (''chat-attachments/'' @ TrimSpace room @ ''/'' @ r)"
    by (auto simp: HasPrefix_iff expected_prefix_def)
  then have "obj = ''chat-attachments/'' @ TrimSpace room @ ''/'' @ r" unfolding obj p TrimPrefix_append ..
  with u(1-3) p show ?thesis by (simp del: EqualFold.simps)
qed

section \<open>Properties\<close>

text \<open>
  C25. A storage URL that the service accepts for a room is an https URL on the storage host, and the
  object it is reduced to lies below \<^verbatim>\<open>chat-attachments/<room>/\<close>, whatever percent-encoding the URL
  uses; bucket and room identifiers contain no percent sign.
\<close>

theorem trusted_reference_in_room:
  assumes "extractTrustedStorageObjectName rawURL bucket room = Inr obj"
    and "CHR ''%'' \<notin> set (TrimSpace bucket)" and "CHR ''%'' \<notin> set (TrimSpace room)"
  shows "\<exists>u rest. url_Parse (TrimSpace rawURL) = Some u \<and> url_Scheme u = ''https''
    \<and> EqualFold (url_Host u) ''storage.googleapis.com''
    \<and> url_Path u = ''/'' @ TrimSpace bucket @ ''/'' @ obj
    \<and> obj = ''chat-attachments/'' @ TrimSpace room @ ''/'' @ rest"
  by (rule extractTrusted_room [OF assms])

text \<open>An accepted URL whose path uses percent-encoding.\<close>

theorem trusted_reference_in_room_witness:
  "\<exists>u rest. url_Parse (TrimSpace ''https://storage.googleapis.com/b/chat-attachments%2Fr/a%20b.png'') = Some u
    \<and> url_Scheme u = ''https'' \<and> EqualFold (url_Host u) ''storage.googleapis.com''
    \<and> url_Path u = ''/'' @ TrimSpace ''b'' @ ''/'' @ ''chat-attachments/r/a b.png''
    \<and> ''chat-attachments/r/a b.png'' = ''chat-attachments/'' @ TrimSpace ''r'' @ ''/'' @ rest"
proof -
  let ?u = "\<lparr>url_Scheme = ''https'', url_Opaque = [], url_Host = ''storage.googleapis.com'',
    url_Path = ''/b/chat-attachments/r/a b.png'', url_RawPath = ''/b/chat-attachments%2Fr/a%20b.png''\<rparr>"
  have t: "TrimSpace ''https://storage.googleapis.com/b/chat-attachments%2Fr/a%20b.png''
      = ''https://storage.googleapis.com/b/chat-attachments%2Fr/a%20b.png''"
    by (simp add: TrimSpace_visible visible_def)
  have p: "url_Parse ''https://storage.googleapis.com/b/chat-attachments%2Fr/a%20b.png'' = Some ?u"
    by code_simp
  have "extractTrustedStorageObjectName ''https://storage.googleapis.com/b/chat-attachments%2Fr/a%20b.png'' ''b'' ''r''
      = Inr ''chat-attachments/r/a b.png''"
    unfolding extractTrustedStorageObjectName_def t p expected_prefix_def
    by (simp add: HasPrefix_def TrimPrefix_def TrimSpace_visible visible_def is_ascii_def)
  then show ?thesis
    by (rule trusted_reference_in_room) (simp_all add: TrimSpace_visible visible_def)
qed

text \<open>
  C26. The upload URL issued for an allowed file in a room comes with a file URL that the service
  accepts for that room; an image message with this URL is stored under exactly the object name the
  upload was signed for, and that is the object the read signer is asked for on delivery.
\<close>

theorem issued_reference_roundtrip:
  assumes "list_all plain_char (sg_bucket s)" and "cs_trustedAttachmentBucket svc = sg_bucket s"
    and "sanitizePathSegment room = TrimSpace room"
    and "validateAttachmentUploadRequest userID fileName contentType = Inr ()"
    and "gcs_CreateAttachmentUploadURL s room userID fileName contentType g = (Inr up, g')"
  shows "\<exists>md'. normalizeAttachmentReferences svc room MessageTypeImage (au_FileURL up) md = Inr (au_ObjectName up, Some md')
    \<and> storedAttachmentObjectName (Some md') (au_ObjectName up) = au_ObjectName up"
proof -
  have ext: "isAllowedAttachmentExtension fileName"
    using assms(4) by (simp add: validateAttachmentUploadRequest_def split: if_splits)
  obtain g1 g2 where b: "buildObjectName room fileName g1 = (au_ObjectName up, g2)"
    and url: "au_FileURL up = storage_root @ ''/'' @ sg_bucket s @ ''/'' @ au_ObjectName up"
    using assms(5)
    by (auto simp: gcs_CreateAttachmentUploadURL_def storage_root_def Let_def split: prod.splits sum.splits)
  from buildObjectName_shape [OF ext b] obtain rest where
    o: "au_ObjectName up = ''chat-attachments/'' @ TrimSpace room @ ''/'' @ rest" and pl: "list_all plain_char (au_ObjectName up)"
    by (metis assms(3))
  have "au_ObjectName up \<noteq> []" using o by simp
  then have t: "TrimSpace (au_ObjectName up) = au_ObjectName up"
    using pl plain_char_facts(7) by (intro TrimSpace_visible) (simp add: list_all_iff)
  have "extractTrustedStorageObjectName (au_FileURL up) (sg_bucket s) room = Inr (au_ObjectName up)"
    unfolding url by (rule issued_url_accepted [OF assms(1) pl o])
  with t o show ?thesis
    by (simp add: normalizeAttachmentReferences_def assms(2) storedAttachmentObjectName_def Let_def)
qed

definition sample_signer :: Signer where
  "sample_signer = \<lparr>sg_bucket = ''bucket'', sg_googleAccessID = [],
     sg_SignedURL = (\<lambda>obj opts. Inr (''https://signed/'' @ obj)), sg_readExpiry = defaultReadExpiry\<rparr>"

theorem issued_reference_roundtrip_witness:
  "\<exists>up g' md'. gcs_CreateAttachmentUploadURL sample_signer ''room-1'' ''u'' ''a.png'' ''image/png'' sample_env = (Inr up, g')
    \<and> normalizeAttachmentReferences (service_New memory_repo [WithTrustedAttachmentBucket ''bucket''])
         ''room-1'' MessageTypeImage (au_FileURL up) None = Inr (au_ObjectName up, Some md')
    \<and> storedAttachmentObjectName (Some md') (au_ObjectName up) = au_ObjectName up"
proof -
  obtain x g' where x: "gcs_CreateAttachmentUploadURL sample_signer ''room-1'' ''u'' ''a.png'' ''image/png'' sample_env
      = (x, g')" by fastforce
  then obtain up where up: "gcs_CreateAttachmentUploadURL sample_signer ''room-1'' ''u'' ''a.png'' ''image/png'' sample_env
      = (Inr up, g')"
    by (auto simp: gcs_CreateAttachmentUploadURL_def sample_signer_def Let_def split: prod.splits)
  have b: "list_all plain_char (sg_bucket sample_signer)" unfolding sample_signer_def by code_simp
  have svc: "cs_trustedAttachmentBucket (service_New memory_repo [WithTrustedAttachmentBucket ''bucket'']) = sg_bucket sample_signer"
    by (simp add: service_New_def WithTrustedAttachmentBucket_def sample_signer_def TrimSpace_visible visible_def)
  have r: "sanitizePathSegment ''room-1'' = TrimSpace ''room-1''"
    using sanitize_id [of "''room-1''"] by (simp add: safe_char_def is_alnum_code)
  have v: "validateAttachmentUploadRequest ''u'' ''a.png'' ''image/png'' = Inr ()"
    by (simp add: validateAttachmentUploadRequest_def isAllowedAttachmentContentType_def attachment_extensions_def
        isAllowedAttachmentExtension_def TrimSpace_visible visible_def Ext_def ToLower_def is_ascii_def ascii_lower_def is_upper_def)
  from issued_reference_roundtrip [OF b svc r v up, of None] up show ?thesis by blast
qed

end
