(* ===== verification/StoredReferences.thy ===== *)
theory StoredReferences
  imports MessageReads AttachmentSafety
begin

text \<open>
  What a stored message looks like once it has passed the checks of \<^verbatim>\<open>SendMessage\<close>: text and system
  messages have content; the object an image or file message is read from lies below the prefix of
  its own room.
\<close>

definition below_room :: "string \<Rightarrow> string \<Rightarrow> bool" where
  "below_room room obj \<longleftrightarrow> HasPrefix obj (''chat-attachments/'' @ TrimSpace room @ ''/'')"

text \<open>The object the read signer is asked for when the message is delivered.\<close>

definition delivered_object :: "ChatMessage \<Rightarrow> string" where
  "delivered_object m = storedAttachmentObjectName (mg_Metadata m)
     (if mg_MessageType m = MessageTypeImage then mg_ImageURL m else mg_FileURL m)"

definition admitted :: "string \<Rightarrow> ChatMessage \<Rightarrow> bool" where
  "admitted bucket m = (case mg_MessageType m of
     MessageTypeText \<Rightarrow> TrimSpace (mg_Content m) \<noteq> []
   | MessageTypeSystem \<Rightarrow> TrimSpace (mg_Content m) \<noteq> []
   | MessageTypeOther _ \<Rightarrow> False
   | _ \<Rightarrow> CHR ''%'' \<notin> set (TrimSpace bucket) \<longrightarrow> CHR ''%'' \<notin> set (TrimSpace (mg_RoomID m)) \<longrightarrow>
         below_room (mg_RoomID m) (delivered_object m))"

lemma below_room_TrimSpace:
  assumes "below_room room obj"
  shows "below_room room (TrimSpace obj)" "TrimSpace obj \<noteq> []"
proof -
  from assms obtain r where "obj = (''chat-attachments/'' @ TrimSpace room) @ CHR ''/'' # r"
    by (auto simp: below_room_def HasPrefix_iff)
  with TrimSpace_keeps [of "''chat-attachments/'' @ TrimSpace room" "CHR ''/''" r]
  obtain r' where "TrimSpace obj = (''chat-attachments/'' @ TrimSpace room) @ CHR ''/'' # r'"
    by (auto simp: visible_def)
  then show "below_room room (TrimSpace obj)" "TrimSpace obj \<noteq> []"
    by (auto simp: below_room_def HasPrefix_iff)
qed

lemma object_name_below:
  assumes "below_room room obj"
  shows "below_room room (storedAttachmentObjectName (Some (AList.update ''object_name'' (AString obj) md)) url)"
  using below_room_TrimSpace [OF assms] by (simp add: storedAttachmentObjectName_def Let_def)

lemma trusted_below:
  assumes "extractTrustedStorageObjectName rawURL bucket room = Inr obj"
    "CHR ''%'' \<notin> set (TrimSpace bucket)" "CHR ''%'' \<notin> set (TrimSpace room)"
  shows "below_room room obj"
  using extractTrusted_room [OF assms] by (auto simp: below_room_def HasPrefix_iff)

text \<open>The stored form of a message that may be sent is admitted.\<close>

lemma stored_form_admitted:
  assumes "may_send svc a rid u mt content img md"
  shows "admitted (cs_trustedAttachmentBucket svc) (saved_message a (stored_form svc w rid u mt content img md))"
proof -
  let ?b = "cs_trustedAttachmentBucket svc"
  have v: "validateMessagePayload mt content img md = Inr ()" "validateTrustedAttachmentURL svc rid mt img md = Inr ()"
    using assms by (auto simp: may_send_def)
  have sel: "mg_MessageType (saved_message a m) = mg_MessageType m" "mg_Content (saved_message a m) = mg_Content m"
    "delivered_object (saved_message a m) = delivered_object m" for m
    by (simp_all add: saved_message_def delivered_object_def)
  show ?thesis
  proof (cases "mt = MessageTypeImage \<or> mt = MessageTypeFile")
    case True
    from trusted_normalizes [OF v(2)] obtain img' md' where
      n: "normalizeAttachmentReferences svc rid mt img md = Inr (img', md')" by (metis surj_pair)
    with True obtain url obj m0 where o: "extractTrustedStorageObjectName url ?b rid = Inr obj"
      and md': "md' = Some (AList.update ''object_name'' (AString obj) m0)"
      by (auto simp: normalizeAttachmentReferences_def split: sum.splits)
    have "below_room rid (delivered_object (stored_form svc w rid u mt content img md))"
      if "CHR ''%'' \<notin> set (TrimSpace ?b)" "CHR ''%'' \<notin> set (TrimSpace rid)"
      unfolding delivered_object_def stored_form_def n md'
      by (simp add: new_message_def object_name_below [OF trusted_below [OF o that]])
    with True show ?thesis by (auto simp: admitted_def sel)
  next
    case False
    then show ?thesis using v(1)
      by (auto simp: admitted_def sel validateMessagePayload_def Let_def split: MessageType.splits if_splits)
  qed
qed

end
