(* ===== verification/ChatSystem.thy ===== *)
theory ChatSystem
  imports StoredReferences
begin

text \<open>
  The whole service as a transition system. A \<open>call\<close> is one request with its arguments, \<open>serve\<close> runs
  it; between requests the clock and the random source move on, and stream handlers subscribe to
  the hub, receive from it and leave it. Every step keeps the invariants of the rooms, messages,
  devices and channels, and moves the histories of rooms, members and messages only forward.
\<close>

section \<open>Requests\<close>

datatype call =
    CallCreateRoom string string
  | CallCreateBoardLinkedRoom string string string
  | CallGetOrCreateBoardChatRoom BoardChatRoomEntryInput
  | CallJoinRoom string string
  | CallLeaveRoom string string
  | CallRemoveMember string string string
  | CallDeactivateRoom string string
  | CallSendMessage string string MessageType string string metadata
  | CallDeleteMessage string string string
  | CallGetMessages string string int int
  | CallMarkAsRead string string int
  | CallMarkChatRoomRead string string
  | CallListMyRooms string int string
  | CallRegisterDeviceToken string string string DevicePlatform
  | CallUnregisterDeviceToken string string
  | CallCreateAttachmentUploadURL string string string string
  | CallCreateImageUploadURL string string string string

text \<open>The world after a request; the answer is dropped.\<close>

definition after :: "('s world, error, 'a) prog \<Rightarrow> 's world \<Rightarrow> 's world" where
  "after m w = snd (m w)"

fun serve :: "'s ChatService \<Rightarrow> call \<Rightarrow> 's world \<Rightarrow> 's world" where
  "serve svc (CallCreateRoom u t) = after (svc_CreateRoom svc u t)"
| "serve svc (CallCreateBoardLinkedRoom u b t) = after (svc_CreateBoardLinkedRoom svc u b t)"
| "serve svc (CallGetOrCreateBoardChatRoom inp) = after (svc_GetOrCreateBoardChatRoom svc inp)"
| "serve svc (CallJoinRoom rid u) = after (svc_JoinRoom svc rid u)"
| "serve svc (CallLeaveRoom rid u) = after (svc_LeaveRoom svc rid u)"
| "serve svc (CallRemoveMember rid u v) = after (svc_RemoveMember svc rid u v)"
| "serve svc (CallDeactivateRoom rid u) = after (svc_DeactivateRoom svc rid u)"
| "serve svc (CallSendMessage rid u mt c img md) = after (svc_SendMessage svc rid u mt c img md)"
| "serve svc (CallDeleteMessage rid i u) = after (svc_DeleteMessage svc rid i u)"
| "serve svc (CallGetMessages rid u b n) = after (svc_GetMessages svc rid u b n)"
| "serve svc (CallMarkAsRead rid u n) = after (svc_MarkAsRead svc rid u n)"
| "serve svc (CallMarkChatRoomRead rid u) = after (svc_MarkChatRoomRead svc rid u)"
| "serve svc (CallListMyRooms u n tok) = after (svc_ListMyRooms svc u n tok)"
| "serve svc (CallRegisterDeviceToken u d t p) = after (svc_RegisterDeviceToken svc u d t p)"
| "serve svc (CallUnregisterDeviceToken u d) = after (svc_UnregisterDeviceToken svc u d)"
| "serve svc (CallCreateAttachmentUploadURL rid u f c) = after (svc_CreateAttachmentUploadURL svc rid u f c)"
| "serve svc (CallCreateImageUploadURL rid u f c) = after (svc_CreateImageUploadURL svc rid u f c)"

text \<open>
  The two assumptions about sending: the random identifier drawn for the message is not in use,
  and the room's counter is below the largest \<^verbatim>\<open>int64\<close>.
\<close>

definition admissible :: "('s \<Rightarrow> astore) \<Rightarrow> call \<Rightarrow> 's world \<Rightarrow> bool" where
  "admissible store c w = (case c of
     CallSendMessage rid _ _ _ _ _ \<Rightarrow> fresh_message_id (store (w_db w)) (next_message_id w)
       \<and> int64_range (a_maxSeq (store (w_db w)) rid + 1)
   | _ \<Rightarrow> True)"

text \<open>What the stream handlers do on the hub; messages are published by requests only.\<close>

inductive ps_client :: "MemoryRoomPubSub \<Rightarrow> MemoryRoomPubSub \<Rightarrow> bool" where
  subscribe: "ps_fresh g m rid \<Longrightarrow> ps_Subscribe g m rid b = (ch, m', g') \<Longrightarrow> ps_client m m'"
| unsubscribe: "ps_client m (ps_Close m ch)"
| receive: "ps_client m (snd (ps_recv m ch))"

inductive chat_step :: "'s ChatService \<Rightarrow> ('s \<Rightarrow> astore) \<Rightarrow> 's world \<Rightarrow> 's world \<Rightarrow> bool"
  for svc :: "'s ChatService" and store :: "'s \<Rightarrow> astore" where
  request: "admissible store c w \<Longrightarrow> chat_step svc store w (serve svc c w)"
| environment: "chat_step svc store w (w\<lparr>w_env := g\<rparr>)"
| stream: "ps_client (w_ps w) ps \<Longrightarrow> chat_step svc store w (w\<lparr>w_ps := ps\<rparr>)"

inductive_cases chat_stepE: "chat_step svc store w w'"

text \<open>The state the process starts in.\<close>

definition new_world :: "'s \<Rightarrow> genv \<Rightarrow> 's world" where
  "new_world s g = \<lparr>w_db = s, w_ps = NewMemoryRoomPubSub, w_push = [], w_env = g\<rparr>"

section \<open>Every step\<close>

lemma progress_message:
  assumes "\<And>m0. a_messages a (mg_RoomID m) (mg_ID m) = Some m0 \<Longrightarrow> message_later m0 m"
  shows "progress a (put_message m a)"
  using assms by (simp add: progress_def map_later_upd)

lemma progress_sent:
  assumes "fresh_message_id a (mg_ID m)" "a_rooms a (mg_RoomID m) = Some r" "room_later r r'"
    "a_maxSeq a (mg_RoomID m) \<le> mg_SequenceNo m"
  shows "progress a (sent_store a m r')"
  using assms by (auto simp: progress_def fresh_message_id_def intro!: map_later_upd)

lemma progress_devices:
  "a_rooms a' = a_rooms a \<Longrightarrow> a_members a' = a_members a \<Longrightarrow> a_messages a' = a_messages a \<Longrightarrow>
     a_maxSeq a' = a_maxSeq a \<Longrightarrow> progress a a'"
  by (simp add: progress_def)

lemma wp_after:
  assumes "wp m E Q w" "\<And>e w'. E e w' \<Longrightarrow> P w'" "\<And>x w'. Q x w' \<Longrightarrow> P w'"
  shows "P (after m w)"
  using assms by (auto simp: wp_def after_def split: prod.splits sum.splits)

text \<open>Messages that appear have passed the checks.\<close>

definition adds_admitted :: "string \<Rightarrow> astore \<Rightarrow> astore \<Rightarrow> bool" where
  "adds_admitted bucket a a' \<longleftrightarrow> (\<forall>rid i m. a_messages a' rid i = Some m \<longrightarrow>
     a_messages a rid i \<noteq> None \<or> admitted bucket m)"

lemma adds_admitted_same: "a_messages a' = a_messages a \<Longrightarrow> adds_admitted bucket a a'"
  by (simp add: adds_admitted_def)

lemma adds_admitted_refl [simp]: "adds_admitted bucket a a"
  by (rule adds_admitted_same) simp

text \<open>Every message is deleted or admitted: kept by steps that add admitted messages only.\<close>

definition all_admitted :: "string \<Rightarrow> astore \<Rightarrow> bool" where
  "all_admitted bucket a \<longleftrightarrow> (\<forall>rid i m. a_messages a rid i = Some m \<longrightarrow> mg_IsDeleted m \<or> admitted bucket m)"

lemma all_admitted_step:
  assumes "all_admitted bucket a" "progress a a'" "adds_admitted bucket a a'"
  shows "all_admitted bucket a'"
  unfolding all_admitted_def
proof (intro allI impI)
  fix rid i m'
  assume m': "a_messages a' rid i = Some m'"
  show "mg_IsDeleted m' \<or> admitted bucket m'"
  proof (cases "a_messages a rid i")
    case None
    then show ?thesis using assms(3) m' unfolding adds_admitted_def by blast
  next
    case (Some m)
    have "map_later message_later (a_messages a rid) (a_messages a' rid)"
      using assms(2) by (simp add: progress_def)
    from map_laterD [OF this Some] m' have "message_later m m'" by simp
    moreover have "mg_IsDeleted m \<or> admitted bucket m" using assms(1) Some unfolding all_admitted_def by blast
    ultimately show ?thesis by (auto simp: message_later_def)
  qed
qed

text \<open>
  A message is known when the store holds it, perhaps deleted since. What is queued on the channels
  of a room are known messages of that room.
\<close>

definition known :: "astore \<Rightarrow> string \<Rightarrow> ChatMessage \<Rightarrow> bool" where
  "known a rid m \<longleftrightarrow> (\<exists>cur. a_messages a rid (mg_ID m) = Some cur \<and> message_later m cur)"

definition carried :: "astore \<Rightarrow> MemoryRoomPubSub \<Rightarrow> bool" where
  "carried a ps \<longleftrightarrow> hub.carries (known a) ps"

lemma known_progress:
  assumes "known a rid m" "progress a a'"
  shows "known a' rid m"
proof -
  from assms(1) obtain c where c: "a_messages a rid (mg_ID m) = Some c" "message_later m c" by (auto simp: known_def)
  from progressD(3) [OF assms(2) c(1)] c(2) later_trans(3) show ?thesis unfolding known_def by blast
qed

lemma carried_progress: "carried a ps \<Longrightarrow> progress a a' \<Longrightarrow> carried a' ps"
  unfolding carried_def hub.carries_def using known_progress by blast

lemma carried_publish:
  "carried a ps \<Longrightarrow> ps_inv ps \<Longrightarrow> progress a a' \<Longrightarrow> known a' rid m \<Longrightarrow> ps_Publish ps rid m = Some ps' \<Longrightarrow> carried a' ps'"
  using hub.carries_publish carried_progress unfolding carried_def by blast

lemma carried_recv:
  assumes "ps_recv ps c = (Some (Some m), ps')" "carried a ps" "ps_inv ps"
  shows "\<exists>rid. ps_room ps c = Some rid \<and> known a rid m" "carried a ps'"
  using hub.carries_recv [OF assms(3) assms(2) [unfolded carried_def] assms(1)] unfolding carried_def by blast+

lemma ps_client_keeps:
  assumes "ps_client ps ps'" "ps_inv ps"
  shows "ps_inv ps'" "carried a ps \<Longrightarrow> carried a ps'" "ps_room ps \<subseteq>\<^sub>m ps_room ps'"
proof -
  have "ps_inv ps' \<and> (carried a ps \<longrightarrow> carried a ps') \<and> ps_room ps \<subseteq>\<^sub>m ps_room ps'"
    using assms(1)
  proof (cases rule: ps_client.cases)
    case (subscribe g rid b ch g')
    with hub.carries_subscribe [OF assms(2) _ subscribe] hub.subscribe [OF assms(2) subscribe] show ?thesis
      unfolding carried_def by (auto simp: map_le_def)
  next
    case (unsubscribe ch)
    then show ?thesis using hub.close [OF assms(2), of ch] hub.carries_close [OF assms(2), of _ ch]
      unfolding carried_def by auto
  next
    case (receive ch)
    obtain x h where r: "ps_recv ps ch = (x, h)" by fastforce
    then show ?thesis using receive hub.recv [OF assms(2) r] hub.carries_recv(1) [OF assms(2) _ r]
      unfolding carried_def by auto
  qed
  then show "ps_inv ps'" "carried a ps \<Longrightarrow> carried a ps'" "ps_room ps \<subseteq>\<^sub>m ps_room ps'" by blast+
qed

context chat_repository
begin

text \<open>What a step may do to a sound world.\<close>

definition advances :: "string \<Rightarrow> 's world \<Rightarrow> 's world \<Rightarrow> bool" where
  "advances bucket w w' \<longleftrightarrow> sound w' \<and> progress (abs (w_db w)) (abs (w_db w'))
     \<and> adds_admitted bucket (abs (w_db w)) (abs (w_db w'))
     \<and> (carried (abs (w_db w)) (w_ps w) \<longrightarrow> carried (abs (w_db w')) (w_ps w'))
     \<and> ps_room (w_ps w) \<subseteq>\<^sub>m ps_room (w_ps w')"

lemma advancesI:
  "sound w' \<Longrightarrow> progress (abs (w_db w)) (abs (w_db w')) \<Longrightarrow>
     adds_admitted bucket (abs (w_db w)) (abs (w_db w')) \<Longrightarrow> quiet w w' \<Longrightarrow> advances bucket w w'"
  using carried_progress by (auto simp: advances_def quiet_def)

lemma advances_untouched: "sound w \<Longrightarrow> untouched w w' \<Longrightarrow> advances b w w'"
  using untouched_sound [of w w'] by (intro advancesI) (simp_all add: untouched_def adds_admitted_same)

text \<open>A room operation: the rooms stay good and nothing else changes.\<close>

lemma advances_framed:
  assumes w: "sound w" and k: "keeps (framed w) m"
    and p: "wp m (\<lambda>e w'. untouched w w') (\<lambda>x w'. good w' \<and> progress (abs (w_db w)) (abs (w_db w'))) w"
  shows "advances b w (after m w)"
proof -
  have "framed w (after m w)" unfolding after_def using k framed_refl [OF soundD(2) [OF w]] by blast
  then have fr: "adds_admitted b (abs (w_db w)) (abs (w_db (after m w)))" "messages_inv (abs (w_db (after m w)))" 
      "tokens_inv (abs (w_db (after m w)))" "ps_inv (w_ps (after m w))" "quiet w (after m w)"
    using messages_inv_frame [OF soundD(4) [OF w]] soundD(5,6) [OF w]
    by (auto simp: framed_def tokens_inv_def quiet_def adds_admitted_same)
  have "good (after m w) \<and> progress (abs (w_db w)) (abs (w_db (after m w)))"
    by (rule wp_after [OF p]) (use untouched_good soundD(1) [OF w] in \<open>auto simp: untouched_def\<close>)
  with fr show ?thesis by (intro advancesI) (simp_all add: sound_def)
qed

lemma rooms_advance:
  assumes w: "sound w" and R: "cs_repo svc = R"
  shows "advances b w (after (svc_CreateRoom svc u t) w)"
    "advances b w (after (svc_CreateBoardLinkedRoom svc u bd t) w)"
    "advances b w (after (svc_GetOrCreateBoardChatRoom svc inp) w)"
    "advances b w (after (svc_JoinRoom svc rid u) w)"
    "advances b w (after (svc_LeaveRoom svc rid u) w)"
    "advances b w (after (svc_RemoveMember svc rid u v) w)"
    "advances b w (after (svc_DeactivateRoom svc rid u) w)"
proof -
  note g = soundD(1) [OF w] and inv = soundD(2) [OF w]
  have new: "progress (abs (w_db w)) (put_member m ((abs (w_db w))\<lparr>a_rooms := (a_rooms (abs (w_db w)))(i \<mapsto> r)\<rparr>))"
    if "a_rooms (abs (w_db w)) i = None" "mb_RoomID m = i" for m i r
    using that rooms_invD(2) [OF soundD(3) [OF w] that(1)] by (intro progress_new_room) simp_all
  show "advances b w (after (svc_CreateRoom svc u t) w)"
    by (rule advances_framed [OF w keeps_rooms(1) [OF R] wp_mono [OF wp_CreateRoom [OF g R]]]) (auto simp: new)
  show "advances b w (after (svc_CreateBoardLinkedRoom svc u bd t) w)"
    by (rule advances_framed [OF w keeps_rooms(2) [OF R] wp_mono [OF wp_CreateBoardLinkedRoom [OF g R]]])
       (auto simp: new split: if_splits)
  show "advances b w (after (svc_GetOrCreateBoardChatRoom svc inp) w)"
    by (rule advances_framed [OF w keeps_rooms(3) [OF R] wp_mono [OF wp_GetOrCreate [OF g R]]]) auto
  show "advances b w (after (svc_JoinRoom svc rid u) w)"
    by (rule advances_framed [OF w keeps_rooms(4) [OF R] wp_mono [OF wp_JoinRoom [OF g R]]]) auto
  show "advances b w (after (svc_LeaveRoom svc rid u) w)"
    by (rule advances_framed [OF w keeps_rooms(5) [OF R] wp_mono [OF wp_LeaveRoom [OF g R]]])
       (auto intro!: leave_effect_progress member_key [OF inv])
  show "advances b w (after (svc_RemoveMember svc rid u v) w)"
    by (rule advances_framed [OF w keeps_rooms(6) [OF R] wp_mono [OF wp_RemoveMember [OF g R]]])
       (use member_key [OF inv] in auto)
  show "advances b w (after (svc_DeactivateRoom svc rid u) w)"
    by (rule advances_framed [OF w keeps_rooms(7) [OF R] wp_mono [OF wp_DeactivateRoom [OF g R]]])
       (auto intro!: progress_room)
qed

lemma sent_advances:
  assumes w: "sound w" "sound w'" and can: "can_send w rid" and may: "may_send svc (abs (w_db w)) rid u mt c img md"
    and sent: "sent svc rid (saved_message (abs (w_db w)) (stored_form svc w rid u mt c img md)) w w'"
  shows "advances (cs_trustedAttachmentBucket svc) w w'"
proof -
  have pr: "progress (abs (w_db w)) (abs (w_db w'))"
    using sent can by (auto simp: sent_def can_send_def room_later_def room_open_def intro!: progress_sent)
  have "adds_admitted (cs_trustedAttachmentBucket svc) (abs (w_db w)) (abs (w_db w'))"
    using sent stored_form_admitted [OF may] by (auto simp: sent_def adds_admitted_def split: if_splits)
  moreover have "carried (abs (w_db w')) (w_ps w')" if "carried (abs (w_db w)) (w_ps w)"
    using sent by (intro carried_publish [OF that soundD(6) [OF w(1)] pr]) (auto simp: sent_def known_def)
  moreover have "ps_room (w_ps w') = ps_room (w_ps w)"
    using sent hub.publish [OF soundD(6) [OF w(1)], of rid "saved_message (abs (w_db w)) (stored_form svc w rid u mt c img md)"]
    by (auto simp: sent_def)
  ultimately show ?thesis using w(2) pr by (simp add: advances_def)
qed

lemma message_advance:
  assumes w: "sound w" and R: "cs_repo svc = R"
  shows "can_send w rid \<Longrightarrow> advances (cs_trustedAttachmentBucket svc) w (after (svc_SendMessage svc rid u mt c img md) w)"
    "advances b w (after (svc_DeleteMessage svc rid i u) w)"
    "advances b w (after (svc_MarkAsRead svc rid u n) w)"
    "advances b w (after (svc_MarkChatRoomRead svc rid u) w)"
proof -
  note inv = soundD(2) [OF w]
  have rd: "progress (abs (w_db w)) (put_member (read_up_to t k m) (abs (w_db w)))"
    if "a_members (abs (w_db w)) rid u = Some m" for t k m
    using that member_key [OF inv that]
    by (intro progress_member) (simp add: read_up_to_def member_later_def)
  have del: "progress (abs (w_db w)) (put_message (deleted t v m) (abs (w_db w)))"
    "adds_admitted b (abs (w_db w)) (put_message (deleted t v m) (abs (w_db w)))"
    if m: "a_messages (abs (w_db w)) rid i = Some m" for t v m
  proof -
    note k = message_key [OF inv m]
    show "progress (abs (w_db w)) (put_message (deleted t v m) (abs (w_db w)))"
      using m k by (intro progress_message) (simp add: deleted_def message_later_def)
    show "adds_admitted b (abs (w_db w)) (put_message (deleted t v m) (abs (w_db w)))"
      using m k by (auto simp: deleted_def adds_admitted_def split: if_splits)
  qed
  show "can_send w rid \<Longrightarrow> advances (cs_trustedAttachmentBucket svc) w (after (svc_SendMessage svc rid u mt c img md) w)"
    by (rule wp_after [OF wp_SendMessage [OF w R]])
       (auto intro: advances_untouched [OF w] sent_advances [OF w] split: if_splits)
  show "advances b w (after (svc_DeleteMessage svc rid i u) w)"
    by (rule wp_after [OF wp_DeleteMessage [OF w R]])
       (auto intro: advances_untouched [OF w] advancesI simp: del)
  show "advances b w (after (svc_MarkAsRead svc rid u n) w)"
    by (rule wp_after [OF wp_MarkAsRead [OF w R]]) (auto intro: advances_untouched [OF w] advancesI simp: rd adds_admitted_same)
  show "advances b w (after (svc_MarkChatRoomRead svc rid u) w)"
    by (rule wp_after [OF wp_MarkChatRoomRead [OF w R]]) (auto intro: advances_untouched [OF w] advancesI simp: rd adds_admitted_same)
qed

lemma other_advance:
  assumes w: "sound w" and R: "cs_repo svc = R"
  shows "advances b w (after (svc_GetMessages svc rid u k n) w)"
    "advances b w (after (svc_ListMyRooms svc u n tok) w)"
    "advances b w (after (svc_RegisterDeviceToken svc u d t p) w)"
    "advances b w (after (svc_UnregisterDeviceToken svc u d) w)"
    "advances b w (after (svc_CreateAttachmentUploadURL svc rid u f ct) w)"
    "advances b w (after (svc_CreateImageUploadURL svc rid u f ct) w)"
proof -
  have dev: "advances b w w'" if "sound w'" "quiet w w'" "abs (w_db w') = (abs (w_db w))\<lparr>a_devices := d\<rparr>" for w' d
    using that by (auto intro!: advancesI progress_devices adds_admitted_same)
  note un = advances_untouched [OF w]
  show "advances b w (after (svc_GetMessages svc rid u k n) w)"
    by (rule wp_after [OF wp_GetMessages [OF w R]]) (auto simp: un)
  show "advances b w (after (svc_ListMyRooms svc u n tok) w)"
    by (rule wp_after [OF wp_uploads(3) [OF w R]]) (auto simp: un)
  show "advances b w (after (svc_RegisterDeviceToken svc u d t p) w)"
    by (rule wp_after [OF wp_RegisterDeviceToken [OF w R]]) (auto intro: un dev)
  show "advances b w (after (svc_UnregisterDeviceToken svc u d) w)"
    by (rule wp_after [OF wp_UnregisterDeviceToken [OF w R]]) (auto intro: un dev)
  show "advances b w (after (svc_CreateAttachmentUploadURL svc rid u f ct) w)"
    by (rule wp_after [OF wp_uploads(1) [OF w R]]) (auto simp: un)
  show "advances b w (after (svc_CreateImageUploadURL svc rid u f ct) w)"
    by (rule wp_after [OF wp_uploads(2) [OF w R]]) (auto simp: un)
qed

lemma serve_advances:
  assumes "sound w" "cs_repo svc = R" "admissible abs c w"
  shows "advances (cs_trustedAttachmentBucket svc) w (serve svc c w)"
  using assms rooms_advance [OF assms(1,2)] message_advance [OF assms(1,2)] other_advance [OF assms(1,2)]
  by (cases c) (simp_all add: admissible_def can_send_def)

lemma step_advances:
  assumes "sound w" "cs_repo svc = R" "chat_step svc abs w w'"
  shows "advances (cs_trustedAttachmentBucket svc) w w'"
  using assms(3)
proof (cases rule: chat_step.cases)
  case (request c)
  then show ?thesis using serve_advances [OF assms(1,2)] by simp
next
  case (stream ps)
  then show ?thesis using assms(1) ps_client_keeps [OF stream(2)] by (simp add: advances_def sound_def good_def)
qed (use assms(1) in \<open>simp add: advances_def\<close>)

lemma steps_advance:
  assumes "sound w" "cs_repo svc = R" "(chat_step svc abs)\<^sup>*\<^sup>* w w'"
  shows "sound w' \<and> progress (abs (w_db w)) (abs (w_db w'))
    \<and> (all_admitted (cs_trustedAttachmentBucket svc) (abs (w_db w)) \<longrightarrow>
         all_admitted (cs_trustedAttachmentBucket svc) (abs (w_db w')))
    \<and> (carried (abs (w_db w)) (w_ps w) \<longrightarrow> carried (abs (w_db w')) (w_ps w'))"
  using assms(3)
proof (induction rule: rtranclp_induct)
  case base
  then show ?case using assms(1) by simp
next
  case (step y z)
  then have "advances (cs_trustedAttachmentBucket svc) y z" using step_advances [OF _ assms(2)] by blast
  with step.IH show ?case unfolding advances_def by (blast intro: progress_trans all_admitted_step)
qed

end

end
