(* ===== verification/Scenario.thy ===== *)
theory Scenario
  imports ChatSystem
begin

text \<open>
  Reachable states of the service on the in-memory store, and one of them in full: a room that
  \<open>ann\<close> created and \<open>bob\<close> joined, from which \<open>eve\<close> was removed, with one message and two devices,
  and a room linked to a board. The concrete statements of the development are evaluated in it.
\<close>

section \<open>Reachable states\<close>

definition reachable :: "Store ChatService \<Rightarrow> Store world \<Rightarrow> bool" where
  "reachable svc w \<longleftrightarrow> cs_repo svc = memory_repo
     \<and> (\<exists>g. (chat_step svc mem_abs)\<^sup>*\<^sup>* (new_world NewStore g) w)"

lemma new_world_sound: "mem.sound (new_world NewStore g)"
  unfolding mem.sound_def mem.good_def
  using mem_inv_NewStore ps_inv_New
  by (simp add: new_world_def) (simp add: NewStore_def rooms_inv_def room_ok_def
      boards_ok_def messages_inv_def numbered_def tokens_inv_def max_seq_def)

lemma reachable_sound: "reachable svc w \<Longrightarrow> mem.sound w"
  unfolding reachable_def using mem.steps_advance [OF new_world_sound] by blast

lemma reachable_admitted:
  assumes "reachable svc w"
  shows "all_admitted (cs_trustedAttachmentBucket svc) (mem_abs (w_db w))"
proof -
  from assms obtain g where g: "cs_repo svc = memory_repo" "(chat_step svc mem_abs)\<^sup>*\<^sup>* (new_world NewStore g) w"
    by (auto simp: reachable_def)
  have "all_admitted b (mem_abs (w_db (new_world NewStore g)))" for b
    by (simp add: all_admitted_def new_world_def NewStore_def)
  with mem.steps_advance [OF new_world_sound g] show ?thesis by blast
qed

lemma reachable_carried:
  assumes "reachable svc w"
  shows "carried (mem_abs (w_db w)) (w_ps w)"
proof -
  from assms obtain g where g: "cs_repo svc = memory_repo" "(chat_step svc mem_abs)\<^sup>*\<^sup>* (new_world NewStore g) w"
    by (auto simp: reachable_def)
  have "carried (mem_abs (w_db (new_world NewStore g))) (w_ps (new_world NewStore g))"
    by (simp add: carried_def hub.carries_def new_world_def NewMemoryRoomPubSub_def ps_queue_def)
  with mem.steps_advance [OF new_world_sound g] show ?thesis by blast
qed

lemma reachable_step: "reachable svc w \<Longrightarrow> chat_step svc mem_abs w w' \<Longrightarrow> reachable svc w'"
  unfolding reachable_def by (meson rtranclp.rtrancl_into_rtrancl)

lemma reachable_steps: "reachable svc w \<Longrightarrow> (chat_step svc mem_abs)\<^sup>*\<^sup>* w w' \<Longrightarrow> reachable svc w'"
  unfolding reachable_def by (meson rtranclp_trans)

lemma reachable_progress:
  "reachable svc w \<Longrightarrow> (chat_step svc mem_abs)\<^sup>*\<^sup>* w w' \<Longrightarrow> progress (mem_abs (w_db w)) (mem_abs (w_db w'))"
  using mem.steps_advance [OF reachable_sound] unfolding reachable_def by blast

section \<open>A concrete run\<close>

text \<open>Requests with the time and the randomness they see.\<close>

definition env_at :: "time \<Rightarrow> nat \<Rightarrow> genv" where
  "env_at t n = \<lparr>clock = \<lambda>k. t + int k, entropy = \<lambda>k. Some (\<lambda>i. of_nat (n + k)), ticks = 0, draws = 0\<rparr>"

definition uid :: "nat \<Rightarrow> string" where
  "uid n = uuid_string (uuid_bytes (\<lambda>i. of_nat n))"

definition run_at :: "Store ChatService \<Rightarrow> time \<Rightarrow> nat \<Rightarrow> call \<Rightarrow> Store world \<Rightarrow> Store world" where
  "run_at svc t n c w = serve svc c (w\<lparr>w_env := env_at t n\<rparr>)"

definition demo_service :: "Store ChatService" where
  "demo_service = service_New memory_repo [WithPushSender (\<lambda>m. None), WithTrustedAttachmentBucket ''bucket'']"

definition demo1 :: "Store world" where
  "demo1 = run_at demo_service 10 0 (CallCreateRoom ''ann'' ''team'') (new_world NewStore sample_env)"

lemma env_at_sel [simp]:
  "clock (env_at t n) k = t + int k" "ticks (env_at t n) = 0" "draws (env_at t n) = 0"
  "entropy (env_at t n) k = Some (\<lambda>i. of_nat (n + k))"
  by (simp_all add: env_at_def)

lemma id_New_env [simp]:
  "id_New (env_at t n\<lparr>ticks := a, draws := k\<rparr>) = (uid (n + k), env_at t n\<lparr>ticks := a, draws := Suc k\<rparr>)"
  "id_New (env_at t n\<lparr>ticks := a\<rparr>) = (uid n, env_at t n\<lparr>ticks := a, draws := 1\<rparr>)"
  by (simp_all add: id_New_def uid_def)

lemma time_Now_env [simp]: "time_Now (env_at t n) = (t, env_at t n\<lparr>ticks := 1\<rparr>)"
  "time_Now (env_at t n\<lparr>ticks := k\<rparr>) = (t + int k, env_at t n\<lparr>ticks := Suc k\<rparr>)"
  "time_Now (env_at t n\<lparr>ticks := k, draws := d\<rparr>) = (t + int k, env_at t n\<lparr>ticks := Suc k, draws := d\<rparr>)"
  by (simp_all add: time_Now_def)

lemma demo_service_sel [simp]:
  "cs_repo demo_service = memory_repo" "cs_attachmentReadSigner demo_service = None"
  "cs_attachmentUploadSigner demo_service = None" "cs_trustedAttachmentBucket demo_service = ''bucket''"
  "cs_pushSender demo_service = Some (\<lambda>m. None)"
  by (simp_all add: demo_service_def service_New_def WithPushSender_def WithTrustedAttachmentBucket_def
      TrimSpace_visible visible_def)

lemma tx_memory [simp]:
  assumes "cs_repo svc = memory_repo"
  shows "tx svc m = m"
proof
  fix w
  show "tx svc m w = m w"
    by (simp add: tx_def assms WithTx_memory mem_WithTx_def)
qed

lemma uid_distinct [simp]: "uid 0 \<noteq> uid 8" "uid 8 \<noteq> uid 0"
  by code_simp+

lemmas run_simps = run_at_def after_def prog_simps env_def db_def view_def Let_def inner_def update2_def
  TrimSpace_visible visible_def

definition team :: ChatRoom where
  "team = new_room (uid 0) RoomTypeGeneralGroup ''team'' [] ''ann'' 10"

definition ann :: ChatRoomMember where
  "ann = new_member (uid 1) (uid 0) ''ann'' MemberRoleOwner 10"

definition bob :: ChatRoomMember where
  "bob = new_member (uid 2) (uid 0) ''bob'' MemberRoleMember 20"

definition eve :: ChatRoomMember where
  "eve = new_member (uid 3) (uid 0) ''eve'' MemberRoleMember 30"

definition greeting :: ChatMessage where
  "greeting = new_message (uid 5) (uid 0) ''ann'' MessageTypeText ''hi'' [] None 50\<lparr>mg_SequenceNo := 1\<rparr>"

definition phone :: "string \<Rightarrow> string \<Rightarrow> time \<Rightarrow> DeviceToken" where
  "phone u t now = \<lparr>dt_UserID = u, dt_DeviceID = ''d'', dt_Token = t, dt_Platform = DevicePlatformIOS,
     dt_IsActive = True, dt_CreatedAt = now, dt_UpdatedAt = now, dt_LastSeenAt = now, dt_UnregisteredAt = None\<rparr>"

lemma demo_sel [simp]:
  "rm_ID team = uid 0" "rm_IsActive team" "rm_DeletedAt team = None" "rm_OwnerUserID team = ''ann''"
  "rm_RoomType team = RoomTypeGeneralGroup" 
  "mb_RoomID ann = uid 0" "mb_UserID ann = ''ann''" "mb_Status ann = MemberStatusActive" "mb_Role ann = MemberRoleOwner"
  "mb_JoinedAt ann = 10"
  "mb_RoomID bob = uid 0" "mb_UserID bob = ''bob''" "mb_Status bob = MemberStatusActive" "mb_Role bob = MemberRoleMember"
  "mb_JoinedAt bob = 20"
  "mb_RoomID eve = uid 0" "mb_UserID eve = ''eve''" "mb_Status eve = MemberStatusActive"
  by (simp_all add: team_def new_room_def ann_def bob_def eve_def)

definition demo2 :: "Store world" where
  "demo2 = run_at demo_service 20 2 (CallJoinRoom (uid 0) ''bob'') demo1"

definition demo3 :: "Store world" where
  "demo3 = run_at demo_service 30 3 (CallJoinRoom (uid 0) ''eve'') demo2"

definition demo4 :: "Store world" where
  "demo4 = run_at demo_service 40 4 (CallRemoveMember (uid 0) ''ann'' ''eve'') demo3"

definition demo5 :: "Store world" where
  "demo5 = run_at demo_service 50 5 (CallSendMessage (uid 0) ''ann'' MessageTypeText ''hi'' [] None) demo4"

definition demo6 :: "Store world" where
  "demo6 = run_at demo_service 60 6 (CallRegisterDeviceToken ''bob'' ''d'' ''tb'' DevicePlatformIOS) demo5"

definition demo7 :: "Store world" where
  "demo7 = run_at demo_service 70 7 (CallRegisterDeviceToken ''ann'' ''d'' ''ta'' DevicePlatformIOS) demo6"

definition demo :: "Store world" where
  "demo = run_at demo_service 80 8 (CallGetOrCreateBoardChatRoom
     \<lparr>in_UserID = ''cat'', in_BoardID = ''b1'', in_BoardOwnerUserID = ''ann'', in_Title = ''board''\<rparr>) demo7"

lemma demo1: "demo1 = \<lparr>w_db = \<lparr>st_rooms = [(uid 0, team)], st_members = [(uid 0, [(''ann'', ann)])],
    st_messages = [], st_devices = [], st_maxSeq = []\<rparr>, w_ps = NewMemoryRoomPubSub, w_push = [],
    w_env = env_at 10 0\<lparr>ticks := 1, draws := 2\<rparr>\<rparr>"
  unfolding demo1_def
  by (simp add: run_simps new_world_def svc_CreateRoom_def NewStore_def mem_CreateRoom_def mem_CreateMember_def
      team_def ann_def)

lemma demo2: "demo2 = \<lparr>w_db = \<lparr>st_rooms = [(uid 0, team)], st_members = [(uid 0, [(''ann'', ann), (''bob'', bob)])],
    st_messages = [], st_devices = [], st_maxSeq = []\<rparr>, w_ps = NewMemoryRoomPubSub, w_push = [],
    w_env = env_at 20 2\<lparr>ticks := 1, draws := 1\<rparr>\<rparr>"
  unfolding demo2_def demo1
  by (simp add: run_simps svc_JoinRoom_def mem_GetRoom_def mem_GetMember_def mem_CreateMember_def bob_def [symmetric])

lemma demo3: "demo3 = \<lparr>w_db = \<lparr>st_rooms = [(uid 0, team)],
    st_members = [(uid 0, [(''ann'', ann), (''bob'', bob), (''eve'', eve)])],
    st_messages = [], st_devices = [], st_maxSeq = []\<rparr>, w_ps = NewMemoryRoomPubSub, w_push = [],
    w_env = env_at 30 3\<lparr>ticks := 1, draws := 1\<rparr>\<rparr>"
  unfolding demo3_def demo2
  by (simp add: run_simps svc_JoinRoom_def mem_GetRoom_def mem_GetMember_def mem_CreateMember_def eve_def [symmetric])

lemma demo4: "demo4 = \<lparr>w_db = \<lparr>st_rooms = [(uid 0, team)],
    st_members = [(uid 0, [(''ann'', ann), (''bob'', bob), (''eve'', expelled 40 ''ann'' eve)])],
    st_messages = [], st_devices = [], st_maxSeq = []\<rparr>, w_ps = NewMemoryRoomPubSub, w_push = [],
    w_env = env_at 40 4\<lparr>ticks := 1\<rparr>\<rparr>"
  unfolding demo4_def demo3
  by (simp add: run_simps svc_RemoveMember_def mem_GetRoom_def mem_GetMember_def mem_UpdateMember_def)

lemma demo5: "demo5 = \<lparr>w_db = \<lparr>st_rooms = [(uid 0, team\<lparr>rm_UpdatedAt := 50\<rparr>)],
    st_members = [(uid 0, [(''ann'', ann), (''bob'', bob), (''eve'', expelled 40 ''ann'' eve)])],
    st_messages = [(uid 0, [(uid 5, greeting)])], st_devices = [], st_maxSeq = [(uid 0, 1)]\<rparr>,
    w_ps = NewMemoryRoomPubSub, w_push = [], w_env = env_at 50 5\<lparr>ticks := 1, draws := 1\<rparr>\<rparr>"
proof -
  have n: "normalizeAttachmentReferences svc rid MessageTypeText [] None = Inr ([], None)"
    "validateTrustedAttachmentURL svc rid MessageTypeText [] None = Inr ()" for svc :: "Store ChatService" and rid
    by (simp_all add: normalizeAttachmentReferences_def cloneMetadata_def validateTrustedAttachmentURL_def)
  have v: "validateMessagePayload MessageTypeText ''hi'' [] None = Inr ()"
    by (simp add: validateMessagePayload_def TrimSpace_visible visible_def Let_def)
  have p: "ps_Publish NewMemoryRoomPubSub rid msg = Some NewMemoryRoomPubSub" for rid msg
    by (simp add: ps_Publish_def NewMemoryRoomPubSub_def)
  have h: "hydrateMessageForDelivery demo_service m = ok m" for m
    by (simp add: hydrateMessageForDelivery_def)
  show ?thesis
    unfolding demo5_def demo4
    by (simp add: run_simps svc_SendMessage_def validateActiveMembership_def n v mem_GetRoom_def mem_GetMember_def
        mem_CreateMessageWithNextSequence_def mem_UpdateRoom_def publish_def p dispatchChatMessagePush_def
        on_env_def h greeting_def max_seq_def int64_range_def
        mem_ListActiveMembersByJoinOrder_def joined_before_def vals_def mem_ListActiveDeviceTokensByUserIDs_def)
qed

lemma demo6: "demo6 = \<lparr>w_db = \<lparr>st_rooms = [(uid 0, team\<lparr>rm_UpdatedAt := 50\<rparr>)],
    st_members = [(uid 0, [(''ann'', ann), (''bob'', bob), (''eve'', expelled 40 ''ann'' eve)])],
    st_messages = [(uid 0, [(uid 5, greeting)])],
    st_devices = [(''bob'', [(''d'', phone ''bob'' ''tb'' 60)])], st_maxSeq = [(uid 0, 1)]\<rparr>,
    w_ps = NewMemoryRoomPubSub, w_push = [], w_env = env_at 60 6\<lparr>ticks := 1\<rparr>\<rparr>"
  unfolding demo6_def demo5
  by (simp add: run_simps svc_RegisterDeviceToken_def mem_UpsertDeviceToken_def phone_def isValidDevicePlatform_def)

lemma demo7: "demo7 = \<lparr>w_db = \<lparr>st_rooms = [(uid 0, team\<lparr>rm_UpdatedAt := 50\<rparr>)],
    st_members = [(uid 0, [(''ann'', ann), (''bob'', bob), (''eve'', expelled 40 ''ann'' eve)])],
    st_messages = [(uid 0, [(uid 5, greeting)])],
    st_devices = [(''bob'', [(''d'', phone ''bob'' ''tb'' 60)]), (''ann'', [(''d'', phone ''ann'' ''ta'' 70)])],
    st_maxSeq = [(uid 0, 1)]\<rparr>, w_ps = NewMemoryRoomPubSub, w_push = [], w_env = env_at 70 7\<lparr>ticks := 1\<rparr>\<rparr>"
  unfolding demo7_def demo6
  by (simp add: run_simps svc_RegisterDeviceToken_def mem_UpsertDeviceToken_def phone_def isValidDevicePlatform_def
      mem_release_def)

definition board :: ChatRoom where
  "board = new_room (uid 8) RoomTypeBoardLinkedGroup ''board'' ''b1'' ''cat'' 81"

lemma demo: "demo = \<lparr>w_db = \<lparr>st_rooms = [(uid 0, team\<lparr>rm_UpdatedAt := 50\<rparr>), (uid 8, board)],
    st_members = [(uid 0, [(''ann'', ann), (''bob'', bob), (''eve'', expelled 40 ''ann'' eve)]),
      (uid 8, [(''cat'', new_member (uid 9) (uid 8) ''cat'' MemberRoleOwner 81),
               (''ann'', new_member (uid 10) (uid 8) ''ann'' MemberRoleMember 81)])],
    st_messages = [(uid 0, [(uid 5, greeting)])],
    st_devices = [(''bob'', [(''d'', phone ''bob'' ''tb'' 60)]), (''ann'', [(''d'', phone ''ann'' ''ta'' 70)])],
    st_maxSeq = [(uid 0, 1)]\<rparr>, w_ps = NewMemoryRoomPubSub, w_push = [],
    w_env = env_at 80 8\<lparr>ticks := 2, draws := 3\<rparr>\<rparr>"
  unfolding demo_def demo7
  by (simp add: run_simps svc_GetOrCreateBoardChatRoom_def enterExistingBoardChatRoom_def
      createBoardChatRoom_def ensurePassiveMember_def mem_GetActiveBoardLinkedRoom_def vals_def
      mem_CreateRoom_def mem_CreateMember_def mem_GetMember_def board_def)

lemma reachable_run_at:
  assumes "reachable svc w" "admissible mem_abs c (w\<lparr>w_env := env_at t n\<rparr>)"
  shows "reachable svc (run_at svc t n c w)"
  unfolding run_at_def
  using reachable_step [OF reachable_step [OF assms(1) chat_step.environment] chat_step.request [OF assms(2)]] .

lemma reachable_new: "cs_repo svc = memory_repo \<Longrightarrow> reachable svc (new_world NewStore g)"
  unfolding reachable_def by blast

lemma admissible_free [simp]:
  "(\<And>rid u mt x img md. c \<noteq> CallSendMessage rid u mt x img md) \<Longrightarrow> admissible store c w"
  by (simp add: admissible_def split: call.split)

lemma demo_reachable: "reachable demo_service demo"
proof -
  have r4: "reachable demo_service demo4"
    unfolding demo4_def demo3_def demo2_def demo1_def
    by (intro reachable_run_at reachable_new) simp_all
  have "admissible mem_abs (CallSendMessage (uid 0) ''ann'' MessageTypeText ''hi'' [] None)
      (demo4\<lparr>w_env := env_at 50 5\<rparr>)"
    by (simp add: admissible_def demo4 fresh_message_id_def max_seq_def int64_range_def)
  with r4 have "reachable demo_service demo5" unfolding demo5_def by (rule reachable_run_at)
  then show ?thesis
    unfolding demo_def demo7_def demo6_def by (intro reachable_run_at) simp_all
qed

lemmas demo_reads = demo mem_GetRoom_def mem_GetMember_def mem_GetMessage_def vals_def

lemma demo_facts:
  "mem_GetRoom (w_db demo) (uid 0) = Inr (team\<lparr>rm_UpdatedAt := 50\<rparr>)" "room_open (team\<lparr>rm_UpdatedAt := 50\<rparr>)"
  "mem_GetRoom (w_db demo) (uid 8) = Inr board" "board_room ''b1'' board" "room_open board"
  "mem_GetMember (w_db demo) (uid 0) ''ann'' = Inr ann" "mem_GetMember (w_db demo) (uid 0) ''bob'' = Inr bob"
  "mem_GetMember (w_db demo) (uid 0) ''eve'' = Inr (expelled 40 ''ann'' eve)"
  "mem_GetMessage (w_db demo) (uid 0) (uid 5) = Inr greeting"
  by (simp_all add: demo_reads room_open_def board_room_def board_def new_room_def)

text \<open>The same state after the owner closed the room.\<close>

definition demo_closed :: "Store world" where
  "demo_closed = run_at demo_service 90 11 (CallDeactivateRoom (uid 0) ''ann'') demo"

lemma demo_closed_facts:
  "reachable demo_service demo_closed"
  "mem_GetRoom (w_db demo_closed) (uid 0) = Inr (closed_room 90 (team\<lparr>rm_UpdatedAt := 50\<rparr>))"
  "\<not> room_open (closed_room 90 (team\<lparr>rm_UpdatedAt := 50\<rparr>))"
proof -
  show "reachable demo_service demo_closed"
    unfolding demo_closed_def by (rule reachable_run_at [OF demo_reachable]) simp
  show "mem_GetRoom (w_db demo_closed) (uid 0) = Inr (closed_room 90 (team\<lparr>rm_UpdatedAt := 50\<rparr>))"
    by (simp add: demo_closed_def run_simps svc_DeactivateRoom_def demo mem_GetRoom_def mem_UpdateRoom_def)
qed simp

end
