(* ===== verification/RoomProperties.thy ===== *)
theory RoomProperties
  imports Scenario
begin

text \<open>
  What the service promises about rooms and members, stated over the reads of the in-memory store in
  every reachable state.
\<close>

section \<open>Reads of a reachable state\<close>

declare mem_abs_sel [simp del]

lemma mem_reads:
  "mem_GetRoom s rid = Inr r \<longleftrightarrow> a_rooms (mem_abs s) rid = Some r"
  "mem_GetMember s rid u = Inr m \<longleftrightarrow> a_members (mem_abs s) rid u = Some m"
  "mem_GetMessage s rid i = Inr x \<longleftrightarrow> a_messages (mem_abs s) rid i = Some x"
  by (auto simp: mem_GetRoom_def mem_GetMember_def mem_GetMessage_def inner_def mem_abs_sel split: option.split)

lemma reachable_rooms_inv: "reachable svc w \<Longrightarrow> rooms_inv (mem_abs (w_db w))"
  using reachable_sound mem.soundD(3) by blast

lemma reachable_good: "reachable svc w \<Longrightarrow> mem.good w" "reachable svc w \<Longrightarrow> cs_repo svc = memory_repo"
  using reachable_sound mem.soundD(1) by (blast, simp add: reachable_def)

text \<open>A record read before has a successor after any number of steps.\<close>

lemma later_room:
  assumes "reachable svc w" "(chat_step svc mem_abs)\<^sup>*\<^sup>* w w'" "mem_GetRoom (w_db w) rid = Inr r"
  shows "\<exists>r'. mem_GetRoom (w_db w') rid = Inr r' \<and> room_later r r'"
  using progressD(1) [OF reachable_progress [OF assms(1,2)]] assms(3) unfolding mem_reads .

lemma later_member:
  assumes "reachable svc w" "(chat_step svc mem_abs)\<^sup>*\<^sup>* w w'" "mem_GetMember (w_db w) rid u = Inr m"
  shows "\<exists>m'. mem_GetMember (w_db w') rid u = Inr m' \<and> member_later m m'"
  using progressD(2) [OF reachable_progress [OF assms(1,2)]] assms(3) unfolding mem_reads .

lemma later_message:
  assumes "reachable svc w" "(chat_step svc mem_abs)\<^sup>*\<^sup>* w w'" "mem_GetMessage (w_db w) rid i = Inr x"
  shows "\<exists>x'. mem_GetMessage (w_db w') rid i = Inr x' \<and> message_later x x'"
  using progressD(3) [OF reachable_progress [OF assms(1,2)]] assms(3) unfolding mem_reads .

section \<open>Invariants\<close>

text \<open>
  C1. In every reachable state an open room has exactly one owner: the user named in the room is an
  active member with the owner role, and nobody else has that role. Every member record has a known
  role, and its status agrees with its time stamps.
\<close>

theorem one_owner:
  assumes "reachable svc w" and "mem_GetRoom (w_db w) rid = Inr r" and "room_open r"
  shows "(\<exists>m. mem_GetMember (w_db w) rid (rm_OwnerUserID r) = Inr m \<and> mb_Role m = MemberRoleOwner
      \<and> mb_Status m = MemberStatusActive)
    \<and> (\<forall>u m. mem_GetMember (w_db w) rid u = Inr m \<and> mb_Role m = MemberRoleOwner \<longrightarrow> u = rm_OwnerUserID r)
    \<and> (\<forall>u m. mem_GetMember (w_db w) rid u = Inr m \<longrightarrow> member_ok m)"
proof -
  have "members_ok r (a_members (mem_abs (w_db w)) rid)"
    using rooms_invD(1) [OF reachable_rooms_inv [OF assms(1)]] assms(2) unfolding mem_reads by blast
  with assms(3) show ?thesis unfolding mem_reads members_ok_def by blast
qed

theorem one_owner_witness:
  "(\<exists>m. mem_GetMember (w_db demo) (uid 0) ''ann'' = Inr m \<and> mb_Role m = MemberRoleOwner
      \<and> mb_Status m = MemberStatusActive)
   \<and> \<not> (\<exists>u m. u \<noteq> ''ann'' \<and> mem_GetMember (w_db demo) (uid 0) u = Inr m \<and> mb_Role m = MemberRoleOwner)"
  using one_owner [OF demo_reachable demo_facts(1,2)] by auto

text \<open>
  C16. In every reachable state a board has at most one open room, and it is the room
  \<^verbatim>\<open>GetActiveBoardLinkedRoom\<close> finds, in whatever order the rooms are visited.
\<close>

theorem one_room_per_board:
  assumes "reachable svc w" and "b \<noteq> []" and "mem_GetRoom (w_db w) i = Inr r" and "board_room b r"
  shows "mem_GetActiveBoardLinkedRoom (w_db w) b = Inr r
    \<and> (\<forall>j r'. mem_GetRoom (w_db w) j = Inr r' \<and> board_room b r' \<longrightarrow> j = i)"
proof -
  let ?a = "mem_abs (w_db w)"
  have bk: "boards_ok (a_rooms ?a)" using rooms_invD(3) [OF reachable_rooms_inv [OF assms(1)]] .
  have i: "a_rooms ?a i = Some r" using assms(3) by (simp only: mem_reads)
  have key: "board_key r = Some b" using assms(2,4) board_key_eq by blast
  have uniq: "j = i" if "a_rooms ?a j = Some r'" "board_room b r'" for j r'
    using boards_okD [OF bk that(1) i] that(2) assms(2) key board_key_eq [of b r'] by simp
  have inv: "mem_inv (w_db w)" using mem.soundD(2) [OF reachable_sound [OF assms(1)]] .
  have "mem_GetActiveBoardLinkedRoom (w_db w) b = Inr r"
  proof (cases "mem_GetActiveBoardLinkedRoom (w_db w) b")
    case (Inl e)
    with mem.GetActiveBoardLinkedRoom_none [OF inv, of b e] have "\<not> board_room b r"
      using i by (auto simp: ran_def)
    with assms(4) show ?thesis by blast
  next
    case (Inr r')
    with mem.GetActiveBoardLinkedRoom_found [OF inv, of b r'] obtain j where
      j: "a_rooms ?a j = Some r'" "board_room b r'" by (auto simp: ran_def)
    with uniq i Inr show ?thesis by force
  qed
  with uniq show ?thesis unfolding mem_reads by blast
qed

theorem one_room_per_board_witness:
  "mem_GetActiveBoardLinkedRoom (w_db demo) ''b1'' = Inr board
    \<and> \<not> (\<exists>j r'. j \<noteq> uid 8 \<and> mem_GetRoom (w_db demo) j = Inr r' \<and> board_room ''b1'' r')"
  using one_room_per_board [OF demo_reachable _ demo_facts(3,4)] by blast

section \<open>What cannot be undone\<close>

text \<open>
  C3. A removed member never comes back: after any further requests the record still says removed,
  and joining fails, with \<^verbatim>\<open>ErrRemovedCannotRejoin\<close> while the room is open.
\<close>

theorem removed_stays_removed:
  assumes "reachable svc w" and "mem_GetMember (w_db w) rid u = Inr m" and "mb_Status m = MemberStatusRemoved"
    and "(chat_step svc mem_abs)\<^sup>*\<^sup>* w w'"
  shows "(\<exists>m'. mem_GetMember (w_db w') rid u = Inr m' \<and> mb_Status m' = MemberStatusRemoved)
    \<and> (\<exists>e. fst (svc_JoinRoom svc rid u w') = Inl e
         \<and> (\<forall>r. mem_GetRoom (w_db w') rid = Inr r \<and> room_open r \<longrightarrow> e = ErrRemovedCannotRejoin))"
proof -
  from later_member [OF assms(1,4,2)] assms(3) obtain m' where
    m': "mem_GetMember (w_db w') rid u = Inr m'" "mb_Status m' = MemberStatusRemoved" by (auto simp: member_later_def)
  note w' = reachable_steps [OF assms(1,4)]
  obtain x w'' where x: "svc_JoinRoom svc rid u w' = (x, w'')" by fastforce
  from wpD [OF mem.wp_JoinRoom [OF reachable_good [OF w']] x] x m' show ?thesis
    unfolding mem_reads by (cases x) (auto simp: join_answer_def split: option.splits if_splits)
qed

theorem removed_stays_removed_witness:
  "fst (svc_JoinRoom demo_service (uid 0) ''eve'' demo) = Inl ErrRemovedCannotRejoin"
  using removed_stays_removed [OF demo_reachable demo_facts(8), of demo] demo_facts(1,2) by auto

text \<open>
  C17. A closed room never opens again, whatever requests follow, and keeps its kind and its board.
\<close>

theorem closed_stays_closed:
  assumes "reachable svc w" and "mem_GetRoom (w_db w) rid = Inr r" and "\<not> room_open r"
    and "(chat_step svc mem_abs)\<^sup>*\<^sup>* w w'"
  shows "\<exists>r'. mem_GetRoom (w_db w') rid = Inr r' \<and> \<not> room_open r' \<and> rm_RoomType r' = rm_RoomType r
    \<and> rm_LinkedBoardID r' = rm_LinkedBoardID r"
  using later_room [OF assms(1,4,2)] assms(3) by (auto simp: room_later_def)

theorem closed_stays_closed_witness:
  "\<exists>r'. mem_GetRoom (w_db (serve demo_service (CallJoinRoom (uid 0) ''bob'') demo_closed)) (uid 0) = Inr r' \<and> \<not> room_open r'"
proof -
  have "(chat_step demo_service mem_abs)\<^sup>*\<^sup>* demo_closed (serve demo_service (CallJoinRoom (uid 0) ''bob'') demo_closed)"
    by (intro r_into_rtranclp chat_step.request) simp
  from closed_stays_closed [OF demo_closed_facts this] show ?thesis by blast
qed

section \<open>Joining\<close>

text \<open>
  \<^verbatim>\<open>JoinRoom\<close> on every branch: not found and inactive rooms and removed users are refused and nothing
  changes; a user without record becomes a member, one who left is reactivated with the new join
  time, an active one is returned unchanged. Only this user's record can change.
\<close>

theorem JoinRoom_outcome:
  assumes "reachable svc w" and "svc_JoinRoom svc rid u w = (x, w')"
  shows "(x = (case mem_GetRoom (w_db w) rid of
      Inl _ \<Rightarrow> Inl ErrNotFound
    | Inr r \<Rightarrow> if \<not> room_open r then Inl ErrRoomInactive else
        (case mem_GetMember (w_db w) rid u of
           Inl _ \<Rightarrow> Inr (new_member (next_message_id w) rid u MemberRoleMember (next_time w))
         | Inr m \<Rightarrow> if mb_Status m = MemberStatusRemoved then Inl ErrRemovedCannotRejoin
             else if mb_Status m = MemberStatusLeft then Inr (rejoined (next_time w) m) else Inr m)))
    \<and> mem_abs (w_db w') = (case x of Inl _ \<Rightarrow> mem_abs (w_db w) | Inr m \<Rightarrow> put_member m (mem_abs (w_db w)))"
proof -
  note run = wpD [OF mem.wp_JoinRoom [OF reachable_good [OF assms(1)]] assms(2)]
  have read: "mem_GetRoom (w_db w) rid = lookup_or ErrNotFound (a_rooms (mem_abs (w_db w)) rid)"
    "mem_GetMember (w_db w) rid u = lookup_or ErrNotFound (a_members (mem_abs (w_db w)) rid u)"
    using mem.GetRoom mem.GetMember mem.soundD(2) [OF reachable_sound [OF assms(1)]] by simp_all
  have "x = join_answer (mem_abs (w_db w)) rid u (next_message_id w) (next_time w)"
    using run by (cases x) (simp_all add: next_message_id_def next_time_def)
  moreover have "mem_abs (w_db w') = (case x of Inl _ \<Rightarrow> mem_abs (w_db w) | Inr m \<Rightarrow> put_member m (mem_abs (w_db w)))"
    using run by (cases x) (simp_all add: mem.untouched_def)
  ultimately show ?thesis
    unfolding read join_answer_def by (simp split: option.split)
qed

theorem JoinRoom_outcome_witness:
  "fst (svc_JoinRoom demo_service (uid 0) ''dan'' demo)
     = Inr (new_member (next_message_id demo) (uid 0) ''dan'' MemberRoleMember (next_time demo))"
proof -
  obtain x w' where x: "svc_JoinRoom demo_service (uid 0) ''dan'' demo = (x, w')" by fastforce
  have n: "mem_GetMember (w_db demo) (uid 0) ''dan'' = Inl ErrNotFound" by (simp add: demo_reads)
  from JoinRoom_outcome [OF demo_reachable x] show ?thesis by (simp add: x n demo_facts(1,2))
qed

section \<open>Leaving, removing, closing\<close>

text \<open>The other active members of a room.\<close>

definition other_members :: "Store \<Rightarrow> string \<Rightarrow> string \<Rightarrow> ChatRoomMember set" where
  "other_members s rid u = {n. mem_GetMember s rid (mb_UserID n) = Inr n \<and> mb_UserID n \<noteq> u \<and> mb_Status n = MemberStatusActive}"

lemma other_members_eq: "mem_inv s \<Longrightarrow> other_members s rid u = others (mem_abs s) rid u"
  using mem.member_key [of s rid]
  by (auto simp: other_members_def others_def active_members_def ran_def mem_reads)

text \<open>
  C7. An active member can always leave. The record is closed and loses the owner role. When the
  owner leaves, the other active member who joined first (the smaller record identifier on a tie)
  becomes the owner; when nobody is left the room is closed. Nobody else's record changes.
\<close>

theorem LeaveRoom_effect:
  assumes "reachable svc w" and "mem_GetRoom (w_db w) rid = Inr r" and "mem_GetMember (w_db w) rid u = Inr m"
    and "mb_Status m = MemberStatusActive"
  shows "\<exists>r' w'. svc_LeaveRoom svc rid u w = (Inr (departed (next_time w) m, r'), w')
    \<and> mem_GetMember (w_db w') rid u = Inr (departed (next_time w) m) \<and> mem_GetRoom (w_db w') rid = Inr r'
    \<and> (if rm_OwnerUserID r \<noteq> u then r' = r \<and> mem_abs (w_db w') = put_member (departed (next_time w) m) (mem_abs (w_db w))
       else if other_members (w_db w) rid u = {} then \<not> room_open r'
       else (\<exists>n \<in> other_members (w_db w) rid u. (\<forall>x \<in> other_members (w_db w) rid u. join_key n \<le> join_key x)
          \<and> rm_OwnerUserID r' = mb_UserID n \<and> (room_open r \<longrightarrow> room_open r')
          \<and> mem_GetMember (w_db w') rid (mb_UserID n) = Inr (n\<lparr>mb_Role := MemberRoleOwner, mb_UpdatedAt := next_time w\<rparr>)
          \<and> (\<forall>v. v \<notin> {u, mb_UserID n} \<longrightarrow> mem_GetMember (w_db w') rid v = mem_GetMember (w_db w) rid v)))"
proof -
  let ?a = "mem_abs (w_db w)"
  note inv = mem.soundD(2) [OF reachable_sound [OF assms(1)]]
  have r: "a_rooms ?a rid = Some r" and m: "a_members ?a rid u = Some m" using assms(2,3) unfolding mem_reads by blast+
  obtain x w' where x: "svc_LeaveRoom svc rid u w = (x, w')" by fastforce
  from wpD [OF mem.wp_LeaveRoom [OF reachable_good [OF assms(1)]] x] m assms(4) obtain r' m' where
    y: "x = Inr (m', r')" and eff: "leave_effect (next_time w) rid u ?a m' r' (mem_abs (w_db w'))" and g: "mem.good w'"
    by (auto simp: next_time_def split: sum.splits)
  have inv': "mem_inv (w_db w')" using g mem.goodD by blast
  have rd: "mem_GetMember (w_db w') rid v = mem_GetMember (w_db w) rid v"
    if "a_members (mem_abs (w_db w')) rid v = a_members ?a rid v" for v
    using that mem.GetMember [OF inv, of rid v] mem.GetMember [OF inv', of rid v] by simp
  have key: "\<forall>v x. a_members ?a rid v = Some x \<longrightarrow> mb_RoomID x = rid \<and> mb_UserID x = v" using mem.member_key [OF inv] by blast
  from eff key show ?thesis
  proof (cases rule: leave_effect_cases)
    case (member r0 m0)
    with x y r m show ?thesis unfolding mem_reads by simp
  next
    case (last r0 m0)
    with x y r m show ?thesis unfolding mem_reads other_members_eq [OF inv] by simp
  next
    case (pass r0 m0 n v)
    have same: "r0 = r" "m0 = m" using pass(1,2) r m by simp_all
    have "mem_GetMember (w_db w') rid v' = mem_GetMember (w_db w) rid v'" if "v' \<notin> {u, mb_UserID n}" for v'
      using that pass by (intro rd) simp
    moreover have "mem_GetMember (w_db w') rid (mb_UserID n) = Inr (n\<lparr>mb_Role := MemberRoleOwner, mb_UpdatedAt := next_time w\<rparr>)"
      "mem_GetMember (w_db w') rid u = Inr (departed (next_time w) m)" "mem_GetRoom (w_db w') rid = Inr r'"
      unfolding mem_reads pass(16) using pass same by simp_all
    moreover have "room_open r \<longrightarrow> room_open r'" "rm_OwnerUserID r' = mb_UserID n"
      using pass(13,15) by (simp_all add: same room_open_def)
    ultimately show ?thesis
      using x y pass(4,7-9) unfolding other_members_eq [OF inv] same by auto
  qed
qed

theorem LeaveRoom_effect_witness:
  "\<exists>r' w'. svc_LeaveRoom demo_service (uid 0) ''ann'' demo = (Inr (departed (next_time demo) ann, r'), w')
    \<and> mem_GetRoom (w_db w') (uid 0) = Inr r' \<and> rm_OwnerUserID r' = ''bob''"
proof -
  have o: "other_members (w_db demo) (uid 0) ''ann'' = {bob}"
    by (auto simp: other_members_def demo_reads split: if_splits)
  from LeaveRoom_effect [OF demo_reachable demo_facts(1,6)] show ?thesis by (auto simp: o)
qed

text \<open>
  C13. Only the owner of a room can remove a member, close the room or delete a message: for anybody
  else the three requests fail with \<^verbatim>\<open>ErrPermissionDenied\<close> and the store, the hub and the pushes stay as
  they were. The owner cannot be removed, not even by the owner.
\<close>

theorem owner_only:
  assumes "reachable svc w" and "mem_GetRoom (w_db w) rid = Inr r"
    and "caller \<noteq> rm_OwnerUserID r \<or> target = rm_OwnerUserID r"
  shows "(\<exists>w'. svc_RemoveMember svc rid caller target w = (Inl ErrPermissionDenied, w')
        \<and> mem_abs (w_db w') = mem_abs (w_db w) \<and> quiet w w')
    \<and> (caller \<noteq> rm_OwnerUserID r \<longrightarrow>
        (\<exists>w'. svc_DeactivateRoom svc rid caller w = (Inl ErrPermissionDenied, w')
           \<and> mem_abs (w_db w') = mem_abs (w_db w) \<and> quiet w w')
      \<and> (\<exists>w'. svc_DeleteMessage svc rid i caller w = (Inl ErrPermissionDenied, w')
           \<and> mem_abs (w_db w') = mem_abs (w_db w) \<and> quiet w w'))"
proof -
  have r: "a_rooms (mem_abs (w_db w)) rid = Some r" using assms(2) unfolding mem_reads .
  note g = reachable_good [OF assms(1)]
  obtain x1 w1 where 1: "svc_RemoveMember svc rid caller target w = (x1, w1)" by fastforce
  obtain x2 w2 where 2: "svc_DeactivateRoom svc rid caller w = (x2, w2)" by fastforce
  obtain x3 w3 where 3: "svc_DeleteMessage svc rid i caller w = (x3, w3)" by fastforce
  from wpD [OF mem.wp_RemoveMember [OF g] 1] r assms(3) have
    "x1 = Inl ErrPermissionDenied \<and> mem.untouched w w1" by (auto split: sum.splits if_splits)
  moreover from wpD [OF mem.wp_DeactivateRoom [OF g] 2] r have
    "caller \<noteq> rm_OwnerUserID r \<Longrightarrow> x2 = Inl ErrPermissionDenied \<and> mem.untouched w w2" by (auto split: sum.splits)
  moreover from wpD [OF mem.wp_DeleteMessage [OF reachable_sound [OF assms(1)] g(2)] 3] r have
    "caller \<noteq> rm_OwnerUserID r \<Longrightarrow> x3 = Inl ErrPermissionDenied \<and> mem.untouched w w3" by (auto split: sum.splits)
  ultimately show ?thesis using 1 2 3 by (simp add: mem.untouched_def)
qed

theorem owner_only_witness:
  "\<exists>w'. svc_RemoveMember demo_service (uid 0) ''bob'' ''ann'' demo = (Inl ErrPermissionDenied, w')
     \<and> mem_abs (w_db w') = mem_abs (w_db demo)"
  using owner_only [OF demo_reachable demo_facts(1), of "''bob''" "''ann''"] by auto

text \<open>
  The owner removes a member: the answer is the member's record, marked removed by the owner at
  the time of the request, and it is what the store holds afterwards; no other record changes. A
  target without record is \<^verbatim>\<open>ErrNotFound\<close>.
\<close>

theorem RemoveMember_effect:
  assumes "reachable svc w" and "mem_GetRoom (w_db w) rid = Inr r" and "target \<noteq> rm_OwnerUserID r"
  shows "\<exists>w'. (case mem_GetMember (w_db w) rid target of
      Inl _ \<Rightarrow> svc_RemoveMember svc rid (rm_OwnerUserID r) target w = (Inl ErrNotFound, w')
        \<and> mem_abs (w_db w') = mem_abs (w_db w)
    | Inr m \<Rightarrow> svc_RemoveMember svc rid (rm_OwnerUserID r) target w = (Inr (expelled (next_time w) (rm_OwnerUserID r) m), w')
        \<and> mem_abs (w_db w') = put_member (expelled (next_time w) (rm_OwnerUserID r) m) (mem_abs (w_db w)))"
proof -
  have r: "a_rooms (mem_abs (w_db w)) rid = Some r" using assms(2) unfolding mem_reads .
  have read: "mem_GetMember (w_db w) rid target = lookup_or ErrNotFound (a_members (mem_abs (w_db w)) rid target)"
    using mem.GetMember mem.soundD(2) [OF reachable_sound [OF assms(1)]] by simp
  obtain x w' where x: "svc_RemoveMember svc rid (rm_OwnerUserID r) target w = (x, w')" by fastforce
  from wpD [OF mem.wp_RemoveMember [OF reachable_good [OF assms(1)]] x] r assms(3) x show ?thesis
    unfolding read
    by (cases "a_members (mem_abs (w_db w)) rid target"; cases x)
       (auto simp: next_time_def mem.untouched_def)
qed

theorem RemoveMember_effect_witness:
  "\<exists>w'. svc_RemoveMember demo_service (uid 0) ''ann'' ''bob'' demo = (Inr (expelled (next_time demo) ''ann'' bob), w')"
  using RemoveMember_effect [OF demo_reachable demo_facts(1), of "''bob''"] by (auto simp: demo_facts(7))

section \<open>Rooms of a board\<close>

context chat_repository
begin

text \<open>Entering again what was entered before.\<close>

lemma enterExisting_again:
  assumes g: "good w" and R: "cs_repo svc = R" and b: "in_BoardID inp \<noteq> []"
    and tr: "TrimSpace (in_BoardOwnerUserID inp) = in_BoardOwnerUserID inp" and en: "entered inp w en"
  shows "wp (enterExistingBoardChatRoom svc inp) (\<lambda>e w'. False)
    (\<lambda>x w'. x = en\<lparr>en_AlreadyExists := True\<rparr> \<and> untouched w w') w"
proof -
  let ?a = "abs (w_db w)" and ?r = "en_Room en"
  have r: "a_rooms ?a (rm_ID ?r) = Some ?r" "board_room (in_BoardID inp) ?r"
    and m: "a_members ?a (rm_ID ?r) (in_UserID inp) = Some (en_Member en)" "mb_Status (en_Member en) = MemberStatusActive"
    and o: "in_BoardOwnerUserID inp \<noteq> [] \<Longrightarrow> \<exists>y. a_members ?a (rm_ID ?r) (in_BoardOwnerUserID inp) = Some y"
    using en tr by (auto simp: entered_def)
  have found: "rp_GetActiveBoardLinkedRoom R (w_db w) (in_BoardID inp) = Inr ?r"
  proof (cases "rp_GetActiveBoardLinkedRoom R (w_db w) (in_BoardID inp)")
    case (Inl e)
    then show ?thesis using GetActiveBoardLinkedRoom_none [OF goodD(1) [OF g] Inl] r by (auto simp: ran_def)
  next
    case (Inr r')
    from GetActiveBoardLinkedRoom_found [OF goodD(1) [OF g] Inr] obtain j where
      j: "a_rooms ?a j = Some r'" "board_room (in_BoardID inp) r'" by (auto simp: ran_def)
    have "board_key r' = Some (in_BoardID inp)" "board_key ?r = Some (in_BoardID inp)"
      using j(2) r(2) b board_key_eq by blast+
    then have "j = rm_ID ?r" using boards_okD [OF rooms_invD(3) [OF goodD(2) [OF g]] j(1) r(1)] by simp
    with j(1) r(1) Inr show ?thesis by simp
  qed
  show ?thesis
  proof (cases "in_BoardOwnerUserID inp = []")
    case False
    with o obtain y where y: "a_members ?a (rm_ID ?r) (in_BoardOwnerUserID inp) = Some y" by blast
    then show ?thesis using found m R g tr
      by (simp add: enterExistingBoardChatRoom_def ensureActiveMember_def ensurePassiveMember_def Let_def goodD)
  qed (use found m R g in \<open>simp add: enterExistingBoardChatRoom_def ensureActiveMember_def ensurePassiveMember_def Let_def goodD
      wp_def [of "Pair _"]\<close>)
qed

lemma GetOrCreate_again:
  assumes g: "good w" and R: "cs_repo svc = R" and en: "entered (trimmed inp) w en"
    and ne: "TrimSpace (in_UserID inp) \<noteq> []" "TrimSpace (in_BoardID inp) \<noteq> []"
  shows "wp (svc_GetOrCreateBoardChatRoom svc inp) (\<lambda>e w'. False)
    (\<lambda>x w'. x = en\<lparr>en_AlreadyExists := True\<rparr> \<and> untouched w w') w"
proof -
  have "wp (enterExistingBoardChatRoom svc (trimmed inp)) (\<lambda>e w'. False)
    (\<lambda>x w'. x = en\<lparr>en_AlreadyExists := True\<rparr> \<and> untouched w w') w"
    by (rule enterExisting_again [OF g R _ _ en]) (use ne in \<open>simp_all add: trimmed_def\<close>)
  then show ?thesis
    using ne unfolding svc_GetOrCreateBoardChatRoom_def Let_def trimmed_def
    by simp (erule wp_mono; simp)
qed

end

text \<open>
  C14. \<^verbatim>\<open>GetOrCreateBoardChatRoom\<close> is idempotent: once it has succeeded, the same call, by itself,
  succeeds with the same room and the same member, reports that the room exists, and changes
  nothing.
\<close>

theorem GetOrCreate_idempotent:
  assumes "reachable svc w" and "svc_GetOrCreateBoardChatRoom svc inp w = (Inr en, w1)"
  shows "\<exists>w2. svc_GetOrCreateBoardChatRoom svc inp w1 = (Inr (en\<lparr>en_AlreadyExists := True\<rparr>), w2)
    \<and> mem_abs (w_db w2) = mem_abs (w_db w1) \<and> quiet w1 w2"
proof -
  note R = reachable_good(2) [OF assms(1)]
  from wpD [OF mem.wp_GetOrCreate [OF reachable_good [OF assms(1)]] assms(2)]
  have g: "mem.good w1" and en: "mem.entered (trimmed inp) w1 en" by auto
  have ne: "TrimSpace (in_UserID inp) \<noteq> []" "TrimSpace (in_BoardID inp) \<noteq> []"
    using assms(2) by (auto simp: svc_GetOrCreateBoardChatRoom_def Let_def split: if_splits)
  obtain x w2 where x: "svc_GetOrCreateBoardChatRoom svc inp w1 = (x, w2)" by fastforce
  from wpD [OF mem.GetOrCreate_again [OF g R en ne] x] x show ?thesis
    by (auto simp: mem.untouched_def split: sum.splits)
qed

theorem GetOrCreate_idempotent_witness:
  "\<exists>en w1 w2. svc_GetOrCreateBoardChatRoom demo_service \<lparr>in_UserID = ''dan'', in_BoardID = ''b1'',
      in_BoardOwnerUserID = ''ann'', in_Title = []\<rparr> demo = (Inr en, w1)
    \<and> svc_GetOrCreateBoardChatRoom demo_service \<lparr>in_UserID = ''dan'', in_BoardID = ''b1'',
      in_BoardOwnerUserID = ''ann'', in_Title = []\<rparr> w1 = (Inr (en\<lparr>en_AlreadyExists := True\<rparr>), w2)"
proof -
  let ?in = "\<lparr>in_UserID = ''dan'', in_BoardID = ''b1'', in_BoardOwnerUserID = ''ann'', in_Title = []\<rparr>"
  have "\<exists>en w1. svc_GetOrCreateBoardChatRoom demo_service ?in demo = (Inr en, w1)"
    by (simp add: run_simps svc_GetOrCreateBoardChatRoom_def enterExistingBoardChatRoom_def ensureActiveMember_def
      ensurePassiveMember_def mem_GetActiveBoardLinkedRoom_def mem_CreateMember_def demo_reads board_def new_room_def)
  then obtain en w1 where "svc_GetOrCreateBoardChatRoom demo_service ?in demo = (Inr en, w1)" by blast
  with GetOrCreate_idempotent [OF demo_reachable this] show ?thesis by blast
qed

end
