(* ===== verification/RoomListing.thy ===== *)
theory RoomListing
  imports MemoryStore
begin

text \<open>
  \<^verbatim>\<open>ListRoomsByUser\<close> of the in-memory store: what a summary says (unread count, last message), and that
  the pages a client gets by following the tokens are together the whole list.
\<close>

section \<open>The summary of a room\<close>

definition unread :: "string \<Rightarrow> int \<Rightarrow> ChatMessage \<Rightarrow> bool" where
  "unread userID lastRead msg \<longleftrightarrow> lastRead < mg_SequenceNo msg \<and> mg_SenderUserID msg \<noteq> userID"

lemma redact_preview_seq [simp]:
  "mg_SequenceNo (redact_preview m) = mg_SequenceNo m" "mg_ID (redact_preview m) = mg_ID m"
  by (simp_all add: redact_preview_def)

lemma scan_messages_unread:
  "fst (scan_messages u lr msgs (n, l)) = n + int (length (filter (unread u lr) msgs))"
  by (induction msgs arbitrary: n l) (auto simp: unread_def split: option.split)

definition is_last :: "ChatMessage set \<Rightarrow> ChatMessage \<Rightarrow> bool" where
  "is_last M m \<longleftrightarrow> m \<in> M \<and> (\<forall>m' \<in> M. mg_SequenceNo m' \<le> mg_SequenceNo m)"

lemma scan_messages_last:
  assumes "msgs \<noteq> []"
  shows "\<exists>m. is_last (set msgs) m \<and> snd (scan_messages u lr msgs (n, None)) = Some (redact_preview m)"
proof -
  have keep: "\<exists>m. is_last (insert l (set msgs)) m \<and>
      snd (scan_messages u lr msgs (n, Some (redact_preview l))) = Some (redact_preview m)" for l n msgs
  proof (induction msgs arbitrary: l n)
    case Nil
    then show ?case by (auto simp: is_last_def)
  next
    case (Cons a msgs)
    define l' where "l' = (if mg_SequenceNo l < mg_SequenceNo a then a else l)"
    obtain m n' where m: "is_last (insert l' (set msgs)) m"
      "snd (scan_messages u lr (a # msgs) (n, Some (redact_preview l))) = Some (redact_preview m)"
      using Cons.IH [of l' "if lr < mg_SequenceNo a \<and> mg_SenderUserID a \<noteq> u then n + 1 else n"]
      by (auto simp: l'_def split: if_splits)
    then have "is_last (insert l (set (a # msgs))) m"
      by (auto simp: is_last_def l'_def split: if_splits)
    with m(2) show ?case by blast
  qed
  from assms obtain a rest where "msgs = a # rest" by (cases msgs) auto
  then show ?thesis using keep [of a rest] by auto
qed

section \<open>Pages\<close>

definition mem_rooms :: "Store \<Rightarrow> string \<Rightarrow> ChatRoomSummary list" where
  "mem_rooms s userID = sort_stable (\<lambda>a b. rm_UpdatedAt (sm_Room b) < rm_UpdatedAt (sm_Room a))
     (List.map_filter (room_summary s userID) (st_members s))"

definition page_token :: "nat \<Rightarrow> string" where
  "page_token k = EncodeToString (FormatInt (int k))"

lemma b64_encode_Nil_iff [simp]: "b64_encode xs = [] \<longleftrightarrow> xs = []"
  by (cases xs rule: b64_encode.cases) auto

lemma dec_nat_not_Nil [simp]: "dec_nat n \<noteq> []"
  by (subst dec_nat.simps) simp

lemma page_token_not_Nil [simp]: "page_token k \<noteq> []"
  by (simp add: page_token_def EncodeToString_def FormatInt_def)

lemma mem_page_start_token: "int64_range (int k) \<Longrightarrow> mem_page_start (page_token k) = int k"
  using page_token_not_Nil [of k]
  by (simp add: mem_page_start_def page_token_def DecodeString_EncodeToString Atoi_FormatInt)

lemma mem_ListRoomsByUser_page:
  assumes "mem_page_start tok = int k" "k < length (mem_rooms s u)" "0 < limit"
    and "int (length (mem_rooms s u)) + limit < 2 ^ 63"
  shows "mem_ListRoomsByUser s u limit tok =
    Inr (take (nat limit) (drop k (mem_rooms s u)),
         if k + nat limit < length (mem_rooms s u) then page_token (k + nat limit) else [])"
proof -
  have w: "wrap64 (int k + limit) = int k + limit"
    using assms by (intro wrap64_id) (simp add: int64_range_def)
  show ?thesis
  proof (cases "k + nat limit < length (mem_rooms s u)")
    case True
    then have "int k + limit < int (length (mem_rooms s u))" using assms(3) by linarith
    with True assms w show ?thesis
      unfolding mem_ListRoomsByUser_def mem_rooms_def [symmetric] Let_def
      by (simp add: page_token_def)
  next
    case False
    then have "\<not> int k + limit < int (length (mem_rooms s u))" using assms(3) by linarith
    with False assms w show ?thesis
      unfolding mem_ListRoomsByUser_def mem_rooms_def [symmetric] Let_def
      by (auto simp: nat_diff_distrib)
  qed
qed

text \<open>A client that follows the page tokens until there is none.\<close>

fun follow_pages :: "nat \<Rightarrow> Store \<Rightarrow> string \<Rightarrow> int \<Rightarrow> string \<Rightarrow> ChatRoomSummary list option" where
  "follow_pages 0 s u limit tok = None"
| "follow_pages (Suc fuel) s u limit tok =
    (case mem_ListRoomsByUser s u limit tok of
       Inl e \<Rightarrow> None
     | Inr (page, nxt) \<Rightarrow>
        if nxt = [] then Some page
        else map_option ((@) page) (follow_pages fuel s u limit nxt))"

lemma follow_pages_from:
  assumes "mem_page_start tok = int k" "k \<le> length (mem_rooms s u)" "0 < limit"
    and "int (length (mem_rooms s u)) + limit < 2 ^ 63" "length (mem_rooms s u) - k < fuel"
  shows "follow_pages fuel s u limit tok = Some (drop k (mem_rooms s u))"
  using assms(1,2,5)
proof (induction fuel arbitrary: tok k)
  case (Suc fuel)
  show ?case
  proof (cases "k < length (mem_rooms s u)")
    case False
    then have "mem_ListRoomsByUser s u limit tok = Inr ([], [])"
      using Suc.prems(1) by (simp add: mem_ListRoomsByUser_def mem_rooms_def [symmetric] Let_def)
    with False show ?thesis by simp
  next
    case True
    note page = mem_ListRoomsByUser_page [OF Suc.prems(1) True assms(3,4)]
    show ?thesis
    proof (cases "k + nat limit < length (mem_rooms s u)")
      case False
      then show ?thesis using page by simp
    next
      case more: True
      have "int64_range (int (k + nat limit))"
        using more assms(3,4) by (simp add: int64_range_def)
      then have "mem_page_start (page_token (k + nat limit)) = int (k + nat limit)"
        by (rule mem_page_start_token)
      then have "follow_pages fuel s u limit (page_token (k + nat limit)) =
          Some (drop (k + nat limit) (mem_rooms s u))"
        using more Suc.prems(3) assms(3) by (intro Suc.IH) auto
      moreover have "take (nat limit) (drop k (mem_rooms s u)) @ drop (k + nat limit) (mem_rooms s u)
          = drop k (mem_rooms s u)"
        by (metis add.commute append_take_drop_id drop_drop)
      ultimately show ?thesis using page more by simp
    qed
  qed
qed simp

section \<open>What a page holds\<close>

lemma room_summary_SomeD:
  assumes "room_summary s u (rid, ms) = Some sm"
  shows "\<exists>m. map_of ms u = Some m \<and> mb_Status m = MemberStatusActive
    \<and> map_of (st_rooms s) rid = Some (sm_Room sm)
    \<and> (sm_UnreadCnt sm, sm_LastMessage sm) =
        scan_messages u (mb_LastReadSequenceNo m) (vals (inner (st_messages s) rid)) (0, None)"
  using assms by (auto simp: room_summary_def split: option.splits if_splits prod.splits)

lemma page_subset:
  "mem_ListRoomsByUser s u limit tok = Inr (page, nxt) \<Longrightarrow> set page \<subseteq> set (mem_rooms s u)"
  unfolding mem_ListRoomsByUser_def mem_rooms_def [symmetric] Let_def
  by (auto split: if_splits dest: in_set_takeD in_set_dropD)

text \<open>What a summary must say of the room \<open>rid\<close> for a member \<open>m\<close>.\<close>

definition summary_of :: "astore \<Rightarrow> string \<Rightarrow> ChatRoomMember \<Rightarrow> ChatRoomSummary \<Rightarrow> bool" where
  "summary_of a rid m sm \<longleftrightarrow>
     a_rooms a rid = Some (sm_Room sm)
     \<and> sm_UnreadCnt sm = int (card {g \<in> ran (a_messages a rid).
         unread (mb_UserID m) (mb_LastReadSequenceNo m) g})
     \<and> (case sm_LastMessage sm of
          None \<Rightarrow> ran (a_messages a rid) = {}
        | Some l \<Rightarrow> (\<exists>g. is_last (ran (a_messages a rid)) g \<and> l = redact_preview g))"

lemma room_summary_correct:
  assumes "mem_inv s" "(rid, ms) \<in> set (st_members s)" "room_summary s u (rid, ms) = Some sm"
  shows "\<exists>m. a_members (mem_abs s) rid u = Some m \<and> mb_Status m = MemberStatusActive
    \<and> summary_of (mem_abs s) rid m sm"
proof -
  obtain m where m: "map_of ms u = Some m" "mb_Status m = MemberStatusActive"
    "map_of (st_rooms s) rid = Some (sm_Room sm)"
    "(sm_UnreadCnt sm, sm_LastMessage sm) =
        scan_messages u (mb_LastReadSequenceNo m) (vals (inner (st_messages s) rid)) (0, None)"
    using room_summary_SomeD [OF assms(3)] by blast
  let ?g = "vals (inner (st_messages s) rid)"
  have "wf_map (st_members s)" using assms(1) by (simp add: mem_inv_def wf_map2_def)
  then have "inner (st_members s) rid = ms"
    using assms(2) by (simp add: inner_def wf_map_def)
  with m(1) have mm: "a_members (mem_abs s) rid u = Some m" by simp
  then have u: "mb_UserID m = u" using mem.member_key [OF assms(1)] by blast
  have set: "set ?g = ran (a_messages (mem_abs s) rid)"
    using set_values_map_of [OF mem_invD(5) [OF assms(1)]] by simp
  have "distinct ?g"
    using distinct_vals_keyed [OF mem_invD(5) keyed_inner [OF mem_invD(6)]] assms(1) by blast
  then have "int (length (filter (unread u (mb_LastReadSequenceNo m)) ?g)) =
      int (card {g \<in> ran (a_messages (mem_abs s) rid). unread u (mb_LastReadSequenceNo m) g})"
    using set by (simp flip: distinct_card)
  then have cnt: "sm_UnreadCnt sm =
      int (card {g \<in> ran (a_messages (mem_abs s) rid). unread u (mb_LastReadSequenceNo m) g})"
    using m(4) scan_messages_unread [of u "mb_LastReadSequenceNo m" ?g 0 None]
    by (metis add_0 fst_conv)
  have "case sm_LastMessage sm of
      None \<Rightarrow> ran (a_messages (mem_abs s) rid) = {}
    | Some l \<Rightarrow> (\<exists>g. is_last (ran (a_messages (mem_abs s) rid)) g \<and> l = redact_preview g)"
  proof (cases "?g = []")
    case True
    then show ?thesis using m(4) set by simp
  next
    case False
    then obtain g where "is_last (set ?g) g"
      "snd (scan_messages u (mb_LastReadSequenceNo m) ?g (0, None)) = Some (redact_preview g)"
      using scan_messages_last by blast
    moreover have "sm_LastMessage sm = snd (scan_messages u (mb_LastReadSequenceNo m) ?g (0, None))"
      by (simp flip: m(4))
    ultimately show ?thesis unfolding set by auto
  qed
  with cnt mm m(2,3) u show ?thesis by (auto simp: summary_of_def)
qed

lemma mem_rooms_correct:
  assumes "mem_inv s" "sm \<in> set (mem_rooms s u)"
  shows "\<exists>rid m. a_members (mem_abs s) rid u = Some m \<and> mb_Status m = MemberStatusActive
    \<and> summary_of (mem_abs s) rid m sm"
proof -
  obtain e where "e \<in> set (st_members s)" "room_summary s u e = Some sm"
    using assms(2) by (auto simp: mem_rooms_def map_filter_def)
  then show ?thesis using room_summary_correct [OF assms(1)] by (metis prod.collapse)
qed

text \<open>A store for examples: a board room with two members and two messages, one of them deleted.\<close>

definition sample_msg :: "string \<Rightarrow> string \<Rightarrow> int \<Rightarrow> bool \<Rightarrow> ChatMessage" where
  "sample_msg i sender n del = \<lparr>mg_ID = i, mg_RoomID = ''r1'', mg_SenderUserID = sender,
     mg_MessageType = MessageTypeText, mg_SequenceNo = n, mg_Content = (if del then [] else ''hi''),
     mg_ImageURL = [], mg_FileURL = [], mg_Metadata = None, mg_IsDeleted = del,
     mg_DeletedAt = (if del then Some 7 else None), mg_DeletedByUserID = (if del then ''u1'' else []),
     mg_CreatedAt = 5, mg_UpdatedAt = 5\<rparr>"

definition sample_member :: "string \<Rightarrow> string \<Rightarrow> MemberRole \<Rightarrow> MemberStatus \<Rightarrow> time \<Rightarrow> ChatRoomMember" where
  "sample_member i u role st joined = \<lparr>mb_ID = i, mb_RoomID = ''r1'', mb_UserID = u, mb_Role = role,
     mb_Status = st, mb_JoinedAt = joined, mb_LeftAt = (if st = MemberStatusLeft then Some 9 else None),
     mb_RemovedAt = None, mb_RemovedByUserID = [], mb_LastReadSequenceNo = 0, mb_LastReadAt = None,
     mb_CreatedAt = joined, mb_UpdatedAt = joined\<rparr>"

definition sample_room :: ChatRoom where
  "sample_room = \<lparr>rm_ID = ''r1'', rm_RoomType = RoomTypeBoardLinkedGroup, rm_Title = ''t'',
     rm_LinkedBoardID = ''b1'', rm_OwnerUserID = ''u1'', rm_IsActive = True, rm_CreatedAt = 1,
     rm_UpdatedAt = 5, rm_DeletedAt = None\<rparr>"

definition sample_store :: Store where
  "sample_store = \<lparr>st_rooms = [(''r1'', sample_room)],
     st_members = [(''r1'', [(''u1'', sample_member ''m1'' ''u1'' MemberRoleOwner MemberStatusActive 1),
                             (''u2'', sample_member ''m2'' ''u2'' MemberRoleMember MemberStatusActive 2),
                             (''u3'', sample_member ''m3'' ''u3'' MemberRoleMember MemberStatusLeft 3)])],
     st_messages = [(''r1'', [(''g1'', sample_msg ''g1'' ''u2'' 1 False),
                              (''g2'', sample_msg ''g2'' ''u1'' 2 True)])],
     st_devices = [], st_maxSeq = [(''r1'', 2)]\<rparr>"

lemma sample_store_inv: "mem_inv sample_store"
  by (simp add: mem_inv_def sample_store_def wf_map_def wf_map2_def keyed_def keyed2_def
      sample_room_def sample_member_def sample_msg_def)

text \<open>
  C28. Every entry of a page that \<^verbatim>\<open>ListRoomsByUser\<close> of the in-memory store returns belongs to a room of
  which the user is an active member; its unread count is the number of messages of the room above
  the member's read cursor that someone else sent; and its last message is the room's message with
  the highest sequence number, without content, image and metadata when that message is deleted.
\<close>

theorem mem_ListRoomsByUser_summaries:
  assumes "mem_inv s" and "mem_ListRoomsByUser s userID limit tok = Inr (page, nxt)" and "sm \<in> set page"
  shows "\<exists>rid m. a_members (mem_abs s) rid userID = Some m \<and> mb_Status m = MemberStatusActive
    \<and> summary_of (mem_abs s) rid m sm"
  using assms page_subset mem_rooms_correct by blast

theorem mem_ListRoomsByUser_summaries_witness:
  "\<exists>page sm. mem_inv sample_store \<and> mem_ListRoomsByUser sample_store ''u1'' 1 [] = Inr (page, [])
     \<and> sm \<in> set page \<and> sm_UnreadCnt sm = 1
     \<and> (\<exists>rid m. a_members (mem_abs sample_store) rid ''u1'' = Some m
          \<and> mb_Status m = MemberStatusActive \<and> summary_of (mem_abs sample_store) rid m sm)"
proof -
  obtain sm where r: "mem_ListRoomsByUser sample_store ''u1'' 1 [] = Inr ([sm], [])" "sm_UnreadCnt sm = 1"
    by (simp add: mem_ListRoomsByUser_def sample_store_def room_summary_def inner_def vals_def
        sample_member_def sample_msg_def mem_page_start_def map_filter_def wrap64_def)
  show ?thesis
    using mem_ListRoomsByUser_summaries [OF sample_store_inv r(1), of sm] r sample_store_inv by auto
qed

lemma room_summary_exists:
  assumes "a_members (mem_abs s) rid u = Some m" "mb_Status m = MemberStatusActive"
    "a_rooms (mem_abs s) rid = Some r"
  shows "\<exists>sm \<in> set (mem_rooms s u). sm_Room sm = r"
proof -
  obtain ms where ms: "(rid, ms) \<in> set (st_members s)" "map_of ms u = Some m"
    using assms(1) by (auto simp: inner_def split: option.splits dest: map_of_SomeD)
  then obtain sm where "room_summary s u (rid, ms) = Some sm" "sm_Room sm = r"
    using assms(2,3)
    by (cases "scan_messages u (mb_LastReadSequenceNo m) (vals (inner (st_messages s) rid)) (0, None)")
       (auto simp: room_summary_def)
  with ms(1) have "sm \<in> set (mem_rooms s u)"
    unfolding mem_rooms_def by (force simp: map_filter_def)
  with \<open>sm_Room sm = r\<close> show ?thesis by blast
qed

lemma mem_rooms_sorted: "sorted (map (\<lambda>sm. - rm_UpdatedAt (sm_Room sm)) (mem_rooms s u))"
  unfolding mem_rooms_def
  by (subst sort_stable_key [where f = "\<lambda>sm. - rm_UpdatedAt (sm_Room sm)"]) simp_all

text \<open>
  A client that follows the page tokens from the first page reaches a page without token after at
  most one page per room. The pages together list the rooms most recently updated first, and every
  room of which the user is an active member is among them.
\<close>

theorem mem_pages_complete:
  assumes "0 < limit" and "int (length (mem_rooms s userID)) + limit < 2 ^ 63"
  shows "\<exists>rooms. follow_pages (Suc (length (mem_rooms s userID))) s userID limit [] = Some rooms
    \<and> sorted (map (\<lambda>sm. - rm_UpdatedAt (sm_Room sm)) rooms)
    \<and> (\<forall>rid m r. a_members (mem_abs s) rid userID = Some m \<and> mb_Status m = MemberStatusActive
         \<and> a_rooms (mem_abs s) rid = Some r \<longrightarrow> (\<exists>sm \<in> set rooms. sm_Room sm = r))"
proof (intro exI conjI)
  show "follow_pages (Suc (length (mem_rooms s userID))) s userID limit [] = Some (mem_rooms s userID)"
    using follow_pages_from [of "[]" 0 s userID limit] assms
    by (simp add: mem_page_start_def del: follow_pages.simps)
qed (use room_summary_exists mem_rooms_sorted in blast)+

theorem mem_pages_complete_witness:
  "length (mem_rooms sample_store ''u1'') = 1 \<and>
   (\<exists>rooms. follow_pages (Suc 1) sample_store ''u1'' 1 [] = Some rooms
      \<and> (\<exists>sm \<in> set rooms. sm_Room sm = sample_room))"
proof -
  have 1: "length (mem_rooms sample_store ''u1'') = 1"
    by (simp add: mem_rooms_def sample_store_def room_summary_def inner_def vals_def
        sample_member_def sample_msg_def map_filter_def sample_room_def)
  have "a_members (mem_abs sample_store) ''r1'' ''u1'' = Some (sample_member ''m1'' ''u1'' MemberRoleOwner MemberStatusActive 1)"
    "mb_Status (sample_member ''m1'' ''u1'' MemberRoleOwner MemberStatusActive 1) = MemberStatusActive"
    "a_rooms (mem_abs sample_store) ''r1'' = Some sample_room"
    by (simp_all add: sample_store_def inner_def sample_member_def)
  then show ?thesis
    using mem_pages_complete [of 1 sample_store "''u1''"] 1 by (fastforce simp del: follow_pages.simps)
qed

end
