(* ===== verification/MessageProperties.thy ===== *)
theory MessageProperties
  imports RoomProperties RoomListing
begin

text \<open>
  What the service promises about messages, read cursors, notifications and device tokens, stated
  over the reads of the in-memory store in every reachable state.
\<close>

declare mem_abs_sel [simp del]

lemma reachable_inv:
  "reachable svc w \<Longrightarrow> mem_inv (w_db w)" "reachable svc w \<Longrightarrow> messages_inv (mem_abs (w_db w))"
  "reachable svc w \<Longrightarrow> tokens_inv (mem_abs (w_db w))"
  using reachable_sound mem.soundD by blast+

lemma max_seq_abs: "a_maxSeq (mem_abs s) rid = max_seq s rid"
  by (simp add: mem_abs_sel)

section \<open>Numbering\<close>

lemma numbered_reads:
  assumes "mem_inv s" "messages_inv (mem_abs s)"
  shows "{mg_SequenceNo x | x i. mem_GetMessage s rid i = Inr x} = {1..max_seq s rid}
    \<and> (\<forall>i j x y. mem_GetMessage s rid i = Inr x \<and> mem_GetMessage s rid j = Inr y
         \<and> mg_SequenceNo x = mg_SequenceNo y \<longrightarrow> i = j)"
proof -
  let ?ms = "a_messages (mem_abs s) rid"
  have n: "inj_on mg_SequenceNo (ran ?ms)" "mg_SequenceNo ` ran ?ms = {1..max_seq s rid}"
    using messages_invD(1) [OF assms(2), of rid] by (simp_all add: numbered_def max_seq_abs)
  have "{mg_SequenceNo x | x i. ?ms i = Some x} = mg_SequenceNo ` ran ?ms" by (auto simp: ran_def)
  moreover have "i = j" if "?ms i = Some x" "?ms j = Some y" "mg_SequenceNo x = mg_SequenceNo y" for i j x y
  proof -
    have "x = y" using inj_onD [OF n(1) that(3)] that(1,2) by (simp add: ranI)
    then show ?thesis using mem.message_key [OF assms(1) that(1)] mem.message_key [OF assms(1) that(2)] by simp
  qed
  ultimately show ?thesis unfolding mem_reads n(2) [symmetric]
    by (intro conjI allI impI) (assumption, elim conjE)
qed

text \<open>
  C2. In every reachable state the messages of a room carry the sequence numbers \<open>1, ..., n\<close> without
  gaps, where \<open>n\<close> is the room's counter, and no two messages of a room share a number.
\<close>

theorem sequence_numbers:
  assumes "reachable svc w"
  shows "{mg_SequenceNo x | x i. mem_GetMessage (w_db w) rid i = Inr x} = {1..max_seq (w_db w) rid}
    \<and> (\<forall>i j x y. mem_GetMessage (w_db w) rid i = Inr x \<and> mem_GetMessage (w_db w) rid j = Inr y
         \<and> mg_SequenceNo x = mg_SequenceNo y \<longrightarrow> i = j)"
  by (rule numbered_reads) (use reachable_inv [OF assms] in simp_all)

theorem sequence_numbers_witness:
  "{mg_SequenceNo x | x i. mem_GetMessage (w_db demo) (uid 0) i = Inr x} = {1..1}"
  using sequence_numbers [OF demo_reachable, of "uid 0"] by (simp add: demo max_seq_def)

text \<open>
  C15. A message, once stored, keeps its number, its sender and its type for ever, and is either
  unchanged or deleted; a deleted message has no content, image, file and metadata, and stays deleted.
\<close>

theorem message_history:
  assumes "reachable svc w" and "mem_GetMessage (w_db w) rid i = Inr x" and "(chat_step svc mem_abs)\<^sup>*\<^sup>* w w'"
  shows "\<exists>x'. mem_GetMessage (w_db w') rid i = Inr x' \<and> mg_SequenceNo x' = mg_SequenceNo x
    \<and> mg_SenderUserID x' = mg_SenderUserID x \<and> mg_MessageType x' = mg_MessageType x
    \<and> (x' = x \<or> mg_IsDeleted x' \<and> mg_Content x' = [] \<and> mg_ImageURL x' = [] \<and> mg_FileURL x' = [] \<and> mg_Metadata x' = None)
    \<and> (mg_IsDeleted x \<longrightarrow> mg_IsDeleted x')"
proof -
  from later_message [OF assms(1,3,2)] obtain x' where x': "mem_GetMessage (w_db w') rid i = Inr x'" "message_later x x'"
    by blast
  have "x' \<in> ran (a_messages (mem_abs (w_db w')) rid)" using x'(1) unfolding mem_reads by (rule ranI)
  with messages_invD(2) [OF reachable_inv(2) [OF reachable_steps [OF assms(1,3)]]] have "message_ok x'" by blast
  with x' show ?thesis by (auto simp: message_later_def message_ok_def)
qed

theorem message_history_witness:
  "\<exists>x'. mem_GetMessage (w_db (serve demo_service (CallDeleteMessage (uid 0) (uid 5) ''ann'') demo)) (uid 0) (uid 5) = Inr x'
    \<and> mg_SequenceNo x' = 1"
proof -
  have "(chat_step demo_service mem_abs)\<^sup>*\<^sup>* demo (serve demo_service (CallDeleteMessage (uid 0) (uid 5) ''ann'') demo)"
    by (intro r_into_rtranclp chat_step.request) simp
  from message_history [OF demo_reachable demo_facts(9) this] show ?thesis by (auto simp: greeting_def)
qed

section \<open>Sending\<close>

text \<open>The devices that are notified, over the reads of the store.\<close>

lemma push_targets_read:
  assumes "reachable svc w"
  shows "push_targets (mem_abs (w_db w)) rid u = {t. \<exists>m d. mem_GetMember (w_db w) rid (mb_UserID m) = Inr m
      \<and> mb_Status m = MemberStatusActive \<and> mb_UserID m \<noteq> u
      \<and> a_devices (mem_abs (w_db w)) (mb_UserID m) d = Some t \<and> dt_IsActive t \<and> TrimSpace (dt_Token t) \<noteq> []}"
proof -
  have "m \<in> active_members (mem_abs (w_db w)) rid \<longleftrightarrow>
      mem_GetMember (w_db w) rid (mb_UserID m) = Inr m \<and> mb_Status m = MemberStatusActive" for m
    using mem.member_key [OF reachable_inv(1) [OF assms], of rid]
    unfolding mem_reads active_members_def by (auto simp: ran_def)
  then show ?thesis unfolding push_targets_def Bex_def by (auto simp: ran_def)
qed

text \<open>
  What a message says about its attachment, in terms of the request: \<open>meta_map\<close> is the lookup in the metadata, an
  absent map is empty. The stored message of an image or a file names the object that the trusted URL names, in
  place of the URL and under \<^verbatim>\<open>object_name\<close>; all other metadata are kept.
\<close>

definition meta_map :: "metadata \<Rightarrow> string \<rightharpoonup> any" where
  "meta_map md = (case md of None \<Rightarrow> Map.empty | Some m \<Rightarrow> map_of m)"

definition text_field :: "metadata \<Rightarrow> string \<Rightarrow> string" where
  "text_field md key = (case meta_map md key of Some (AString s) \<Rightarrow> TrimSpace s | _ \<Rightarrow> [])"

definition stored_references :: "'s ChatService \<Rightarrow> string \<Rightarrow> MessageType \<Rightarrow> string \<Rightarrow> metadata \<Rightarrow> string \<Rightarrow> metadata \<Rightarrow> bool" where
  "stored_references svc rid mt img md img' md' = (case mt of
     MessageTypeImage \<Rightarrow> (\<exists>obj. extractTrustedStorageObjectName img (cs_trustedAttachmentBucket svc) rid = Inr obj
       \<and> img' = obj \<and> meta_map md' = (meta_map md)(''object_name'' \<mapsto> AString obj))
   | MessageTypeFile \<Rightarrow>
       (\<exists>obj. extractTrustedStorageObjectName (text_field md ''file_url'') (cs_trustedAttachmentBucket svc) rid = Inr obj
       \<and> img' = img \<and> meta_map md' = (meta_map md)(''file_url'' \<mapsto> AString obj, ''object_name'' \<mapsto> AString obj))
   | _ \<Rightarrow> img' = img \<and> meta_map md' = meta_map md)"

lemma text_field_extract: "extractStringMetadata md key = text_field md key"
  by (simp add: extractStringMetadata_def text_field_def meta_map_def split: option.split)

lemma meta_clone:
  assumes "pred_option wf_map md"
  shows "meta_map (cloneMetadata md) = meta_map md" "map_of (cloned_or_empty md) = meta_map md"
  using assms by (cases md; simp add: cloneMetadata_def cloned_or_empty_def meta_map_def clone_map_id)+

lemma normalize_references:
  assumes "normalizeAttachmentReferences svc rid mt img md = Inr (img', md')" "pred_option wf_map md"
  shows "stored_references svc rid mt img md img' md'"
  using assms(1) meta_clone [OF assms(2)]
  by (cases mt) (auto simp: normalizeAttachmentReferences_def stored_references_def text_field_extract meta_map_def [of "Some _"]
      update_conv' split: sum.splits)

text \<open>
  C5. An active member of an open room sends a valid message: the whole effect. The stored message is the request
  with the new identifier, the number after the room's highest, the current time for both its times and the
  references as above; besides it the store changes in the room's counter and the room's time
  of update only, so members, devices, other rooms and all other messages are as before. The message is published
  on the room's channels and pushed once to every device of the other active members, if there is a push
  sender. The answer is the message with its attachment rewritten for reading, or the read signer's error
  although the message is stored; without a read signer it is the stored message. Assumed: the random
  identifier is not in use, the counter is below the largest \<^verbatim>\<open>int64\<close>, the metadata have distinct keys.
\<close>

theorem SendMessage_effect:
  assumes "reachable svc w" and "mem_GetRoom (w_db w) rid = Inr r" and "room_open r"
    and "mem_GetMember (w_db w) rid u = Inr m" and "mb_Status m = MemberStatusActive"
    and "validateMessagePayload mt content img md = Inr ()"
    and "validateTrustedAttachmentURL svc rid mt img md = Inr ()"
    and "fresh_message_id (mem_abs (w_db w)) (next_message_id w)" and "int64_range (max_seq (w_db w) rid + 1)"
    and "pred_option wf_map md"
  shows "\<exists>saved img' md' x w' ts. svc_SendMessage svc rid u mt content img md w = (x, w')
    \<and> (\<exists>g g'. hydrateMessageForDelivery svc saved g = (x, g')) \<and> (cs_attachmentReadSigner svc = None \<longrightarrow> x = Inr saved)
    \<and> saved = \<lparr>mg_ID = next_message_id w, mg_RoomID = rid, mg_SenderUserID = u, mg_MessageType = mt,
         mg_SequenceNo = max_seq (w_db w) rid + 1, mg_Content = content, mg_ImageURL = img',
         mg_FileURL = text_field md' ''file_url'', mg_Metadata = md', mg_IsDeleted = False, mg_DeletedAt = None,
         mg_DeletedByUserID = [], mg_CreatedAt = next_time w, mg_UpdatedAt = next_time w\<rparr>
    \<and> stored_references svc rid mt img md img' md'
    \<and> mem_abs (w_db w') = (mem_abs (w_db w))
        \<lparr>a_rooms := (a_rooms (mem_abs (w_db w)))(rid \<mapsto> r\<lparr>rm_UpdatedAt := next_time w\<rparr>),
         a_messages := (a_messages (mem_abs (w_db w)))
           (rid := (a_messages (mem_abs (w_db w)) rid)(next_message_id w \<mapsto> saved)),
         a_maxSeq := (a_maxSeq (mem_abs (w_db w)))(rid := max_seq (w_db w) rid + 1)\<rparr>
    \<and> ps_Publish (w_ps w) rid saved = Some (w_ps w')
    \<and> w_push w' = w_push w @ map (push_for saved) ts \<and> distinct ts
    \<and> set ts = (if cs_pushSender svc = None then {} else
        {t. \<exists>m d. mem_GetMember (w_db w) rid (mb_UserID m) = Inr m \<and> mb_Status m = MemberStatusActive \<and> mb_UserID m \<noteq> u
            \<and> a_devices (mem_abs (w_db w)) (mb_UserID m) d = Some t \<and> dt_IsActive t \<and> TrimSpace (dt_Token t) \<noteq> []})"
proof -
  let ?a = "mem_abs (w_db w)"
  let ?saved = "saved_message ?a (stored_form svc w rid u mt content img md)"
  have may: "may_send svc ?a rid u mt content img md" using assms(2-7) unfolding mem_reads may_send_def by blast
  have can: "mem.can_send w rid" using assms(8,9) by (simp add: mem.can_send_def max_seq_abs)
  obtain x w' where x: "svc_SendMessage svc rid u mt content img md w = (x, w')" by fastforce
  from wpD [OF mem.wp_SendMessage [OF reachable_sound [OF assms(1)] reachable_good(2) [OF assms(1)] can] x] may
  obtain g g' where s: "mem.sent svc rid ?saved w w'" "hydrateMessageForDelivery svc ?saved g = (x, g')" by (auto split: sum.splits)
  have unsigned: "cs_attachmentReadSigner svc = None \<longrightarrow> x = Inr ?saved" using s(2) by (auto simp: hydrateMessageForDelivery_def)
  from trusted_normalizes [OF assms(7)] obtain img' md' where
    nrm: "normalizeAttachmentReferences svc rid mt img md = Inr (img', md')" by (metis surj_pair)
  then have saved: "?saved = saved_message ?a (new_message (next_message_id w) rid u mt content img' md' (next_time w))"
    by (simp add: stored_form_def)
  have refs: "stored_references svc rid mt img md img' md'" by (rule normalize_references [OF nrm assms(10)])
  have rec: "?saved = \<lparr>mg_ID = next_message_id w, mg_RoomID = rid, mg_SenderUserID = u, mg_MessageType = mt,
      mg_SequenceNo = max_seq (w_db w) rid + 1, mg_Content = content, mg_ImageURL = img',
      mg_FileURL = text_field md' ''file_url'', mg_Metadata = md', mg_IsDeleted = False, mg_DeletedAt = None,
      mg_DeletedByUserID = [], mg_CreatedAt = next_time w, mg_UpdatedAt = next_time w\<rparr>"
    unfolding saved by (simp add: saved_message_def new_message_def max_seq_abs text_field_extract)
  have r: "a_rooms ?a rid = Some r" using assms(2) unfolding mem_reads .
  from s(1) [unfolded mem.sent_def] obtain r0 ts where r0: "a_rooms ?a rid = Some r0"
    "mem_abs (w_db w') = sent_store ?a ?saved (r0\<lparr>rm_UpdatedAt := next_time w\<rparr>)"
    and p: "ps_Publish (w_ps w) rid ?saved = Some (w_ps w')" "w_push w' = w_push w @ map (push_for ?saved) ts"
    and ts0: "if cs_pushSender svc = None then ts = []
      else lists_sorted (\<lambda>t. (dt_UserID t, dt_DeviceID t)) (push_targets ?a rid (mg_SenderUserID ?saved)) ts" by blast
  have a': "mem_abs (w_db w') = sent_store ?a ?saved (r\<lparr>rm_UpdatedAt := next_time w\<rparr>)" using r0 r by simp
  have ts: "distinct ts" "set ts = (if cs_pushSender svc = None then {} else push_targets ?a rid u)"
    using ts0 by (auto simp: lists_sorted_def split: if_splits)
  have "mem_abs (w_db w') = ?a\<lparr>a_rooms := (a_rooms ?a)(rid \<mapsto> r\<lparr>rm_UpdatedAt := next_time w\<rparr>),
      a_messages := (a_messages ?a)(rid := (a_messages ?a rid)(next_message_id w \<mapsto> ?saved)),
      a_maxSeq := (a_maxSeq ?a)(rid := max_seq (w_db w) rid + 1)\<rparr>"
    unfolding a' by (simp add: sent_store_def put_message_def max_seq_abs)
  with x s(2) unsigned rec refs p ts show ?thesis unfolding push_targets_read [OF assms(1)]
    by (intro exI [of _ ?saved] exI [of _ img'] exI [of _ md'] exI [of _ x] exI [of _ w'] exI [of _ ts] conjI) (rule exI | assumption)+
qed

lemma demo_send:
  "validateMessagePayload MessageTypeText ''yo'' [] None = Inr ()"
  "validateTrustedAttachmentURL demo_service (uid 0) MessageTypeText [] None = Inr ()"
  "fresh_message_id (mem_abs (w_db demo)) (next_message_id demo)"
  "int64_range (max_seq (w_db demo) (uid 0) + 1)"
proof -
  have i: "next_message_id demo = uid 11" "uid 11 \<noteq> uid 5"
    by (simp add: next_message_id_def demo) code_simp
  show "fresh_message_id (mem_abs (w_db demo)) (next_message_id demo)"
    using i by (simp add: fresh_message_id_def demo mem_abs_sel inner_def)
qed (simp_all add: validateMessagePayload_def validateTrustedAttachmentURL_def Let_def demo max_seq_def int64_range_def
    TrimSpace_visible visible_def)

theorem SendMessage_effect_witness:
  "\<exists>saved w'. svc_SendMessage demo_service (uid 0) ''bob'' MessageTypeText ''yo'' [] None demo = (Inr saved, w')
     \<and> mg_SequenceNo saved = 2 \<and> mem_GetMessage (w_db w') (uid 0) (mg_ID saved) = Inr saved"
proof -
  have "max_seq (w_db demo) (uid 0) = 1" by (simp add: demo max_seq_def)
  with SendMessage_effect [OF demo_reachable demo_facts(1,2,7) _ demo_send] show ?thesis
    unfolding mem_reads by fastforce
qed

text \<open>
  C9. The notifications of a message go to the registered devices of the other active members of the
  room, one each: never to the sender, to somebody who left or was removed, or to a device whose
  token was unregistered. Without a push sender there are none.
\<close>

theorem push_recipients:
  assumes "reachable svc w" and "svc_SendMessage svc rid u mt content img md w = (Inr x, w')"
    and "fresh_message_id (mem_abs (w_db w)) (next_message_id w)" and "int64_range (max_seq (w_db w) rid + 1)"
  shows "\<exists>saved ts. w_push w' = w_push w @ map (push_for saved) ts \<and> mg_ID saved = mg_ID x \<and> distinct ts
    \<and> set ts = (if cs_pushSender svc = None then {} else
        {t. \<exists>m d. mem_GetMember (w_db w) rid (mb_UserID m) = Inr m \<and> mb_Status m = MemberStatusActive \<and> mb_UserID m \<noteq> u
            \<and> a_devices (mem_abs (w_db w)) (mb_UserID m) d = Some t \<and> dt_IsActive t \<and> TrimSpace (dt_Token t) \<noteq> []})"
proof -
  let ?a = "mem_abs (w_db w)"
  let ?saved = "saved_message ?a (stored_form svc w rid u mt content img md)"
  have can: "mem.can_send w rid" using assms(3,4) by (simp add: mem.can_send_def max_seq_abs)
  from wpD [OF mem.wp_SendMessage [OF reachable_sound [OF assms(1)] reachable_good(2) [OF assms(1)] can] assms(2)]
  obtain g g' where s: "mem.sent svc rid ?saved w w'" and h: "hydrateMessageForDelivery svc ?saved g = (Inr x, g')"
    by auto
  from s obtain ts where p: "w_push w' = w_push w @ map (push_for ?saved) ts"
    and ts: "if cs_pushSender svc = None then ts = [] else lists_sorted (\<lambda>t. (dt_UserID t, dt_DeviceID t))
           (push_targets ?a rid (mg_SenderUserID ?saved)) ts"
    by (auto simp: mem.sent_def)
  have "mg_ID x = mg_ID ?saved"
    using hydrate_same [OF h] unfolding same_message_def
    by (metis ChatMessage.surjective ChatMessage.select_convs(1) ChatMessage.update_convs(7,8,9))
  moreover have "mg_SenderUserID ?saved = u" by simp
  ultimately show ?thesis
    using p ts push_targets_read [OF assms(1), of rid u] by (intro exI [of _ ?saved] exI [of _ ts]) (auto simp: lists_sorted_def split: if_splits)
qed

theorem push_recipients_witness:
  "\<exists>x w' saved. svc_SendMessage demo_service (uid 0) ''ann'' MessageTypeText ''yo'' [] None demo = (Inr x, w')
     \<and> w_push w' = [push_for saved (phone ''bob'' ''tb'' 60)]"
proof -
  have "\<exists>x w'. svc_SendMessage demo_service (uid 0) ''ann'' MessageTypeText ''yo'' [] None demo = (Inr x, w')"
    using mem.wp_SendMessage [OF reachable_sound [OF demo_reachable], of demo_service "uid 0" "''ann''" MessageTypeText "''yo''" "[]" None]
      demo_send demo_facts(1,2,6)
    by (auto simp: wp_def mem.can_send_def max_seq_abs may_send_def mem_reads hydrateMessageForDelivery_def
        split: prod.splits sum.splits)
  then obtain x w' where x: "svc_SendMessage demo_service (uid 0) ''ann'' MessageTypeText ''yo'' [] None demo = (Inr x, w')"
    by blast
  have "{t. \<exists>m d. mem_GetMember (w_db demo) (uid 0) (mb_UserID m) = Inr m \<and> mb_Status m = MemberStatusActive \<and> mb_UserID m \<noteq> ''ann''
      \<and> a_devices (mem_abs (w_db demo)) (mb_UserID m) d = Some t \<and> dt_IsActive t \<and> TrimSpace (dt_Token t) \<noteq> []}
    = {phone ''bob'' ''tb'' 60}"
    by (auto simp: demo_reads mem_abs_sel inner_def phone_def TrimSpace_visible visible_def split: if_splits
        intro!: exI [of _ bob] exI [of _ "''d''"])
  with push_recipients [OF demo_reachable x demo_send(3,4)] obtain saved ts where
    ts: "w_push w' = w_push demo @ map (push_for saved) ts" "distinct ts" "set ts = {phone ''bob'' ''tb'' 60}" by auto
  have "length ts = 1" using distinct_card [OF ts(2)] ts(3) by simp
  then obtain t where "ts = [t]" by (auto simp: length_Suc_conv)
  then have "w_push w' = [push_for saved (phone ''bob'' ''tb'' 60)]" using ts(1,3) by (simp add: demo)
  with x show ?thesis by blast
qed

text \<open>
  Which messages are well formed, and why an attachment is refused: the bucket must be configured and the URL
  be an \<^verbatim>\<open>https\<close> URL of the storage host below the room's folder.
\<close>

definition payload_ok :: "MessageType \<Rightarrow> string \<Rightarrow> string \<Rightarrow> metadata \<Rightarrow> bool" where
  "payload_ok mt content img md = (case mt of
     MessageTypeText \<Rightarrow> TrimSpace content \<noteq> [] \<and> TrimSpace img = []
   | MessageTypeImage \<Rightarrow> TrimSpace img \<noteq> [] \<and> TrimSpace content = [] \<and> text_field md ''file_url'' = []
   | MessageTypeFile \<Rightarrow> TrimSpace img = [] \<and> TrimSpace content = []
       \<and> (\<forall>key \<in> {''file_url'', ''file_name'', ''content_type''}. text_field md key \<noteq> [])
   | MessageTypeSystem \<Rightarrow> TrimSpace content \<noteq> []
   | MessageTypeOther _ \<Rightarrow> False)"

definition attachment_refusal :: "string \<Rightarrow> string \<Rightarrow> MessageType \<Rightarrow> string \<Rightarrow> metadata \<Rightarrow> error option" where
  "attachment_refusal bucket rid mt img md =
    (if mt \<notin> {MessageTypeImage, MessageTypeFile} then None
     else if bucket = [] then Some ErrNotConfigured
     else case url_Parse (TrimSpace (if mt = MessageTypeImage then img else text_field md ''file_url'')) of
            None \<Rightarrow> Some ErrInvalidArgument
          | Some url \<Rightarrow>
             (let folder = ''/'' @ TrimSpace bucket @ ''/chat-attachments/'' @ TrimSpace rid @ ''/'' in
              if url_Scheme url = ''https'' \<and> EqualFold (url_Host url) ''storage.googleapis.com''
                 \<and> (HasPrefix (EscapedPath url) folder \<or> HasPrefix (url_Path url) folder)
              then None else Some ErrPermissionDenied))"

definition send_refusal ::
  "Store \<Rightarrow> string \<Rightarrow> string \<Rightarrow> string \<Rightarrow> MessageType \<Rightarrow> string \<Rightarrow> string \<Rightarrow> metadata \<Rightarrow> error option" where
  "send_refusal s bucket rid u mt content img md =
    (case mem_GetRoom s rid of
       Inl _ \<Rightarrow> Some ErrNotFound
     | Inr r \<Rightarrow>
        if \<not> room_open r then Some ErrRoomInactive
        else (case mem_GetMember s rid u of
                Inl _ \<Rightarrow> Some ErrNotFound
              | Inr m \<Rightarrow>
                 if mb_Status m \<noteq> MemberStatusActive then Some ErrInvalidState
                 else if \<not> payload_ok mt content img md then Some ErrInvalidArgument
                 else attachment_refusal bucket rid mt img md))"

lemma payload_check: "validateMessagePayload mt content img md = (if payload_ok mt content img md then Inr () else Inl ErrInvalidArgument)"
  by (cases mt) (auto simp: validateMessagePayload_def payload_ok_def text_field_extract Let_def)

lemma attachment_check:
  "validateTrustedAttachmentURL svc rid mt img md =
    (case attachment_refusal (cs_trustedAttachmentBucket svc) rid mt img md of None \<Rightarrow> Inr () | Some e \<Rightarrow> Inl e)"
  by (cases mt) (auto simp: validateTrustedAttachmentURL_def attachment_refusal_def validateTrustedStorageURL_def
      extractTrustedStorageObjectName_def expected_prefix_def text_field_extract Let_def split: option.split)

text \<open>
  C18. Which messages are refused, and with which error: exactly when \<open>send_refusal\<close> gives one (no room, a closed
  room, no member record, a member who left or was removed, a malformed payload, an attachment outside the room's
  folder, in this order), and then nothing changes. Otherwise the message is stored; the only
  error that is possible then is the one of the read signer, after the message was stored. Assumed for a
  message that is stored: its identifier is not in use and the counter is below the largest \<^verbatim>\<open>int64\<close>.
\<close>

theorem SendMessage_refused:
  assumes "reachable svc w" and "fresh_message_id (mem_abs (w_db w)) (next_message_id w)" and "int64_range (max_seq (w_db w) rid + 1)"
  shows "case send_refusal (w_db w) (cs_trustedAttachmentBucket svc) rid u mt content img md of
      Some e \<Rightarrow> svc_SendMessage svc rid u mt content img md w = (Inl e, w)
    | None \<Rightarrow> (\<exists>x w' saved. svc_SendMessage svc rid u mt content img md w = (x, w')
        \<and> mem_GetMessage (w_db w) rid (next_message_id w) = Inl ErrNotFound
        \<and> mem_GetMessage (w_db w') rid (next_message_id w) = Inr saved
        \<and> (\<forall>e. x = Inl e \<longrightarrow> (\<exists>signer object g g'. cs_attachmentReadSigner svc = Some signer \<and> signer object g = (Inl e, g'))))"
proof (cases "send_refusal (w_db w) (cs_trustedAttachmentBucket svc) rid u mt content img md")
  case (Some e)
  have read: "mem_GetRoom (w_db w) rid = lookup_or ErrNotFound (a_rooms (mem_abs (w_db w)) rid)"
    "mem_GetMember (w_db w) rid u = lookup_or ErrNotFound (a_members (mem_abs (w_db w)) rid u)"
    using mem.GetRoom mem.GetMember reachable_inv(1) [OF assms(1)] by simp_all
  have "svc_SendMessage svc rid u mt content img md w = (Inl e, w)"
    using Some reachable_good(2) [OF assms(1)]
    by (auto simp: send_refusal_def svc_SendMessage_def validateActiveMembership_def bindP_def view_def room_open_def read payload_check
        attachment_check split: option.splits if_splits sum.splits)
  with Some show ?thesis by simp
next
  case None
  let ?saved = "saved_message (mem_abs (w_db w)) (stored_form svc w rid u mt content img md)"
  have may: "may_send svc (mem_abs (w_db w)) rid u mt content img md"
    using None unfolding may_send_def mem_reads [symmetric]
    by (auto simp: send_refusal_def payload_check attachment_check split: sum.splits if_splits)
  have can: "mem.can_send w rid" using assms(2,3) by (simp add: mem.can_send_def max_seq_abs)
  obtain x w' where x: "svc_SendMessage svc rid u mt content img md w = (x, w')" by fastforce
  from wpD [OF mem.wp_SendMessage [OF reachable_sound [OF assms(1)] reachable_good(2) [OF assms(1)] can] x] may
  obtain g g' where s: "mem.sent svc rid ?saved w w'" "hydrateMessageForDelivery svc ?saved g = (x, g')" by (auto split: sum.splits)
  have "mem_GetMessage (w_db w') rid (next_message_id w) = Inr ?saved"
    using s(1) unfolding mem_reads by (auto simp: mem.sent_def)
  moreover have "mem_GetMessage (w_db w) rid (next_message_id w) = Inl ErrNotFound"
    using assms(2) mem.GetMessage [OF reachable_inv(1) [OF assms(1)], of rid "next_message_id w"] by (simp add: fresh_message_id_def)
  moreover have "\<forall>e. x = Inl e \<longrightarrow> (\<exists>signer object g g'. cs_attachmentReadSigner svc = Some signer \<and> signer object g = (Inl e, g'))"
    using s(2) hydrate_error by blast
  ultimately show ?thesis using None x by simp
qed

theorem SendMessage_refused_witness:
  "svc_SendMessage demo_service (uid 0) ''eve'' MessageTypeText ''yo'' [] None demo = (Inl ErrInvalidState, demo)
    \<and> (\<exists>x w' saved. svc_SendMessage demo_service (uid 0) ''bob'' MessageTypeText ''yo'' [] None demo = (x, w')
        \<and> mem_GetMessage (w_db w') (uid 0) (next_message_id demo) = Inr saved)"
proof -
  note rule = SendMessage_refused [OF demo_reachable demo_send(3,4)]
  have "payload_ok MessageTypeText ''yo'' [] None" by (simp add: payload_ok_def TrimSpace_visible visible_def)
  then have "send_refusal (w_db demo) (cs_trustedAttachmentBucket demo_service) (uid 0) ''eve'' MessageTypeText ''yo'' [] None = Some ErrInvalidState"
    "send_refusal (w_db demo) (cs_trustedAttachmentBucket demo_service) (uid 0) ''bob'' MessageTypeText ''yo'' [] None = None"
    by (simp_all add: send_refusal_def attachment_refusal_def demo_facts)
  with rule [of "''eve''" MessageTypeText "''yo''" "[]" None] rule [of "''bob''" MessageTypeText "''yo''" "[]" None]
  show ?thesis by auto
qed

section \<open>Deleting\<close>

text \<open>What readers are shown of a message: nothing of its content, image, file and metadata.\<close>

definition shows_nothing :: "ChatMessage \<Rightarrow> bool" where
  "shows_nothing y \<longleftrightarrow> mg_IsDeleted y \<and> mg_Content y = [] \<and> mg_ImageURL y = [] \<and> mg_FileURL y = [] \<and> mg_Metadata y = None"

lemma presented_deleted: "presented m x \<Longrightarrow> mg_IsDeleted m \<Longrightarrow> shows_nothing x \<and> mg_ID x = mg_ID m"
  by (simp add: presented_def redacted_def shows_nothing_def)

lemma page_shows_nothing:
  assumes w: "reachable svc w" and x: "mem_GetMessage (w_db w) rid i = Inr x" "mg_IsDeleted x"
    and run: "svc_GetMessages svc rid v before limit w = (Inr (page, nxt), w')" and y: "y \<in> set page" "mg_ID y = i"
  shows "shows_nothing y"
proof -
  from wpD [OF mem.wp_GetMessages [OF reachable_sound [OF w] reachable_good(2) [OF w]] run] obtain all where
    "set all = older_messages (mem_abs (w_db w)) rid before" "list_all2 presented (take (page_size limit) all) page" by auto
  with list_all2_in [OF _ y(1)] obtain m where m: "m \<in> ran (a_messages (mem_abs (w_db w)) rid)" "presented m y"
    by (metis (no_types, lifting) in_set_takeD mem_Collect_eq older_messages_def)
  then have "mg_ID m = i" using presented_deleted y(2) presented_ID by auto
  with m(1) mem.message_key [OF reachable_inv(1) [OF w]] x have "m = x" unfolding mem_reads by (auto simp: ran_def)
  with m(2) x(2) presented_deleted show ?thesis by blast
qed

lemma preview_shows_nothing:
  assumes w: "reachable svc w" and x: "mem_GetMessage (w_db w) rid i = Inr x" "mg_IsDeleted x"
    and run: "svc_ListMyRooms svc v limit tok w = (Inr (page, nxt), w')" and sm: "sm \<in> set page"
    and y: "sm_LastMessage sm = Some y" "mg_ID y = i" "mg_RoomID y = rid"
  shows "shows_nothing y"
proof -
  note inv = reachable_inv(1) [OF w]
  have "\<exists>n. mem_ListRoomsByUser (w_db w) v n tok = Inr (page, nxt)"
    using run reachable_good(2) [OF w] by (auto simp: svc_ListMyRooms_def view_def Let_def)
  then have "sm \<in> set (mem_rooms (w_db w) v)" using page_subset sm by blast
  from mem_rooms_correct [OF inv this] y(1) obtain rid' g where
    g: "g \<in> ran (a_messages (mem_abs (w_db w)) rid')" "y = redact_preview g"
    by (auto simp: summary_of_def is_last_def)
  then have "mg_ID g = i" "mg_RoomID g = rid" using y(2,3) by (auto simp: redact_preview_def split: if_splits)
  with g(1) mem.message_key [OF inv] x(1) have "g = x" unfolding mem_reads by (auto simp: ran_def)
  moreover have "message_ok x" using g(1) messages_invD(2) [OF reachable_inv(2) [OF w]] \<open>g = x\<close> by blast
  ultimately show ?thesis using g(2) x(2) by (auto simp: redact_preview_def shows_nothing_def message_ok_def)
qed

text \<open>
  C24. The owner deletes a message: it is marked as deleted, with the time and the owner, loses content, image, file
  and metadata, keeps everything else (its number, sender, type and time of creation), and nothing else changes.
  From then on no page of \<^verbatim>\<open>GetMessages\<close> and no preview in a room list shows anything of it.
\<close>

theorem DeleteMessage_effect:
  assumes "reachable svc w" and "mem_GetRoom (w_db w) rid = Inr r" and "mem_GetMessage (w_db w) rid i = Inr x"
  shows "\<exists>x' w'. svc_DeleteMessage svc rid i (rm_OwnerUserID r) w = (Inr x', w')
    \<and> x' = \<lparr>mg_ID = i, mg_RoomID = rid, mg_SenderUserID = mg_SenderUserID x, mg_MessageType = mg_MessageType x,
         mg_SequenceNo = mg_SequenceNo x, mg_Content = [], mg_ImageURL = [], mg_FileURL = [], mg_Metadata = None,
         mg_IsDeleted = True, mg_DeletedAt = Some (next_time w), mg_DeletedByUserID = rm_OwnerUserID r,
         mg_CreatedAt = mg_CreatedAt x, mg_UpdatedAt = next_time w\<rparr>
    \<and> mem_abs (w_db w') = (mem_abs (w_db w))\<lparr>a_messages := (a_messages (mem_abs (w_db w)))
         (rid := (a_messages (mem_abs (w_db w)) rid)(i \<mapsto> x'))\<rparr>
    \<and> w_ps w' = w_ps w \<and> w_push w' = w_push w
    \<and> (\<forall>v before limit page nxt w''. svc_GetMessages svc rid v before limit w' = (Inr (page, nxt), w'') \<longrightarrow>
         (\<forall>y \<in> set page. mg_ID y = i \<longrightarrow> shows_nothing y))
    \<and> (\<forall>v limit tok page nxt w''. svc_ListMyRooms svc v limit tok w' = (Inr (page, nxt), w'') \<longrightarrow>
         (\<forall>sm \<in> set page. \<forall>y. sm_LastMessage sm = Some y \<and> mg_ID y = i \<and> mg_RoomID y = rid \<longrightarrow> shows_nothing y))"
proof -
  let ?x' = "\<lparr>mg_ID = i, mg_RoomID = rid, mg_SenderUserID = mg_SenderUserID x, mg_MessageType = mg_MessageType x,
         mg_SequenceNo = mg_SequenceNo x, mg_Content = [], mg_ImageURL = [], mg_FileURL = [], mg_Metadata = None,
         mg_IsDeleted = True, mg_DeletedAt = Some (next_time w), mg_DeletedByUserID = rm_OwnerUserID r,
         mg_CreatedAt = mg_CreatedAt x, mg_UpdatedAt = next_time w\<rparr>"
  have r: "a_rooms (mem_abs (w_db w)) rid = Some r" "a_messages (mem_abs (w_db w)) rid i = Some x"
    using assms(2,3) unfolding mem_reads by blast+
  have k: "mg_RoomID x = rid" "mg_ID x = i" using mem.message_key [OF reachable_inv(1) [OF assms(1)] r(2)] by auto
  have x': "deleted (next_time w) (rm_OwnerUserID r) x = ?x'" using k by (cases x) (simp add: deleted_def)
  obtain y w' where y: "svc_DeleteMessage svc rid i (rm_OwnerUserID r) w = (y, w')" by fastforce
  from wpD [OF mem.wp_DeleteMessage [OF reachable_sound [OF assms(1)] reachable_good(2) [OF assms(1)]] y] r
  have d: "y = Inr ?x'" "mem_abs (w_db w') = put_message ?x' (mem_abs (w_db w))" "quiet w w'"
    unfolding x' [symmetric] by (auto split: sum.splits)
  have w': "reachable svc w'"
    using reachable_step [OF assms(1) chat_step.request [of mem_abs "CallDeleteMessage rid i (rm_OwnerUserID r)"]] y
    by (simp add: admissible_def after_def)
  have st: "mem_GetMessage (w_db w') rid i = Inr ?x'" unfolding mem_reads d(2) by simp
  have "shows_nothing z" if "svc_GetMessages svc rid v before limit w' = (Inr (page, nxt), w'')" "z \<in> set page" "mg_ID z = i"
    for v before limit page nxt w'' z
    by (rule page_shows_nothing [OF w' st _ that]) simp
  moreover have "shows_nothing z" if "svc_ListMyRooms svc v limit tok w' = (Inr (page, nxt), w'')" "sm \<in> set page"
    "sm_LastMessage sm = Some z" "mg_ID z = i" "mg_RoomID z = rid" for v limit tok page nxt w'' sm z
    by (rule preview_shows_nothing [OF w' st _ that]) simp
  ultimately show ?thesis
    using y d by (intro exI [of _ ?x'] exI [of _ w']) (auto simp: put_message_def quiet_def)
qed

theorem DeleteMessage_effect_witness:
  "\<exists>x' w'. svc_DeleteMessage demo_service (uid 0) (uid 5) ''ann'' demo = (Inr x', w')
    \<and> mg_IsDeleted x' \<and> mg_Content x' = [] \<and> mg_SequenceNo x' = 1 \<and> mg_DeletedByUserID x' = ''ann''"
  using DeleteMessage_effect [OF demo_reachable demo_facts(1,9)] by (auto simp: greeting_def)

section \<open>Reading\<close>

text \<open>
  C21. Read cursors only move forward, whatever requests follow, late or repeated
  \<^verbatim>\<open>MarkAsRead\<close> requests included.
\<close>

theorem read_cursor_monotone:
  assumes "reachable svc w" and "mem_GetMember (w_db w) rid u = Inr m" and "(chat_step svc mem_abs)\<^sup>*\<^sup>* w w'"
  shows "\<exists>m'. mem_GetMember (w_db w') rid u = Inr m' \<and> mb_LastReadSequenceNo m \<le> mb_LastReadSequenceNo m'"
  using later_member [OF assms(1,3,2)] by (auto simp: member_later_def)

theorem read_cursor_monotone_witness:
  "\<exists>m'. mem_GetMember (w_db (serve demo_service (CallMarkAsRead (uid 0) ''bob'' (- 3)) demo)) (uid 0) ''bob'' = Inr m'
     \<and> 0 \<le> mb_LastReadSequenceNo m'"
proof -
  have "(chat_step demo_service mem_abs)\<^sup>*\<^sup>* demo (serve demo_service (CallMarkAsRead (uid 0) ''bob'' (- 3)) demo)"
    by (intro r_into_rtranclp chat_step.request) simp
  from read_cursor_monotone [OF demo_reachable demo_facts(7) this] show ?thesis by (auto simp: bob_def)
qed

text \<open>
  C20. After \<^verbatim>\<open>MarkChatRoomRead\<close> has succeeded the room list shows no unread message of that room to the
  user, on whatever page the room appears.
\<close>

theorem MarkChatRoomRead_clears:
  assumes "reachable svc w" and "svc_MarkChatRoomRead svc rid u w = (Inr m, w')"
    and "svc_ListMyRooms svc u limit tok w' = (Inr (page, nxt), w'')" and "sm \<in> set page" and "rm_ID (sm_Room sm) = rid"
  shows "sm_UnreadCnt sm = 0 \<and> mb_LastReadSequenceNo m \<ge> max_seq (w_db w') rid"
proof -
  let ?a = "mem_abs (w_db w)" and ?a' = "mem_abs (w_db w')"
  note R = reachable_good(2) [OF assms(1)]
  from wpD [OF mem.wp_MarkChatRoomRead [OF reachable_sound [OF assms(1)] R] assms(2)] obtain m0 where
    s: "mem.sound w'" and m0: "a_members ?a rid u = Some m0" and m: "m = read_up_to (next_time w) (a_maxSeq ?a rid) m0"
    and a': "?a' = put_member m ?a" by auto
  have inv: "mem_inv (w_db w')" using mem.soundD(2) [OF s] .
  have k: "mb_RoomID m = rid" "mb_UserID m = u"
    using mem.member_key [OF reachable_inv(1) [OF assms(1)] m0] by (simp_all add: m read_up_to_def)
  have top: "a_maxSeq ?a' rid \<le> mb_LastReadSequenceNo m" by (simp add: a' m read_up_to_def)
  have "\<exists>n. mem_ListRoomsByUser (w_db w') u n tok = Inr (page, nxt)"
    using assms(3) R by (auto simp: svc_ListMyRooms_def view_def Let_def)
  then have "sm \<in> set (mem_rooms (w_db w') u)" using page_subset assms(4) by blast
  from mem_rooms_correct [OF inv this] obtain rid' m1 where
    m1: "a_members ?a' rid' u = Some m1" and sm: "summary_of ?a' rid' m1 sm" by blast
  then have "rm_ID (sm_Room sm) = rid'" using mem.room_key [OF inv] by (auto simp: summary_of_def)
  with assms(5) m1 a' k have "m1 = m" "rid' = rid" by simp_all
  moreover have "\<not> unread u (mb_LastReadSequenceNo m) g" if "g \<in> ran (a_messages ?a' rid)" for g
  proof -
    have "mg_SequenceNo g \<in> {1..a_maxSeq ?a' rid}"
      using messages_invD(1) [OF mem.soundD(4) [OF s], of rid] that by (auto simp: numbered_def)
    with top show ?thesis by (simp add: unread_def)
  qed
  ultimately have none: "{g \<in> ran (a_messages ?a' rid). unread u (mb_LastReadSequenceNo m) g} = {}"
    and "summary_of ?a' rid m sm" using sm by blast+
  then have "sm_UnreadCnt sm = int (card {g \<in> ran (a_messages ?a' rid). unread u (mb_LastReadSequenceNo m) g})"
    by (simp only: summary_of_def k)
  with top show ?thesis by (simp add: none flip: max_seq_abs)
qed

text \<open>
  C19. An active member of an open room reads its history page by page, from the newest message down. The client
  ends after at most as many pages as there are messages and one more, and has got every stored message of the
  room exactly once, in descending order of the numbers, whatever page size it asks for. A message is shown as it is
  stored, except that the references to its attachment are rewritten by the read signer; without a read
  signer it is shown as it is. Assumed of the read signer, if there is one: signing does not fail (when it
  does, the page fails with its error).
\<close>

theorem history_complete:
  assumes "reachable svc w" and "mem_GetRoom (w_db w) rid = Inr r" and "room_open r"
    and "mem_GetMember (w_db w) rid u = Inr m" and "mb_Status m = MemberStatusActive"
    and "\<And>signer object g e g'. cs_attachmentReadSigner svc = Some signer \<Longrightarrow> signer object g \<noteq> (Inl e, g')"
  shows "\<exists>all xs. read_history (Suc (nat (max_seq (w_db w) rid))) svc rid u 0 limit w = Some (Inr xs)
    \<and> set all = {x. \<exists>i. mem_GetMessage (w_db w) rid i = Inr x} \<and> map mg_SequenceNo all = rev [1..max_seq (w_db w) rid]
    \<and> list_all2 (\<lambda>x y. y = x\<lparr>mg_ImageURL := mg_ImageURL y, mg_FileURL := mg_FileURL y, mg_Metadata := mg_Metadata y\<rparr>
         \<and> (mg_IsDeleted x \<longrightarrow> y = x)) all xs
    \<and> (cs_attachmentReadSigner svc = None \<longrightarrow> xs = all)"
proof -
  let ?M = "ran (a_messages (mem_abs (w_db w)) rid)"
  have "mem.reader w rid u" using assms(2-5) unfolding mem.reader_def mem_reads by blast
  moreover have "hydrateMessageForDelivery svc m g \<noteq> (Inl e, g')" for m g e g' using hydrate_error assms(6) by blast
  moreover have "top_before (a_maxSeq (mem_abs (w_db w)) rid) 0 < int (Suc (nat (max_seq (w_db w) rid)))"
    by (simp add: top_before_def max_seq_abs)
  ultimately obtain all xs where h: "read_history (Suc (nat (max_seq (w_db w) rid))) svc rid u 0 limit w = Some (Inr xs)"
    "set all = ?M" "map mg_SequenceNo all = rev [1..max_seq (w_db w) rid]" "list_all2 presented all xs"
    "cs_attachmentReadSigner svc = None \<longrightarrow> xs = map shown_unsigned all"
    using mem.read_history_complete [OF reachable_sound [OF assms(1)] reachable_good(2) [OF assms(1)], of rid u 0 _ limit]
    by (fastforce simp: top_before_def max_seq_abs older_messages_def simp del: read_history.simps)
  have blank: "redacted x = x" if "x \<in> set all" "mg_IsDeleted x" for x
    using messages_invD(2) [OF reachable_inv(2) [OF assms(1)], of x rid] that h(2)
    by (cases x) (simp add: message_ok_def redacted_def)
  have "list_all2 (\<lambda>x y. y = x\<lparr>mg_ImageURL := mg_ImageURL y, mg_FileURL := mg_FileURL y, mg_Metadata := mg_Metadata y\<rparr>
      \<and> (mg_IsDeleted x \<longrightarrow> y = x)) all xs"
    using h(4) by (rule list.rel_mono_strong) (use blank in \<open>auto simp: presented_def same_message_def split: if_splits\<close>)
  moreover have "cs_attachmentReadSigner svc = None \<longrightarrow> xs = all" using h(5) blank by (simp add: shown_unsigned_def map_idI)
  moreover have "set all = {x. \<exists>i. mem_GetMessage (w_db w) rid i = Inr x}" unfolding h(2) mem_reads by (simp add: ran_def)
  ultimately show ?thesis using h(1,3) by (intro exI [of _ all] exI [of _ xs] conjI)
qed

theorem history_complete_witness:
  "read_history 2 demo_service (uid 0) ''bob'' 0 1 demo = Some (Inr [greeting])"
proof -
  have n: "max_seq (w_db demo) (uid 0) = 1" by (simp add: demo max_seq_def)
  have "cs_attachmentReadSigner demo_service = None" by (simp add: demo_service_def service_New_def WithPushSender_def WithTrustedAttachmentBucket_def)
  with n history_complete [OF demo_reachable demo_facts(1,2,7), of 1] obtain xs where
    xs: "read_history 2 demo_service (uid 0) ''bob'' 0 1 demo = Some (Inr xs)" "map mg_SequenceNo xs = [1]"
      "set xs = {x. \<exists>i. mem_GetMessage (w_db demo) (uid 0) i = Inr x}"
    by (auto simp: numeral_2_eq_2 simp del: read_history.simps)
  then have "length xs = 1" "greeting \<in> set xs" using demo_facts(9) arg_cong [OF xs(2), of length] by auto
  with xs(1) show ?thesis by (auto simp: length_Suc_conv simp del: read_history.simps)
qed

theorem MarkChatRoomRead_clears_witness:
  "\<exists>m w' page w'' sm. svc_MarkChatRoomRead demo_service (uid 0) ''bob'' demo = (Inr m, w')
    \<and> svc_ListMyRooms demo_service ''bob'' 10 [] w' = (Inr (page, []), w'')
    \<and> sm \<in> set page \<and> rm_ID (sm_Room sm) = uid 0 \<and> sm_UnreadCnt sm = 0"
proof -
  obtain m w' where m: "svc_MarkChatRoomRead demo_service (uid 0) ''bob'' demo = (Inr m, w')"
    and db: "st_rooms (w_db w') = [(uid 0, team\<lparr>rm_UpdatedAt := 50\<rparr>), (uid 8, board)]"
      "st_messages (w_db w') = [(uid 0, [(uid 5, greeting)])]"
      "st_members (w_db w') = [(uid 0, [(''ann'', ann), (''bob'', m), (''eve'', expelled 40 ''ann'' eve)]),
        (uid 8, [(''cat'', new_member (uid 9) (uid 8) ''cat'' MemberRoleOwner 81),
               (''ann'', new_member (uid 10) (uid 8) ''ann'' MemberRoleMember 81)])]"
    and st: "mb_Status m = MemberStatusActive"
    by (simp add: svc_MarkChatRoomRead_def run_simps validateActiveMembership_def demo_reads mem_ListMessagesBefore_def
        mem_UpdateMember_def read_up_to_def)
  then obtain sm where l: "svc_ListMyRooms demo_service ''bob'' 10 [] w' = (Inr ([sm], []), w')" "rm_ID (sm_Room sm) = uid 0"
    by (simp add: svc_ListMyRooms_def view_def Let_def mem_ListRoomsByUser_def room_summary_def inner_def vals_def
        mem_page_start_def map_filter_def wrap64_def greeting_def)
  from MarkChatRoomRead_clears [OF demo_reachable m l(1) _ l(2)] m l show ?thesis by auto
qed

section \<open>Devices and attachments\<close>

text \<open>
  C22. In every reachable state an active push token belongs to one device of one user, so a
  notification never reaches a device that has since been registered by somebody else.
\<close>

theorem token_on_one_device:
  assumes "reachable svc w"
    and "map_of (inner (st_devices (w_db w)) u) d = Some t" and "dt_IsActive t"
    and "map_of (inner (st_devices (w_db w)) u') d' = Some t'" and "dt_IsActive t'" and "dt_Token t = dt_Token t'"
  shows "u = u' \<and> d = d'"
  using tokens_invD [OF reachable_inv(3) [OF assms(1)], of u d t u' d' t'] assms(2-6) by (simp add: mem_abs_sel)

theorem token_on_one_device_witness:
  "let w = serve demo_service (CallRegisterDeviceToken ''cat'' ''x'' ''tb'' DevicePlatformAndroid) demo in
   (\<exists>t'. map_of (inner (st_devices (w_db w)) ''cat'') ''x'' = Some t' \<and> dt_IsActive t' \<and> dt_Token t' = ''tb''
     \<and> \<not> (\<exists>u d t. (u, d) \<noteq> (''cat'', ''x'') \<and> map_of (inner (st_devices (w_db w)) u) d = Some t \<and> dt_IsActive t \<and> dt_Token t = ''tb''))"
proof -
  let ?w = "serve demo_service (CallRegisterDeviceToken ''cat'' ''x'' ''tb'' DevicePlatformAndroid) demo"
  have r: "reachable demo_service ?w"
    by (rule reachable_step [OF demo_reachable chat_step.request]) simp
  obtain t' where t': "map_of (inner (st_devices (w_db ?w)) ''cat'') ''x'' = Some t'" "dt_IsActive t'" "dt_Token t' = ''tb''"
    by (simp add: run_simps svc_RegisterDeviceToken_def mem_UpsertDeviceToken_def isValidDevicePlatform_def demo)
  show ?thesis
    unfolding Let_def using t' token_on_one_device [OF r _ _ t'(1,2)] by (intro exI [of _ t']) auto
qed

text \<open>
  C6. Every message a reachable state holds is deleted or well formed: of a known type; a text or
  system message has content; the object that an image or file message is read from, the one a read
  URL is signed for, lies below \<^verbatim>\<open>chat-attachments/<room>/\<close> of the message's own room. So no sender can
  make the service sign a URL for another room's objects. Bucket and room contain no percent sign.
\<close>

theorem stored_messages_admitted:
  assumes "reachable svc w" and "mem_GetMessage (w_db w) rid i = Inr x" and "\<not> mg_IsDeleted x"
  shows "(\<forall>t. mg_MessageType x \<noteq> MessageTypeOther t)
    \<and> (mg_MessageType x \<in> {MessageTypeText, MessageTypeSystem} \<longrightarrow> TrimSpace (mg_Content x) \<noteq> [])
    \<and> (mg_MessageType x \<in> {MessageTypeImage, MessageTypeFile}
         \<and> CHR ''%'' \<notin> set (TrimSpace (cs_trustedAttachmentBucket svc)) \<and> CHR ''%'' \<notin> set (TrimSpace rid) \<longrightarrow>
       HasPrefix (delivered_object x) (''chat-attachments/'' @ TrimSpace rid @ ''/''))"
proof -
  have "a_messages (mem_abs (w_db w)) rid i = Some x" using assms(2) unfolding mem_reads .
  moreover from this have "mg_RoomID x = rid" using mem.message_key reachable_inv(1) [OF assms(1)] by blast
  ultimately show ?thesis
    using reachable_admitted [OF assms(1)] assms(3) unfolding all_admitted_def
    by (auto simp: admitted_def below_room_def split: MessageType.splits)
qed

definition demo_object :: string where
  "demo_object = ''chat-attachments/'' @ uid 0 @ ''/a.png''"

definition demo_url :: string where
  "demo_url = storage_root @ ''/'' @ ''bucket'' @ ''/'' @ demo_object"

lemma demo_url_accepted: "extractTrustedStorageObjectName demo_url ''bucket'' (uid 0) = Inr demo_object"
proof -
  have u: "uid 0 = ''00000000-0000-4000-8000-000000000000''" by code_simp
  have t: "TrimSpace (uid 0) = uid 0" by (rule TrimSpace_visible) (simp add: u visible_def)
  have p: "list_all plain_char ''bucket''" "list_all plain_char demo_object" unfolding demo_object_def by code_simp+
  show ?thesis unfolding demo_url_def
    by (rule issued_url_accepted [OF p, of _ "''a.png''"]) (simp add: t demo_object_def)
qed

theorem stored_messages_admitted_witness:
  "let w = serve demo_service (CallSendMessage (uid 0) ''ann'' MessageTypeImage [] demo_url None) demo in
   \<exists>i x. mem_GetMessage (w_db w) (uid 0) i = Inr x \<and> mg_MessageType x = MessageTypeImage
     \<and> HasPrefix (delivered_object x) (''chat-attachments/'' @ TrimSpace (uid 0) @ ''/'')"
proof -
  let ?w = "serve demo_service (CallSendMessage (uid 0) ''ann'' MessageTypeImage [] demo_url None) demo"
  have "admissible mem_abs (CallSendMessage (uid 0) ''ann'' MessageTypeImage [] demo_url None) demo"
    using demo_send(3,4) by (simp add: admissible_def max_seq_abs)
  then have r: "reachable demo_service ?w" by (rule reachable_step [OF demo_reachable chat_step.request])
  have url: "TrimSpace demo_url \<noteq> []"
    using TrimSpace_visible [of demo_url] by (simp add: demo_url_def demo_object_def storage_root_def visible_def)
  have may: "may_send demo_service (mem_abs (w_db demo)) (uid 0) ''ann'' MessageTypeImage [] demo_url None"
    using demo_facts(1,2,6) url demo_url_accepted
    by (auto simp: may_send_def mem_reads validateMessagePayload_def validateTrustedAttachmentURL_def
        validateTrustedStorageURL_def extractStringMetadata_def Let_def)
  have can: "mem.can_send demo (uid 0)" using demo_send(3,4) by (simp add: mem.can_send_def max_seq_abs)
  define x where "x = saved_message (mem_abs (w_db demo)) (stored_form demo_service demo (uid 0) ''ann'' MessageTypeImage [] demo_url None)"
  have "a_messages (mem_abs (w_db ?w)) (uid 0) (mg_ID x) = Some x"
    unfolding serve.simps x_def
    by (rule wp_after [OF mem.wp_SendMessage [OF reachable_sound [OF demo_reachable] _ can, of demo_service "''ann''"
          MessageTypeImage "[]" demo_url None]])
       (use may in \<open>auto simp: mem.sent_def split: if_splits\<close>)
  then have x: "mem_GetMessage (w_db ?w) (uid 0) (mg_ID x) = Inr x" "mg_MessageType x = MessageTypeImage" "\<not> mg_IsDeleted x"
    unfolding mem_reads by (simp_all add: x_def saved_message_def)
  have u: "CHR ''%'' \<notin> set (TrimSpace (uid 0))" by code_simp
  from stored_messages_admitted [OF r x(1,3)] x(2) u have
    "HasPrefix (delivered_object x) (''chat-attachments/'' @ TrimSpace (uid 0) @ ''/'')"
    by (simp add: TrimSpace_visible visible_def)
  with x show ?thesis unfolding Let_def by blast
qed

end
