(* ===== verification/StoreProperties.thy ===== *)
theory StoreProperties
  imports MessageProperties
begin

text \<open>
  The in-memory store against its specification: a run of writes answers as the abstract store does,
  and the answers of the reads do not depend on the order in which Go visits the maps.
\<close>

section \<open>Runs of writes\<close>

datatype store_write =
    WCreateRoom ChatRoom | WUpdateRoom ChatRoom | WCreateMember ChatRoomMember | WUpdateMember ChatRoomMember
  | WCreateMessage ChatMessage | WUpdateMessage ChatMessage | WUpsertDevice DeviceToken
  | WDeactivateDevice string string time

datatype store_answer = Done | DoneMessage ChatMessage | DoneDevice DeviceToken | Failed error

definition answer :: "('a \<Rightarrow> store_answer) \<Rightarrow> (error + 'a) \<times> 's \<Rightarrow> store_answer \<times> 's" where
  "answer f r = ((case fst r of Inl e \<Rightarrow> Failed e | Inr x \<Rightarrow> f x), snd r)"

fun mem_write :: "store_write \<Rightarrow> Store \<Rightarrow> store_answer \<times> Store" where
  "mem_write (WCreateRoom r) s = answer (\<lambda>_. Done) (mem_CreateRoom s r)"
| "mem_write (WUpdateRoom r) s = answer (\<lambda>_. Done) (mem_UpdateRoom s r)"
| "mem_write (WCreateMember m) s = answer (\<lambda>_. Done) (mem_CreateMember s m)"
| "mem_write (WUpdateMember m) s = answer (\<lambda>_. Done) (mem_UpdateMember s m)"
| "mem_write (WCreateMessage m) s = answer DoneMessage (mem_CreateMessageWithNextSequence s m)"
| "mem_write (WUpdateMessage m) s = answer (\<lambda>_. Done) (mem_UpdateMessage s m)"
| "mem_write (WUpsertDevice t) s = answer DoneDevice (mem_UpsertDeviceToken s t)"
| "mem_write (WDeactivateDevice u d now) s = answer (\<lambda>_. Done) (mem_DeactivateDeviceToken s u d now)"

fun spec_write :: "store_write \<Rightarrow> astore \<Rightarrow> store_answer \<times> astore" where
  "spec_write (WCreateRoom r) a = answer (\<lambda>_. Done) (spec_CreateRoom r a)"
| "spec_write (WUpdateRoom r) a = answer (\<lambda>_. Done) (spec_UpdateRoom r a)"
| "spec_write (WCreateMember m) a = answer (\<lambda>_. Done) (spec_CreateMember m a)"
| "spec_write (WUpdateMember m) a = answer (\<lambda>_. Done) (spec_UpdateMember m a)"
| "spec_write (WCreateMessage m) a = answer DoneMessage (spec_CreateMessage m a)"
| "spec_write (WUpdateMessage m) a = answer (\<lambda>_. Done) (spec_UpdateMessage m a)"
| "spec_write (WUpsertDevice t) a = answer DoneDevice (spec_UpsertDeviceToken t a)"
| "spec_write (WDeactivateDevice u d now) a = answer (\<lambda>_. Done) (spec_DeactivateDeviceToken u d now a)"

fun run_writes :: "(store_write \<Rightarrow> 's \<Rightarrow> store_answer \<times> 's) \<Rightarrow> store_write list \<Rightarrow> 's \<Rightarrow> store_answer list \<times> 's" where
  "run_writes f [] s = ([], s)"
| "run_writes f (c # cs) s =
    (let (x, s1) = f c s; (xs, s2) = run_writes f cs s1 in (x # xs, s2))"

text \<open>The specification covers a message whose identifier is new and whose number is an \<^verbatim>\<open>int64\<close>.\<close>

definition in_scope :: "store_write \<Rightarrow> astore \<Rightarrow> bool" where
  "in_scope c a = (case c of
     WCreateMessage m \<Rightarrow> fresh_message_id a (mg_ID m) \<and> int64_range (a_maxSeq a (mg_RoomID m) + 1) | _ \<Rightarrow> True)"

fun writes_in_scope ::
  "(store_write \<Rightarrow> astore \<Rightarrow> bool) \<Rightarrow> (store_write \<Rightarrow> astore \<Rightarrow> store_answer \<times> astore) \<Rightarrow> store_write list \<Rightarrow> astore \<Rightarrow> bool" where
  "writes_in_scope scope spec [] a = True"
| "writes_in_scope scope spec (c # cs) a \<longleftrightarrow> scope c a \<and> writes_in_scope scope spec cs (snd (spec c a))"

text \<open>
  An implementation of the writes against a specification of them: one write in scope keeps the
  representation invariant and answers as specified, hence so does a run of writes.
\<close>

locale store_refinement =
  fixes impl :: "store_write \<Rightarrow> 's \<Rightarrow> store_answer \<times> 's"
    and spec :: "store_write \<Rightarrow> astore \<Rightarrow> store_answer \<times> astore"
    and scope :: "store_write \<Rightarrow> astore \<Rightarrow> bool"
    and abs :: "'s \<Rightarrow> astore" and inv :: "'s \<Rightarrow> bool"
  assumes one_write: "inv s \<Longrightarrow> scope c (abs s) \<Longrightarrow>
    inv (snd (impl c s)) \<and> spec c (abs s) = (fst (impl c s), abs (snd (impl c s)))"
begin

lemma run_refines:
  "inv s \<Longrightarrow> writes_in_scope scope spec cs (abs s) \<Longrightarrow>
    run_writes spec cs (abs s) = (fst (run_writes impl cs s), abs (snd (run_writes impl cs s)))
    \<and> inv (snd (run_writes impl cs s))"
proof (induction cs arbitrary: s)
  case (Cons c cs)
  obtain x s1 where c: "impl c s = (x, s1)" by fastforce
  from one_write [OF Cons.prems(1), of c] Cons.prems(2) c
  have 1: "inv s1" "spec c (abs s) = (x, abs s1)" by auto
  from Cons.IH [OF 1(1)] Cons.prems(2) 1(2) c show ?case by (simp add: split_beta)
qed simp

end

text \<open>Answers of an operation that is refined are the answers of its specification.\<close>

lemma answer_refines:
  "(\<And>x s'. r = (x, s') \<Longrightarrow> I s' \<and> r' = (x, A s')) \<Longrightarrow>
    I (snd (answer f r)) \<and> answer f r' = (fst (answer f r), A (snd (answer f r)))"
  by (cases r) (simp add: answer_def)

lemma mem_write_refines:
  assumes "mem_inv s" "in_scope c (mem_abs s)"
  shows "mem_inv (snd (mem_write c s)) \<and> spec_write c (mem_abs s) = (fst (mem_write c s), mem_abs (snd (mem_write c s)))"
proof -
  note cm = mem.CreateMessageWithNextSequence [unfolded memory_repo_simps, OF assms(1)]
  show ?thesis
    using assms
    by (cases c) (auto intro!: answer_refines [of _ mem_inv _ mem_abs] simp: in_scope_def dest: mem_CreateRoom_refines mem_UpdateRoom_refines
        mem_CreateMember_refines mem_UpdateMember_refines cm mem_UpdateMessage_refines
        mem_UpsertDeviceToken_refines mem_DeactivateDeviceToken_refines)
qed

interpretation memory_writes: store_refinement mem_write spec_write in_scope mem_abs mem_inv
  by unfold_locales (rule mem_write_refines)

text \<open>
  C8. The in-memory store implements the abstract store: any run of writes, started in a well-formed
  store, gives the answers that the specification gives, errors included, ends in a well-formed
  store, and that store represents the specification's final state.
\<close>

theorem memory_refines:
  assumes "mem_inv s" and "writes_in_scope in_scope spec_write cs (mem_abs s)"
  shows "run_writes spec_write cs (mem_abs s) =
      (fst (run_writes mem_write cs s), mem_abs (snd (run_writes mem_write cs s)))
    \<and> mem_inv (snd (run_writes mem_write cs s))"
  using assms by (rule memory_writes.run_refines)

theorem memory_refines_witness:
  "fst (run_writes spec_write [WCreateRoom board, WCreateRoom board] (mem_abs NewStore)) = [Done, Failed ErrAlreadyExists]"
  using memory_refines [OF mem_inv_NewStore, of "[WCreateRoom board, WCreateRoom board]"]
  by (simp add: in_scope_def NewStore_def answer_def mem_CreateRoom_def split_beta board_def
      new_room_def vals_def)

section \<open>The order of iteration\<close>

lemma lists_sorted_unique:
  assumes "lists_sorted key M xs" "lists_sorted key M ys" "inj_on key M"
  shows "xs = ys"
proof -
  have "map key xs = map key ys"
    using assms by (intro sorted_distinct_set_unique) (auto simp: lists_sorted_def distinct_map)
  moreover have "inj_on key (set xs \<union> set ys)" using assms by (simp add: lists_sorted_def)
  ultimately show ?thesis by (rule map_inj_on)
qed

text \<open>Two stores with the same records find the same room of a board: in a reachable state there is at most one.\<close>

lemma board_lookup_unique:
  assumes "rooms_inv (mem_abs s)" "mem_inv s" "mem_inv s'" "mem_abs s' = mem_abs s" "b \<noteq> []"
  shows "mem_GetActiveBoardLinkedRoom s' b = mem_GetActiveBoardLinkedRoom s b"
proof -
  have one: "r = r'" if r: "r \<in> ran (a_rooms (mem_abs s))" "board_room b r" "r' \<in> ran (a_rooms (mem_abs s))" "board_room b r'" for r r'
  proof -
    obtain i j where ij: "a_rooms (mem_abs s) i = Some r" "a_rooms (mem_abs s) j = Some r'" using r(1,3) by (auto simp: ran_def)
    have "board_key r = Some b" "board_key r' = Some b" using r(2,4) board_key_eq [OF assms(5)] by blast+
    then have "i = j" using boards_okD [OF rooms_invD(3) [OF assms(1)] ij] by simp
    with ij show ?thesis by simp
  qed
  note found = mem.GetActiveBoardLinkedRoom_found [unfolded memory_repo_simps] and none = mem.GetActiveBoardLinkedRoom_none [unfolded memory_repo_simps]
  show ?thesis
  proof (cases "mem_GetActiveBoardLinkedRoom s b")
    case (Inl e)
    note n = none [OF assms(2) Inl]
    show ?thesis
    proof (cases "mem_GetActiveBoardLinkedRoom s' b")
      case Inl': (Inl e')
      show ?thesis using n none [OF assms(3) Inl'] Inl Inl' by simp
    next
      case (Inr r)
      show ?thesis using n found [OF assms(3) Inr] assms(4) by auto
    qed
  next
    case (Inr r)
    note f = found [OF assms(2) Inr]
    show ?thesis
    proof (cases "mem_GetActiveBoardLinkedRoom s' b")
      case (Inl e)
      show ?thesis using f none [OF assms(3) Inl] assms(4) by auto
    next
      case Inr': (Inr r')
      show ?thesis using one [of r r'] f found [OF assms(3) Inr'] Inr Inr' assms(4) by simp
    qed
  qed
qed

text \<open>The room list: every summary is determined by the records, and the times of update order the summaries.\<close>

lemma summary_unique:
  assumes "messages_inv a" "summary_of a rid m sm" "summary_of a rid m sm'"
  shows "sm = sm'"
proof -
  have inj: "inj_on mg_SequenceNo (ran (a_messages a rid))" using messages_invD(1) [OF assms(1)] by (simp add: numbered_def)
  have "g = g'" if "is_last (ran (a_messages a rid)) g" "is_last (ran (a_messages a rid)) g'" for g g'
    using that inj_onD [OF inj, of g g'] by (auto simp: is_last_def intro: antisym)
  then have "sm_LastMessage sm = sm_LastMessage sm'"
    using assms(2,3) by (auto simp: summary_of_def is_last_def split: option.splits)
  with assms(2,3) show ?thesis by (cases sm; cases sm') (simp add: summary_of_def)
qed

definition user_rooms :: "Store \<Rightarrow> string \<Rightarrow> ChatRoom set" where
  "user_rooms s u = {r. \<exists>rid m. mem_GetMember s rid u = Inr m \<and> mb_Status m = MemberStatusActive \<and> mem_GetRoom s rid = Inr r}"

lemma mem_rooms_set:
  assumes "mem_inv s" "messages_inv (mem_abs s)"
  shows "set (mem_rooms s u) = {sm. \<exists>rid m. a_members (mem_abs s) rid u = Some m \<and> mb_Status m = MemberStatusActive
    \<and> summary_of (mem_abs s) rid m sm}"
proof (intro set_eqI iffI)
  fix sm
  assume "sm \<in> {sm. \<exists>rid m. a_members (mem_abs s) rid u = Some m \<and> mb_Status m = MemberStatusActive \<and> summary_of (mem_abs s) rid m sm}"
  then obtain rid m where m: "a_members (mem_abs s) rid u = Some m" "mb_Status m = MemberStatusActive" "summary_of (mem_abs s) rid m sm"
    by blast
  then have r: "a_rooms (mem_abs s) rid = Some (sm_Room sm)" by (simp add: summary_of_def)
  from room_summary_exists [OF m(1,2) r] obtain sm' where sm': "sm' \<in> set (mem_rooms s u)" "sm_Room sm' = sm_Room sm" by blast
  from mem_rooms_correct [OF assms(1) sm'(1)] obtain rid' m' where
    m': "a_members (mem_abs s) rid' u = Some m'" "summary_of (mem_abs s) rid' m' sm'" by blast
  then have "rid' = rid" using mem.room_key [OF assms(1)] r sm'(2) by (metis summary_of_def)
  with m' m(1,3) summary_unique [OF assms(2)] sm'(1) show "sm \<in> set (mem_rooms s u)" by auto
qed (use mem_rooms_correct [OF assms(1)] in blast)

lemma distinct_map_filter:
  "distinct (map fst l) \<Longrightarrow> (\<And>e x. e \<in> set l \<Longrightarrow> f e = Some x \<Longrightarrow> k x = fst e) \<Longrightarrow> distinct (map k (List.map_filter f l))"
proof (induction l)
  case (Cons e l)
  have sub: "k x \<in> fst ` set l" if "x \<in> set (List.map_filter f l)" for x
    using that Cons.prems(2) by (force simp: map_filter_def)
  have l: "distinct (map k (List.map_filter f l))" using Cons by simp
  show ?case
  proof (cases "f e")
    case (Some x)
    then have "k x = fst e" using Cons.prems(2) by simp
    then have "k x \<notin> k ` set (List.map_filter f l)" using sub Cons.prems(1) by auto
    with l Some show ?thesis by (simp add: map_filter_simps)
  qed (use l in \<open>simp add: map_filter_simps\<close>)
qed (simp add: map_filter_simps)

lemma mem_rooms_lists:
  assumes "mem_inv s" "messages_inv (mem_abs s)"
  shows "lists_sorted (\<lambda>sm. - rm_UpdatedAt (sm_Room sm)) {sm. \<exists>rid m. a_members (mem_abs s) rid u = Some m
    \<and> mb_Status m = MemberStatusActive \<and> summary_of (mem_abs s) rid m sm} (mem_rooms s u)"
proof -
  have "distinct (map (\<lambda>sm. rm_ID (sm_Room sm)) (List.map_filter (room_summary s u) (st_members s)))"
  proof (rule distinct_map_filter)
    show "distinct (map fst (st_members s))" using assms(1) by (simp add: mem_inv_def wf_map2_def wf_map_def)
    fix e sm
    assume "e \<in> set (st_members s)" "room_summary s u e = Some sm"
    then show "rm_ID (sm_Room sm) = fst e"
      using room_summary_SomeD [of s u "fst e" "snd e" sm] mem.room_key [OF assms(1), of "fst e"] by (auto simp: mem_abs_sel)
  qed
  then have "distinct (mem_rooms s u)"
    unfolding mem_rooms_def by (subst sort_stable_key [where f = "\<lambda>sm. - rm_UpdatedAt (sm_Room sm)"]) (simp_all add: distinct_map)
  then show ?thesis using mem_rooms_set [OF assms] mem_rooms_sorted by (simp add: lists_sorted_def)
qed

lemma mem_rooms_unique:
  assumes "mem_inv s" "mem_inv s'" "mem_abs s' = mem_abs s" "messages_inv (mem_abs s)" "inj_on rm_UpdatedAt (user_rooms s u)"
  shows "mem_rooms s' u = mem_rooms s u"
proof (rule lists_sorted_unique [OF _ mem_rooms_lists [OF assms(1,4)]])
  let ?M = "{sm. \<exists>rid m. a_members (mem_abs s) rid u = Some m \<and> mb_Status m = MemberStatusActive \<and> summary_of (mem_abs s) rid m sm}"
  show "lists_sorted (\<lambda>sm. - rm_UpdatedAt (sm_Room sm)) ?M (mem_rooms s' u)"
    using mem_rooms_lists [OF assms(2), of u] assms(3,4) by simp
  show "inj_on (\<lambda>sm. - rm_UpdatedAt (sm_Room sm)) ?M"
  proof (rule inj_onI)
    fix sm sm'
    assume "sm \<in> ?M" "sm' \<in> ?M" and e: "- rm_UpdatedAt (sm_Room sm) = - rm_UpdatedAt (sm_Room sm')"
    then obtain rid m rid' m' where m: "a_members (mem_abs s) rid u = Some m" "summary_of (mem_abs s) rid m sm" "mb_Status m = MemberStatusActive"
      and m': "a_members (mem_abs s) rid' u = Some m'" "summary_of (mem_abs s) rid' m' sm'" "mb_Status m' = MemberStatusActive" by blast
    then have r: "a_rooms (mem_abs s) rid = Some (sm_Room sm)" "a_rooms (mem_abs s) rid' = Some (sm_Room sm')"
      by (simp_all add: summary_of_def)
    have "sm_Room sm \<in> user_rooms s u" "sm_Room sm' \<in> user_rooms s u"
      unfolding user_rooms_def mem_reads using m m' r by blast+
    then have "sm_Room sm = sm_Room sm'" using e inj_onD [OF assms(5)] by simp
    then have "rid = rid'" using mem.room_key [OF assms(1)] r by metis
    then show "sm = sm'" using m m' summary_unique [OF assms(4)] by simp
  qed
qed

text \<open>
  C23. Go visits a map in any order, and two stores that hold the same records may be laid out differently. In a
  reachable state every read of the in-memory repository gives the same answer for both, on these conditions: a
  board is looked up by a non-empty identifier; the users whose devices are listed are distinct; no two active
  members of the room have the same join time and identifier, for the list of members; no two rooms
  of the user have the same time of update, for the pages of the room list (rooms that tie are listed in
  the order in which the map is visited).
\<close>

theorem iteration_order_invisible:
  assumes "reachable svc w" and "mem_inv s" and "mem_abs s = mem_abs (w_db w)"
  shows "mem_GetRoom s rid = mem_GetRoom (w_db w) rid \<and> mem_GetMember s rid u = mem_GetMember (w_db w) rid u
    \<and> mem_GetMessage s rid i = mem_GetMessage (w_db w) rid i
    \<and> (b \<noteq> [] \<longrightarrow> mem_GetActiveBoardLinkedRoom s b = mem_GetActiveBoardLinkedRoom (w_db w) b)
    \<and> mem_ListMessagesBefore s rid before limit = mem_ListMessagesBefore (w_db w) rid before limit
    \<and> mem_ListMessagesAfter s rid k limit = mem_ListMessagesAfter (w_db w) rid k limit
    \<and> (distinct us \<longrightarrow> mem_ListActiveDeviceTokensByUserIDs s us = mem_ListActiveDeviceTokensByUserIDs (w_db w) us)
    \<and> (inj_on join_key (active_members (mem_abs s) rid) \<longrightarrow>
         mem_ListActiveMembersByJoinOrder s rid = mem_ListActiveMembersByJoinOrder (w_db w) rid)
    \<and> (inj_on rm_UpdatedAt (user_rooms (w_db w) u) \<longrightarrow>
         mem_ListRoomsByUser s u limit tok = mem_ListRoomsByUser (w_db w) u limit tok)"
proof (intro conjI impI)
  note inv = reachable_inv(1) [OF assms(1)]
  note gets = mem.GetRoom mem.GetMember mem.GetMessage
  show "mem_GetRoom s rid = mem_GetRoom (w_db w) rid" "mem_GetMember s rid u = mem_GetMember (w_db w) rid u"
    "mem_GetMessage s rid i = mem_GetMessage (w_db w) rid i"
    using gets [OF assms(2)] gets [OF inv] assms(3) by simp_all
  show "mem_GetActiveBoardLinkedRoom s b = mem_GetActiveBoardLinkedRoom (w_db w) b" if "b \<noteq> []"
    by (rule board_lookup_unique [OF reachable_rooms_inv [OF assms(1)] inv assms(2,3) that])
  show "mem_ListRoomsByUser s u limit tok = mem_ListRoomsByUser (w_db w) u limit tok" if "inj_on rm_UpdatedAt (user_rooms (w_db w) u)"
    unfolding mem_ListRoomsByUser_def mem_rooms_def [symmetric]
      mem_rooms_unique [OF inv assms(2,3) reachable_inv(2) [OF assms(1)] that] ..
  have inj: "inj_on mg_SequenceNo (ran (a_messages (mem_abs s) rid))"
    using messages_invD(1) [OF reachable_inv(2) [OF assms(1)], of rid] assms(3) by (simp add: numbered_def)
  have "mem_older s rid before = mem_older (w_db w) rid before"
    by (rule lists_sorted_unique [OF mem_older_sorted [OF assms(2)]])
       (use mem_older_sorted [OF inv] inj in \<open>auto simp: assms(3) older_messages_def inj_on_def\<close>)
  then show "mem_ListMessagesBefore s rid before limit = mem_ListMessagesBefore (w_db w) rid before limit"
    by (simp add: mem_ListMessagesBefore_alt)
  have "mem_newer s rid k = mem_newer (w_db w) rid k"
    by (rule lists_sorted_unique [OF mem_newer_sorted [OF assms(2)]])
       (use mem_newer_sorted [OF inv] inj in \<open>auto simp: assms(3) newer_messages_def inj_on_def\<close>)
  then show "mem_ListMessagesAfter s rid k limit = mem_ListMessagesAfter (w_db w) rid k limit"
    by (simp add: mem_ListMessagesAfter_alt)
  show "mem_ListActiveMembersByJoinOrder s rid = mem_ListActiveMembersByJoinOrder (w_db w) rid"
    if "inj_on join_key (active_members (mem_abs s) rid)"
    using mem_ListActiveMembers_reads [OF assms(2), of rid] mem_ListActiveMembers_reads [OF inv, of rid]
      lists_sorted_unique that assms(3) by metis
  let ?M = "{t. \<exists>u \<in> set us. t \<in> ran (a_devices (mem_abs s) u) \<and> dt_IsActive t \<and> TrimSpace (dt_Token t) \<noteq> []}"
  have "inj_on (\<lambda>t. (dt_UserID t, dt_DeviceID t)) ?M"
    using mem.device_key [OF assms(2)] by (auto simp: inj_on_def ran_def)
  note inj2 = this
  assume us: "distinct us"
  obtain ts where ts: "mem_ListActiveDeviceTokensByUserIDs s us = Inr ts" "lists_sorted (\<lambda>t. (dt_UserID t, dt_DeviceID t)) ?M ts"
    using mem_ListActiveDeviceTokens_reads [OF assms(2) us] by blast
  obtain ts' where ts': "mem_ListActiveDeviceTokensByUserIDs (w_db w) us = Inr ts'"
    "lists_sorted (\<lambda>t. (dt_UserID t, dt_DeviceID t)) ?M ts'"
    using mem_ListActiveDeviceTokens_reads [OF inv us] unfolding assms(3) by blast
  show "mem_ListActiveDeviceTokensByUserIDs s us = mem_ListActiveDeviceTokensByUserIDs (w_db w) us"
    unfolding ts(1) ts'(1) lists_sorted_unique [OF ts(2) ts'(2) inj2] ..
qed

text \<open>The example state with the maps laid out in another order.\<close>

theorem iteration_order_invisible_witness:
  "mem_ListActiveMembersByJoinOrder ((w_db demo)\<lparr>st_members := [(uid 8, inner (st_members (w_db demo)) (uid 8)),
       (uid 0, rev (inner (st_members (w_db demo)) (uid 0)))]\<rparr>) (uid 0)
     = mem_ListActiveMembersByJoinOrder (w_db demo) (uid 0)"
proof -
  let ?s = "(w_db demo)\<lparr>st_members := [(uid 8, inner (st_members (w_db demo)) (uid 8)),
       (uid 0, rev (inner (st_members (w_db demo)) (uid 0)))]\<rparr>"
  have "map_of (inner (st_members ?s) rid) = map_of (inner (st_members (w_db demo)) rid)" for rid
    by (auto simp: demo inner_def)
  then have a: "mem_abs ?s = mem_abs (w_db demo)"
    by (simp add: mem_abs_def max_seq_def)
  have "mem_inv ?s"
    using reachable_inv(1) [OF demo_reachable]
    by (auto simp: mem_inv_def demo inner_def wf_map2_def wf_map_def keyed2_def)
  moreover have "active_members (mem_abs (w_db demo)) (uid 0) \<subseteq> {ann, bob}"
    by (auto simp: active_members_def ran_def mem_abs_sel demo inner_def split: if_splits)
  then have "inj_on join_key (active_members (mem_abs ?s) (uid 0))"
    unfolding a by (rule inj_on_subset [rotated]) (auto simp: join_key_def)
  ultimately show ?thesis using iteration_order_invisible [OF demo_reachable _ a] by blast
qed

text \<open>
  The condition on the room list is needed: two rooms with the same time of update change places when the map
  of members is visited in another order.
\<close>

definition tied_store :: "string list \<Rightarrow> Store" where
  "tied_store ids = NewStore\<lparr>st_rooms := map (\<lambda>i. (i, sample_room\<lparr>rm_ID := i, rm_LinkedBoardID := i\<rparr>)) [''r1'', ''r2''],
     st_members := map (\<lambda>i. (i, [(''u1'', (sample_member ''m'' ''u1'' MemberRoleOwner MemberStatusActive 0)\<lparr>mb_RoomID := i\<rparr>)])) ids\<rparr>"

lemma tied_rooms_in_map_order:
  "mem_inv (tied_store [''r1'', ''r2'']) \<and> mem_inv (tied_store [''r2'', ''r1''])
    \<and> mem_abs (tied_store [''r2'', ''r1'']) = mem_abs (tied_store [''r1'', ''r2''])
    \<and> mem_ListRoomsByUser (tied_store [''r1'', ''r2'']) ''u1'' 1 [] \<noteq> mem_ListRoomsByUser (tied_store [''r2'', ''r1'']) ''u1'' 1 []"
proof (intro conjI)
  note defs = tied_store_def NewStore_def sample_member_def sample_room_def
  show "mem_inv (tied_store [''r1'', ''r2''])" "mem_inv (tied_store [''r2'', ''r1''])"
    by (auto simp: mem_inv_def defs wf_map2_def wf_map_def keyed2_def keyed_def inner_def)
  have "map_of (inner (st_members (tied_store [''r2'', ''r1''])) rid) = map_of (inner (st_members (tied_store [''r1'', ''r2''])) rid)" for rid
    by (auto simp: defs inner_def)
  then show "mem_abs (tied_store [''r2'', ''r1'']) = mem_abs (tied_store [''r1'', ''r2''])"
    by (simp add: mem_abs_def) (simp add: defs max_seq_def fun_eq_iff)
  show "mem_ListRoomsByUser (tied_store [''r1'', ''r2'']) ''u1'' 1 [] \<noteq> mem_ListRoomsByUser (tied_store [''r2'', ''r1'']) ''u1'' 1 []"
    by (simp add: mem_ListRoomsByUser_def defs room_summary_def inner_def vals_def mem_page_start_def map_filter_def wrap64_def)
qed

end
