(* ===== verification/Streaming.thy ===== *)
theory Streaming
  imports Scenario "HOL-Library.Sublist"
begin

text \<open>
  \<^verbatim>\<open>StreamMessages\<close> of \<^verbatim>\<open>internal/service/service.go\<close>: the goroutine behind one stream, as a state
  machine. Its steps are the repository calls, the receives on its subscription and the sends to its
  client; between any two of them the rest of the service takes steps of its own. \<open>sr_out\<close> is what the
  client has received so far.
\<close>

section \<open>State\<close>

text \<open>
  Where the goroutine stands: in the catch-up loop before the query, while it drains the
  subscription, before it flushes; in the \<^verbatim>\<open>select\<close> loop; after it received a message with a gap before
  it, after that; ended, with the error sent on \<^verbatim>\<open>errCh\<close> if any. The number is the size of the last
  catch-up batch.
\<close>

datatype phase = Querying | Draining nat | Flushing nat | Live | Repairing | Delivering | Ended "error option"

record stream =
  sr_room :: string
  sr_user :: string
  sr_chan :: nat
  sr_pending :: "(int, ChatMessage) gomap"
  sr_last :: int
  sr_out :: "ChatMessage list"
  sr_phase :: phase

definition streamCatchUpBatchSize :: nat where
  "streamCatchUpBatchSize = 100"

definition ctx_canceled :: error where
  "ctx_canceled = ErrOther ''context canceled''"

section \<open>The parts of the loop\<close>

definition add_pending :: "ChatMessage list \<Rightarrow> (int, ChatMessage) gomap \<Rightarrow> (int, ChatMessage) gomap" where
  "add_pending msgs pending = foldl (\<lambda>p msg. AList.update (mg_SequenceNo msg) msg p) pending msgs"

text \<open>
  \<^verbatim>\<open>flushPendingMessages\<close>. The context may be cancelled while a send waits for the client; \<open>accept\<close> is the
  number of sends that go through before that. The result: the error, what is left pending, the last
  delivered number, the client's messages and the environment.
\<close>

fun flushPendingMessages ::
  "'s ChatService \<Rightarrow> nat \<Rightarrow> (int, ChatMessage) gomap \<Rightarrow> int \<Rightarrow> ChatMessage list \<Rightarrow> genv \<Rightarrow>
     error option \<times> (int, ChatMessage) gomap \<times> int \<times> ChatMessage list \<times> genv" where
  "flushPendingMessages svc accept pending lastDelivered out g =
    (let next = wrap64 (lastDelivered + 1) in
     case map_of pending next of
       None \<Rightarrow> (None, pending, lastDelivered, out, g)
     | Some msg \<Rightarrow>
        (let pending' = AList.delete next pending in
         case present svc msg g of
           (Inl e, g') \<Rightarrow> (Some e, pending', lastDelivered, out, g')
         | (Inr m, g') \<Rightarrow>
            (case accept of
               0 \<Rightarrow> (Some ctx_canceled, pending', lastDelivered, out, g')
             | Suc n \<Rightarrow> flushPendingMessages svc n pending' next (out @ [m]) g')))"

declare flushPendingMessages.simps [simp del]

text \<open>The deferred \<^verbatim>\<open>sub.Close()\<close> when the goroutine returns.\<close>

definition finish :: "error option \<Rightarrow> 's world \<times> stream \<Rightarrow> 's world \<times> stream" where
  "finish r = (\<lambda>(w, st). (w\<lparr>w_ps := ps_Close (w_ps w) (sr_chan st)\<rparr>, st\<lparr>sr_phase := Ended r\<rparr>))"

text \<open>The start: the membership check, then the subscription.\<close>

definition stream_start :: "'s ChatService \<Rightarrow> string \<Rightarrow> string \<Rightarrow> int \<Rightarrow> 's world \<Rightarrow> (error + stream) \<times> 's world" where
  "stream_start svc roomID userID afterSequenceNo =
    bindP (validateActiveMembership svc roomID userID) (\<lambda>_ w.
     let (ch, ps, g) = ps_Subscribe (w_env w) (w_ps w) roomID 256 in
     (Inr \<lparr>sr_room = roomID, sr_user = userID, sr_chan = ch, sr_pending = [], sr_last = afterSequenceNo,
           sr_out = [], sr_phase = Querying\<rparr>, w\<lparr>w_ps := ps, w_env := g\<rparr>))"

text \<open>A query for the messages after the last delivered one.\<close>

definition query :: "'s ChatService \<Rightarrow> (nat \<Rightarrow> phase) \<Rightarrow> 's world \<times> stream \<Rightarrow> 's world \<times> stream" where
  "query svc ph = (\<lambda>(w, st).
    case rp_ListMessagesAfter (cs_repo svc) (w_db w) (sr_room st) (sr_last st) (int streamCatchUpBatchSize) of
      Inl e \<Rightarrow> finish (Some e) (w, st)
    | Inr msgs \<Rightarrow> (w, st\<lparr>sr_pending := add_pending msgs (sr_pending st), sr_phase := ph (length msgs)\<rparr>))"

text \<open>One receive of \<^verbatim>\<open>drainSubscription\<close>.\<close>

definition drain :: "nat \<Rightarrow> 's world \<times> stream \<Rightarrow> 's world \<times> stream" where
  "drain n = (\<lambda>(w, st).
    case ps_recv (w_ps w) (sr_chan st) of
      (Some (Some msg), ps) \<Rightarrow>
        (w\<lparr>w_ps := ps\<rparr>, st\<lparr>sr_pending := AList.update (mg_SequenceNo msg) msg (sr_pending st)\<rparr>)
    | _ \<Rightarrow> (w, st\<lparr>sr_phase := Flushing n\<rparr>))"

text \<open>A flush; an error ends the goroutine without a word.\<close>

definition flush :: "'s ChatService \<Rightarrow> nat \<Rightarrow> phase \<Rightarrow> 's world \<times> stream \<Rightarrow> 's world \<times> stream" where
  "flush svc accept ph = (\<lambda>(w, st).
    case flushPendingMessages svc accept (sr_pending st) (sr_last st) (sr_out st) (w_env w) of
      (err, pending, lst, out, g) \<Rightarrow>
        (let st' = st\<lparr>sr_pending := pending, sr_last := lst, sr_out := out, sr_phase := ph\<rparr>;
             w' = w\<lparr>w_env := g\<rparr>
         in case err of None \<Rightarrow> (w', st') | Some _ \<Rightarrow> finish None (w', st')))"

text \<open>The three events of the \<^verbatim>\<open>select\<close> loop besides cancellation.\<close>

definition tick :: "'s ChatService \<Rightarrow> 's world \<times> stream \<Rightarrow> 's world \<times> stream" where
  "tick svc = (\<lambda>(w, st).
    case rp_GetMember (cs_repo svc) (w_db w) (sr_room st) (sr_user st) of
      Inl e \<Rightarrow> finish (Some e) (w, st)
    | Inr member \<Rightarrow>
        if mb_Status member = MemberStatusLeft then finish (Some ErrMemberLeft) (w, st)
        else if mb_Status member = MemberStatusRemoved then finish (Some ErrMemberRemoved) (w, st)
        else (w, st))"

definition receive :: "'s world \<times> stream \<Rightarrow> 's world \<times> stream" where
  "receive = (\<lambda>(w, st).
    case ps_recv (w_ps w) (sr_chan st) of
      (Some (Some msg), ps) \<Rightarrow>
        (let w' = w\<lparr>w_ps := ps\<rparr> in
         if mg_SequenceNo msg \<le> sr_last st then (w', st)
         else (w', st\<lparr>sr_pending := AList.update (mg_SequenceNo msg) msg (sr_pending st),
                      sr_phase := (if mg_SequenceNo msg > wrap64 (sr_last st + 1) then Repairing else Delivering)\<rparr>))
    | (Some None, ps) \<Rightarrow> finish None (w, st)
    | (None, ps) \<Rightarrow> (w, st))"

section \<open>The state machine\<close>

inductive stream_step :: "'s ChatService \<Rightarrow> 's world \<times> stream \<Rightarrow> 's world \<times> stream \<Rightarrow> bool"
  for svc :: "'s ChatService" where
  catch_up: "sr_phase st = Querying \<Longrightarrow> stream_step svc (w, st) (query svc Draining (w, st))"
| drain: "sr_phase st = Draining n \<Longrightarrow> stream_step svc (w, st) (drain n (w, st))"
| catch_up_flush: "sr_phase st = Flushing n \<Longrightarrow>
    stream_step svc (w, st) (flush svc k (if n < streamCatchUpBatchSize then Live else Querying) (w, st))"
| cancel: "sr_phase st = Live \<Longrightarrow> stream_step svc (w, st) (finish None (w, st))"
| tick: "sr_phase st = Live \<Longrightarrow> stream_step svc (w, st) (tick svc (w, st))"
| receive: "sr_phase st = Live \<Longrightarrow> stream_step svc (w, st) (receive (w, st))"
| repair: "sr_phase st = Repairing \<Longrightarrow> stream_step svc (w, st) (query svc (\<lambda>_. Delivering) (w, st))"
| deliver: "sr_phase st = Delivering \<Longrightarrow> stream_step svc (w, st) (flush svc k Live (w, st))"

text \<open>The stream beside everything else that happens in the service.\<close>

inductive served :: "'s ChatService \<Rightarrow> ('s \<Rightarrow> astore) \<Rightarrow> 's world \<times> stream \<Rightarrow> 's world \<times> stream \<Rightarrow> bool"
  for svc :: "'s ChatService" and store :: "'s \<Rightarrow> astore" where
  service: "chat_step svc store w w' \<Longrightarrow> served svc store (w, st) (w', st)"
| stream: "stream_step svc x y \<Longrightarrow> served svc store x y"

section \<open>Delivery in order\<close>

lemma presented_keeps:
  "presented m x \<Longrightarrow> mg_ID x = mg_ID m \<and> mg_SequenceNo x = mg_SequenceNo m \<and> mg_SenderUserID x = mg_SenderUserID m"
  unfolding presented_def same_message_def redacted_def
  by (metis (no_types, lifting) ChatMessage.select_convs(1,3,5) ChatMessage.surjective ChatMessage.update_convs(6,7,8,9))

text \<open>Pending messages are filed under their numbers and satisfy \<open>P\<close>.\<close>

definition pending_ok :: "(ChatMessage \<Rightarrow> bool) \<Rightarrow> (int, ChatMessage) gomap \<Rightarrow> bool" where
  "pending_ok P pending \<longleftrightarrow> (\<forall>n m. map_of pending n = Some m \<longrightarrow> mg_SequenceNo m = n \<and> 1 \<le> n \<and> P m)"

lemma pending_ok_Nil [simp]: "pending_ok P []"
  by (simp add: pending_ok_def)

lemma pending_okD: "pending_ok P pending \<Longrightarrow> map_of pending n = Some m \<Longrightarrow> mg_SequenceNo m = n \<and> 1 \<le> n \<and> P m"
  unfolding pending_ok_def by blast

lemma pending_ok_update:
  "pending_ok P pending \<Longrightarrow> 1 \<le> mg_SequenceNo m \<Longrightarrow> P m \<Longrightarrow> pending_ok P (AList.update (mg_SequenceNo m) m pending)"
  by (simp add: pending_ok_def)

lemma pending_ok_delete: "pending_ok P pending \<Longrightarrow> pending_ok P (AList.delete n pending)"
  by (simp add: pending_ok_def)

lemma pending_ok_mono: "pending_ok P pending \<Longrightarrow> (\<And>m. P m \<Longrightarrow> Q m) \<Longrightarrow> pending_ok Q pending"
  unfolding pending_ok_def by blast

lemma pending_ok_add:
  "pending_ok P pending \<Longrightarrow> (\<And>m. m \<in> set msgs \<Longrightarrow> 1 \<le> mg_SequenceNo m \<and> P m) \<Longrightarrow> pending_ok P (add_pending msgs pending)"
  unfolding add_pending_def by (induction msgs arbitrary: pending) (simp_all add: pending_ok_update)

text \<open>What the client has: the numbers from \<open>a + 1\<close> up to \<open>n\<close>, each a presentation of a message with \<open>P\<close>.\<close>

definition delivered_ok :: "(ChatMessage \<Rightarrow> bool) \<Rightarrow> int \<Rightarrow> int \<Rightarrow> ChatMessage list \<Rightarrow> bool" where
  "delivered_ok P a n out \<longleftrightarrow> a \<le> n \<and> int64_range n \<and> map mg_SequenceNo out = [a + 1..n]
     \<and> (\<forall>x \<in> set out. \<exists>m. P m \<and> presented m x)"

lemma delivered_ok_mono: "delivered_ok P a n out \<Longrightarrow> (\<And>m. P m \<Longrightarrow> Q m) \<Longrightarrow> delivered_ok Q a n out"
  unfolding delivered_ok_def by blast

lemma wrap64_next:
  assumes "int64_range n" "1 \<le> wrap64 (n + 1)"
  shows "wrap64 (n + 1) = n + 1"
proof (cases "n + 1 < 2 ^ 63")
  case False
  then have "n = 2 ^ 63 - 1" using assms(1) by (simp add: int64_range_def)
  then show ?thesis using assms(2) by (simp add: wrap64_def)
qed (use assms(1) in \<open>simp add: int64_range_def\<close>)

lemma delivered_ok_snoc:
  assumes "delivered_ok P a n out" "P m" "presented m x" "mg_SequenceNo m = wrap64 (n + 1)" "1 \<le> wrap64 (n + 1)"
  shows "delivered_ok P a (wrap64 (n + 1)) (out @ [x])"
proof -
  have w: "wrap64 (n + 1) = n + 1" by (rule wrap64_next) (use assms in \<open>simp_all add: delivered_ok_def\<close>)
  have "a \<le> n" "map mg_SequenceNo out = [a + 1..n]" using assms(1) by (auto simp: delivered_ok_def)
  then have "map mg_SequenceNo (out @ [x]) = [a + 1..n + 1]"
    using assms(3,4) presented_seq w by (simp add: upto_rec2)
  moreover have "int64_range (n + 1)" using wrap64_range [of "n + 1"] w by simp
  ultimately show ?thesis
    using assms(1-3) \<open>a \<le> n\<close> unfolding w by (auto simp: delivered_ok_def)
qed

lemma flush_in_order:
  assumes "delivered_ok P a n out" "pending_ok P pending"
    "flushPendingMessages svc accept pending n out g = (err, pending', n', out', g')"
  shows "delivered_ok P a n' out' \<and> pending_ok P pending' \<and> prefix out out'"
  using assms
proof (induction accept arbitrary: pending n out g)
  case 0
  then show ?case
    by (auto simp: flushPendingMessages.simps [of _ 0] Let_def pending_ok_delete split: option.splits prod.splits sum.splits)
next
  case (Suc k)
  let ?n = "wrap64 (n + 1)"
  show ?case
  proof (cases "map_of pending ?n")
    case None
    with Suc.prems show ?thesis by (simp add: flushPendingMessages.simps [of _ "Suc k"])
  next
    case (Some msg)
    note m = pending_okD [OF Suc.prems(2) Some]
    obtain r g1 where p: "present svc msg g = (r, g1)" by fastforce
    show ?thesis
    proof (cases r)
      case (Inl e)
      with Suc.prems Some p show ?thesis
        by (auto simp: flushPendingMessages.simps [of _ "Suc k"] Let_def pending_ok_delete)
    next
      case (Inr x)
      with p have x: "presented msg x" using present_presented by blast
      have "flushPendingMessages svc k (AList.delete ?n pending) ?n (out @ [x]) g1 = (err, pending', n', out', g')"
        using Suc.prems(3) Some p Inr by (simp add: flushPendingMessages.simps [of _ "Suc k"] Let_def)
      from Suc.IH [OF delivered_ok_snoc [OF Suc.prems(1) _ x] pending_ok_delete [OF Suc.prems(2)] this] m
      show ?thesis by (auto simp: prefix_def)
    qed
  qed
qed

context chat_repository
begin

lemma stored_known: "inv s \<Longrightarrow> m \<in> ran (a_messages (abs s) rid) \<Longrightarrow> known (abs s) rid m"
  using message_key by (fastforce simp: known_def ran_def)

lemma known_number:
  assumes "messages_inv a" "known a rid m"
  shows "1 \<le> mg_SequenceNo m \<and> mg_SequenceNo m \<le> a_maxSeq a rid"
proof -
  from assms(2) obtain c where c: "a_messages a rid (mg_ID m) = Some c" "message_later m c" by (auto simp: known_def)
  have "mg_SequenceNo c \<in> {1..a_maxSeq a rid}"
    using messages_invD(1) [OF assms(1), of rid] ranI [of "a_messages a rid", OF c(1)] by (auto simp: numbered_def)
  with c(2) show ?thesis by (simp add: message_later_def)
qed

text \<open>The invariant of a stream that was opened with the number \<open>n0\<close>.\<close>

definition following :: "int \<Rightarrow> 's world \<times> stream \<Rightarrow> bool" where
  "following n0 = (\<lambda>(w, st). sound w \<and> carried (abs (w_db w)) (w_ps w)
     \<and> ps_room (w_ps w) (sr_chan st) = Some (sr_room st)
     \<and> delivered_ok (known (abs (w_db w)) (sr_room st)) n0 (sr_last st) (sr_out st)
     \<and> pending_ok (known (abs (w_db w)) (sr_room st)) (sr_pending st))"

lemma following_negative:
  assumes "following n0 (w, st)" "n0 < 0"
  shows "sr_out st = []"
proof (rule ccontr)
  assume "sr_out st \<noteq> []"
  then obtain x xs where x: "sr_out st = x # xs" by (cases "sr_out st") auto
  have w: "sound w" "delivered_ok (known (abs (w_db w)) (sr_room st)) n0 (sr_last st) (sr_out st)"
    using assms(1) by (simp_all add: following_def)
  then obtain m where m: "known (abs (w_db w)) (sr_room st) m" "presented m x"
    and seq: "map mg_SequenceNo (x # xs) = [n0 + 1..sr_last st]" unfolding x by (auto simp: delivered_ok_def)
  from seq have "mg_SequenceNo x = n0 + 1" by (metis list.map_disc_iff list.sel(1) list.simps(9) neq_Nil_conv upto_Nil upto_rec1 not_le)
  with known_number [OF soundD(4) [OF w(1)] m(1)] presented_keeps [OF m(2)] assms(2) show False by simp
qed

lemma following_phase [simp]: "following n0 (w, st\<lparr>sr_phase := ph\<rparr>) = following n0 (w, st)"
  by (simp add: following_def)

lemma following_finish: "following n0 (w, st) \<Longrightarrow> following n0 (finish r (w, st))"
  using hub.close [of "w_ps w" "sr_chan st"] hub.carries_close [of "w_ps w" _ "sr_chan st"]
  by (auto simp: following_def finish_def sound_def good_def carried_def)

lemma following_query:
  assumes "following n0 (w, st)" "cs_repo svc = R"
  shows "following n0 (query svc ph (w, st))"
proof -
  have w: "sound w" using assms(1) by (simp add: following_def)
  from ListMessagesAfter [OF soundD(2) [OF w], of "sr_room st" "sr_last st" "int streamCatchUpBatchSize"] obtain all where
    all: "rp_ListMessagesAfter R (w_db w) (sr_room st) (sr_last st) (int streamCatchUpBatchSize)
       = Inr (take (page_limit 100 (int streamCatchUpBatchSize)) all)"
    "lists_sorted mg_SequenceNo (newer_messages (abs (w_db w)) (sr_room st) (sr_last st)) all" by blast
  let ?msgs = "take (page_limit 100 (int streamCatchUpBatchSize)) all"
  have "known (abs (w_db w)) (sr_room st) m" if "m \<in> set ?msgs" for m
    using in_set_takeD [OF that] all(2) stored_known [OF soundD(2) [OF w]] by (auto simp: lists_sorted_def newer_messages_def)
  then have "pending_ok (known (abs (w_db w)) (sr_room st)) (add_pending ?msgs (sr_pending st))"
    using assms(1) known_number [OF soundD(4) [OF w]] by (intro pending_ok_add) (auto simp: following_def)
  with assms all(1) show ?thesis by (simp add: query_def following_def)
qed

lemma following_recv:
  assumes "following n0 (w, st)" "ps_recv (w_ps w) (sr_chan st) = (Some (Some msg), ps)"
  shows "following n0 (w\<lparr>w_ps := ps\<rparr>, st)"
    "following n0 (w\<lparr>w_ps := ps\<rparr>, st\<lparr>sr_pending := AList.update (mg_SequenceNo msg) msg (sr_pending st)\<rparr>)"
proof -
  have w: "sound w" "carried (abs (w_db w)) (w_ps w)" "ps_room (w_ps w) (sr_chan st) = Some (sr_room st)"
    using assms(1) by (auto simp: following_def)
  note r = hub.recv [OF soundD(6) [OF w(1)] assms(2)] and c = carried_recv [OF assms(2) w(2) soundD(6) [OF w(1)]]
  have k: "known (abs (w_db w)) (sr_room st) msg" using c(1) w(3) by simp
  show "following n0 (w\<lparr>w_ps := ps\<rparr>, st)"
    using assms(1) r c(2) by (simp add: following_def sound_def good_def)
  with k known_number [OF soundD(4) [OF w(1)] k]
  show "following n0 (w\<lparr>w_ps := ps\<rparr>, st\<lparr>sr_pending := AList.update (mg_SequenceNo msg) msg (sr_pending st)\<rparr>)"
    by (simp add: following_def pending_ok_update)
qed

lemma following_flush:
  assumes "following n0 (w, st)"
  shows "following n0 (flush svc k ph (w, st)) \<and> prefix (sr_out st) (sr_out (snd (flush svc k ph (w, st))))"
proof -
  obtain err p n out g where f: "flushPendingMessages svc k (sr_pending st) (sr_last st) (sr_out st) (w_env w) = (err, p, n, out, g)"
    by (metis prod.collapse)
  from assms have "following n0 (w\<lparr>w_env := g\<rparr>, st\<lparr>sr_pending := p, sr_last := n, sr_out := out, sr_phase := ph\<rparr>) \<and> prefix (sr_out st) out"
    using flush_in_order [OF _ _ f] by (auto simp: following_def)
  with f show ?thesis
    by (cases err) (simp_all add: flush_def following_finish, simp add: finish_def)
qed

lemma stream_step_following:
  assumes "stream_step svc x y" "following n0 x" "cs_repo svc = R"
  shows "following n0 y \<and> sr_room (snd y) = sr_room (snd x) \<and> prefix (sr_out (snd x)) (sr_out (snd y))"
proof -
  have shape: "sr_room (snd (finish r z)) = sr_room (snd z)" "sr_out (snd (finish r z)) = sr_out (snd z)" for r and z :: "'s world \<times> stream"
    by (cases z; simp add: finish_def)+
  have q: "sr_room (snd (query svc ph z)) = sr_room (snd z) \<and> sr_out (snd (query svc ph z)) = sr_out (snd z)" for ph z
    by (cases z) (auto simp: query_def shape split: sum.split)
  have f: "sr_room (snd (flush svc k ph z)) = sr_room (snd z)" for k ph z
    by (cases z) (auto simp: flush_def Let_def shape split: prod.split option.split)
  from assms(1) show ?thesis
  proof (cases rule: stream_step.cases)
    case (catch_up st w)
    then show ?thesis using following_query [of n0 w st svc Draining] assms q by simp
  next
    case (drain st n w)
    then show ?thesis
      using assms(2) following_recv [of n0 w st]
      by (auto simp: drain_def following_def split: prod.split option.split)
  next
    case (catch_up_flush st n w k)
    then show ?thesis using following_flush [of n0 w st] assms(2) f by simp
  next
    case (cancel st w)
    then show ?thesis using following_finish assms(2) shape by simp
  next
    case (tick st w)
    then show ?thesis using following_finish assms(2) shape
      by (auto simp: tick_def split: sum.split)
  next
    case (receive st w)
    then show ?thesis
      using assms(2) following_recv [of n0 w st] following_finish [of n0 w st None] shape
      by (auto simp: receive_def Let_def split: prod.split option.split)
  next
    case (repair st w)
    then show ?thesis using following_query [of n0 w st svc "\<lambda>_. Delivering"] assms q by simp
  next
    case (deliver st w k)
    then show ?thesis using following_flush [of n0 w st] assms(2) f by simp
  qed
qed

lemma served_following:
  assumes "served svc abs x y" "following n0 x" "cs_repo svc = R"
  shows "following n0 y \<and> sr_room (snd y) = sr_room (snd x) \<and> prefix (sr_out (snd x)) (sr_out (snd y))"
  using assms(1)
proof (cases rule: served.cases)
  case (service w w' st)
  then have w: "sound w" using assms(2) by (simp add: following_def)
  from step_advances [OF w assms(3) service(3)] have a: "sound w'" "progress (abs (w_db w)) (abs (w_db w'))"
    "carried (abs (w_db w)) (w_ps w) \<Longrightarrow> carried (abs (w_db w')) (w_ps w')" "ps_room (w_ps w) \<subseteq>\<^sub>m ps_room (w_ps w')"
    by (simp_all add: advances_def)
  have "ps_room (w_ps w') (sr_chan st) = Some (sr_room st)"
    using a(4) assms(2) service(1) by (auto simp: following_def map_le_def dom_def)
  with service assms(2) a known_progress [OF _ a(2)] show ?thesis
    by (auto simp: following_def intro: delivered_ok_mono pending_ok_mono)
next
  case stream
  then show ?thesis using stream_step_following assms(2,3) by blast
qed

lemma served_run_following:
  assumes "(served svc abs)\<^sup>*\<^sup>* x y" "following n0 x" "cs_repo svc = R"
  shows "following n0 y \<and> sr_room (snd y) = sr_room (snd x) \<and> prefix (sr_out (snd x)) (sr_out (snd y))"
  using assms(1)
proof (induction rule: rtranclp_induct)
  case (step y z)
  with served_following [OF step.hyps(2) _ assms(3), of n0] show ?case
    by (auto intro: prefix_order.trans)
qed (use assms(2) in simp)

text \<open>A stream that has just been opened.\<close>

lemma start_following:
  assumes w: "sound w" "carried (abs (w_db w)) (w_ps w)" and R: "cs_repo svc = R" and n: "int64_range n0"
    and fr: "ps_fresh (w_env w) (w_ps w) rid" and st: "stream_start svc rid u n0 w = (Inr st, w')"
  shows "following n0 (w', st) \<and> sr_room st = rid \<and> abs (w_db w') = abs (w_db w) \<and> sr_out st = []"
proof -
  from st obtain ch ps g where s: "ps_Subscribe (w_env w) (w_ps w) rid 256 = (ch, ps, g)"
    and st': "st = \<lparr>sr_room = rid, sr_user = u, sr_chan = ch, sr_pending = [], sr_last = n0, sr_out = [], sr_phase = Querying\<rparr>"
    and w': "w' = w\<lparr>w_ps := ps, w_env := g\<rparr>"
    by (auto simp: stream_start_def validateActiveMembership_def bindP_def view_def split: sum.splits if_splits prod.splits)
  from hub.subscribe [OF soundD(6) [OF w(1)] fr s] hub.carries_subscribe [OF soundD(6) [OF w(1)] _ fr s] w n show ?thesis
    by (simp add: following_def st' w' sound_def good_def carried_def delivered_ok_def)
qed

end

section \<open>The catch-up loop\<close>

text \<open>
  The loop run on its own, at most \<open>fuel\<close> steps of it: \<open>None\<close> when they are not enough. The client
  takes at least \<open>accept\<close> messages per flush.
\<close>

fun catch_up :: "nat \<Rightarrow> nat \<Rightarrow> 's ChatService \<Rightarrow> 's world \<times> stream \<Rightarrow> ('s world \<times> stream) option" where
  "catch_up 0 accept svc x = None"
| "catch_up (Suc fuel) accept svc x =
    (case sr_phase (snd x) of
       Querying \<Rightarrow> catch_up fuel accept svc (query svc Draining x)
     | Draining n \<Rightarrow> catch_up fuel accept svc (drain n x)
     | Flushing n \<Rightarrow> catch_up fuel accept svc (flush svc accept (if n < streamCatchUpBatchSize then Live else Querying) x)
     | _ \<Rightarrow> Some x)"

lemma catch_up_steps: "catch_up fuel accept svc x = Some y \<Longrightarrow> (stream_step svc)\<^sup>*\<^sup>* x y"
proof (induction fuel accept svc x rule: catch_up.induct)
  case (2 fuel accept svc x)
  obtain w st where x: "x = (w, st)" by fastforce
  show ?case
    using 2 stream_step.catch_up [of st svc w] stream_step.drain [of st _ svc w] stream_step.catch_up_flush [of st _ svc w accept]
    by (cases "sr_phase st") (auto simp: x intro: converse_rtranclp_into_rtranclp)
qed simp

lemma add_pending_Nil:
  "distinct (map mg_SequenceNo msgs) \<Longrightarrow> add_pending msgs [] = map (\<lambda>m. (mg_SequenceNo m, m)) msgs"
proof (induction msgs rule: rev_induct)
  case (snoc m msgs)
  then have "mg_SequenceNo m \<notin> fst ` set (map (\<lambda>m. (mg_SequenceNo m, m)) msgs)" by (auto simp: image_iff)
  with snoc show ?case by (simp add: add_pending_def alist_update_new)
qed (simp add: add_pending_def)

lemma delete_absent: "k \<notin> fst ` set m \<Longrightarrow> AList.delete k m = m"
  by (induction m) auto

text \<open>A flush of a run of consecutive messages delivers them all.\<close>

lemma flush_run:
  assumes "cs_attachmentReadSigner svc = None" "map mg_SequenceNo msgs = [n + 1..n + int (length msgs)]"
    "length msgs \<le> accept" "0 \<le> n" "n + int (length msgs) < 2 ^ 63"
  shows "\<exists>out' g'. flushPendingMessages svc accept (map (\<lambda>m. (mg_SequenceNo m, m)) msgs) n out g
    = (None, [], n + int (length msgs), out', g')"
  using assms(2-5)
proof (induction msgs arbitrary: n accept out g)
  case Nil
  then show ?case by (simp add: flushPendingMessages.simps [of _ accept] Let_def)
next
  case (Cons m msgs)
  obtain k where k: "accept = Suc k" using Cons.prems(2) by (cases accept) auto
  have "[n + 1..n + int (length (m # msgs))] = (n + 1) # [n + 1 + 1..n + int (length (m # msgs))]"
    by (rule upto_rec1) simp
  with Cons.prems(1) have m: "mg_SequenceNo m = n + 1" and ms: "map mg_SequenceNo msgs = [n + 1 + 1..n + 1 + int (length msgs)]"
    by (simp_all add: algebra_simps)
  have w: "wrap64 (n + 1) = n + 1" using Cons.prems by (intro wrap64_id) (simp add: int64_range_def)
  have "n + 1 \<notin> fst ` set (map (\<lambda>m. (mg_SequenceNo m, m)) msgs)"
    using arg_cong [OF ms, of set] by (auto simp: image_iff set_eq_iff)
  then have d: "AList.delete (n + 1) (map (\<lambda>m. (mg_SequenceNo m, m)) msgs) = map (\<lambda>m. (mg_SequenceNo m, m)) msgs"
    by (rule delete_absent)
  obtain x where x: "present svc m g = (Inr x, g)"
    using assms(1) by (cases "mg_IsDeleted m") (simp_all add: present_def hydrateMessageForDelivery_def)
  have "n + 1 + int (length msgs) = n + int (length (m # msgs))" by simp
  with Cons.IH [OF ms, of k "out @ [x]" g] Cons.prems k obtain out' g' where
    "flushPendingMessages svc k (map (\<lambda>m. (mg_SequenceNo m, m)) msgs) (n + 1) (out @ [x]) g
      = (None, [], n + int (length (m # msgs)), out', g')" by auto
  then show ?case
    unfolding k by (simp add: flushPendingMessages.simps [of svc "Suc k"] Let_def w m x d)
qed

text \<open>The messages after a number, in order.\<close>

lemma newer_numbers:
  assumes "numbered (a_messages a rid) m" "0 \<le> n" "lists_sorted mg_SequenceNo (newer_messages a rid n) all"
  shows "map mg_SequenceNo all = [n + 1..m]"
proof -
  have img: "mg_SequenceNo ` ran (a_messages a rid) = {1..m}" and inj: "inj_on mg_SequenceNo (ran (a_messages a rid))"
    using assms(1) by (auto simp: numbered_def)
  have "mg_SequenceNo ` newer_messages a rid n = {x \<in> mg_SequenceNo ` ran (a_messages a rid). n < x}"
    by (auto simp: newer_messages_def)
  then have "mg_SequenceNo ` newer_messages a rid n = {n + 1..m}" unfolding img using assms(2) by auto
  moreover have "inj_on mg_SequenceNo (newer_messages a rid n)"
    by (rule inj_on_subset [OF inj]) (auto simp: newer_messages_def)
  ultimately show ?thesis
    using assms(3) by (intro sorted_distinct_set_unique) (auto simp: lists_sorted_def distinct_map)
qed

lemma take_upto: "take k [a..b] = [a..min b (a + int k - 1)]"
proof (induction k arbitrary: a)
  case (Suc k)
  show ?case
  proof (cases "a \<le> b")
    case True
    then have "take (Suc k) [a..b] = a # [a + 1..min b (a + 1 + int k - 1)]" using Suc [of "a + 1"] by (simp add: upto_rec1)
    also have "\<dots> = [a..min b (a + int (Suc k) - 1)]" using True by (subst (2) upto_rec1) (simp_all add: algebra_simps)
    finally show ?thesis .
  qed simp
qed simp

context chat_repository
begin

text \<open>A query answers with the next batch.\<close>

lemma query_batch:
  assumes fol: "following n0 (w, st)" and R: "cs_repo svc = R" and n: "0 \<le> sr_last st"
  shows "\<exists>msgs. query svc ph (w, st) = (w, st\<lparr>sr_pending := add_pending msgs (sr_pending st), sr_phase := ph (length msgs)\<rparr>)
    \<and> map mg_SequenceNo msgs = [sr_last st + 1..min (a_maxSeq (abs (w_db w)) (sr_room st)) (sr_last st + int streamCatchUpBatchSize)]
    \<and> length msgs \<le> streamCatchUpBatchSize"
proof -
  have w: "sound w" using fol by (simp add: following_def)
  from ListMessagesAfter [OF soundD(2) [OF w], of "sr_room st" "sr_last st" "int streamCatchUpBatchSize"] obtain all where
    all: "rp_ListMessagesAfter R (w_db w) (sr_room st) (sr_last st) (int streamCatchUpBatchSize) = Inr (take streamCatchUpBatchSize all)"
    "lists_sorted mg_SequenceNo (newer_messages (abs (w_db w)) (sr_room st) (sr_last st)) all"
    by (auto simp: page_limit_def streamCatchUpBatchSize_def)
  have "map mg_SequenceNo all = [sr_last st + 1..a_maxSeq (abs (w_db w)) (sr_room st)]"
    by (rule newer_numbers [OF messages_invD(1) [OF soundD(4) [OF w]] n all(2)])
  then show ?thesis using all(1) R
    by (intro exI [of _ "take streamCatchUpBatchSize all"]) (simp add: query_def take_upto flip: take_map)
qed

text \<open>One round of the loop, on a channel with nothing queued.\<close>

lemma catch_up_round:
  assumes fol: "following n0 (w, st)" and R: "cs_repo svc = R" and ns: "cs_attachmentReadSigner svc = None"
    and ph: "sr_phase st = Querying" "sr_pending st = []" "ps_queue (w_ps w) (sr_chan st) = []"
    and n: "0 \<le> sr_last st" "sr_last st \<le> a_maxSeq (abs (w_db w)) (sr_room st)"
      "a_maxSeq (abs (w_db w)) (sr_room st) < 2 ^ 63" and acc: "streamCatchUpBatchSize \<le> accept"
  defines "k \<equiv> min streamCatchUpBatchSize (nat (a_maxSeq (abs (w_db w)) (sr_room st) - sr_last st))"
  shows "\<exists>g st'. catch_up (Suc (Suc (Suc fuel))) accept svc (w, st) = catch_up fuel accept svc (w\<lparr>w_env := g\<rparr>, st')
    \<and> following n0 (w\<lparr>w_env := g\<rparr>, st')
    \<and> sr_room st' = sr_room st \<and> sr_chan st' = sr_chan st \<and> sr_pending st' = [] \<and> sr_last st' = sr_last st + int k
    \<and> sr_phase st' = (if k < streamCatchUpBatchSize then Live else Querying)"
proof -
  let ?m = "a_maxSeq (abs (w_db w)) (sr_room st)"
  obtain msgs where msgs: "query svc Draining (w, st) = (w, st\<lparr>sr_pending := add_pending msgs [], sr_phase := Draining (length msgs)\<rparr>)"
    "map mg_SequenceNo msgs = [sr_last st + 1..min ?m (sr_last st + int streamCatchUpBatchSize)]"
    using query_batch [OF fol R n(1), of Draining] ph(2) by auto
  have lk: "min ?m (sr_last st + int streamCatchUpBatchSize) = sr_last st + int k" using n(2) unfolding k_def by linarith
  have len: "length msgs = k" using arg_cong [OF msgs(2), of length] unfolding lk by simp
  have mseq: "map mg_SequenceNo msgs = [sr_last st + 1..sr_last st + int (length msgs)]" using msgs(2) unfolding lk len .
  let ?p = "map (\<lambda>m. (mg_SequenceNo m, m)) msgs"
  have pend: "add_pending msgs [] = ?p" by (rule add_pending_Nil) (simp add: mseq)
  have ka: "k \<le> accept" "sr_last st + int k < 2 ^ 63" using acc n unfolding k_def by linarith+
  obtain out g where f: "flushPendingMessages svc accept ?p (sr_last st) (sr_out st) (w_env w)
      = (None, [], sr_last st + int k, out, g)"
    using flush_run [OF ns mseq, of accept "sr_out st" "w_env w"] ka n(1) unfolding len by blast
  let ?st1 = "st\<lparr>sr_pending := ?p, sr_phase := Flushing k\<rparr>"
  let ?ph = "if k < streamCatchUpBatchSize then Live else Querying"
  have q: "query svc Draining (w, st) = (w, st\<lparr>sr_pending := ?p, sr_phase := Draining k\<rparr>)"
    using msgs(1) unfolding pend len .
  have empty: "fst (ps_recv (w_ps w) (sr_chan st)) \<in> {None, Some None}"
    using ph(3) by (auto simp: ps_recv_def ps_queue_def split: list.splits if_splits)
  have d: "drain k (w, st\<lparr>sr_pending := ?p, sr_phase := Draining k\<rparr>) = (w, ?st1)"
    using empty by (auto simp: drain_def split: prod.split option.split)
  have fl: "flush svc accept ?ph (w, ?st1) = (w\<lparr>w_env := g\<rparr>, st\<lparr>sr_pending := [], sr_last := sr_last st + int k, sr_out := out, sr_phase := ?ph\<rparr>)"
    using f by (simp add: flush_def)
  have "following n0 (w, ?st1)" using following_query [OF fol R, of Draining] q by simp
  from conjunct1 [OF following_flush [OF this, of svc accept ?ph]]
  have "following n0 (w\<lparr>w_env := g\<rparr>, st\<lparr>sr_pending := [], sr_last := sr_last st + int k, sr_out := out, sr_phase := ?ph\<rparr>)"
    unfolding fl .
  with q d fl ph(1) show ?thesis
    by (intro exI [of _ g] exI [of _ "st\<lparr>sr_pending := [], sr_last := sr_last st + int k, sr_out := out, sr_phase := ?ph\<rparr>"]) simp
qed

text \<open>The whole loop: three steps per batch of a hundred messages.\<close>

lemma catch_up_complete:
  assumes "cs_repo svc = R" "cs_attachmentReadSigner svc = None" "streamCatchUpBatchSize \<le> accept"
    "following n0 (w, st)" "sr_phase st = Querying" "sr_pending st = []" "ps_queue (w_ps w) (sr_chan st) = []"
    "0 \<le> sr_last st" "sr_last st \<le> a_maxSeq (abs (w_db w)) (sr_room st)" "a_maxSeq (abs (w_db w)) (sr_room st) < 2 ^ 63"
    "nat (a_maxSeq (abs (w_db w)) (sr_room st) - sr_last st) div streamCatchUpBatchSize = rounds"
  shows "\<exists>g st'. catch_up (3 * rounds + 4) accept svc (w, st) = Some (w\<lparr>w_env := g\<rparr>, st')
    \<and> following n0 (w\<lparr>w_env := g\<rparr>, st') \<and> sr_phase st' = Live \<and> sr_last st' = a_maxSeq (abs (w_db w)) (sr_room st)"
  using assms(4-)
proof (induction rounds arbitrary: w st)
  case 0
  let ?m = "a_maxSeq (abs (w_db w)) (sr_room st)"
  have small: "nat (?m - sr_last st) < streamCatchUpBatchSize"
    using 0(8) by (simp add: streamCatchUpBatchSize_def div_eq_0_iff)
  with catch_up_round [OF 0(1) assms(1,2) 0(2-7) assms(3), of "Suc 0"] obtain g st' where
    "catch_up (Suc (Suc (Suc (Suc 0)))) accept svc (w, st) = catch_up (Suc 0) accept svc (w\<lparr>w_env := g\<rparr>, st')"
    "following n0 (w\<lparr>w_env := g\<rparr>, st')" "sr_last st' = sr_last st + int (nat (?m - sr_last st))" "sr_phase st' = Live"
    by (auto simp: min_def split: if_splits)
  moreover have "sr_last st + int (nat (?m - sr_last st)) = ?m" using 0(6) by simp
  ultimately show ?case by (intro exI [of _ g] exI [of _ st']) (simp add: numeral_eq_Suc)
next
  case (Suc r)
  let ?m = "a_maxSeq (abs (w_db w)) (sr_room st)"
  have big: "streamCatchUpBatchSize \<le> nat (?m - sr_last st)" "nat (?m - (sr_last st + int streamCatchUpBatchSize)) div streamCatchUpBatchSize = r"
    using Suc.prems(8) by (simp_all add: streamCatchUpBatchSize_def nat_diff_distrib')
  from catch_up_round [OF Suc.prems(1) assms(1,2) Suc.prems(2-7) assms(3), of "3 * r + 4"] big(1) obtain g st' where
    c: "catch_up (Suc (Suc (Suc (3 * r + 4)))) accept svc (w, st) = catch_up (3 * r + 4) accept svc (w\<lparr>w_env := g\<rparr>, st')"
    and st': "following n0 (w\<lparr>w_env := g\<rparr>, st')" "sr_room st' = sr_room st" "sr_chan st' = sr_chan st" "sr_pending st' = []"
      "sr_last st' = sr_last st + int streamCatchUpBatchSize" "sr_phase st' = Querying"
    by (auto simp: min_def split: if_splits)
  have "sr_last st' \<le> ?m" using big(1) Suc.prems(6) st'(5) by (simp add: streamCatchUpBatchSize_def)
  with Suc.IH [OF st'(1,6,4)] st' Suc.prems big(2) c show ?case by (simp add: algebra_simps numeral_eq_Suc)
qed

text \<open>
  With a negative number the next message would have number \<open>0\<close> or less; there is none, so nothing is
  ever delivered and a full batch makes the loop ask for the same batch again.
\<close>

definition spinning :: "'s world \<times> stream \<Rightarrow> bool" where
  "spinning = (\<lambda>(w, st). sr_phase st \<in> {Querying, Draining streamCatchUpBatchSize, Flushing streamCatchUpBatchSize}
     \<and> sr_last st < 0 \<and> ps_queue (w_ps w) (sr_chan st) = []
     \<and> int streamCatchUpBatchSize \<le> a_maxSeq (abs (w_db w)) (sr_room st))"

lemma spinning_query:
  assumes fol: "following n0 (w, st)" and R: "cs_repo svc = R" and sp: "spinning (w, st)"
  shows "spinning (query svc Draining (w, st))"
proof -
  let ?m = "a_maxSeq (abs (w_db w)) (sr_room st)" and ?M = "ran (a_messages (abs (w_db w)) (sr_room st))"
  have w: "sound w" using fol by (simp add: following_def)
  have num: "inj_on mg_SequenceNo ?M" "mg_SequenceNo ` ?M = {1..?m}"
    using messages_invD(1) [OF soundD(4) [OF w], of "sr_room st"] by (auto simp: numbered_def)
  have "\<forall>x \<in> ?M. 1 \<le> mg_SequenceNo x" using num(2) by (metis atLeastAtMost_iff imageI)
  then have "newer_messages (abs (w_db w)) (sr_room st) (sr_last st) = ?M"
    using sp by (force simp: spinning_def newer_messages_def)
  with ListMessagesAfter [OF soundD(2) [OF w], of "sr_room st" "sr_last st" "int streamCatchUpBatchSize"] obtain all where
    all: "rp_ListMessagesAfter R (w_db w) (sr_room st) (sr_last st) (int streamCatchUpBatchSize) = Inr (take streamCatchUpBatchSize all)"
    "lists_sorted mg_SequenceNo ?M all"
    by (auto simp: page_limit_def streamCatchUpBatchSize_def)
  have "length all = card ?M" using all(2) distinct_card [of all] by (simp add: lists_sorted_def)
  also have "\<dots> = nat ?m" using card_image [OF num(1)] num(2) by simp
  finally have "length all = nat ?m" .
  moreover have "streamCatchUpBatchSize \<le> nat ?m" using sp by (simp add: spinning_def nat_le_iff le_nat_iff)
  ultimately have "length (take streamCatchUpBatchSize all) = streamCatchUpBatchSize" by simp
  with all(1) R sp show ?thesis by (simp add: query_def spinning_def)
qed

lemma catch_up_spins:
  assumes "following n0 x" "cs_repo svc = R" "spinning x"
  shows "catch_up fuel accept svc x = None"
  using assms(1,3)
proof (induction fuel arbitrary: x)
  case (Suc fuel)
  obtain w st where x: "x = (w, st)" by fastforce
  note p = Suc.prems [unfolded x]
  consider (q) "sr_phase st = Querying" | (d) "sr_phase st = Draining streamCatchUpBatchSize"
    | (f) "sr_phase st = Flushing streamCatchUpBatchSize" using p(2) by (auto simp: spinning_def)
  then show ?case
  proof cases
    case q
    then show ?thesis using Suc.IH [OF following_query [OF p(1) assms(2)] spinning_query [OF p(1) assms(2) p(2)]] x by simp
  next
    case d
    have "drain streamCatchUpBatchSize (w, st) = (w, st\<lparr>sr_phase := Flushing streamCatchUpBatchSize\<rparr>)"
      using p(2) by (auto simp: drain_def spinning_def ps_recv_def ps_queue_def split: list.splits if_splits)
    moreover have "spinning (w, st\<lparr>sr_phase := Flushing streamCatchUpBatchSize\<rparr>)" using p(2) by (simp add: spinning_def)
    ultimately show ?thesis using Suc.IH [of "(w, st\<lparr>sr_phase := Flushing streamCatchUpBatchSize\<rparr>)"] p(1) d x by simp
  next
    case f
    have last: "int64_range (sr_last st)" "sr_last st < 0" using p by (auto simp: following_def delivered_ok_def spinning_def)
    then have "wrap64 (sr_last st + 1) = sr_last st + 1" by (intro wrap64_id) (simp add: int64_range_def)
    moreover have "map_of (sr_pending st) (sr_last st + 1) = None"
      using pending_okD [of _ "sr_pending st" "sr_last st + 1"] p(1) last(2) by (cases "map_of (sr_pending st) (sr_last st + 1)")
        (auto simp: following_def)
    ultimately have "flush svc accept Querying (w, st) = (w, st\<lparr>sr_phase := Querying\<rparr>)"
      by (simp add: flush_def flushPendingMessages.simps Let_def)
    moreover have "spinning (w, st\<lparr>sr_phase := Querying\<rparr>)" using p(2) by (simp add: spinning_def)
    ultimately show ?thesis using Suc.IH [of "(w, st\<lparr>sr_phase := Querying\<rparr>)"] p(1) f x by simp
  qed
qed simp

end

section \<open>Live delivery\<close>

text \<open>The steps that follow when a message arrives: receive, ask for what is missing, flush.\<close>

definition handle_message :: "nat \<Rightarrow> 's ChatService \<Rightarrow> 's world \<times> stream \<Rightarrow> 's world \<times> stream" where
  "handle_message accept svc x =
    (let y = receive x;
         z = (if sr_phase (snd y) = Repairing then query svc (\<lambda>_. Delivering) y else y)
     in if sr_phase (snd z) = Delivering then flush svc accept Live z else z)"

lemma handle_message_steps:
  assumes "sr_phase (snd x) = Live"
  shows "(stream_step svc)\<^sup>*\<^sup>* x (handle_message accept svc x)"
proof -
  have r: "stream_step svc x (receive x)" using assms stream_step.receive by (cases x) auto
  have q: "(stream_step svc)\<^sup>*\<^sup>* y (if sr_phase (snd y) = Repairing then query svc (\<lambda>_. Delivering) y else y)" for y
    using stream_step.repair [of "snd y" svc "fst y"] by auto
  have f: "(stream_step svc)\<^sup>*\<^sup>* z (if sr_phase (snd z) = Delivering then flush svc accept Live z else z)" for z
    using stream_step.deliver [of "snd z" svc "fst z" accept] by auto
  show ?thesis unfolding handle_message_def Let_def
    by (rule converse_rtranclp_into_rtranclp [OF r rtranclp_trans [OF q f]])
qed

text \<open>A flush stops at the first number that is not pending.\<close>

lemma delete_length: "map_of m k = Some v \<Longrightarrow> length (AList.delete k m) < length m"
  by (induction m) (auto simp: less_Suc_eq_le length_delete_le split: if_splits)

lemma flush_stops:
  assumes "cs_attachmentReadSigner svc = None" "length pending \<le> accept" "int64_range n" "pending_ok P pending"
  shows "\<exists>p' n' out' g'. flushPendingMessages svc accept pending n out g = (None, p', n', out', g')
    \<and> n \<le> n' \<and> int64_range n' \<and> map_of pending (wrap64 (n' + 1)) = None"
  using assms(2-4)
proof (induction accept arbitrary: pending n out g)
  case 0
  then show ?case by (simp add: flushPendingMessages.simps Let_def)
next
  case (Suc k)
  let ?n = "wrap64 (n + 1)"
  show ?case
  proof (cases "map_of pending ?n")
    case None
    then show ?thesis using Suc.prems(2) by (simp add: flushPendingMessages.simps Let_def)
  next
    case (Some m)
    have n: "?n = n + 1" by (rule wrap64_next [OF Suc.prems(2)]) (use pending_okD [OF Suc.prems(3) Some] in simp)
    obtain x where x: "present svc m g = (Inr x, g)"
      using assms(1) by (cases "mg_IsDeleted m") (simp_all add: present_def hydrateMessageForDelivery_def)
    have "length (AList.delete ?n pending) \<le> k" using delete_length [OF Some] Suc.prems(1) by simp
    from Suc.IH [OF this wrap64_range pending_ok_delete [OF Suc.prems(3)], where out = "out @ [x]" and g = g] obtain p' n' out' g' where
      f: "flushPendingMessages svc k (AList.delete ?n pending) ?n (out @ [x]) g = (None, p', n', out', g')"
      and n': "?n \<le> n'" "int64_range n'" "map_of (AList.delete ?n pending) (wrap64 (n' + 1)) = None" by blast
    have "map_of pending (wrap64 (n' + 1)) = None"
    proof (rule ccontr)
      assume "map_of pending (wrap64 (n' + 1)) \<noteq> None"
      with n'(3) have e: "wrap64 (n' + 1) = ?n" by (auto split: if_splits)
      with n n'(1,2) show False using wrap64_next [of n'] pending_okD [OF Suc.prems(3) Some] by simp
    qed
    with f n' n Some x show ?thesis by (simp add: flushPendingMessages.simps [of svc "Suc k"] Let_def)
  qed
qed

lemma map_of_add_pending:
  "map_of (add_pending msgs pending) k \<noteq> None \<longleftrightarrow> k \<in> mg_SequenceNo ` set msgs \<or> map_of pending k \<noteq> None"
  unfolding add_pending_def by (induction msgs arbitrary: pending) (auto simp: update_conv')

lemma length_update_le: "length (AList.update k v m) \<le> Suc (length m)"
  by (induction m) auto

lemma length_add_pending: "length (add_pending msgs pending) \<le> length msgs + length pending"
proof (induction msgs arbitrary: pending)
  case (Cons m msgs)
  from Cons [of "AList.update (mg_SequenceNo m) m pending"] length_update_le [of "mg_SequenceNo m" m pending]
  show ?case by (simp add: add_pending_def)
qed (simp add: add_pending_def)

text \<open>A flush that has every number up to \<open>k\<close> pending delivers up to \<open>k\<close>.\<close>

lemma flush_reaches:
  assumes "cs_attachmentReadSigner svc = None" "length (sr_pending st) \<le> accept" "int64_range (sr_last st)"
    "pending_ok P (sr_pending st)" "k < 2 ^ 63"
    "\<And>j. sr_last st < j \<Longrightarrow> j \<le> k \<Longrightarrow> map_of (sr_pending st) j \<noteq> None"
  shows "sr_phase (snd (flush svc accept Live (w, st))) = Live \<and> k \<le> sr_last (snd (flush svc accept Live (w, st)))"
proof -
  from flush_stops [OF assms(1-4)] obtain p' n' out' g' where
    f: "flushPendingMessages svc accept (sr_pending st) (sr_last st) (sr_out st) (w_env w) = (None, p', n', out', g')"
    and n': "sr_last st \<le> n'" "int64_range n'" "map_of (sr_pending st) (wrap64 (n' + 1)) = None" by blast
  have "k \<le> n'"
  proof (rule ccontr)
    assume c: "\<not> k \<le> n'"
    then have "wrap64 (n' + 1) = n' + 1" using n'(2) assms(5) by (intro wrap64_id) (simp add: int64_range_def)
    with assms(6) [of "n' + 1"] n'(1,3) c show False by simp
  qed
  with f n'(1) show ?thesis by (simp add: flush_def)
qed

context chat_repository
begin

lemma flush_following_reaches:
  assumes "following n0 (w, st)" "cs_attachmentReadSigner svc = None" "length (sr_pending st) \<le> accept"
    and "k \<le> a_maxSeq (abs (w_db w)) (sr_room st)" "a_maxSeq (abs (w_db w)) (sr_room st) < 2 ^ 63"
    and "\<And>j. sr_last st < j \<Longrightarrow> j \<le> k \<Longrightarrow> map_of (sr_pending st) j \<noteq> None"
  shows "sr_phase (snd (flush svc accept Live (w, st))) = Live \<and> k \<le> sr_last (snd (flush svc accept Live (w, st)))"
proof -
  have "int64_range (sr_last st)" "pending_ok (known (abs (w_db w)) (sr_room st)) (sr_pending st)"
    using assms(1) by (auto simp: following_def delivered_ok_def)
  from flush_reaches [OF assms(2,3) this, of k] assms(4-6) show ?thesis by simp
qed

text \<open>Closing a gap: one query, then the flush.\<close>

lemma repair_reaches:
  assumes fol: "following n0 (w, st)" and R: "cs_repo svc = R" and ns: "cs_attachmentReadSigner svc = None"
    and n: "0 \<le> sr_last st" and le: "no \<le> a_maxSeq (abs (w_db w)) (sr_room st)"
    and max: "a_maxSeq (abs (w_db w)) (sr_room st) < 2 ^ 63"
    and acc: "length (sr_pending st) + streamCatchUpBatchSize \<le> accept"
  defines "y \<equiv> query svc (\<lambda>_. Delivering) (w, st)"
  shows "sr_phase (snd y) = Delivering \<and> sr_phase (snd (flush svc accept Live y)) = Live
    \<and> min no (sr_last st + int streamCatchUpBatchSize) \<le> sr_last (snd (flush svc accept Live y))"
proof -
  let ?k = "min no (sr_last st + int streamCatchUpBatchSize)" and ?m = "a_maxSeq (abs (w_db w)) (sr_room st)"
  obtain msgs where msgs: "y = (w, st\<lparr>sr_pending := add_pending msgs (sr_pending st), sr_phase := Delivering\<rparr>)"
    "map mg_SequenceNo msgs = [sr_last st + 1..min ?m (sr_last st + int streamCatchUpBatchSize)]" "length msgs \<le> streamCatchUpBatchSize"
    using query_batch [OF fol R, of "\<lambda>_. Delivering"] n by (auto simp: y_def)
  let ?st = "st\<lparr>sr_pending := add_pending msgs (sr_pending st), sr_phase := Delivering\<rparr>"
  have f2: "following n0 (w, ?st)" using following_query [OF fol R, of "\<lambda>_. Delivering"] msgs(1) by (simp add: y_def)
  have "j \<in> mg_SequenceNo ` set msgs" if "sr_last st < j" "j \<le> ?k" for j
    using that le arg_cong [OF msgs(2), of set] by simp
  then have cov: "map_of (sr_pending ?st) j \<noteq> None" if "sr_last ?st < j" "j \<le> ?k" for j
    using that map_of_add_pending [of msgs "sr_pending st" j] by simp
  have "length (sr_pending ?st) \<le> accept" using length_add_pending [of msgs "sr_pending st"] acc msgs(3) by simp
  from flush_following_reaches [OF f2 ns this, of ?k] cov le max show ?thesis by (simp add: msgs(1))
qed

lemma handle_message_reaches:
  assumes fol: "following n0 (w, st)" and R: "cs_repo svc = R" and ns: "cs_attachmentReadSigner svc = None"
    and ph: "sr_phase st = Live" "ps_queue (w_ps w) (sr_chan st) = msg # q" and n: "0 \<le> sr_last st"
    and max: "a_maxSeq (abs (w_db w)) (sr_room st) < 2 ^ 63"
    and acc: "length (sr_pending st) + streamCatchUpBatchSize < accept"
  defines "y \<equiv> snd (handle_message accept svc (w, st))"
  shows "sr_phase y = Live \<and> min (mg_SequenceNo msg) (sr_last st + int streamCatchUpBatchSize) \<le> sr_last y"
proof -
  let ?last = "sr_last st"
  obtain ps where r: "ps_recv (w_ps w) (sr_chan st) = (Some (Some msg), ps)"
    using ph(2) by (auto simp: ps_recv_def ps_queue_def split: if_splits)
  show ?thesis
  proof (cases "mg_SequenceNo msg \<le> ?last")
    case True
    then show ?thesis using r ph(1) by (simp add: y_def handle_message_def receive_def Let_def)
  next
    case new: False
    let ?p = "AList.update (mg_SequenceNo msg) msg (sr_pending st)" and ?w = "w\<lparr>w_ps := ps\<rparr>"
    let ?st = "st\<lparr>sr_pending := ?p, sr_phase := if ?last + 1 < mg_SequenceNo msg then Repairing else Delivering\<rparr>"
    have fol': "following n0 (?w, ?st)" using following_recv(2) [OF fol r] by simp
    have "known (abs (w_db w)) (sr_room st) msg"
      using pending_okD [of "known (abs (w_db w)) (sr_room st)" ?p "mg_SequenceNo msg" msg] fol' by (simp add: following_def)
    then have le: "mg_SequenceNo msg \<le> a_maxSeq (abs (w_db w)) (sr_room st)"
      using known_number [of "abs (w_db w)"] fol soundD(4) by (auto simp: following_def)
    have "wrap64 (?last + 1) = ?last + 1" using n new le max by (intro wrap64_id) (simp add: int64_range_def)
    then have rc: "receive (w, st) = (?w, ?st)" using r new by (simp add: receive_def Let_def)
    have lp: "length ?p \<le> Suc (length (sr_pending st))" by (rule length_update_le)
    show ?thesis
    proof (cases "?last + 1 < mg_SequenceNo msg")
      case False
      then have "map_of ?p j \<noteq> None" if "?last < j" "j \<le> mg_SequenceNo msg" for j using that new by simp
      with flush_following_reaches [OF fol' ns, of accept "mg_SequenceNo msg"] le max lp acc rc False show ?thesis
        by (simp add: y_def handle_message_def min_le_iff_disj)
    next
      case True
      with repair_reaches [OF fol' R ns, of "mg_SequenceNo msg" accept] n le max lp acc rc show ?thesis
        by (simp add: y_def handle_message_def Let_def)
    qed
  qed
qed

end

end
