(* ===== verification/StreamProperties.thy ===== *)
theory StreamProperties
  imports StoreProperties Streaming
begin

text \<open>
  What a client of \<^verbatim>\<open>StreamMessages\<close> can rely on, over the in-memory store and with the rest of the
  service taking steps in between.
\<close>

declare mem_abs_sel [simp del]

section \<open>Order and origin\<close>

lemma stream_follows:
  assumes "reachable svc w" "ps_fresh (w_env w) (w_ps w) rid" "int64_range n0" "stream_start svc rid u n0 w = (Inr st, w1)"
  shows "mem.following n0 (w1, st)" "sr_room st = rid" "mem_abs (w_db w1) = mem_abs (w_db w)"
    "sr_phase st = Querying" "sr_pending st = []" "sr_last st = n0" "ps_queue (w_ps w1) (sr_chan st) = []"
proof -
  have R: "cs_repo svc = memory_repo" using assms(1) by (simp add: reachable_def)
  from mem.start_following [OF reachable_sound reachable_carried R assms(3,2,4)] assms(1)
  show "mem.following n0 (w1, st)" "sr_room st = rid" "mem_abs (w_db w1) = mem_abs (w_db w)" by blast+
  from assms(4) obtain ch ps g where s: "ps_Subscribe (w_env w) (w_ps w) rid 256 = (ch, ps, g)"
    and st: "st = \<lparr>sr_room = rid, sr_user = u, sr_chan = ch, sr_pending = [], sr_last = n0, sr_out = [], sr_phase = Querying\<rparr>"
      "w1 = w\<lparr>w_ps := ps, w_env := g\<rparr>"
    by (auto simp: stream_start_def validateActiveMembership_def bindP_def view_def split: sum.splits if_splits prod.splits)
  from hub.subscribe [OF mem.soundD(6) [OF reachable_sound [OF assms(1)]] assms(2) s] st
  show "sr_phase st = Querying" "sr_pending st = []" "sr_last st = n0" "ps_queue (w_ps w1) (sr_chan st) = []" by simp_all
qed

lemma served_stream: "(stream_step svc)\<^sup>*\<^sup>* x y \<Longrightarrow> (served svc store)\<^sup>*\<^sup>* x y"
  by (induction rule: rtranclp_induct) (auto intro: rtranclp.rtrancl_into_rtrancl served.stream)

lemma mem_delivered:
  assumes "mem.following n0 (w, st)"
  shows "map mg_SequenceNo (sr_out st) = [n0 + 1..sr_last st]
    \<and> (\<forall>x \<in> set (sr_out st). \<exists>cur. mem_GetMessage (w_db w) (sr_room st) (mg_ID x) = Inr cur
        \<and> mg_SequenceNo cur = mg_SequenceNo x \<and> mg_SenderUserID cur = mg_SenderUserID x
        \<and> (mg_IsDeleted cur \<or> mg_Content cur = mg_Content x))"
proof -
  have d: "delivered_ok (known (mem_abs (w_db w)) (sr_room st)) n0 (sr_last st) (sr_out st)" using assms by (simp add: mem.following_def)
  have "\<exists>cur. a_messages (mem_abs (w_db w)) (sr_room st) (mg_ID x) = Some cur
        \<and> mg_SequenceNo cur = mg_SequenceNo x \<and> mg_SenderUserID cur = mg_SenderUserID x
        \<and> (mg_IsDeleted cur \<or> mg_Content cur = mg_Content x)" if "x \<in> set (sr_out st)" for x
  proof -
    from d that obtain m cur where m: "presented m x" "a_messages (mem_abs (w_db w)) (sr_room st) (mg_ID m) = Some cur" "message_later m cur"
      by (auto simp: delivered_ok_def known_def)
    have "mg_IsDeleted m \<or> mg_Content x = mg_Content m"
      using m(1) unfolding presented_def same_message_def by (metis ChatMessage.select_convs(6) ChatMessage.surjective ChatMessage.update_convs(7,8,9))
    then have "mg_IsDeleted cur \<or> mg_Content cur = mg_Content x" using m(3) by (auto simp: message_later_def)
    with m(2,3) presented_keeps [OF m(1)] show ?thesis by (simp add: message_later_def)
  qed
  with d show ?thesis unfolding mem_reads by (simp add: delivered_ok_def)
qed

text \<open>
  C30. Whatever happens in the service while a stream is open, the client of a stream that was opened
  after the number \<open>n0\<close> has received the numbers \<open>n0 + 1, n0 + 2, ...\<close> in order, each once and none left
  out, and each is a message of the room under that number and from that sender; its text is the
  stored one unless the message has been deleted since.
\<close>

theorem stream_in_order:
  assumes "reachable svc w" and "ps_fresh (w_env w) (w_ps w) rid" and "int64_range n0"
    and "stream_start svc rid u n0 w = (Inr st, w1)" and "(served svc mem_abs)\<^sup>*\<^sup>* (w1, st) (w2, st2)"
  shows "map mg_SequenceNo (sr_out st2) = [n0 + 1..sr_last st2]
    \<and> (\<forall>x \<in> set (sr_out st2). \<exists>cur. mem_GetMessage (w_db w2) rid (mg_ID x) = Inr cur
        \<and> mg_SequenceNo cur = mg_SequenceNo x \<and> mg_SenderUserID cur = mg_SenderUserID x
        \<and> (mg_IsDeleted cur \<or> mg_Content cur = mg_Content x))"
proof -
  note st = stream_follows [OF assms(1-4)]
  have R: "cs_repo svc = memory_repo" using assms(1) by (simp add: reachable_def)
  from mem.served_run_following [OF assms(5) st(1) R] have f: "mem.following n0 (w2, st2)" "sr_room st2 = rid"
    using st(2) by simp_all
  from mem_delivered [OF f(1)] f(2) show ?thesis by simp
qed

text \<open>The example: \<open>bob\<close> opens a stream from the beginning, in the example state.\<close>

definition bob_stream :: "(error + stream) \<times> Store world" where
  "bob_stream = stream_start demo_service (uid 0) ''bob'' 0 demo"

lemma bob_stream: "bob_stream = (Inr \<lparr>sr_room = uid 0, sr_user = ''bob'', sr_chan = 0, sr_pending = [], sr_last = 0,
    sr_out = [], sr_phase = Querying\<rparr>, demo\<lparr>w_ps := fst (snd (ps_Subscribe (w_env demo) NewMemoryRoomPubSub (uid 0) 256)),
    w_env := snd (snd (ps_Subscribe (w_env demo) NewMemoryRoomPubSub (uid 0) 256))\<rparr>)"
  by (simp add: bob_stream_def stream_start_def validateActiveMembership_def run_simps demo mem_GetRoom_def mem_GetMember_def
      ps_Subscribe_def NewMemoryRoomPubSub_def split_beta)

lemma bob_fresh: "ps_fresh (w_env demo) (w_ps demo) (uid 0)"
  by (simp add: ps_fresh_def demo NewMemoryRoomPubSub_def)

theorem stream_in_order_witness:
  "\<exists>st w1 st2 w2. bob_stream = (Inr st, w1) \<and> catch_up 4 100 demo_service (w1, st) = Some (w2, st2)
     \<and> sr_last st2 = 1 \<and> map mg_SequenceNo (sr_out st2) = [1..1]"
proof -
  obtain st w1 where s: "bob_stream = (Inr st, w1)" using bob_stream by blast
  note start = s [unfolded bob_stream_def]
  have r: "int64_range 0" by (simp add: int64_range_def)
  note f = stream_follows [OF demo_reachable bob_fresh r start]
  have m: "a_maxSeq (mem_abs (w_db w1)) (sr_room st) = 1" by (simp add: f(2,3) max_seq_abs demo max_seq_def)
  from mem.catch_up_complete [of demo_service 100 0 w1 st 0] f m obtain w2 st2 where
    c: "catch_up 4 100 demo_service (w1, st) = Some (w2, st2)" "sr_last st2 = 1"
    by (auto simp: streamCatchUpBatchSize_def)
  from stream_in_order [OF demo_reachable bob_fresh r start served_stream [OF catch_up_steps [OF c(1)]]]
  have "map mg_SequenceNo (sr_out st2) = [1..1]" using c(2) by simp
  with s c show ?thesis by blast
qed

section \<open>Completeness\<close>

text \<open>
  C31. Catching up ends. A stream that is opened after a number \<open>n0\<close> between \<open>0\<close> and the room's highest
  delivers every later message and enters its live loop, within three steps per hundred messages and four
  more. The client takes at least a hundred messages per flush, no read signer is configured, and
  nothing is published to the room meanwhile.
\<close>

theorem stream_catches_up:
  assumes "reachable svc w" and "ps_fresh (w_env w) (w_ps w) rid" and "stream_start svc rid u n0 w = (Inr st, w1)"
    and "0 \<le> n0" and "n0 \<le> max_seq (w_db w) rid" and "max_seq (w_db w) rid < 2 ^ 63"
    and "cs_attachmentReadSigner svc = None" and "streamCatchUpBatchSize \<le> accept"
  shows "\<exists>w2 st2. catch_up (3 * (nat (max_seq (w_db w) rid - n0) div streamCatchUpBatchSize) + 4) accept svc (w1, st) = Some (w2, st2)
    \<and> sr_phase st2 = Live \<and> map mg_SequenceNo (sr_out st2) = [n0 + 1..max_seq (w_db w) rid]
    \<and> (served svc mem_abs)\<^sup>*\<^sup>* (w1, st) (w2, st2)"
proof -
  have R: "cs_repo svc = memory_repo" using assms(1) by (simp add: reachable_def)
  have n0: "int64_range n0" using assms(4-6) by (simp add: int64_range_def)
  note st = stream_follows [OF assms(1,2) n0 assms(3)]
  have m: "a_maxSeq (mem_abs (w_db w1)) (sr_room st) = max_seq (w_db w) rid" by (simp add: st(2,3) max_seq_abs)
  from mem.catch_up_complete [OF R assms(7,8) st(1,4,5,7)] obtain g st2 where
    c: "catch_up (3 * (nat (max_seq (w_db w) rid - n0) div streamCatchUpBatchSize) + 4) accept svc (w1, st) = Some (w1\<lparr>w_env := g\<rparr>, st2)"
    "mem.following n0 (w1\<lparr>w_env := g\<rparr>, st2)" "sr_phase st2 = Live" "sr_last st2 = max_seq (w_db w) rid"
    unfolding m st(6) using assms(4-6) by blast
  have "map mg_SequenceNo (sr_out st2) = [n0 + 1..max_seq (w_db w) rid]"
    using c(2,4) by (simp add: mem.following_def delivered_ok_def)
  with c served_stream [OF catch_up_steps [OF c(1)]] show ?thesis by blast
qed

theorem stream_catches_up_witness:
  "\<exists>st w1 w2 st2. bob_stream = (Inr st, w1) \<and> catch_up 4 100 demo_service (w1, st) = Some (w2, st2)
    \<and> map mg_SequenceNo (sr_out st2) = [1]"
proof -
  obtain st w1 where s: "bob_stream = (Inr st, w1)" using bob_stream by blast
  have m: "max_seq (w_db demo) (uid 0) = 1" by (simp add: demo max_seq_def)
  from stream_catches_up [OF demo_reachable bob_fresh s [unfolded bob_stream_def], of 100, unfolded m] obtain w2 st2 where
    "catch_up 4 100 demo_service (w1, st) = Some (w2, st2)" "map mg_SequenceNo (sr_out st2) = [0 + 1..1]"
    by (auto simp: streamCatchUpBatchSize_def)
  moreover have "[0 + 1..1] = [1 :: int]" by simp
  ultimately show ?thesis using s by metis
qed

text \<open>
  C32. Live delivery. When a message arrives on the subscription of a stream in its live loop, the stream
  has, after the steps that handle it, delivered up to that message, or a hundred messages more than
  before if the gap is larger: a message that the full buffer dropped is made up for by the next one.
  The client keeps taking messages, and no read signer is configured.
\<close>

theorem live_delivery:
  assumes "reachable svc w" and "ps_fresh (w_env w) (w_ps w) rid" and "0 \<le> n0" and "int64_range n0"
    and "stream_start svc rid u n0 w = (Inr st, w1)" and "(served svc mem_abs)\<^sup>*\<^sup>* (w1, st) (w2, st2)"
    and "sr_phase st2 = Live" and "ps_queue (w_ps w2) (sr_chan st2) = msg # q"
    and "max_seq (w_db w2) rid < 2 ^ 63"
    and "cs_attachmentReadSigner svc = None" and "length (sr_pending st2) + streamCatchUpBatchSize < accept"
  shows "\<exists>w3 st3. (served svc mem_abs)\<^sup>*\<^sup>* (w2, st2) (w3, st3) \<and> handle_message accept svc (w2, st2) = (w3, st3)
    \<and> sr_phase st3 = Live
    \<and> min (mg_SequenceNo msg) (sr_last st2 + 100) \<le> sr_last st3
    \<and> map mg_SequenceNo (sr_out st3) = [n0 + 1..sr_last st3]"
proof -
  have R: "cs_repo svc = memory_repo" using assms(1) by (simp add: reachable_def)
  note st = stream_follows [OF assms(1,2,4,5)]
  from mem.served_run_following [OF assms(6) st(1) R] have f: "mem.following n0 (w2, st2)" "sr_room st2 = rid"
    using st(2) by simp_all
  then have n: "0 \<le> sr_last st2" using assms(3) by (simp add: mem.following_def delivered_ok_def)
  obtain w3 st3 where h: "handle_message accept svc (w2, st2) = (w3, st3)" by fastforce
  from mem.handle_message_reaches [OF f(1) R assms(10,7,8) n _ assms(11)] assms(9) f(2) h
  have l: "sr_phase st3 = Live" "min (mg_SequenceNo msg) (sr_last st2 + 100) \<le> sr_last st3"
    by (simp_all add: max_seq_abs streamCatchUpBatchSize_def)
  have s: "(served svc mem_abs)\<^sup>*\<^sup>* (w2, st2) (w3, st3)"
    using served_stream [OF handle_message_steps [of "(w2, st2)" svc accept]] assms(7) unfolding h by simp
  from mem.served_run_following [OF s f(1) R] have "map mg_SequenceNo (sr_out st3) = [n0 + 1..sr_last st3]"
    by (simp add: mem.following_def delivered_ok_def)
  with h l s show ?thesis by blast
qed

text \<open>The example: \<open>ann\<close> goes on writing into the room.\<close>

definition chatting :: "Store world \<Rightarrow> bool" where
  "chatting w \<longleftrightarrow> reachable demo_service w \<and> (\<exists>r. a_rooms (mem_abs (w_db w)) (uid 0) = Some r \<and> room_open r)
     \<and> a_members (mem_abs (w_db w)) (uid 0) = a_members (mem_abs (w_db demo)) (uid 0)"

definition talk :: "nat \<Rightarrow> Store world \<Rightarrow> Store world" where
  "talk k w = serve demo_service (CallSendMessage (uid 0) ''ann'' MessageTypeText ''yo'' [] None) (w\<lparr>w_env := env_at 100 k\<rparr>)"

lemma chatting_demo: "chatting demo"
  using demo_facts(1,2) demo_reachable unfolding chatting_def mem_reads by blast

lemma talk:
  assumes w: "chatting w" and fresh: "fresh_message_id (mem_abs (w_db w)) (uid k)" and n: "0 \<le> max_seq (w_db w) (uid 0)" "max_seq (w_db w) (uid 0) < 200"
  shows "chatting (talk k w) \<and> chat_step demo_service mem_abs (w\<lparr>w_env := env_at 100 k\<rparr>) (talk k w)
    \<and> (\<exists>saved r. mg_ID saved = uid k \<and> mg_RoomID saved = uid 0 \<and> mg_SequenceNo saved = max_seq (w_db w) (uid 0) + 1
        \<and> mem_abs (w_db (talk k w)) = sent_store (mem_abs (w_db w)) saved r
        \<and> ps_Publish (w_ps w) (uid 0) saved = Some (w_ps (talk k w))
        \<and> mg_SenderUserID saved = ''ann'' \<and> mem.sent demo_service (uid 0) saved (w\<lparr>w_env := env_at 100 k\<rparr>) (talk k w))"
proof -
  let ?w = "w\<lparr>w_env := env_at 100 k\<rparr>"
  have r: "reachable demo_service ?w" using w reachable_step [OF _ chat_step.environment] by (simp add: chatting_def)
  have id: "next_message_id ?w = uid k" by (simp add: next_message_id_def)
  have can: "mem.can_send ?w (uid 0)" using fresh n id by (simp add: mem.can_send_def max_seq_abs int64_range_def)
  have may: "may_send demo_service (mem_abs (w_db ?w)) (uid 0) ''ann'' MessageTypeText ''yo'' [] None"
    using w demo_send(1,2) demo_facts(6) unfolding may_send_def chatting_def mem_reads by auto
  have step: "chat_step demo_service mem_abs ?w (talk k w)"
    using can unfolding talk_def by (intro chat_step.request) (simp add: admissible_def mem.can_send_def)
  define saved where "saved = saved_message (mem_abs (w_db ?w)) (stored_form demo_service ?w (uid 0) ''ann'' MessageTypeText ''yo'' [] None)"
  have sent: "mem.sent demo_service (uid 0) saved ?w (talk k w)"
    unfolding talk_def serve.simps saved_def
    by (rule wp_after [OF mem.wp_SendMessage [OF reachable_sound [OF r] _ can, of demo_service "''ann''" MessageTypeText "''yo''" "[]" None]])
      (use may in auto)
  then obtain r0 where r0: "a_rooms (mem_abs (w_db w)) (uid 0) = Some r0"
    and a: "mem_abs (w_db (talk k w)) = sent_store (mem_abs (w_db w)) saved (r0\<lparr>rm_UpdatedAt := next_time ?w\<rparr>)"
    and p: "ps_Publish (w_ps w) (uid 0) saved = Some (w_ps (talk k w))" by (auto simp: mem.sent_def)
  have sel: "mg_ID saved = uid k" "mg_SequenceNo saved = max_seq (w_db w) (uid 0) + 1" "mg_RoomID saved = uid 0" "mg_SenderUserID saved = ''ann''"
    using id by (simp_all add: saved_def saved_message_def max_seq_abs)
  have "room_open (r0\<lparr>rm_UpdatedAt := next_time ?w\<rparr>)" using w r0 by (auto simp: chatting_def room_open_def)
  then have "chatting (talk k w)" using w reachable_step [OF r step] by (simp add: chatting_def a sel)
  with step a p sel sent show ?thesis by blast
qed

lemma uid_eq_iff: "i < 256 \<Longrightarrow> j < 256 \<Longrightarrow> uid i = uid j \<longleftrightarrow> i = j"
proof -
  assume ij: "i < 256" "j < 256"
  have "i = j" if "uuid_bytes (\<lambda>_. of_nat i) = uuid_bytes (\<lambda>_. of_nat j)"
  proof -
    have "(of_nat i :: 8 word) = of_nat j" using that nth_uuid_bytes [of 0] by (metis numeral_eq_iff zero_less_numeral zero_neq_numeral)
    from arg_cong [OF this, of unat] ij show ?thesis by (simp add: unat_of_nat)
  qed
  then show ?thesis by (auto simp: uid_def uuid_string_inj)
qed

fun talks :: "nat \<Rightarrow> Store world" where
  "talks 0 = demo"
| "talks (Suc n) = talk (20 + n) (talks n)"

lemma talks:
  "n \<le> 100 \<Longrightarrow> chatting (talks n) \<and> w_ps (talks n) = NewMemoryRoomPubSub \<and> max_seq (w_db (talks n)) (uid 0) = 1 + int n
    \<and> (\<forall>rid k. 20 + n \<le> k \<and> k < 256 \<longrightarrow> a_messages (mem_abs (w_db (talks n))) rid (uid k) = None)"
proof (induction n)
  case 0
  have "a_messages (mem_abs (w_db demo)) rid (uid k) = None" if "20 \<le> k" "k < 256" for rid k
    using that uid_eq_iff [of k 5] by (simp add: mem_abs_sel demo inner_def)
  then show ?case using chatting_demo by (simp add: demo max_seq_def)
next
  case (Suc n)
  then have w: "chatting (talks n)" "max_seq (w_db (talks n)) (uid 0) = 1 + int n" "w_ps (talks n) = NewMemoryRoomPubSub"
    and fr: "\<And>rid k. 20 + n \<le> k \<Longrightarrow> k < 256 \<Longrightarrow> a_messages (mem_abs (w_db (talks n))) rid (uid k) = None" by simp_all
  have "fresh_message_id (mem_abs (w_db (talks n))) (uid (20 + n))" using fr Suc.prems by (simp add: fresh_message_id_def)
  from talk [OF w(1) this] w(2,3) Suc.prems obtain saved r where t: "chatting (talks (Suc n))" "mg_ID saved = uid (20 + n)" "mg_RoomID saved = uid 0"
    "mg_SequenceNo saved = 2 + int n" "mem_abs (w_db (talks (Suc n))) = sent_store (mem_abs (w_db (talks n))) saved r"
    "ps_Publish NewMemoryRoomPubSub (uid 0) saved = Some (w_ps (talks (Suc n)))" by auto
  have "a_messages (mem_abs (w_db (talks (Suc n)))) rid (uid k) = None" if "20 + Suc n \<le> k" "k < 256" for rid k
    using that fr [of k rid] uid_eq_iff [of k "20 + n"] Suc.prems unfolding t(5) by (auto simp: t(2,3))
  moreover have "max_seq (w_db (talks (Suc n))) (uid 0) = 1 + int (Suc n)"
    unfolding max_seq_abs [symmetric] t(5) by (simp add: t(3,4))
  moreover have "w_ps (talks (Suc n)) = NewMemoryRoomPubSub" using t(6) by (simp add: ps_Publish_def NewMemoryRoomPubSub_def)
  ultimately show ?case using t(1) by blast
qed

text \<open>\<open>bob\<close> has caught up when \<open>ann\<close> writes again.\<close>

definition bob_hub :: "ChatMessage list \<Rightarrow> MemoryRoomPubSub" where
  "bob_hub q = \<lparr>ps_subs = [(uid 0, [(uid 11, 0)])],
     ps_heap = [\<lparr>sub_id = uid 11, sub_roomID = uid 0, sub_closed = False, sub_chClosed = False, sub_cap = 256, sub_buf = q\<rparr>]\<rparr>"

lemma bob_hub:
  "\<exists>g. ps_Subscribe (w_env demo) NewMemoryRoomPubSub (uid 0) 256 = (0, bob_hub [], g)"
  "ps_Publish (bob_hub []) (uid 0) m = Some (bob_hub [m])" "ps_queue (bob_hub q) 0 = q"
  by (simp_all add: bob_hub_def ps_Subscribe_def NewMemoryRoomPubSub_def Let_def demo update2_def inner_def
      ps_Publish_def vals_def chan_send_def ps_queue_def)

lemma bob_caught_up:
  "\<exists>st w1 g st2. bob_stream = (Inr st, w1) \<and> catch_up 4 100 demo_service (w1, st) = Some (w1\<lparr>w_env := g\<rparr>, st2)
    \<and> sr_last st2 = 1 \<and> sr_phase st2 = Live \<and> sr_pending st2 = [] \<and> sr_chan st2 = 0
    \<and> w_ps w1 = bob_hub [] \<and> w_db w1 = w_db demo \<and> chatting (w1\<lparr>w_env := g\<rparr>)"
proof -
  obtain st w1 where s: "bob_stream = (Inr st, w1)" using bob_stream by blast
  have r: "int64_range 0" by (simp add: int64_range_def)
  note f = stream_follows [OF demo_reachable bob_fresh r s [unfolded bob_stream_def]]
  have R: "cs_repo demo_service = memory_repo" by simp
  have m: "a_maxSeq (mem_abs (w_db w1)) (sr_room st) = 1" by (simp add: f(2,3) max_seq_abs demo max_seq_def)
  obtain g1 where ps: "ps_Subscribe (w_env demo) NewMemoryRoomPubSub (uid 0) 256 = (0, bob_hub [], g1)" using bob_hub(1) by blast
  with s have w1: "w1 = demo\<lparr>w_ps := bob_hub [], w_env := g1\<rparr>" "sr_chan st = 0" by (auto simp: bob_stream)
  from mem.catch_up_round [OF f(1) R _ f(4,5,7), of 100 1] m f(6) w1(2) obtain g st2 where
    c: "catch_up 4 100 demo_service (w1, st) = Some (w1\<lparr>w_env := g\<rparr>, st2)" "sr_last st2 = 1" "sr_phase st2 = Live"
      "sr_pending st2 = []" "sr_chan st2 = 0"
    by (auto simp: streamCatchUpBatchSize_def numeral_eq_Suc)
  have "chat_step demo_service mem_abs demo (demo\<lparr>w_ps := bob_hub []\<rparr>)"
    by (intro chat_step.stream ps_client.subscribe [OF bob_fresh, of 256 0 _ g1]) (use ps in \<open>simp add: demo\<close>)
  from reachable_step [OF reachable_step [OF demo_reachable this] chat_step.environment [of _ _ _ g]]
  have "reachable demo_service (w1\<lparr>w_env := g\<rparr>)" by (simp add: w1)
  then have "chatting (w1\<lparr>w_env := g\<rparr>)" using chatting_demo f(3) by (simp add: chatting_def)
  moreover have "w_ps w1 = bob_hub []" "w_db w1 = w_db demo" by (simp_all add: w1)
  ultimately show ?thesis using s c by blast
qed

theorem live_delivery_witness:
  "\<exists>st1 w1 st2 w2 w3 st3. bob_stream = (Inr st1, w1) \<and> catch_up 4 100 demo_service (w1, st1) = Some (w2, st2)
    \<and> handle_message 200 demo_service (talk 20 w2, st2) = (w3, st3) \<and> 2 \<le> sr_last st3 \<and> map mg_SequenceNo (sr_out st3) = [1..sr_last st3]"
proof -
  from bob_caught_up obtain st w1 g st2 where s: "bob_stream = (Inr st, w1)"
    and c: "catch_up 4 100 demo_service (w1, st) = Some (w1\<lparr>w_env := g\<rparr>, st2)" "sr_last st2 = 1" "sr_phase st2 = Live"
      "sr_pending st2 = []" "sr_chan st2 = 0" "w_ps w1 = bob_hub []" "w_db w1 = w_db demo" "chatting (w1\<lparr>w_env := g\<rparr>)"
    by blast
  let ?w2 = "w1\<lparr>w_env := g\<rparr>"
  have fr: "fresh_message_id (mem_abs (w_db ?w2)) (uid 20)" "max_seq (w_db ?w2) (uid 0) = 1"
    using talks [of 0] c(7) by (simp_all add: fresh_message_id_def)
  from talk [OF c(8) fr(1)] fr(2) c(6) obtain saved r where
    t: "chat_step demo_service mem_abs (w1\<lparr>w_env := env_at 100 20\<rparr>) (talk 20 ?w2)" "mg_RoomID saved = uid 0" "mg_SequenceNo saved = 2"
      "mem_abs (w_db (talk 20 ?w2)) = sent_store (mem_abs (w_db w1)) saved r" "w_ps (talk 20 ?w2) = bob_hub [saved]"
    by (auto simp: bob_hub(2))
  have q: "ps_queue (w_ps (talk 20 ?w2)) (sr_chan st2) = [saved]" using t(5) c(5) by (simp add: bob_hub(3))
  have e: "served demo_service mem_abs (?w2, st2) (w1\<lparr>w_env := env_at 100 20\<rparr>, st2)"
    using served.service [OF chat_step.environment [of demo_service mem_abs ?w2 "env_at 100 20"]] by simp
  note run = rtranclp.rtrancl_into_rtrancl [OF rtranclp.rtrancl_into_rtrancl
      [OF served_stream [OF catch_up_steps [OF c(1)]] e] served.service [OF t(1)]]
  have m2: "max_seq (w_db (talk 20 ?w2)) (uid 0) = 2"
    unfolding max_seq_abs [symmetric] t(4) by (simp add: t(2,3))
  have r: "int64_range 0" by (simp add: int64_range_def)
  from live_delivery [OF demo_reachable bob_fresh _ r s [unfolded bob_stream_def] run c(3) q, of 200] c(4) m2
  obtain w3 st3 where "handle_message 200 demo_service (talk 20 ?w2, st2) = (w3, st3)"
    "min (mg_SequenceNo saved) (sr_last st2 + 100) \<le> sr_last st3" "map mg_SequenceNo (sr_out st3) = [0 + 1..sr_last st3]"
    by (auto simp: streamCatchUpBatchSize_def)
  then show ?thesis using s c(1,2) t(3) by (intro exI conjI) (assumption | simp)+
qed

section \<open>Resuming from a negative number\<close>

lemma bob_may_stream: "chatting w \<Longrightarrow> \<exists>st w1. stream_start demo_service (uid 0) ''bob'' n0 w = (Inr st, w1)"
proof -
  assume w: "chatting w"
  then obtain r where "mem_GetRoom (w_db w) (uid 0) = Inr r" "room_open r" unfolding chatting_def mem_reads by blast
  moreover have "mem_GetMember (w_db w) (uid 0) ''bob'' = Inr bob"
    using w demo_facts(7) unfolding chatting_def mem_reads by simp
  ultimately show ?thesis
    by (simp add: stream_start_def validateActiveMembership_def run_simps room_open_def split_beta)
qed

text \<open>
  C33. A stream that is opened after a negative number, in a room with at least a hundred messages, never
  leaves its catch-up loop while nothing else happens: it asks for the same hundred messages for ever.
  And whatever else happens, it never delivers a message.
\<close>

theorem negative_resume_spins:
  assumes "reachable svc w" and "ps_fresh (w_env w) (w_ps w) rid" and "stream_start svc rid u n0 w = (Inr st, w1)"
    and "int64_range n0" and "n0 < 0" and "100 \<le> max_seq (w_db w) rid"
  shows "catch_up fuel accept svc (w1, st) = None
    \<and> ((served svc mem_abs)\<^sup>*\<^sup>* (w1, st) (w2, st2) \<longrightarrow> sr_out st2 = [])"
proof
  have R: "cs_repo svc = memory_repo" using assms(1) by (simp add: reachable_def)
  note st = stream_follows [OF assms(1,2,4,3)]
  have "100 \<le> a_maxSeq (mem_abs (w_db w1)) rid" unfolding st(3) max_seq_abs by (rule assms(6))
  then have "mem.spinning (w1, st)" using st assms(5) by (simp add: mem.spinning_def streamCatchUpBatchSize_def)
  with mem.catch_up_spins [OF st(1) R] show "catch_up fuel accept svc (w1, st) = None" by blast
  show "(served svc mem_abs)\<^sup>*\<^sup>* (w1, st) (w2, st2) \<longrightarrow> sr_out st2 = []"
    using mem.served_run_following [OF _ st(1) R] mem.following_negative assms(5) by blast
qed

theorem negative_resume_spins_witness:
  "\<exists>w st w1. reachable demo_service w \<and> stream_start demo_service (uid 0) ''bob'' (- 1) w = (Inr st, w1)
    \<and> (\<forall>fuel. catch_up fuel 100 demo_service (w1, st) = None)"
proof -
  have t: "chatting (talks 99)" "w_ps (talks 99) = NewMemoryRoomPubSub" "100 \<le> max_seq (w_db (talks 99)) (uid 0)"
    using talks [of 99] by simp_all
  have r: "reachable demo_service (talks 99)" using t(1) by (simp add: chatting_def)
  obtain st w1 where s: "stream_start demo_service (uid 0) ''bob'' (- 1) (talks 99) = (Inr st, w1)"
    using bob_may_stream [OF t(1)] by blast
  have "catch_up fuel 100 demo_service (w1, st) = None" for fuel
    using negative_resume_spins [OF r _ s _ _ t(3), of fuel 100]
    by (simp add: t(2) ps_fresh_def NewMemoryRoomPubSub_def int64_range_def)
  with r s show ?thesis by blast
qed

end
