(* ===== verification/Auth.thy ===== *)
theory Auth
  imports GoStrings
begin

text \<open>
  Package \<^verbatim>\<open>internal/auth\<close>: principals, the interceptors, the authenticator and its client of the auth
  service. The auth service itself is reached through \<^verbatim>\<open>grpc.ClientConnInterface\<close>; its \<^verbatim>\<open>Invoke\<close> is a
  parameter. A protobuf message is a list of its populated fields, and a field that is not populated
  reads as the default of its type.
\<close>

section \<open>Principals\<close>

text \<open>\<^verbatim>\<open>type Role int32\<close>.\<close>

type_synonym Role = int

definition RoleUnspecified :: Role where "RoleUnspecified = 0"

definition RoleNormal :: Role where "RoleNormal = 1"

definition RoleAdmin :: Role where "RoleAdmin = 2"

definition RoleBar :: Role where "RoleBar = 3"

definition RoleReque :: Role where "RoleReque = 4"

definition Role_String :: "Role \<Rightarrow> string" where
  "Role_String r =
    (if r = RoleNormal then ''ROLE_NORMAL''
     else if r = RoleAdmin then ''ROLE_ADMIN''
     else if r = RoleBar then ''ROLE_BAR''
     else if r = RoleReque then ''ROLE_REQUE''
     else ''ROLE_UNSPECIFIED'')"

record Principal =
  pr_UserID :: string
  pr_Email :: string
  pr_Nickname :: string
  pr_ProfileImageURL :: string
  pr_Role :: Role

definition IsAdmin :: "Principal \<Rightarrow> bool" where
  "IsAdmin p = (pr_Role p = RoleAdmin)"

text \<open>
  The errors: \<^verbatim>\<open>ErrUnauthenticated\<close>, and \<^verbatim>\<open>ErrInvalidToken\<close> wrapped with a detail.
\<close>

datatype auth_error = ErrUnauthenticated | ErrInvalidToken string

fun auth_error_text :: "auth_error \<Rightarrow> string" where
  "auth_error_text ErrUnauthenticated = ''unauthenticated''"
| "auth_error_text (ErrInvalidToken detail) = ''invalid token: '' @ detail"

text \<open>What the handlers see of a request's context: the incoming metadata and the principal, if any.\<close>

record ctx =
  cx_metadata :: "(string, string list) gomap option"
  cx_principal :: "Principal option"

definition WithPrincipal :: "ctx \<Rightarrow> Principal \<Rightarrow> ctx" where
  "WithPrincipal c p = c\<lparr>cx_principal := Some p\<rparr>"

definition PrincipalFromContext :: "ctx \<Rightarrow> Principal option" where
  "PrincipalFromContext c =
    (case cx_principal c of
       None \<Rightarrow> None
     | Some p \<Rightarrow> (if TrimSpace (pr_UserID p) = [] then None else Some p))"

section \<open>The client of the auth service\<close>

record TokenClaims =
  cl_Valid :: bool
  cl_UserID :: string
  cl_Email :: string
  cl_Role :: Role
  cl_Reason :: string
  cl_Nickname :: string
  cl_ExpiresAt :: string

record UserProfile =
  up_UserID :: string
  up_Email :: string
  up_Nickname :: string
  up_ProfileImageURL :: string
  up_Role :: Role

record AuthServiceClient =
  ac_ValidateToken :: "string \<Rightarrow> string + TokenClaims"
  ac_GetMe :: "string \<Rightarrow> string + UserProfile"

text \<open>The message descriptors of \<^verbatim>\<open>buildAuthDescriptors\<close>: fields with name, number and type.\<close>

datatype field_type = TYPE_STRING | TYPE_BOOL | TYPE_INT32 | TYPE_INT64 | TYPE_ENUM string | TYPE_MESSAGE string

type_synonym message_desc = "(string \<times> nat \<times> field_type) list"

definition auth_role_enum :: "(string \<times> int) list" where
  "auth_role_enum = [(''ROLE_UNSPECIFIED'', 0), (''ROLE_NORMAL'', 1), (''ROLE_ADMIN'', 2), (''ROLE_BAR'', 3), (''ROLE_REQUE'', 4)]"

definition buildAuthDescriptors :: "(string \<times> message_desc) list" where
  "buildAuthDescriptors =
   [(''ValidateTokenRequest'', [(''access_token'', 1, TYPE_STRING)]),
    (''ValidateTokenResponse'',
      [(''valid'', 1, TYPE_BOOL), (''user_id'', 2, TYPE_STRING), (''email'', 3, TYPE_STRING),
       (''role'', 4, TYPE_ENUM ''.ontheblock.auth.v1.Role''),
       (''expires_at'', 5, TYPE_MESSAGE ''.google.protobuf.Timestamp''),
       (''reason'', 6, TYPE_STRING), (''nickname'', 7, TYPE_STRING)]),
    (''GetMeRequest'', [(''user_id'', 1, TYPE_STRING)]),
    (''GetMeResponse'', [(''user'', 1, TYPE_MESSAGE ''.ontheblock.auth.v1.UserResponse'')]),
    (''UserResponse'',
      [(''user_id'', 1, TYPE_STRING), (''email'', 2, TYPE_STRING), (''nickname'', 3, TYPE_STRING),
       (''profile_image_url'', 4, TYPE_STRING), (''role'', 5, TYPE_ENUM ''.ontheblock.auth.v1.Role''),
       (''created_at'', 6, TYPE_MESSAGE ''.google.protobuf.Timestamp''),
       (''neighborhood'', 7, TYPE_STRING), (''alcohol_score'', 8, TYPE_INT32), (''points'', 9, TYPE_INT32),
       (''survey_completed'', 10, TYPE_BOOL), (''survey_id'', 11, TYPE_INT64)])]"

definition descriptor :: "string \<Rightarrow> message_desc" where
  "descriptor name = (case map_of buildAuthDescriptors name of Some d \<Rightarrow> d | None \<Rightarrow> [])"

text \<open>Values of fields. A message value carries the fields that are populated.\<close>

datatype pb_value = PString string | PBool bool | PInt int | PEnum int | PMessage "(string \<times> pb_value) list"

type_synonym pb_message = "(string \<times> pb_value) list"

fun default_value :: "field_type \<Rightarrow> pb_value" where
  "default_value TYPE_STRING = PString []"
| "default_value TYPE_BOOL = PBool False"
| "default_value TYPE_INT32 = PInt 0"
| "default_value TYPE_INT64 = PInt 0"
| "default_value (TYPE_ENUM _) = PEnum 0"
| "default_value (TYPE_MESSAGE _) = PMessage []"

text \<open>\<^verbatim>\<open>msg.Get(field(desc, name))\<close>; a name without a descriptor gives a nil descriptor and a panic, \<open>None\<close>.\<close>

definition pb_Get :: "message_desc \<Rightarrow> pb_message \<Rightarrow> string \<Rightarrow> pb_value option" where
  "pb_Get d msg name =
    (case map_of d name of
       None \<Rightarrow> None
     | Some (number, typ) \<Rightarrow> Some (case map_of msg name of Some v \<Rightarrow> v | None \<Rightarrow> default_value typ))"

text \<open>
  The typed getters panic on a value of another type. (\<^verbatim>\<open>Value.String\<close> formats other values instead;
  no such value occurs, and it is treated like the others.)
\<close>

definition stringField :: "message_desc \<Rightarrow> pb_message \<Rightarrow> string \<Rightarrow> string option" where
  "stringField d msg name = (case pb_Get d msg name of Some (PString s) \<Rightarrow> Some s | _ \<Rightarrow> None)"

definition boolField :: "message_desc \<Rightarrow> pb_message \<Rightarrow> string \<Rightarrow> bool option" where
  "boolField d msg name = (case pb_Get d msg name of Some (PBool b) \<Rightarrow> Some b | _ \<Rightarrow> None)"

definition enumField :: "message_desc \<Rightarrow> pb_message \<Rightarrow> string \<Rightarrow> int option" where
  "enumField d msg name = (case pb_Get d msg name of Some (PEnum n) \<Rightarrow> Some n | _ \<Rightarrow> None)"

definition validateTokenMethod :: string where
  "validateTokenMethod = ''/ontheblock.auth.v1.AuthService/ValidateToken''"

definition getMeMethod :: string where
  "getMeMethod = ''/ontheblock.auth.v1.AuthService/GetMe''"

text \<open>
  \<^verbatim>\<open>cc.Invoke\<close>: the method and the request give an error text or the response. The descriptors are built
  without an error (\<open>None\<close> in the second argument) or every call returns that error.
\<close>

type_synonym ClientConn = "string \<Rightarrow> pb_message \<Rightarrow> string + pb_message"

definition dyn_ValidateToken :: "ClientConn \<Rightarrow> string option \<Rightarrow> string \<Rightarrow> (string + TokenClaims) option" where
  "dyn_ValidateToken cc descriptorErr accessToken =
    (case descriptorErr of
       Some err \<Rightarrow> Some (Inl err)
     | None \<Rightarrow>
        (case cc validateTokenMethod [(''access_token'', PString accessToken)] of
           Inl err \<Rightarrow> Some (Inl err)
         | Inr resp \<Rightarrow>
            (let d = descriptor ''ValidateTokenResponse'' in
             case (boolField d resp ''valid'', stringField d resp ''user_id'', stringField d resp ''email'',
                   enumField d resp ''role'', stringField d resp ''reason'', stringField d resp ''nickname'') of
               (Some valid, Some userID, Some email, Some role, Some reason, Some nickname) \<Rightarrow>
                 Some (Inr \<lparr>cl_Valid = valid, cl_UserID = userID, cl_Email = email, cl_Role = role,
                            cl_Reason = reason, cl_Nickname = nickname, cl_ExpiresAt = []\<rparr>)
             | _ \<Rightarrow> None)))"

text \<open>
  The check for an empty user never fires: an unpopulated message field reads as a valid empty message.
\<close>

definition dyn_GetMe :: "ClientConn \<Rightarrow> string option \<Rightarrow> string \<Rightarrow> (string + UserProfile) option" where
  "dyn_GetMe cc descriptorErr userID =
    (case descriptorErr of
       Some err \<Rightarrow> Some (Inl err)
     | None \<Rightarrow>
        (case cc getMeMethod [(''user_id'', PString userID)] of
           Inl err \<Rightarrow> Some (Inl err)
         | Inr resp \<Rightarrow>
            (case pb_Get (descriptor ''GetMeResponse'') resp ''user'' of
               Some (PMessage user) \<Rightarrow>
                 (let d = descriptor ''UserResponse'' in
                  case (stringField d user ''user_id'', stringField d user ''email'', stringField d user ''nickname'',
                        stringField d user ''profile_image_url'', enumField d user ''role'') of
                    (Some uid, Some email, Some nickname, Some img, Some role) \<Rightarrow>
                      Some (Inr \<lparr>up_UserID = uid, up_Email = email, up_Nickname = nickname,
                                 up_ProfileImageURL = img, up_Role = role\<rparr>)
                  | _ \<Rightarrow> None)
             | _ \<Rightarrow> None)))"

definition NewDynamicAuthServiceClient :: "ClientConn \<Rightarrow> string option \<Rightarrow> AuthServiceClient" where
  "NewDynamicAuthServiceClient cc descriptorErr =
    \<lparr>ac_ValidateToken = \<lambda>t. the (dyn_ValidateToken cc descriptorErr t),
     ac_GetMe = \<lambda>u. the (dyn_GetMe cc descriptorErr u)\<rparr>"

section \<open>The authenticator\<close>

fun firstNonEmpty :: "string list \<Rightarrow> string" where
  "firstNonEmpty [] = []"
| "firstNonEmpty (v # vs) = (let trimmed = TrimSpace v in if trimmed \<noteq> [] then trimmed else firstNonEmpty vs)"

type_synonym Authenticator = "string \<Rightarrow> auth_error + Principal"

definition Authenticate :: "AuthServiceClient option \<Rightarrow> Authenticator" where
  "Authenticate client bearerToken =
    (case client of
       None \<Rightarrow> Inl ErrUnauthenticated
     | Some cl \<Rightarrow>
        (let accessToken = TrimSpace bearerToken in
         if accessToken = [] then Inl ErrUnauthenticated
         else
          (case ac_ValidateToken cl accessToken of
             Inl err \<Rightarrow> Inl (ErrInvalidToken (''validate token failed: '' @ err))
           | Inr claims \<Rightarrow>
              if \<not> cl_Valid claims then
                (let reason = TrimSpace (cl_Reason claims)
                 in Inl (ErrInvalidToken (if reason = [] then ''token rejected'' else reason)))
              else if TrimSpace (cl_UserID claims) = [] then Inl (ErrInvalidToken ''user_id is empty'')
              else
               (case ac_GetMe cl (cl_UserID claims) of
                  Inl err \<Rightarrow> Inl (ErrInvalidToken (''get self profile failed: '' @ err))
                | Inr profile \<Rightarrow>
                   if TrimSpace (up_UserID profile) \<noteq> [] \<and> up_UserID profile \<noteq> cl_UserID claims
                   then Inl (ErrInvalidToken ''profile user_id mismatch'')
                   else Inr \<lparr>pr_UserID = cl_UserID claims,
                             pr_Email = firstNonEmpty [up_Email profile, cl_Email claims],
                             pr_Nickname = firstNonEmpty [up_Nickname profile, cl_Nickname claims],
                             pr_ProfileImageURL = up_ProfileImageURL profile,
                             pr_Role = (if cl_Role claims = RoleUnspecified then up_Role profile
                                        else cl_Role claims)\<rparr>))))"

section \<open>The interceptors\<close>

fun first_bearer :: "string list \<Rightarrow> string" where
  "first_bearer [] = []"
| "first_bearer (value # values) =
    (let fields = Fields value in
     if length fields = 2 \<and> EqualFold (fields ! 0) ''bearer'' then TrimSpace (fields ! 1)
     else first_bearer values)"

definition bearerTokenFromContext :: "ctx \<Rightarrow> string" where
  "bearerTokenFromContext c =
    (case cx_metadata c of
       None \<Rightarrow> []
     | Some md \<Rightarrow> first_bearer (case map_of md ''authorization'' of None \<Rightarrow> [] | Some values \<Rightarrow> values))"

definition authenticateContext :: "Authenticator option \<Rightarrow> ctx \<Rightarrow> auth_error + Principal" where
  "authenticateContext authenticator c =
    (case authenticator of
       None \<Rightarrow> Inl ErrUnauthenticated
     | Some a \<Rightarrow>
        (let token = bearerTokenFromContext c in
         if token = [] then Inl ErrUnauthenticated else a token))"

text \<open>gRPC status codes and errors.\<close>

datatype code = InvalidArgument | NotFound | AlreadyExists | PermissionDenied | FailedPrecondition
  | Internal | Unavailable | Unauthenticated

type_synonym status = "code \<times> string"

definition mapAuthError :: "auth_error \<Rightarrow> status" where
  "mapAuthError err = (Unauthenticated, auth_error_text err)"

definition UnaryInterceptor :: "Authenticator option \<Rightarrow> (ctx \<Rightarrow> ('w, status, 'a) prog) \<Rightarrow> ctx \<Rightarrow> ('w, status, 'a) prog" where
  "UnaryInterceptor authenticator handler c =
    (case authenticateContext authenticator c of
       Inl err \<Rightarrow> fail (mapAuthError err)
     | Inr p \<Rightarrow> handler (WithPrincipal c p))"

text \<open>\<^verbatim>\<open>StreamInterceptor\<close> wraps the stream so that its context carries the principal.\<close>

definition StreamInterceptor :: "Authenticator option \<Rightarrow> (ctx \<Rightarrow> ('w, status, 'a) prog) \<Rightarrow> ctx \<Rightarrow> ('w, status, 'a) prog" where
  "StreamInterceptor authenticator handler c =
    (case authenticateContext authenticator c of
       Inl err \<Rightarrow> fail (mapAuthError err)
     | Inr p \<Rightarrow> handler (WithPrincipal c p))"

section \<open>What authentication gives\<close>

text \<open>The principal of an authenticated request is the user of a token the auth service accepted.\<close>

lemma Authenticate_Inr:
  assumes "Authenticate client token = Inr p"
  shows "\<exists>cl claims profile. client = Some cl \<and> ac_ValidateToken cl (TrimSpace token) = Inr claims \<and> cl_Valid claims
    \<and> TrimSpace (cl_UserID claims) \<noteq> [] \<and> pr_UserID p = cl_UserID claims
    \<and> ac_GetMe cl (cl_UserID claims) = Inr profile \<and> (TrimSpace (up_UserID profile) = [] \<or> up_UserID profile = cl_UserID claims)"
  using assms by (auto simp: Authenticate_def Let_def split: option.splits sum.splits if_splits)

lemma authenticated_principal:
  assumes "authenticateContext (Some (Authenticate client)) c = Inr p"
  shows "PrincipalFromContext (WithPrincipal c p) = Some p"
    "\<exists>cl claims. client = Some cl \<and> ac_ValidateToken cl (bearerTokenFromContext c) = Inr claims \<and> cl_Valid claims
      \<and> pr_UserID p = cl_UserID claims"
proof -
  have a: "Authenticate client (bearerTokenFromContext c) = Inr p"
    using assms by (simp add: authenticateContext_def Let_def split: if_splits)
  have t: "TrimSpace (first_bearer vs) = first_bearer vs" for vs
    by (induction vs) (simp_all add: Let_def)
  have "TrimSpace (bearerTokenFromContext c) = bearerTokenFromContext c"
    by (simp add: bearerTokenFromContext_def t split: option.split)
  with Authenticate_Inr [OF a] show "PrincipalFromContext (WithPrincipal c p) = Some p"
    "\<exists>cl claims. client = Some cl \<and> ac_ValidateToken cl (bearerTokenFromContext c) = Inr claims \<and> cl_Valid claims
      \<and> pr_UserID p = cl_UserID claims"
    by (auto simp: PrincipalFromContext_def WithPrincipal_def)
qed

section \<open>The dynamic client\<close>

text \<open>A populated field has a descriptor and a value of its type.\<close>

fun has_type :: "pb_value \<Rightarrow> field_type \<Rightarrow> bool" where
  "has_type (PString _) t \<longleftrightarrow> t = TYPE_STRING"
| "has_type (PBool _) t \<longleftrightarrow> t = TYPE_BOOL"
| "has_type (PInt _) t \<longleftrightarrow> t = TYPE_INT32 \<or> t = TYPE_INT64"
| "has_type (PEnum _) t \<longleftrightarrow> (\<exists>e. t = TYPE_ENUM e)"
| "has_type (PMessage _) t \<longleftrightarrow> (\<exists>m. t = TYPE_MESSAGE m)"

definition conforms :: "message_desc \<Rightarrow> pb_message \<Rightarrow> bool" where
  "conforms d msg \<longleftrightarrow> (\<forall>name v. map_of msg name = Some v \<longrightarrow> (\<exists>n t. map_of d name = Some (n, t) \<and> has_type v t))"

lemma conforms_Nil [simp]: "conforms d []"
  by (simp add: conforms_def)

lemma pb_Get_typed:
  assumes "conforms d msg" "map_of d name = Some (n, t)"
  shows "\<exists>v. pb_Get d msg name = Some v \<and> has_type v t"
proof (cases "map_of msg name")
  case None
  then show ?thesis using assms(2) by (cases t) (simp_all add: pb_Get_def)
next
  case (Some v)
  with assms(1) obtain n' t' where "map_of d name = Some (n', t')" "has_type v t'" unfolding conforms_def by blast
  with assms(2) Some show ?thesis by (simp add: pb_Get_def)
qed

lemma typed_getters:
  assumes "conforms d msg"
  shows "map_of d name = Some (n, TYPE_STRING) \<Longrightarrow> \<exists>s. stringField d msg name = Some s"
    "map_of d name = Some (n, TYPE_BOOL) \<Longrightarrow> \<exists>b. boolField d msg name = Some b"
    "map_of d name = Some (n, TYPE_ENUM e) \<Longrightarrow> \<exists>k. enumField d msg name = Some k"
    "map_of d name = Some (n, TYPE_MESSAGE e) \<Longrightarrow> \<exists>m. pb_Get d msg name = Some (PMessage m)"
  by (drule pb_Get_typed [OF assms], elim exE conjE, rename_tac v, case_tac v,
      simp_all add: stringField_def boolField_def enumField_def)+

text \<open>A response that parses has the types of its descriptors, nested messages included.\<close>

definition well_typed_conn :: "ClientConn \<Rightarrow> bool" where
  "well_typed_conn cc \<longleftrightarrow>
    (\<forall>req resp. cc validateTokenMethod req = Inr resp \<longrightarrow> conforms (descriptor ''ValidateTokenResponse'') resp)
    \<and> (\<forall>req resp. cc getMeMethod req = Inr resp \<longrightarrow> conforms (descriptor ''GetMeResponse'') resp
        \<and> (\<forall>user. map_of resp ''user'' = Some (PMessage user) \<longrightarrow> conforms (descriptor ''UserResponse'') user))"

lemma descriptor_simps [simp]:
  "descriptor ''ValidateTokenResponse'' =
      [(''valid'', 1, TYPE_BOOL), (''user_id'', 2, TYPE_STRING), (''email'', 3, TYPE_STRING),
       (''role'', 4, TYPE_ENUM ''.ontheblock.auth.v1.Role''),
       (''expires_at'', 5, TYPE_MESSAGE ''.google.protobuf.Timestamp''),
       (''reason'', 6, TYPE_STRING), (''nickname'', 7, TYPE_STRING)]"
  "descriptor ''GetMeResponse'' = [(''user'', 1, TYPE_MESSAGE ''.ontheblock.auth.v1.UserResponse'')]"
  "map_of (descriptor ''UserResponse'') ''user_id'' = Some (1, TYPE_STRING)"
  "map_of (descriptor ''UserResponse'') ''email'' = Some (2, TYPE_STRING)"
  "map_of (descriptor ''UserResponse'') ''nickname'' = Some (3, TYPE_STRING)"
  "map_of (descriptor ''UserResponse'') ''profile_image_url'' = Some (4, TYPE_STRING)"
  "map_of (descriptor ''UserResponse'') ''role'' = Some (5, TYPE_ENUM ''.ontheblock.auth.v1.Role'')"
  by (simp_all add: descriptor_def buildAuthDescriptors_def)

lemma dyn_ValidateToken_total:
  assumes "conforms (descriptor ''ValidateTokenResponse'') resp"
    "cc validateTokenMethod [(''access_token'', PString tok)] = Inr resp"
  shows "\<exists>claims. dyn_ValidateToken cc None tok = Some (Inr claims) \<and> cl_Valid claims = (map_of resp ''valid'' = Some (PBool True))
    \<and> cl_UserID claims = (case map_of resp ''user_id'' of Some (PString u) \<Rightarrow> u | _ \<Rightarrow> [])"
proof -
  let ?d = "descriptor ''ValidateTokenResponse''"
  note g = typed_getters [OF assms(1)]
  obtain valid u e r rs nn where s: "boolField ?d resp ''valid'' = Some valid" "stringField ?d resp ''user_id'' = Some u"
    "stringField ?d resp ''email'' = Some e" "enumField ?d resp ''role'' = Some r" "stringField ?d resp ''reason'' = Some rs"
    "stringField ?d resp ''nickname'' = Some nn"
    using g(2) [of "''valid''" 1] g(1) [of "''user_id''" 2] g(1) [of "''email''" 3]
      g(3) [of "''role''" 4 "''.ontheblock.auth.v1.Role''"] g(1) [of "''reason''" 6] g(1) [of "''nickname''" 7] by auto
  have v: "valid = (map_of resp ''valid'' = Some (PBool True))"
    using s(1) by (auto simp: boolField_def pb_Get_def split: option.splits pb_value.splits)
  have "u = (case map_of resp ''user_id'' of Some (PString u) \<Rightarrow> u | _ \<Rightarrow> [])"
    using s(2) by (auto simp: stringField_def pb_Get_def split: option.splits pb_value.splits)
  with s v assms(2) show ?thesis by (simp add: dyn_ValidateToken_def Let_def del: descriptor_simps)
qed

lemma dyn_GetMe_total:
  assumes "conforms (descriptor ''GetMeResponse'') resp"
    "\<And>user. map_of resp ''user'' = Some (PMessage user) \<Longrightarrow> conforms (descriptor ''UserResponse'') user"
    "cc getMeMethod [(''user_id'', PString u)] = Inr resp"
  shows "\<exists>p. dyn_GetMe cc None u = Some (Inr p)"
proof -
  let ?d = "descriptor ''UserResponse''"
  obtain user where user: "pb_Get (descriptor ''GetMeResponse'') resp ''user'' = Some (PMessage user)"
    using typed_getters(4) [OF assms(1), of "''user''" 1] by auto
  then have "conforms ?d user"
    using assms(2) by (auto simp: pb_Get_def split: option.splits)
  note g = typed_getters [OF this]
  show ?thesis
    using user assms(3) g(1) [of "''user_id''" 1] g(1) [of "''email''" 2] g(1) [of "''nickname''" 3]
      g(1) [of "''profile_image_url''" 4] g(3) [of "''role''" 5 "''.ontheblock.auth.v1.Role''"]
    by (auto simp: dyn_GetMe_def Let_def)
qed

text \<open>
  C37. On responses that have the types of the descriptors the client never panics: each call returns the
  connection's error or a result. And it fails closed: a token counts as valid only if the response says
  so, a missing field is not enough.
\<close>

theorem dynamic_client_total:
  assumes "well_typed_conn cc"
  shows "(\<exists>r. dyn_ValidateToken cc None tok = Some r) \<and> (\<exists>r. dyn_GetMe cc None u = Some r)
    \<and> (\<forall>claims. ac_ValidateToken (NewDynamicAuthServiceClient cc None) tok = Inr claims \<longrightarrow>
        (\<exists>resp. cc validateTokenMethod [(''access_token'', PString tok)] = Inr resp
           \<and> (cl_Valid claims \<longleftrightarrow> map_of resp ''valid'' = Some (PBool True))))"
proof (intro conjI allI impI)
  have t: "\<exists>r. dyn_ValidateToken cc None tok = Some r \<and> (\<forall>claims. r = Inr claims \<longrightarrow>
      (\<exists>resp. cc validateTokenMethod [(''access_token'', PString tok)] = Inr resp
           \<and> (cl_Valid claims \<longleftrightarrow> map_of resp ''valid'' = Some (PBool True))))"
  proof (cases "cc validateTokenMethod [(''access_token'', PString tok)]")
    case (Inl e)
    then show ?thesis by (simp add: dyn_ValidateToken_def)
  next
    case (Inr resp)
    then have "conforms (descriptor ''ValidateTokenResponse'') resp" using assms unfolding well_typed_conn_def by blast
    from dyn_ValidateToken_total [OF this, of cc tok] Inr show ?thesis by auto
  qed
  then show "\<exists>r. dyn_ValidateToken cc None tok = Some r" by blast
  show "\<exists>r. dyn_GetMe cc None u = Some r"
  proof (cases "cc getMeMethod [(''user_id'', PString u)]")
    case (Inl e)
    then show ?thesis by (simp add: dyn_GetMe_def)
  next
    case (Inr resp)
    then have "conforms (descriptor ''GetMeResponse'') resp"
      "\<And>user. map_of resp ''user'' = Some (PMessage user) \<Longrightarrow> conforms (descriptor ''UserResponse'') user"
      using assms unfolding well_typed_conn_def by blast+
    from dyn_GetMe_total [of resp cc u, OF this] Inr show ?thesis by blast
  qed
  fix claims
  assume "ac_ValidateToken (NewDynamicAuthServiceClient cc None) tok = Inr claims"
  with t show "\<exists>resp. cc validateTokenMethod [(''access_token'', PString tok)] = Inr resp
      \<and> (cl_Valid claims \<longleftrightarrow> map_of resp ''valid'' = Some (PBool True))"
    by (auto simp: NewDynamicAuthServiceClient_def)
qed

text \<open>An auth service that knows the user \<open>ann\<close> and her token.\<close>

definition sample_conn :: ClientConn where
  "sample_conn method req =
    (if method = validateTokenMethod then
       Inr (if req = [(''access_token'', PString ''tok'')]
            then [(''valid'', PBool True), (''user_id'', PString ''ann'')] else [])
     else Inr [(''user'', PMessage [(''nickname'', PString ''Ann'')])])"

lemma sample_conn_typed: "well_typed_conn sample_conn"
  by (auto simp: well_typed_conn_def sample_conn_def conforms_def validateTokenMethod_def getMeMethod_def split: if_splits)

theorem dynamic_client_total_witness:
  "\<exists>claims. ac_ValidateToken (NewDynamicAuthServiceClient sample_conn None) ''other'' = Inr claims \<and> \<not> cl_Valid claims"
proof -
  have "\<exists>claims. ac_ValidateToken (NewDynamicAuthServiceClient sample_conn None) ''other'' = Inr claims"
    by (simp add: NewDynamicAuthServiceClient_def dyn_ValidateToken_def sample_conn_def boolField_def stringField_def enumField_def
        pb_Get_def)
  then obtain claims where c: "ac_ValidateToken (NewDynamicAuthServiceClient sample_conn None) ''other'' = Inr claims" by blast
  moreover from dynamic_client_total [OF sample_conn_typed, of "''other''"] c have "\<not> cl_Valid claims"
    by (auto simp: sample_conn_def)
  ultimately show ?thesis by blast
qed

end
