(* ===== verification/Transport.thy ===== *)
theory Transport
  imports Auth Streaming
begin

text \<open>
  Package \<^verbatim>\<open>internal/transport/grpc\<close>: the handlers. Each finds out who is calling, checks the required
  fields, calls the service and converts the answer. A request is its fields as the generated getters
  return them, a reply is the response message. \<^verbatim>\<open>structpb.NewStruct\<close>, which may refuse a metadata map,
  is a parameter of the server; \<^verbatim>\<open>timestamppb.New\<close> splits an instant into seconds and nanoseconds.
\<close>

section \<open>Messages\<close>

record Timestamp =
  ts_Seconds :: int
  ts_Nanos :: int

definition timestamppb_New :: "time \<Rightarrow> Timestamp" where
  "timestamppb_New t = \<lparr>ts_Seconds = t div 1000000000, ts_Nanos = t mod 1000000000\<rparr>"

datatype pb_RoomType = ROOM_TYPE_UNSPECIFIED | ROOM_TYPE_GENERAL_GROUP | ROOM_TYPE_BOARD_LINKED_GROUP

datatype pb_MemberRole = MEMBER_ROLE_UNSPECIFIED | MEMBER_ROLE_OWNER | MEMBER_ROLE_MEMBER

datatype pb_MemberStatus = MEMBER_STATUS_UNSPECIFIED | MEMBER_STATUS_ACTIVE | MEMBER_STATUS_LEFT | MEMBER_STATUS_REMOVED

text \<open>The two enumerations that clients send may hold any number.\<close>

datatype pb_MessageType = MESSAGE_TYPE_UNSPECIFIED | MESSAGE_TYPE_TEXT | MESSAGE_TYPE_SYSTEM | MESSAGE_TYPE_IMAGE
  | MESSAGE_TYPE_FILE | MESSAGE_TYPE_unknown int

datatype pb_DevicePlatform = DEVICE_PLATFORM_UNSPECIFIED | DEVICE_PLATFORM_IOS | DEVICE_PLATFORM_ANDROID
  | DEVICE_PLATFORM_unknown int

record pb_ChatRoom =
  pbr_RoomId :: string
  pbr_RoomType :: pb_RoomType
  pbr_Title :: string
  pbr_LinkedBoardId :: string
  pbr_OwnerUserId :: string
  pbr_IsActive :: bool
  pbr_CreatedAt :: Timestamp
  pbr_UpdatedAt :: Timestamp
  pbr_DeletedAt :: "Timestamp option"

record LastMessagePreview =
  lp_MessageId :: string
  lp_MessageType :: pb_MessageType
  lp_ContentPreview :: string
  lp_SenderUserId :: string
  lp_SequenceNo :: int
  lp_SentAt :: Timestamp

record pb_ChatRoomSummary =
  pbs_RoomId :: string
  pbs_RoomType :: pb_RoomType
  pbs_Title :: string
  pbs_LinkedBoardId :: string
  pbs_OwnerUserId :: string
  pbs_LastMessage :: "LastMessagePreview option"
  pbs_UnreadCount :: int
  pbs_UpdatedAt :: Timestamp

record pb_ChatRoomMember =
  pbm_MemberId :: string
  pbm_RoomId :: string
  pbm_UserId :: string
  pbm_Role :: pb_MemberRole
  pbm_Status :: pb_MemberStatus
  pbm_LastReadSequenceNo :: int
  pbm_JoinedAt :: Timestamp
  pbm_LeftAt :: "Timestamp option"
  pbm_RemovedAt :: "Timestamp option"
  pbm_RemovedByUserId :: string

record pb_ChatMessage =
  pbc_MessageId :: string
  pbc_RoomId :: string
  pbc_SenderUserId :: string
  pbc_MessageType :: pb_MessageType
  pbc_SequenceNo :: int
  pbc_Content :: string
  pbc_ImageUrl :: string
  pbc_FileUrl :: string
  pbc_Metadata :: metadata
  pbc_IsDeleted :: bool
  pbc_DeletedByUserId :: string
  pbc_SentAt :: Timestamp
  pbc_UpdatedAt :: Timestamp
  pbc_DeletedAt :: "Timestamp option"

record pb_DeviceToken =
  pbd_UserId :: string
  pbd_DeviceId :: string
  pbd_Token :: string
  pbd_Platform :: pb_DevicePlatform
  pbd_CreatedAt :: Timestamp
  pbd_UpdatedAt :: Timestamp
  pbd_LastSeenAt :: Timestamp

section \<open>Conversions\<close>

fun toPBRoomType :: "RoomType \<Rightarrow> pb_RoomType" where
  "toPBRoomType RoomTypeGeneralGroup = ROOM_TYPE_GENERAL_GROUP"
| "toPBRoomType RoomTypeBoardLinkedGroup = ROOM_TYPE_BOARD_LINKED_GROUP"
| "toPBRoomType _ = ROOM_TYPE_UNSPECIFIED"

fun toPBMemberRole :: "MemberRole \<Rightarrow> pb_MemberRole" where
  "toPBMemberRole MemberRoleOwner = MEMBER_ROLE_OWNER"
| "toPBMemberRole MemberRoleMember = MEMBER_ROLE_MEMBER"
| "toPBMemberRole _ = MEMBER_ROLE_UNSPECIFIED"

fun toPBMemberStatus :: "MemberStatus \<Rightarrow> pb_MemberStatus" where
  "toPBMemberStatus MemberStatusActive = MEMBER_STATUS_ACTIVE"
| "toPBMemberStatus MemberStatusLeft = MEMBER_STATUS_LEFT"
| "toPBMemberStatus MemberStatusRemoved = MEMBER_STATUS_REMOVED"
| "toPBMemberStatus _ = MEMBER_STATUS_UNSPECIFIED"

fun toPBMessageType :: "MessageType \<Rightarrow> pb_MessageType" where
  "toPBMessageType MessageTypeText = MESSAGE_TYPE_TEXT"
| "toPBMessageType MessageTypeSystem = MESSAGE_TYPE_SYSTEM"
| "toPBMessageType MessageTypeImage = MESSAGE_TYPE_IMAGE"
| "toPBMessageType MessageTypeFile = MESSAGE_TYPE_FILE"
| "toPBMessageType _ = MESSAGE_TYPE_UNSPECIFIED"

fun fromPBMessageType :: "pb_MessageType \<Rightarrow> MessageType" where
  "fromPBMessageType MESSAGE_TYPE_TEXT = MessageTypeText"
| "fromPBMessageType MESSAGE_TYPE_SYSTEM = MessageTypeSystem"
| "fromPBMessageType MESSAGE_TYPE_IMAGE = MessageTypeImage"
| "fromPBMessageType MESSAGE_TYPE_FILE = MessageTypeFile"
| "fromPBMessageType _ = MessageTypeText"

fun toPBDevicePlatform :: "DevicePlatform \<Rightarrow> pb_DevicePlatform" where
  "toPBDevicePlatform DevicePlatformIOS = DEVICE_PLATFORM_IOS"
| "toPBDevicePlatform DevicePlatformAndroid = DEVICE_PLATFORM_ANDROID"
| "toPBDevicePlatform _ = DEVICE_PLATFORM_UNSPECIFIED"

fun fromPBDevicePlatform :: "pb_DevicePlatform \<Rightarrow> DevicePlatform" where
  "fromPBDevicePlatform DEVICE_PLATFORM_IOS = DevicePlatformIOS"
| "fromPBDevicePlatform DEVICE_PLATFORM_ANDROID = DevicePlatformAndroid"
| "fromPBDevicePlatform _ = DevicePlatformOther []"

definition toPBRoom :: "ChatRoom \<Rightarrow> pb_ChatRoom" where
  "toPBRoom r = \<lparr>pbr_RoomId = rm_ID r, pbr_RoomType = toPBRoomType (rm_RoomType r), pbr_Title = rm_Title r,
     pbr_LinkedBoardId = rm_LinkedBoardID r, pbr_OwnerUserId = rm_OwnerUserID r, pbr_IsActive = rm_IsActive r,
     pbr_CreatedAt = timestamppb_New (rm_CreatedAt r), pbr_UpdatedAt = timestamppb_New (rm_UpdatedAt r),
     pbr_DeletedAt = map_option timestamppb_New (rm_DeletedAt r)\<rparr>"

definition toPBRoomSummaryFromRoom :: "ChatRoom \<Rightarrow> pb_ChatRoomSummary" where
  "toPBRoomSummaryFromRoom r = \<lparr>pbs_RoomId = rm_ID r, pbs_RoomType = toPBRoomType (rm_RoomType r),
     pbs_Title = rm_Title r, pbs_LinkedBoardId = rm_LinkedBoardID r, pbs_OwnerUserId = rm_OwnerUserID r,
     pbs_LastMessage = None, pbs_UnreadCount = 0, pbs_UpdatedAt = timestamppb_New (rm_UpdatedAt r)\<rparr>"

definition toPBMember :: "ChatRoomMember \<Rightarrow> pb_ChatRoomMember" where
  "toPBMember m = \<lparr>pbm_MemberId = mb_ID m, pbm_RoomId = mb_RoomID m, pbm_UserId = mb_UserID m,
     pbm_Role = toPBMemberRole (mb_Role m), pbm_Status = toPBMemberStatus (mb_Status m),
     pbm_LastReadSequenceNo = mb_LastReadSequenceNo m, pbm_JoinedAt = timestamppb_New (mb_JoinedAt m),
     pbm_LeftAt = map_option timestamppb_New (mb_LeftAt m), pbm_RemovedAt = map_option timestamppb_New (mb_RemovedAt m),
     pbm_RemovedByUserId = mb_RemovedByUserID m\<rparr>"

text \<open>The parameter \<open>newStruct\<close> is \<^verbatim>\<open>structpb.NewStruct\<close>; metadata it refuses is left out.\<close>

definition toPBMessage :: "((string, any) gomap \<Rightarrow> (string, any) gomap option) \<Rightarrow> ChatMessage \<Rightarrow> pb_ChatMessage" where
  "toPBMessage newStruct m = \<lparr>pbc_MessageId = mg_ID m, pbc_RoomId = mg_RoomID m, pbc_SenderUserId = mg_SenderUserID m,
     pbc_MessageType = toPBMessageType (mg_MessageType m), pbc_SequenceNo = mg_SequenceNo m,
     pbc_Content = mg_Content m, pbc_ImageUrl = mg_ImageURL m, pbc_FileUrl = mg_FileURL m,
     pbc_Metadata = (case mg_Metadata m of None \<Rightarrow> None | Some md \<Rightarrow> newStruct md),
     pbc_IsDeleted = mg_IsDeleted m, pbc_DeletedByUserId = mg_DeletedByUserID m,
     pbc_SentAt = timestamppb_New (mg_CreatedAt m), pbc_UpdatedAt = timestamppb_New (mg_UpdatedAt m),
     pbc_DeletedAt = map_option timestamppb_New (mg_DeletedAt m)\<rparr>"

definition toPBDeviceToken :: "DeviceToken \<Rightarrow> pb_DeviceToken" where
  "toPBDeviceToken t = \<lparr>pbd_UserId = dt_UserID t, pbd_DeviceId = dt_DeviceID t, pbd_Token = dt_Token t,
     pbd_Platform = toPBDevicePlatform (dt_Platform t), pbd_CreatedAt = timestamppb_New (dt_CreatedAt t),
     pbd_UpdatedAt = timestamppb_New (dt_UpdatedAt t), pbd_LastSeenAt = timestamppb_New (dt_LastSeenAt t)\<rparr>"

definition extractMessageMetadataString :: "metadata \<Rightarrow> string \<Rightarrow> string" where
  "extractMessageMetadataString metadata key =
    (case metadata of
       None \<Rightarrow> []
     | Some m \<Rightarrow> (case map_of m key of Some (AString s) \<Rightarrow> s | _ \<Rightarrow> []))"

definition contentPreview :: "ChatMessage \<Rightarrow> string" where
  "contentPreview m =
    (if mg_IsDeleted m then []
     else if mg_MessageType m = MessageTypeImage then ''[Image]''
     else if mg_MessageType m = MessageTypeFile then
       (let fileName = extractMessageMetadataString (mg_Metadata m) ''file_name''
        in if fileName \<noteq> [] then ''[File] '' @ fileName else ''[File]'')
     else mg_Content m)"

definition toPBSummary :: "ChatRoomSummary \<Rightarrow> pb_ChatRoomSummary" where
  "toPBSummary s = \<lparr>pbs_RoomId = rm_ID (sm_Room s), pbs_RoomType = toPBRoomType (rm_RoomType (sm_Room s)),
     pbs_Title = rm_Title (sm_Room s), pbs_LinkedBoardId = rm_LinkedBoardID (sm_Room s),
     pbs_OwnerUserId = rm_OwnerUserID (sm_Room s),
     pbs_LastMessage = map_option (\<lambda>m. \<lparr>lp_MessageId = mg_ID m, lp_MessageType = toPBMessageType (mg_MessageType m),
        lp_ContentPreview = contentPreview m, lp_SenderUserId = mg_SenderUserID m, lp_SequenceNo = mg_SequenceNo m,
        lp_SentAt = timestamppb_New (mg_CreatedAt m)\<rparr>) (sm_LastMessage s),
     pbs_UnreadCount = sm_UnreadCnt s, pbs_UpdatedAt = timestamppb_New (rm_UpdatedAt (sm_Room s))\<rparr>"

section \<open>Callers and errors\<close>

definition requestUserID :: "ctx \<Rightarrow> string \<Rightarrow> string \<Rightarrow> status + string" where
  "requestUserID c bodyUserID fieldName =
    (let trimmedBodyUserID = TrimSpace bodyUserID in
     case PrincipalFromContext c of
       Some p \<Rightarrow>
         (if trimmedBodyUserID \<noteq> [] \<and> trimmedBodyUserID \<noteq> pr_UserID p
          then Inl (PermissionDenied, fieldName @ '' does not match authenticated user'')
          else Inr (pr_UserID p))
     | None \<Rightarrow>
         (if trimmedBodyUserID = [] then Inl (InvalidArgument, fieldName @ '' is required'')
          else Inr trimmedBodyUserID))"

definition authenticatedUserID :: "ctx \<Rightarrow> status + string" where
  "authenticatedUserID c =
    (case PrincipalFromContext c of
       None \<Rightarrow> Inl (Unauthenticated, ''authenticated user is required'')
     | Some p \<Rightarrow> Inr (pr_UserID p))"

fun error_code :: "error \<Rightarrow> code" where
  "error_code ErrNotFound = NotFound"
| "error_code ErrAlreadyExists = AlreadyExists"
| "error_code ErrInvalidArgument = InvalidArgument"
| "error_code ErrNotConfigured = FailedPrecondition"
| "error_code ErrRoomInactive = FailedPrecondition"
| "error_code ErrPermissionDenied = PermissionDenied"
| "error_code ErrRemovedCannotRejoin = PermissionDenied"
| "error_code ErrInvalidState = FailedPrecondition"
| "error_code ErrMemberLeft = FailedPrecondition"
| "error_code ErrMemberRemoved = PermissionDenied"
| "error_code (ErrOther _) = Internal"

definition mapError :: "error \<Rightarrow> status" where
  "mapError err = (error_code err, error_text err)"

text \<open>The service call of a handler with its errors mapped.\<close>

definition mapped :: "('w, error, 'a) prog \<Rightarrow> ('w, status, 'a) prog" where
  "mapped m w = (case m w of (Inl e, w') \<Rightarrow> (Inl (mapError e), w') | (Inr x, w') \<Rightarrow> (Inr x, w'))"

section \<open>Handlers\<close>

record 's Server =
  sv_svc :: "'s ChatService"
  sv_NewStruct :: "(string, any) gomap \<Rightarrow> (string, any) gomap option"

datatype reply =
    CreateRoomResponse pb_ChatRoom
  | CreateBoardLinkedRoomResponse bool "pb_ChatRoom option"
  | GetOrCreateBoardChatRoomResponse pb_ChatRoom pb_ChatRoomSummary pb_ChatRoomMember bool
  | JoinRoomResponse pb_ChatRoomMember
  | LeaveRoomResponse pb_ChatRoomMember pb_ChatRoom
  | ListMyRoomsResponse "pb_ChatRoomSummary list" string
  | GetMessagesResponse "pb_ChatMessage list" int
  | SendMessageResponse pb_ChatMessage
  | CreateAttachmentUploadURLResponse string string string Timestamp
  | CreateImageUploadURLResponse string string string Timestamp
  | MarkAsReadResponse string string int "Timestamp option"
  | MarkChatRoomReadResponse string string int "Timestamp option"
  | RegisterDeviceTokenResponse pb_DeviceToken
  | UnregisterDeviceTokenResponse
  | RemoveMemberResponse pb_ChatRoomMember
  | DeleteMessageResponse pb_ChatMessage
  | DeactivateRoomResponse pb_ChatRoom

type_synonym 's handler = "('s world, status, reply) prog"

definition srv_CreateRoom :: "'s Server \<Rightarrow> ctx \<Rightarrow> string \<Rightarrow> string \<Rightarrow> 's handler" where
  "srv_CreateRoom s c creator title =
    bindP (of_result (requestUserID c creator ''creator_user_id'')) (\<lambda>creatorUserID.
    mapped (bindP (svc_CreateRoom (sv_svc s) creatorUserID title) (\<lambda>room.
      ok (CreateRoomResponse (toPBRoom room)))))"

definition srv_CreateBoardLinkedRoom :: "'s Server \<Rightarrow> ctx \<Rightarrow> string \<Rightarrow> string \<Rightarrow> string \<Rightarrow> 's handler" where
  "srv_CreateBoardLinkedRoom s c creator boardId title =
    bindP (of_result (requestUserID c creator ''creator_user_id'')) (\<lambda>creatorUserID.
    if boardId = [] then fail (InvalidArgument, ''board_id is required'')
    else mapped (bindP (svc_CreateBoardLinkedRoom (sv_svc s) creatorUserID boardId title) (\<lambda>(room, exists).
      ok (CreateBoardLinkedRoomResponse exists (if exists then None else Some (toPBRoom room))))))"

definition srv_GetOrCreateBoardChatRoom :: "'s Server \<Rightarrow> ctx \<Rightarrow> string \<Rightarrow> string \<Rightarrow> string \<Rightarrow> 's handler" where
  "srv_GetOrCreateBoardChatRoom s c boardId boardOwner title =
    bindP (of_result (authenticatedUserID c)) (\<lambda>userID.
    if TrimSpace boardId = [] then fail (InvalidArgument, ''board_id is required'')
    else mapped (bindP (svc_GetOrCreateBoardChatRoom (sv_svc s)
        \<lparr>in_UserID = userID, in_BoardID = boardId, in_BoardOwnerUserID = boardOwner, in_Title = title\<rparr>) (\<lambda>entry.
      ok (GetOrCreateBoardChatRoomResponse (toPBRoom (en_Room entry)) (toPBRoomSummaryFromRoom (en_Room entry))
           (toPBMember (en_Member entry)) (en_AlreadyExists entry)))))"

definition srv_JoinRoom :: "'s Server \<Rightarrow> ctx \<Rightarrow> string \<Rightarrow> string \<Rightarrow> 's handler" where
  "srv_JoinRoom s c roomId user =
    bindP (of_result (requestUserID c user ''user_id'')) (\<lambda>userID.
    if roomId = [] then fail (InvalidArgument, ''room_id is required'')
    else mapped (bindP (svc_JoinRoom (sv_svc s) roomId userID) (\<lambda>member.
      ok (JoinRoomResponse (toPBMember member)))))"

definition srv_LeaveRoom :: "'s Server \<Rightarrow> ctx \<Rightarrow> string \<Rightarrow> string \<Rightarrow> 's handler" where
  "srv_LeaveRoom s c roomId user =
    bindP (of_result (requestUserID c user ''user_id'')) (\<lambda>userID.
    if roomId = [] then fail (InvalidArgument, ''room_id is required'')
    else mapped (bindP (svc_LeaveRoom (sv_svc s) roomId userID) (\<lambda>(member, room).
      ok (LeaveRoomResponse (toPBMember member) (toPBRoom room)))))"

text \<open>The pagination of \<^verbatim>\<open>ListMyRooms\<close>: page size and page token, if the request has any.\<close>

definition page_limit_of :: "(int \<times> string) option \<Rightarrow> int" where
  "page_limit_of pagination = (case pagination of Some (n, _) \<Rightarrow> (if n > 0 then n else 20) | None \<Rightarrow> 20)"

definition page_token_of :: "(int \<times> string) option \<Rightarrow> string" where
  "page_token_of pagination = (case pagination of Some (_, token) \<Rightarrow> token | None \<Rightarrow> [])"

definition srv_ListMyRooms :: "'s Server \<Rightarrow> ctx \<Rightarrow> string \<Rightarrow> (int \<times> string) option \<Rightarrow> 's handler" where
  "srv_ListMyRooms s c user pagination =
    bindP (of_result (requestUserID c user ''user_id'')) (\<lambda>userID.
    mapped (bindP (svc_ListMyRooms (sv_svc s) userID (page_limit_of pagination) (page_token_of pagination)) (\<lambda>(rows, nextToken).
      ok (ListMyRoomsResponse (map toPBSummary rows) nextToken))))"

definition srv_GetMessages :: "'s Server \<Rightarrow> ctx \<Rightarrow> string \<Rightarrow> string \<Rightarrow> int \<Rightarrow> int \<Rightarrow> 's handler" where
  "srv_GetMessages s c roomId user beforeSequenceNo limit =
    bindP (of_result (requestUserID c user ''user_id'')) (\<lambda>userID.
    if roomId = [] then fail (InvalidArgument, ''room_id is required'')
    else mapped (bindP (svc_GetMessages (sv_svc s) roomId userID beforeSequenceNo limit) (\<lambda>(msgs, next).
      ok (GetMessagesResponse (map (toPBMessage (sv_NewStruct s)) msgs) next))))"

text \<open>\<open>md\<close> is the request's struct as a map; \<^verbatim>\<open>file_url\<close> of the request overrides the entry of that name.\<close>

definition request_metadata :: "metadata \<Rightarrow> string \<Rightarrow> metadata" where
  "request_metadata md fileUrl =
    (let m = (case md of None \<Rightarrow> [] | Some m \<Rightarrow> m)
     in Some (if fileUrl \<noteq> [] then AList.update ''file_url'' (AString fileUrl) m else m))"

definition srv_SendMessage ::
  "'s Server \<Rightarrow> ctx \<Rightarrow> string \<Rightarrow> string \<Rightarrow> pb_MessageType \<Rightarrow> string \<Rightarrow> string \<Rightarrow> string \<Rightarrow> metadata \<Rightarrow> 's handler" where
  "srv_SendMessage s c roomId sender messageType content imageUrl fileUrl md =
    bindP (of_result (requestUserID c sender ''sender_user_id'')) (\<lambda>senderUserID.
    if roomId = [] then fail (InvalidArgument, ''room_id is required'')
    else mapped (bindP (svc_SendMessage (sv_svc s) roomId senderUserID (fromPBMessageType messageType) content imageUrl
        (request_metadata md fileUrl)) (\<lambda>msg.
      ok (SendMessageResponse (toPBMessage (sv_NewStruct s) msg)))))"

definition srv_CreateAttachmentUploadURL :: "'s Server \<Rightarrow> ctx \<Rightarrow> string \<Rightarrow> string \<Rightarrow> string \<Rightarrow> string \<Rightarrow> 's handler" where
  "srv_CreateAttachmentUploadURL s c roomId user fileName contentType =
    bindP (of_result (requestUserID c user ''user_id'')) (\<lambda>userID.
    if roomId = [] \<or> fileName = [] \<or> contentType = []
    then fail (InvalidArgument, ''room_id, file_name, content_type are required'')
    else mapped (bindP (svc_CreateAttachmentUploadURL (sv_svc s) roomId userID fileName contentType) (\<lambda>out.
      ok (CreateAttachmentUploadURLResponse (au_ObjectName out) (au_UploadURL out) (au_FileURL out)
           (timestamppb_New (au_ExpiresAt out))))))"

definition srv_CreateImageUploadURL :: "'s Server \<Rightarrow> ctx \<Rightarrow> string \<Rightarrow> string \<Rightarrow> string \<Rightarrow> string \<Rightarrow> 's handler" where
  "srv_CreateImageUploadURL s c roomId user fileName contentType =
    bindP (of_result (requestUserID c user ''user_id'')) (\<lambda>userID.
    if roomId = [] \<or> fileName = [] \<or> contentType = []
    then fail (InvalidArgument, ''room_id, file_name, content_type are required'')
    else mapped (bindP (svc_CreateImageUploadURL (sv_svc s) roomId userID fileName contentType) (\<lambda>out.
      ok (CreateImageUploadURLResponse (iu_ObjectName out) (iu_UploadURL out) (iu_ImageURL out)
           (timestamppb_New (iu_ExpiresAt out))))))"

text \<open>The time of a read mark is left out when it is not after the first second of 1970.\<close>

definition read_time :: "ChatRoomMember \<Rightarrow> Timestamp option" where
  "read_time m = (if mb_UpdatedAt m div 1000000000 > 0 then Some (timestamppb_New (mb_UpdatedAt m)) else None)"

definition srv_MarkAsRead :: "'s Server \<Rightarrow> ctx \<Rightarrow> string \<Rightarrow> string \<Rightarrow> int \<Rightarrow> 's handler" where
  "srv_MarkAsRead s c roomId user lastReadSequenceNo =
    bindP (of_result (requestUserID c user ''user_id'')) (\<lambda>userID.
    if roomId = [] then fail (InvalidArgument, ''room_id is required'')
    else mapped (bindP (svc_MarkAsRead (sv_svc s) roomId userID lastReadSequenceNo) (\<lambda>m.
      ok (MarkAsReadResponse (mb_RoomID m) (mb_UserID m) (mb_LastReadSequenceNo m) (read_time m)))))"

definition srv_MarkChatRoomRead :: "'s Server \<Rightarrow> ctx \<Rightarrow> string \<Rightarrow> 's handler" where
  "srv_MarkChatRoomRead s c roomId =
    bindP (of_result (authenticatedUserID c)) (\<lambda>userID.
    if roomId = [] then fail (InvalidArgument, ''room_id is required'')
    else mapped (bindP (svc_MarkChatRoomRead (sv_svc s) roomId userID) (\<lambda>m.
      ok (MarkChatRoomReadResponse (mb_RoomID m) (mb_UserID m) (mb_LastReadSequenceNo m) (read_time m)))))"

definition srv_RegisterDeviceToken :: "'s Server \<Rightarrow> ctx \<Rightarrow> string \<Rightarrow> string \<Rightarrow> pb_DevicePlatform \<Rightarrow> 's handler" where
  "srv_RegisterDeviceToken s c deviceId token platform =
    bindP (of_result (authenticatedUserID c)) (\<lambda>userID.
    mapped (bindP (svc_RegisterDeviceToken (sv_svc s) userID deviceId token (fromPBDevicePlatform platform)) (\<lambda>t.
      ok (RegisterDeviceTokenResponse (toPBDeviceToken t)))))"

definition srv_UnregisterDeviceToken :: "'s Server \<Rightarrow> ctx \<Rightarrow> string \<Rightarrow> 's handler" where
  "srv_UnregisterDeviceToken s c deviceId =
    bindP (of_result (authenticatedUserID c)) (\<lambda>userID.
    mapped (bindP (svc_UnregisterDeviceToken (sv_svc s) userID deviceId) (\<lambda>_. ok UnregisterDeviceTokenResponse)))"

definition srv_RemoveMember :: "'s Server \<Rightarrow> ctx \<Rightarrow> string \<Rightarrow> string \<Rightarrow> string \<Rightarrow> 's handler" where
  "srv_RemoveMember s c roomId owner target =
    bindP (of_result (requestUserID c owner ''owner_user_id'')) (\<lambda>ownerUserID.
    if roomId = [] \<or> target = [] then fail (InvalidArgument, ''room_id and target_user_id are required'')
    else mapped (bindP (svc_RemoveMember (sv_svc s) roomId ownerUserID target) (\<lambda>m.
      ok (RemoveMemberResponse (toPBMember m)))))"

definition srv_DeleteMessage :: "'s Server \<Rightarrow> ctx \<Rightarrow> string \<Rightarrow> string \<Rightarrow> string \<Rightarrow> 's handler" where
  "srv_DeleteMessage s c roomId messageId owner =
    bindP (of_result (requestUserID c owner ''owner_user_id'')) (\<lambda>ownerUserID.
    if roomId = [] \<or> messageId = [] then fail (InvalidArgument, ''room_id and message_id are required'')
    else mapped (bindP (svc_DeleteMessage (sv_svc s) roomId messageId ownerUserID) (\<lambda>m.
      ok (DeleteMessageResponse (toPBMessage (sv_NewStruct s) m)))))"

definition srv_DeactivateRoom :: "'s Server \<Rightarrow> ctx \<Rightarrow> string \<Rightarrow> string \<Rightarrow> 's handler" where
  "srv_DeactivateRoom s c roomId owner =
    bindP (of_result (requestUserID c owner ''owner_user_id'')) (\<lambda>ownerUserID.
    if roomId = [] then fail (InvalidArgument, ''room_id is required'')
    else mapped (bindP (svc_DeactivateRoom (sv_svc s) roomId ownerUserID) (\<lambda>r.
      ok (DeactivateRoomResponse (toPBRoom r)))))"

section \<open>The server\<close>

text \<open>A request with the fields of its message, as the gRPC dispatcher hands it to its handler.\<close>

datatype rpc =
    CreateRoomRequest string string
  | CreateBoardLinkedRoomRequest string string string
  | GetOrCreateBoardChatRoomRequest string string string
  | JoinRoomRequest string string
  | LeaveRoomRequest string string
  | ListMyRoomsRequest string "(int \<times> string) option"
  | GetMessagesRequest string string int int
  | SendMessageRequest string string pb_MessageType string string string metadata
  | CreateAttachmentUploadURLRequest string string string string
  | CreateImageUploadURLRequest string string string string
  | MarkAsReadRequest string string int
  | MarkChatRoomReadRequest string
  | RegisterDeviceTokenRequest string string pb_DevicePlatform
  | UnregisterDeviceTokenRequest string
  | RemoveMemberRequest string string string
  | DeleteMessageRequest string string string
  | DeactivateRoomRequest string string

fun handle :: "'s Server \<Rightarrow> rpc \<Rightarrow> ctx \<Rightarrow> 's handler" where
  "handle s (CreateRoomRequest creator title) c = srv_CreateRoom s c creator title"
| "handle s (CreateBoardLinkedRoomRequest creator boardId title) c = srv_CreateBoardLinkedRoom s c creator boardId title"
| "handle s (GetOrCreateBoardChatRoomRequest boardId owner title) c = srv_GetOrCreateBoardChatRoom s c boardId owner title"
| "handle s (JoinRoomRequest room user) c = srv_JoinRoom s c room user"
| "handle s (LeaveRoomRequest room user) c = srv_LeaveRoom s c room user"
| "handle s (ListMyRoomsRequest user pagination) c = srv_ListMyRooms s c user pagination"
| "handle s (GetMessagesRequest room user before limit) c = srv_GetMessages s c room user before limit"
| "handle s (SendMessageRequest room sender mt content img file md) c = srv_SendMessage s c room sender mt content img file md"
| "handle s (CreateAttachmentUploadURLRequest room user file ct) c = srv_CreateAttachmentUploadURL s c room user file ct"
| "handle s (CreateImageUploadURLRequest room user file ct) c = srv_CreateImageUploadURL s c room user file ct"
| "handle s (MarkAsReadRequest room user n) c = srv_MarkAsRead s c room user n"
| "handle s (MarkChatRoomReadRequest room) c = srv_MarkChatRoomRead s c room"
| "handle s (RegisterDeviceTokenRequest device token platform) c = srv_RegisterDeviceToken s c device token platform"
| "handle s (UnregisterDeviceTokenRequest device) c = srv_UnregisterDeviceToken s c device"
| "handle s (RemoveMemberRequest room owner target) c = srv_RemoveMember s c room owner target"
| "handle s (DeleteMessageRequest room message owner) c = srv_DeleteMessage s c room message owner"
| "handle s (DeactivateRoomRequest room owner) c = srv_DeactivateRoom s c room owner"

text \<open>The server as it is put together: the unary interceptor in front of the handlers.\<close>

definition unary_rpc :: "AuthServiceClient option \<Rightarrow> 's Server \<Rightarrow> rpc \<Rightarrow> ctx \<Rightarrow> 's handler" where
  "unary_rpc client s req = UnaryInterceptor (Some (Authenticate client)) (handle s req)"

section \<open>Handlers and service requests\<close>

text \<open>The user identifier in the body of a request, and the service request it stands for.\<close>

fun body_user :: "rpc \<Rightarrow> string" where
  "body_user (CreateRoomRequest creator _) = creator"
| "body_user (CreateBoardLinkedRoomRequest creator _ _) = creator"
| "body_user (JoinRoomRequest _ user) = user"
| "body_user (LeaveRoomRequest _ user) = user"
| "body_user (ListMyRoomsRequest user _) = user"
| "body_user (GetMessagesRequest _ user _ _) = user"
| "body_user (SendMessageRequest _ sender _ _ _ _ _) = sender"
| "body_user (CreateAttachmentUploadURLRequest _ user _ _) = user"
| "body_user (CreateImageUploadURLRequest _ user _ _) = user"
| "body_user (MarkAsReadRequest _ user _) = user"
| "body_user (RemoveMemberRequest _ owner _) = owner"
| "body_user (DeleteMessageRequest _ _ owner) = owner"
| "body_user (DeactivateRoomRequest _ owner) = owner"
| "body_user _ = []"

fun call_of :: "string \<Rightarrow> rpc \<Rightarrow> call" where
  "call_of u (CreateRoomRequest _ title) = CallCreateRoom u title"
| "call_of u (CreateBoardLinkedRoomRequest _ boardId title) = CallCreateBoardLinkedRoom u boardId title"
| "call_of u (GetOrCreateBoardChatRoomRequest boardId owner title) = CallGetOrCreateBoardChatRoom
     \<lparr>in_UserID = u, in_BoardID = boardId, in_BoardOwnerUserID = owner, in_Title = title\<rparr>"
| "call_of u (JoinRoomRequest room _) = CallJoinRoom room u"
| "call_of u (LeaveRoomRequest room _) = CallLeaveRoom room u"
| "call_of u (ListMyRoomsRequest _ pagination) = CallListMyRooms u (page_limit_of pagination) (page_token_of pagination)"
| "call_of u (GetMessagesRequest room _ before limit) = CallGetMessages room u before limit"
| "call_of u (SendMessageRequest room _ mt content img file md) =
     CallSendMessage room u (fromPBMessageType mt) content img (request_metadata md file)"
| "call_of u (CreateAttachmentUploadURLRequest room _ file ct) = CallCreateAttachmentUploadURL room u file ct"
| "call_of u (CreateImageUploadURLRequest room _ file ct) = CallCreateImageUploadURL room u file ct"
| "call_of u (MarkAsReadRequest room _ n) = CallMarkAsRead room u n"
| "call_of u (MarkChatRoomReadRequest room) = CallMarkChatRoomRead room u"
| "call_of u (RegisterDeviceTokenRequest device token platform) =
     CallRegisterDeviceToken u device token (fromPBDevicePlatform platform)"
| "call_of u (UnregisterDeviceTokenRequest device) = CallUnregisterDeviceToken u device"
| "call_of u (RemoveMemberRequest room _ target) = CallRemoveMember room u target"
| "call_of u (DeleteMessageRequest room message _) = CallDeleteMessage room message u"
| "call_of u (DeactivateRoomRequest room _) = CallDeactivateRoom room u"

lemma mapped_world [simp]: "snd (mapped (bindP m (\<lambda>x. ok (f x))) w) = after m w"
  by (simp add: mapped_def bindP_def after_def ok_def split: prod.split sum.split)

lemma mapped_world_pair [simp]: "snd (mapped (bindP m (\<lambda>(x, y). ok (f x y))) w) = after m w"
  by (simp add: mapped_def bindP_def after_def ok_def split: prod.split sum.split)

lemma mapped_error:
  "mapped m w = (Inl st, w') \<longleftrightarrow> (\<exists>e. m w = (Inl e, w') \<and> st = mapError e)"
  by (auto simp: mapped_def split: prod.split sum.split)

text \<open>A handler either refuses without effect or is the service request of its caller.\<close>

lemma handle_effect:
  assumes "PrincipalFromContext c = Some p"
  shows "(\<exists>st. handle s req c w = (Inl st, w))
    \<or> TrimSpace (body_user req) \<in> {[], pr_UserID p} \<and> snd (handle s req c w) = serve (sv_svc s) (call_of (pr_UserID p) req) w"
proof -
  have r: "requestUserID c body f = (if TrimSpace body \<in> {[], pr_UserID p} then Inr (pr_UserID p)
      else Inl (PermissionDenied, f @ '' does not match authenticated user''))" for body f
    using assms by (simp add: requestUserID_def)
  have a: "authenticatedUserID c = Inr (pr_UserID p)" using assms by (simp add: authenticatedUserID_def)
  note defs = srv_CreateRoom_def srv_CreateBoardLinkedRoom_def srv_GetOrCreateBoardChatRoom_def srv_JoinRoom_def
    srv_LeaveRoom_def srv_ListMyRooms_def srv_GetMessages_def srv_SendMessage_def srv_CreateAttachmentUploadURL_def
    srv_CreateImageUploadURL_def srv_MarkAsRead_def srv_MarkChatRoomRead_def srv_RegisterDeviceToken_def
    srv_UnregisterDeviceToken_def srv_RemoveMember_def srv_DeleteMessage_def srv_DeactivateRoom_def
  show ?thesis
    by (cases req) (simp_all add: defs r a prog_simps)
qed

section \<open>The wire of a stream\<close>

text \<open>
  \<^verbatim>\<open>Server.StreamMessages\<close>: after the checks it runs beside the goroutine of the stream, takes what that
  puts on its channel and sends it. \<open>wr_sent\<close> is what the client has received, \<open>wr_taken\<close> counts what was taken
  from the channel, \<open>wr_end\<close> is the outcome when the handler has returned.
\<close>

record wire =
  wr_sent :: "pb_ChatMessage list"
  wr_taken :: nat
  wr_end :: "status option option"

definition stream_status :: "error \<Rightarrow> status" where
  "stream_status err =
    (if err = ErrMemberLeft then (FailedPrecondition, error_text err)
     else if err = ErrMemberRemoved then (PermissionDenied, error_text err)
     else mapError err)"

definition new_wire :: wire where
  "new_wire = \<lparr>wr_sent = [], wr_taken = 0, wr_end = None\<rparr>"

text \<open>A stream that is not admitted is a goroutine that ended with the error.\<close>

definition srv_StreamMessages ::
  "'s Server \<Rightarrow> ctx \<Rightarrow> string \<Rightarrow> string \<Rightarrow> int \<Rightarrow> 's world \<Rightarrow> (status + stream \<times> wire) \<times> 's world" where
  "srv_StreamMessages s c roomId user afterSequenceNo =
    bindP (of_result (requestUserID c user ''user_id'')) (\<lambda>userID.
    if roomId = [] then fail (InvalidArgument, ''room_id is required'')
    else (\<lambda>w.
      case stream_start (sv_svc s) roomId userID afterSequenceNo w of
        (Inr st, w') \<Rightarrow> (Inr (st, new_wire), w')
      | (Inl e, w') \<Rightarrow> (Inr (\<lparr>sr_room = roomId, sr_user = userID, sr_chan = 0, sr_pending = [], sr_last = afterSequenceNo,
                              sr_out = [], sr_phase = Ended (Some e)\<rparr>, new_wire), w')))"

text \<open>
  One turn of the \<^verbatim>\<open>select\<close> loop: the client went away; an error or the close of the error channel; the
  next message, sent or not. The goroutine closes both channels when it ends, and a channel yields what it
  holds before its close is seen: without an error the close of the error channel may be seen while messages
  are left, and the close of the emptied message channel may be seen before the error is.
\<close>

inductive wire_step :: "'s Server \<Rightarrow> stream \<Rightarrow> wire \<Rightarrow> wire \<Rightarrow> bool"
  for s :: "'s Server" and st :: stream where
  gone: "wr_end wi = None \<Longrightarrow> wire_step s st wi (wi\<lparr>wr_end := Some None\<rparr>)"
| error: "wr_end wi = None \<Longrightarrow> sr_phase st = Ended (Some e) \<Longrightarrow> wire_step s st wi (wi\<lparr>wr_end := Some (Some (stream_status e))\<rparr>)"
| errors_closed: "wr_end wi = None \<Longrightarrow> sr_phase st = Ended None \<Longrightarrow> wire_step s st wi (wi\<lparr>wr_end := Some None\<rparr>)"
| messages_closed: "wr_end wi = None \<Longrightarrow> sr_phase st = Ended r \<Longrightarrow> wr_taken wi = length (sr_out st) \<Longrightarrow>
    wire_step s st wi (wi\<lparr>wr_end := Some None\<rparr>)"
| send: "wr_end wi = None \<Longrightarrow> wr_taken wi < length (sr_out st) \<Longrightarrow>
    wire_step s st wi (wi\<lparr>wr_taken := Suc (wr_taken wi),
      wr_sent := wr_sent wi @ [toPBMessage (sv_NewStruct s) (sr_out st ! wr_taken wi)]\<rparr>)"
| send_failed: "wr_end wi = None \<Longrightarrow> wr_taken wi < length (sr_out st) \<Longrightarrow>
    wire_step s st wi (wi\<lparr>wr_taken := Suc (wr_taken wi), wr_end := Some (Some (Unavailable, ''stream send failed: '' @ t))\<rparr>)"

text \<open>The handler, the goroutine and the rest of the service take turns.\<close>

inductive streaming :: "'s Server \<Rightarrow> ('s \<Rightarrow> astore) \<Rightarrow> 's world \<times> stream \<times> wire \<Rightarrow> 's world \<times> stream \<times> wire \<Rightarrow> bool"
  for s :: "'s Server" and store :: "'s \<Rightarrow> astore" where
  behind: "served (sv_svc s) store (w, st) (w', st') \<Longrightarrow> streaming s store (w, st, wi) (w', st', wi)"
| wire: "wire_step s st wi wi' \<Longrightarrow> streaming s store (w, st, wi) (w, st, wi')"

end
