(* ===== verification/ErrorCodes.thy ===== *)
theory ErrorCodes
  imports StreamProperties Transport
begin

text \<open>
  Which errors can reach a client. The programs of the service on the in-memory store fail with the
  errors of \<^verbatim>\<open>internal/domain\<close> and of the service only, so no request is answered with \<^verbatim>\<open>codes.Internal\<close>.
\<close>

section \<open>Programs with known errors\<close>

fun known_error :: "error \<Rightarrow> bool" where
  "known_error (ErrOther _) = False"
| "known_error _ = True"

definition known_result :: "error + 'a \<Rightarrow> bool" where
  "known_result r \<longleftrightarrow> (case r of Inl e \<Rightarrow> known_error e | Inr _ \<Rightarrow> True)"

lemma known_result_simps [simp]: "known_result (Inl e) = known_error e" "known_result (Inr x)"
  by (simp_all add: known_result_def)

lemma error_code_Internal: "error_code e = Internal \<longleftrightarrow> \<not> known_error e"
  by (cases e) simp_all

text \<open>A program is proper if it keeps the hub sane and fails with known errors only.\<close>

definition proper :: "('s world, error, 'a) prog \<Rightarrow> bool" where
  "proper m \<longleftrightarrow> (\<forall>w. ps_inv (w_ps w) \<longrightarrow> ps_inv (w_ps (snd (m w))) \<and> known_result (fst (m w)))"

lemma properI: "(\<And>w. ps_inv (w_ps w) \<Longrightarrow> ps_inv (w_ps (snd (m w))) \<and> known_result (fst (m w))) \<Longrightarrow> proper m"
  by (simp add: proper_def)

lemma properD: "proper m \<Longrightarrow> ps_inv (w_ps w) \<Longrightarrow> m w = (Inl e, w') \<Longrightarrow> known_error e"
  unfolding proper_def by (metis fst_conv known_result_simps(1))

lemma proper_basic [simp]:
  "proper (ok x)" "known_error e \<Longrightarrow> proper (fail e)" "known_result r \<Longrightarrow> proper (of_result r)"
  "proper (env f)" "(\<And>s. known_result (g s)) \<Longrightarrow> proper (view g)" "(\<And>s. known_result (fst (h s))) \<Longrightarrow> proper (db h)"
  "(\<And>g. known_result (fst (n g))) \<Longrightarrow> proper (on_env n)"
  by (simp_all add: proper_def env_def view_def db_def on_env_def split_beta Let_def)

lemma proper_bindP:
  assumes "proper m" "\<And>x. proper (f x)"
  shows "proper (bindP m f)"
proof (rule properI)
  fix w :: "'a world"
  assume "ps_inv (w_ps w)"
  with assms(1) have "ps_inv (w_ps (snd (m w)))" "known_result (fst (m w))" by (simp_all add: proper_def)
  with assms(2) show "ps_inv (w_ps (snd (bindP m f w))) \<and> known_result (fst (bindP m f w))"
    by (cases "m w"; cases "fst (m w)") (auto simp: bindP_def proper_def)
qed

lemma proper_attempt:
  assumes "proper m" "\<And>e. known_error e \<Longrightarrow> proper (f (Inl e))" "\<And>x. proper (f (Inr x))"
  shows "proper (bindP (attempt m) f)"
proof (rule properI)
  fix w :: "'a world"
  assume "ps_inv (w_ps w)"
  with assms(1) have "ps_inv (w_ps (snd (m w)))" "known_result (fst (m w))" by (simp_all add: proper_def)
  with assms(2,3) show "ps_inv (w_ps (snd (bindP (attempt m) f w))) \<and> known_result (fst (bindP (attempt m) f w))"
    by (cases "m w"; cases "fst (m w)") (auto simp: bindP_def attempt_def proper_def)
qed

lemma proper_publish [simp]: "proper (publish rid msg)"
proof (rule properI)
  fix w :: "'a world"
  assume "ps_inv (w_ps w)"
  from ps_Publish_effect [OF this] obtain ps where "ps_Publish (w_ps w) rid msg = Some ps" "ps_inv ps" by blast
  then show "ps_inv (w_ps (snd (publish rid msg w))) \<and> known_result (fst (publish rid msg w))" by (simp add: publish_def)
qed

lemma proper_tx: "cs_repo svc = memory_repo \<Longrightarrow> proper m \<Longrightarrow> proper (tx svc m)"
  by simp

text \<open>The rules, in the order in which they apply: an attempt before a plain sequence.\<close>

lemmas proper_rules = impI conjI allI proper_attempt proper_bindP

section \<open>The in-memory store\<close>

lemma mem_known [simp]:
  "known_result (mem_GetRoom s rid)" "known_result (mem_GetMember s rid u)" "known_result (mem_GetMessage s rid i)"
  "known_result (mem_GetActiveBoardLinkedRoom s b)" "known_result (mem_ListMessagesBefore s rid n k)"
  "known_result (mem_ListActiveMembersByJoinOrder s rid)" "known_result (mem_ListActiveDeviceTokensByUserIDs s us)"
  "known_result (fst (mem_CreateRoom s r))" "known_result (fst (mem_UpdateRoom s r))"
  "known_result (fst (mem_CreateMember s m))" "known_result (fst (mem_UpdateMember s m))"
  "known_result (fst (mem_CreateMessageWithNextSequence s x))" "known_result (fst (mem_UpdateMessage s x))"
  "known_result (fst (mem_UpsertDeviceToken s t))" "known_result (fst (mem_DeactivateDeviceToken s u d now))"
  by (auto simp: mem_GetRoom_def mem_GetMember_def mem_GetMessage_def mem_GetActiveBoardLinkedRoom_def mem_ListMessagesBefore_def
      mem_ListActiveMembersByJoinOrder_def mem_ListActiveDeviceTokensByUserIDs_def mem_CreateRoom_def mem_UpdateRoom_def
      mem_CreateMember_def mem_UpdateMember_def mem_CreateMessageWithNextSequence_def mem_UpdateMessage_def
      mem_UpsertDeviceToken_def mem_DeactivateDeviceToken_def Let_def split: option.split)

section \<open>The service\<close>

lemma checks_known [simp]:
  "known_result (validateMessagePayload mt content img md)" "known_result (validateTrustedAttachmentURL svc rid mt img md)"
  "known_result (normalizeAttachmentReferences svc rid mt img md)" "known_result (validateAttachmentUploadRequest u f ct)"
  by (auto simp: validateMessagePayload_def validateTrustedAttachmentURL_def validateTrustedStorageURL_def
      normalizeAttachmentReferences_def extractTrustedStorageObjectName_def validateAttachmentUploadRequest_def Let_def
      split: MessageType.split option.split)

lemma proper_guard:
  assumes "cs_repo svc = memory_repo"
  shows "proper (validateActiveMembership svc rid u)"
  unfolding validateActiveMembership_def assms memory_repo_simps by (rule proper_rules | simp)+

lemma proper_ensure:
  assumes "cs_repo svc = memory_repo"
  shows "proper (ensureActiveMember svc rid u now)" "proper (ensurePassiveMember svc rid o' u now)"
proof -
  have create: "proper (bindP (env id_New) (\<lambda>i. bindP (attempt (db (\<lambda>s. mem_CreateMember s (m i)))) (\<lambda>r. case r of Inl err \<Rightarrow>
      if err = ErrAlreadyExists then view (\<lambda>s. mem_GetMember s rid u) else fail err | Inr _ \<Rightarrow> ok (m i))))" for m u
    by (rule proper_rules | simp)+
  show "proper (ensureActiveMember svc rid u now)"
    unfolding ensureActiveMember_def assms memory_repo_simps Let_def
    by (rule proper_rules | simp split: MemberStatus.split add: create)+
  show "proper (ensurePassiveMember svc rid o' u now)"
    unfolding ensurePassiveMember_def assms memory_repo_simps Let_def
    by (rule proper_rules | simp)+
qed

lemma proper_present:
  "cs_attachmentReadSigner svc = None \<Longrightarrow> known_result (fst (hydrateMessageForDelivery svc m g))"
  "cs_attachmentReadSigner svc = None \<Longrightarrow> known_result (fst (present_all svc ms g))"
proof -
  show "known_result (fst (hydrateMessageForDelivery svc m g))" if "cs_attachmentReadSigner svc = None" for m g
    using that by (simp add: hydrateMessageForDelivery_def)
  show "known_result (fst (present_all svc ms g))" if none: "cs_attachmentReadSigner svc = None"
  proof (induction ms arbitrary: g)
    case (Cons m ms)
    from Cons [of g] none show ?case
      by (cases "present_all svc ms g"; cases "fst (present_all svc ms g)")
        (auto simp: present_def hydrateMessageForDelivery_def bindP_def)
  qed simp
qed

lemma proper_push: "proper (push_Send sender m)"
  by (simp add: proper_def push_Send_def)

lemma proper_dispatch:
  assumes "cs_repo svc = memory_repo"
  shows "proper (dispatchChatMessagePush svc rid u msg)"
proof -
  have s: "proper (send_all sender msg ts)" for sender ts
    by (induction ts) (simp_all add: proper_bindP proper_push proper_def [of "Pair (Inr ())"])
  show ?thesis unfolding dispatchChatMessagePush_def assms memory_repo_simps
    by (rule proper_rules | simp add: s Let_def split: option.split)+
qed

lemma proper_board:
  assumes "cs_repo svc = memory_repo"
  shows "proper (enterExistingBoardChatRoom svc inp)" "proper (createBoardChatRoom svc inp)"
  unfolding enterExistingBoardChatRoom_def createBoardChatRoom_def assms memory_repo_simps Let_def
  by (rule proper_rules | simp add: assms proper_ensure)+

lemma proper_service:
  assumes R: "cs_repo svc = memory_repo" and s: "cs_attachmentReadSigner svc = None" "cs_attachmentUploadSigner svc = None"
  shows "proper (svc_CreateRoom svc u t)" "proper (svc_CreateBoardLinkedRoom svc u b t)"
    "proper (svc_GetOrCreateBoardChatRoom svc inp)" "proper (svc_JoinRoom svc rid u)" "proper (svc_LeaveRoom svc rid u)"
    "proper (svc_RemoveMember svc rid u v)" "proper (svc_DeactivateRoom svc rid u)"
    "proper (svc_SendMessage svc rid u mt x img md)" "proper (svc_DeleteMessage svc rid i u)"
    "proper (svc_GetMessages svc rid u n k)" "proper (svc_MarkAsRead svc rid u n)" "proper (svc_MarkChatRoomRead svc rid u)"
    "proper (svc_RegisterDeviceToken svc u d tok p)" "proper (svc_UnregisterDeviceToken svc u d)"
    "proper (svc_CreateAttachmentUploadURL svc rid u f ct)" "proper (svc_CreateImageUploadURL svc rid u f ct)"
  unfolding svc_CreateRoom_def svc_CreateBoardLinkedRoom_def svc_GetOrCreateBoardChatRoom_def svc_JoinRoom_def svc_LeaveRoom_def
    svc_RemoveMember_def svc_DeactivateRoom_def message_operations R s memory_repo_simps
  by (rule proper_rules | simp add: Let_def R s proper_guard proper_board proper_present proper_dispatch split_beta
      split: sum.split list.split option.split MemberStatus.split)+

text \<open>
  The list of rooms is cut with \<^verbatim>\<open>int\<close> arithmetic, which is exact as long as the store has fewer than
  \<open>2 ^ 62\<close> rooms.
\<close>

lemma length_insert_stable: "length (insert_stable lt x xs) = Suc (length xs)"
  by (induction xs) auto

lemma length_sort_stable: "length (sort_stable lt xs) = length xs"
  by (induction xs) (simp_all add: length_insert_stable)

lemma ListMyRooms_known:
  assumes "cs_repo svc = memory_repo" "length (st_members (w_db w)) < 2 ^ 62"
  shows "known_result (fst (svc_ListMyRooms svc u n tok w))"
proof -
  let ?xs = "sort_stable (\<lambda>a b. rm_UpdatedAt (sm_Room b) < rm_UpdatedAt (sm_Room a))
    (List.map_filter (room_summary (w_db w) u) (st_members (w_db w)))"
  have "length ?xs \<le> length (st_members (w_db w))" by (simp add: map_filter_def length_sort_stable)
  then have "int (length ?xs) < 2 ^ 62" using assms(2) by simp
  moreover have "0 \<le> mem_page_start tok" by (auto simp: mem_page_start_def split: option.split)
  ultimately have "wrap64 (mem_page_start tok + k) = mem_page_start tok + k" if "mem_page_start tok < int (length ?xs)" "0 < k" "k \<le> 100" for k
    using that by (intro wrap64_id) (simp add: int64_range_def)
  then show ?thesis using assms(1)
    by (auto simp: svc_ListMyRooms_def view_def mem_ListRoomsByUser_def Let_def)
qed

section \<open>The handlers\<close>

lemma mapped_known:
  "fst (mapped (bindP m (\<lambda>x. ok (f x))) w) = Inl (Internal, t) \<Longrightarrow> known_result (fst (m w)) \<Longrightarrow> False"
  "fst (mapped (bindP m' (\<lambda>(x, y). ok (g x y))) w) = Inl (Internal, t) \<Longrightarrow> known_result (fst (m' w)) \<Longrightarrow> False"
  by (auto simp: mapped_def bindP_def mapError_def error_code_Internal split: prod.splits sum.splits)

lemma proper_known: "proper m \<Longrightarrow> ps_inv (w_ps w) \<Longrightarrow> known_result (fst (m w))"
  by (simp add: proper_def)

lemmas handler_defs = srv_CreateRoom_def srv_CreateBoardLinkedRoom_def srv_GetOrCreateBoardChatRoom_def srv_JoinRoom_def
    srv_LeaveRoom_def srv_ListMyRooms_def srv_GetMessages_def srv_SendMessage_def srv_CreateAttachmentUploadURL_def
    srv_CreateImageUploadURL_def srv_MarkAsRead_def srv_MarkChatRoomRead_def srv_RegisterDeviceToken_def
    srv_UnregisterDeviceToken_def srv_RemoveMember_def srv_DeleteMessage_def srv_DeactivateRoom_def

lemma caller_not_internal [simp]: "requestUserID c body f \<noteq> Inl (Internal, t)" "authenticatedUserID c \<noteq> Inl (Internal, t)"
  by (auto simp: requestUserID_def authenticatedUserID_def Let_def split: option.splits)

lemma handle_not_internal:
  assumes "cs_repo (sv_svc s) = memory_repo" "cs_attachmentReadSigner (sv_svc s) = None" "cs_attachmentUploadSigner (sv_svc s) = None"
    "ps_inv (w_ps w)" "length (st_members (w_db w)) < 2 ^ 62"
  shows "fst (handle s req c w) \<noteq> Inl (Internal, t)"
proof -
  note k = proper_service [OF assms(1-3), THEN proper_known, OF assms(4)]
    ListMyRooms_known [OF assms(1,5)]
  show ?thesis
    by (cases req)
      (auto simp: handler_defs bindP_run k split: if_splits sum.split dest: mapped_known)
qed

end
