(* ===== verification/TransportProperties.thy ===== *)
theory TransportProperties
  imports ErrorCodes
begin

text \<open>
  What the gRPC surface guarantees: who a request acts for, which requests are refused, which codes a
  client can see, and what arrives on the wire of a message stream.
\<close>

declare mem_abs_sel [simp del]

section \<open>Identity\<close>

text \<open>
  C4. Behind the interceptor nothing happens in the service without a token that the auth service
  accepted as valid, and what happens is the request of the user of that token: a unary request is
  answered with an error and leaves the world as it was, or it changes the world exactly as the service
  request made on behalf of the token's user does, and then the request body names that user or nobody.
\<close>

theorem authenticated_effect:
  "(\<exists>st. unary_rpc client s req c w = (Inl st, w))
   \<or> (\<exists>cl claims. client = Some cl \<and> ac_ValidateToken cl (bearerTokenFromContext c) = Inr claims \<and> cl_Valid claims
        \<and> TrimSpace (body_user req) \<in> {[], cl_UserID claims}
        \<and> snd (unary_rpc client s req c w) = serve (sv_svc s) (call_of (cl_UserID claims) req) w)"
proof (cases "authenticateContext (Some (Authenticate client)) c")
  case (Inl e)
  then show ?thesis by (simp add: unary_rpc_def UnaryInterceptor_def)
next
  case (Inr p)
  note a = authenticated_principal [OF Inr]
  from handle_effect [OF a(1), of s req w] a(2) Inr show ?thesis
    by (auto simp: unary_rpc_def UnaryInterceptor_def)
qed

text \<open>A client that accepts the token \<open>tok\<close> as that of \<open>ann\<close>.\<close>

definition ann_client :: AuthServiceClient where
  "ann_client = NewDynamicAuthServiceClient sample_conn None"

definition bearer :: "string \<Rightarrow> ctx" where
  "bearer v = \<lparr>cx_metadata = Some [(''authorization'', [v])], cx_principal = None\<rparr>"

definition demo_server :: "Store Server" where
  "demo_server = \<lparr>sv_svc = demo_service, sv_NewStruct = Some\<rparr>"

text \<open>
  C34. Refusals. Without a token that the auth service accepts, every unary request is answered with
  \<^verbatim>\<open>Unauthenticated\<close>; with one, a request whose body names another user is answered with
  \<^verbatim>\<open>PermissionDenied\<close>. Neither has any effect.
\<close>

theorem requests_refused:
  "((\<nexists>cl claims. client = Some cl \<and> ac_ValidateToken cl (bearerTokenFromContext c) = Inr claims \<and> cl_Valid claims) \<longrightarrow>
      (\<exists>t. unary_rpc client s req c w = (Inl (Unauthenticated, t), w)))
   \<and> (\<forall>p. authenticateContext (Some (Authenticate client)) c = Inr p \<and> TrimSpace (body_user req) \<notin> {[], pr_UserID p} \<longrightarrow>
      (\<exists>t. unary_rpc client s req c w = (Inl (PermissionDenied, t), w)))"
proof (intro conjI allI impI)
  assume none: "\<nexists>cl claims. client = Some cl \<and> ac_ValidateToken cl (bearerTokenFromContext c) = Inr claims \<and> cl_Valid claims"
  have "\<exists>e. authenticateContext (Some (Authenticate client)) c = Inl e"
    using authenticated_principal(2) [of client c] none by (cases "authenticateContext (Some (Authenticate client)) c") blast+
  then show "\<exists>t. unary_rpc client s req c w = (Inl (Unauthenticated, t), w)"
    by (auto simp: unary_rpc_def UnaryInterceptor_def mapAuthError_def)
next
  fix p
  assume p: "authenticateContext (Some (Authenticate client)) c = Inr p \<and> TrimSpace (body_user req) \<notin> {[], pr_UserID p}"
  then have c: "PrincipalFromContext (WithPrincipal c p) = Some p" using authenticated_principal(1) by blast
  have "\<exists>t. requestUserID (WithPrincipal c p) (body_user req) f = Inl (PermissionDenied, t)" for f
    using p c by (simp add: requestUserID_def)
  then have r: "requestUserID (WithPrincipal c p) (body_user req) f = Inl (PermissionDenied, f @ '' does not match authenticated user'')" for f
    using p c by (simp add: requestUserID_def)
  have "\<exists>t. handle s req (WithPrincipal c p) w = (Inl (PermissionDenied, t), w)"
    using p r by (cases req) (simp_all add: handler_defs bindP_run)
  with p show "\<exists>t. unary_rpc client s req c w = (Inl (PermissionDenied, t), w)"
    by (simp add: unary_rpc_def UnaryInterceptor_def)
qed

lemma ann_authenticated:
  "authenticateContext (Some (Authenticate (Some ann_client))) (bearer ''Bearer tok'') =
     Inr \<lparr>pr_UserID = ''ann'', pr_Email = [], pr_Nickname = ''Ann'', pr_ProfileImageURL = [], pr_Role = 0\<rparr>"
proof -
  have "Fields ''Bearer tok'' = [''Bearer'', ''tok'']" by (simp add: Fields_def gostring_simps visible_def)
  moreover have "ascii_lower (CHR ''B'') = CHR ''b''" "ascii_lower (CHR ''b'') = CHR ''b''" by code_simp+
  then have "EqualFold ''Bearer'' ''bearer''" by (simp add: is_ascii_def)
  ultimately have t: "bearerTokenFromContext (bearer ''Bearer tok'') = ''tok''"
    by (simp add: bearerTokenFromContext_def bearer_def TrimSpace_visible visible_def Let_def del: EqualFold.simps)
  show ?thesis
    by (simp add: authenticateContext_def t Authenticate_def ann_client_def NewDynamicAuthServiceClient_def dyn_ValidateToken_def
        dyn_GetMe_def sample_conn_def validateTokenMethod_def getMeMethod_def boolField_def stringField_def enumField_def pb_Get_def
        TrimSpace_visible visible_def descriptor_def buildAuthDescriptors_def RoleUnspecified_def del: descriptor_simps)
qed

theorem requests_refused_witness:
  "\<exists>t t'. unary_rpc (Some ann_client) demo_server (LeaveRoomRequest (uid 0) ''bob'') (bearer ''Bearer tok'') demo
       = (Inl (PermissionDenied, t), demo)
     \<and> unary_rpc None demo_server (LeaveRoomRequest (uid 0) ''ann'') (bearer ''Bearer tok'') demo = (Inl (Unauthenticated, t'), demo)"
  using requests_refused [of "Some ann_client" "bearer ''Bearer tok''" demo_server "LeaveRoomRequest (uid 0) ''bob''" demo]
    requests_refused [of None "bearer ''Bearer tok''" demo_server "LeaveRoomRequest (uid 0) ''ann''" demo] ann_authenticated
  by (auto simp: TrimSpace_visible visible_def)

section \<open>Error codes\<close>

text \<open>
  C35. On the in-memory store, and without signers for attachments, no request in a reachable state is
  answered with \<^verbatim>\<open>Internal\<close>: every failure has one of the codes the interface documents. (The store has
  fewer than \<open>2 ^ 62\<close> rooms.)
\<close>

theorem no_internal_error:
  assumes "reachable (sv_svc s) w" and "cs_attachmentReadSigner (sv_svc s) = None" and "cs_attachmentUploadSigner (sv_svc s) = None"
    and "length (st_members (w_db w)) < 2 ^ 62"
  shows "\<nexists>t. fst (unary_rpc client s req c w) = Inl (Internal, t)"
proof -
  have "cs_repo (sv_svc s) = memory_repo" "ps_inv (w_ps w)"
    using assms(1) mem.soundD(6) [OF reachable_sound [OF assms(1)]] by (simp_all add: reachable_def)
  from handle_not_internal [OF this(1) assms(2,3) this(2) assms(4)] show ?thesis
    by (auto simp: unary_rpc_def UnaryInterceptor_def mapAuthError_def split: sum.split)
qed

theorem no_internal_error_witness:
  "\<nexists>t. fst (unary_rpc (Some ann_client) demo_server (LeaveRoomRequest ''nowhere'' ''ann'') (bearer ''Bearer tok'') demo) = Inl (Internal, t)"
  using no_internal_error [of demo_server demo] demo_reachable by (simp add: demo_server_def demo)

section \<open>Delivery on the wire\<close>

lemma flush_prefix:
  "flushPendingMessages svc k pending n out g = (err, pending', n', out', g') \<Longrightarrow> prefix out out'"
proof (induction k arbitrary: pending n out g)
  case 0
  then show ?case by (auto simp: flushPendingMessages.simps [of _ 0] Let_def split: option.splits prod.splits sum.splits)
next
  case (Suc k)
  show ?case
  proof (cases "map_of pending (wrap64 (n + 1))")
    case None
    then show ?thesis using Suc.prems by (simp add: flushPendingMessages.simps [of svc "Suc k"] Let_def)
  next
    case (Some msg)
    obtain r g1 where p: "present svc msg g = (r, g1)" by fastforce
    show ?thesis
    proof (cases r)
      case (Inl e)
      then show ?thesis using Suc.prems Some p by (simp add: flushPendingMessages.simps [of svc "Suc k"] Let_def)
    next
      case (Inr x)
      have "prefix (out @ [x]) out'" by (rule Suc.IH) (use Suc.prems Some p Inr in \<open>simp add: flushPendingMessages.simps [of svc "Suc k"] Let_def\<close>)
      then show ?thesis by (rule append_prefixD)
    qed
  qed
qed

lemma served_prefix: "served svc store x y \<Longrightarrow> prefix (sr_out (snd x)) (sr_out (snd y))"
proof -
  have f: "prefix (sr_out st) (sr_out (snd (flush svc k ph (w, st))))" for k ph w st
    by (auto simp: flush_def finish_def Let_def split: prod.split option.split dest: flush_prefix)
  have "prefix (sr_out (snd x)) (sr_out (snd y))" if "stream_step svc x y" for x y
    using that by (cases rule: stream_step.cases)
      (auto simp: query_def drain_def tick_def receive_def finish_def Let_def f split: prod.split option.split sum.split)
  then show "served svc store x y \<Longrightarrow> ?thesis" by (auto elim: served.cases)
qed

lemma ended_served:
  "served svc store (w, st) (w', st') \<Longrightarrow> sr_phase st = Ended r \<Longrightarrow> st' = st"
  by (erule served.cases) (auto elim: stream_step.cases)

text \<open>What is on the wire is what the goroutine has put on its channel, up to some point.\<close>

definition wire_ok :: "'s Server \<Rightarrow> stream \<Rightarrow> wire \<Rightarrow> bool" where
  "wire_ok s st wi \<longleftrightarrow> prefix (wr_sent wi) (map (toPBMessage (sv_NewStruct s)) (sr_out st))
     \<and> (wr_end wi = None \<longrightarrow> wr_taken wi = length (wr_sent wi))"

lemma wire_ok_step: "wire_step s st wi wi' \<Longrightarrow> wire_ok s st wi \<Longrightarrow> wire_ok s st wi'"
proof (induction rule: wire_step.induct)
  case (send wi)
  then have p: "prefix (wr_sent wi) (map (toPBMessage (sv_NewStruct s)) (sr_out st))" "wr_taken wi = length (wr_sent wi)"
    by (simp_all add: wire_ok_def)
  have "wr_sent wi = map (toPBMessage (sv_NewStruct s)) (take (wr_taken wi) (sr_out st))"
    using p by (metis append_eq_conv_conj prefix_def take_map)
  then have "wr_sent wi @ [toPBMessage (sv_NewStruct s) (sr_out st ! wr_taken wi)]
      = map (toPBMessage (sv_NewStruct s)) (take (Suc (wr_taken wi)) (sr_out st))"
    using send.hyps(2) by (simp add: take_Suc_conv_app_nth)
  then show ?case using p(2) send.hyps(2) by (simp add: wire_ok_def map_mono_prefix take_is_prefix)
qed (simp_all add: wire_ok_def)

lemma streaming_run:
  assumes "(streaming s store)\<^sup>*\<^sup>* x y" "wire_ok s (fst (snd x)) (snd (snd x))"
  shows "(served (sv_svc s) store)\<^sup>*\<^sup>* (fst x, fst (snd x)) (fst y, fst (snd y)) \<and> wire_ok s (fst (snd y)) (snd (snd y))"
  using assms
proof (induction rule: rtranclp_induct)
  case (step y z)
  then have IH: "(served (sv_svc s) store)\<^sup>*\<^sup>* (fst x, fst (snd x)) (fst y, fst (snd y))" "wire_ok s (fst (snd y)) (snd (snd y))"
    by blast+
  from step.hyps(2) show ?case
  proof (cases rule: streaming.cases)
    case (behind w st w' st' wi)
    with IH(2) served_prefix [OF behind(3)] have "wire_ok s st' wi"
      by (auto simp: wire_ok_def intro: prefix_order.trans map_mono_prefix)
    with behind IH(1) show ?thesis by (auto intro: rtranclp.rtrancl_into_rtrancl)
  next
    case (wire st wi wi' w)
    with IH wire_ok_step show ?thesis by auto
  qed
qed simp

lemma toPBMessage_sel [simp]:
  "pbc_MessageId (toPBMessage ns m) = mg_ID m" "pbc_SequenceNo (toPBMessage ns m) = mg_SequenceNo m"
  "pbc_SenderUserId (toPBMessage ns m) = mg_SenderUserID m" "pbc_Content (toPBMessage ns m) = mg_Content m"
  by (simp_all add: toPBMessage_def)

lemma take_prefix_numbers:
  assumes "prefix xs ys" "map f ys = [a + 1..b]"
  shows "map f xs = [a + 1..a + int (length xs)]"
proof -
  from assms(1) obtain zs where ys: "ys = xs @ zs" by (auto simp: prefix_def)
  have "map f xs = take (length xs) (map f ys)" by (simp add: ys)
  also have "\<dots> = [a + 1..min b (a + int (length xs))]" unfolding assms(2) take_upto by simp
  finally have *: "map f xs = [a + 1..min b (a + int (length xs))]" .
  show ?thesis
  proof (cases "xs = []")
    case False
    then have "0 < length xs" by simp
    moreover have "length xs + length zs = nat (b - a)" using arg_cong [OF assms(2), of length] by (simp add: ys)
    ultimately have "a + int (length xs) \<le> b" by linarith
    with * show ?thesis by simp
  qed simp
qed

text \<open>
  C36. A client of the streaming request receives, whatever else happens, the messages of the room with the
  numbers that follow the one it asked for, in order, each once and none left out, each with the number,
  the sender and, unless it has been deleted since, the text that is stored; and nothing at all if the
  stream is not admitted.
\<close>

theorem wire_in_order:
  assumes "reachable (sv_svc s) w" and "ps_fresh (w_env w) (w_ps w) rid" and "int64_range n0"
    and "srv_StreamMessages s c rid u n0 w = (Inr (st, wi), w1)" and "(streaming s mem_abs)\<^sup>*\<^sup>* (w1, st, wi) (w2, st2, wi2)"
  shows "map pbc_SequenceNo (wr_sent wi2) = [n0 + 1..n0 + int (length (wr_sent wi2))]
    \<and> (\<forall>x \<in> set (wr_sent wi2). \<exists>cur. mem_GetMessage (w_db w2) rid (pbc_MessageId x) = Inr cur
        \<and> mg_SequenceNo cur = pbc_SequenceNo x \<and> mg_SenderUserID cur = pbc_SenderUserId x
        \<and> (mg_IsDeleted cur \<or> mg_Content cur = pbc_Content x))"
proof -
  have R: "cs_repo (sv_svc s) = memory_repo" using assms(1) by (simp add: reachable_def)
  obtain v where v: "wi = new_wire"
    "stream_start (sv_svc s) rid v n0 w = (Inr st, w1) \<or> (\<exists>e. sr_phase st = Ended (Some e)) \<and> sr_out st = []"
    using assms(4) by (auto simp: srv_StreamMessages_def bindP_run split: sum.splits if_splits prod.splits)
  have run: "(served (sv_svc s) mem_abs)\<^sup>*\<^sup>* (w1, st) (w2, st2)" "wire_ok s st2 wi2"
    using streaming_run [OF assms(5)] v(1) by (simp_all add: wire_ok_def new_wire_def)
  from v(2) show ?thesis
  proof
    assume e: "(\<exists>e. sr_phase st = Ended (Some e)) \<and> sr_out st = []"
    from run(1) have "st2 = st"
      by (induction "(w2, st2)" arbitrary: w2 st2 rule: rtranclp_induct) (use e ended_served in fastforce)+
    with e run(2) show ?thesis by (simp add: wire_ok_def)
  next
    assume "stream_start (sv_svc s) rid v n0 w = (Inr st, w1)"
    note st = stream_follows [OF assms(1-3) this]
    from mem.served_run_following [OF run(1) st(1) R] st(2) have f: "mem.following n0 (w2, st2)" "sr_room st2 = rid" by simp_all
    note d = mem_delivered [OF f(1), unfolded f(2)]
    have p: "prefix (wr_sent wi2) (map (toPBMessage (sv_NewStruct s)) (sr_out st2))" using run(2) by (simp add: wire_ok_def)
    have "map pbc_SequenceNo (map (toPBMessage (sv_NewStruct s)) (sr_out st2)) = [n0 + 1..sr_last st2]" using d by (simp add: comp_def)
    from take_prefix_numbers [OF p this] set_mono_prefix [OF p] d show ?thesis by fastforce
  qed
qed

lemma uid_not_Nil: "uid n \<noteq> []"
  by (simp add: uid_def uuid_string_def)

lemma served_streaming:
  "(served (sv_svc s) store)\<^sup>*\<^sup>* x y \<Longrightarrow> (streaming s store)\<^sup>*\<^sup>* (fst x, snd x, wi) (fst y, snd y, wi)"
proof (induction rule: rtranclp_induct)
  case (step y z)
  have "streaming s store (fst y, snd y, wi) (fst z, snd z, wi)" using step.hyps(2) by (intro streaming.behind) simp
  with step.IH show ?case by (rule rtranclp.rtrancl_into_rtrancl)
qed simp

theorem wire_in_order_witness:
  "\<exists>st w1 st2 wi2 w2. srv_StreamMessages demo_server (bearer [])(uid 0) ''bob'' 0 demo = (Inr (st, new_wire), w1)
    \<and> (streaming demo_server mem_abs)\<^sup>*\<^sup>* (w1, st, new_wire) (w2, st2, wi2) \<and> map pbc_SequenceNo (wr_sent wi2) = [1..1]"
proof -
  from bob_caught_up obtain st w1 g st2 where s: "bob_stream = (Inr st, w1)"
    and c: "catch_up 4 100 demo_service (w1, st) = Some (w1\<lparr>w_env := g\<rparr>, st2)" "sr_last st2 = 1" by blast
  have start: "srv_StreamMessages demo_server (bearer []) (uid 0) ''bob'' 0 demo = (Inr (st, new_wire), w1)"
    using s uid_not_Nil by (simp add: srv_StreamMessages_def requestUserID_def bearer_def PrincipalFromContext_def bindP_run
        TrimSpace_visible visible_def demo_server_def bob_stream_def)
  let ?wi = "new_wire\<lparr>wr_taken := Suc (wr_taken new_wire),
      wr_sent := wr_sent new_wire @ [toPBMessage (sv_NewStruct demo_server) (sr_out st2 ! wr_taken new_wire)]\<rparr>"
  have r: "int64_range 0" by (simp add: int64_range_def)
  have out: "map mg_SequenceNo (sr_out st2) = [1..1]"
    using mem_delivered [of 0 "w1\<lparr>w_env := g\<rparr>" st2] mem.served_run_following [OF served_stream [OF catch_up_steps [OF c(1)]]
        stream_follows(1) [OF demo_reachable bob_fresh r s [unfolded bob_stream_def]]] c(2) by simp
  have "(streaming demo_server mem_abs)\<^sup>*\<^sup>* (w1, st, new_wire) (w1\<lparr>w_env := g\<rparr>, st2, new_wire)"
    using served_streaming [of demo_server mem_abs "(w1, st)" "(w1\<lparr>w_env := g\<rparr>, st2)" new_wire]
      served_stream [OF catch_up_steps [OF c(1)]] by (simp add: demo_server_def)
  moreover have "streaming demo_server mem_abs (w1\<lparr>w_env := g\<rparr>, st2, new_wire) (w1\<lparr>w_env := g\<rparr>, st2, ?wi)"
    using arg_cong [OF out, of length] by (intro streaming.wire wire_step.send) (simp_all add: new_wire_def)
  ultimately have run: "(streaming demo_server mem_abs)\<^sup>*\<^sup>* (w1, st, new_wire) (w1\<lparr>w_env := g\<rparr>, st2, ?wi)" by (rule rtranclp.rtrancl_into_rtrancl)
  from wire_in_order [of demo_server, OF _ bob_fresh r start run] demo_reachable
  have "map pbc_SequenceNo (wr_sent ?wi) = [1..1]" by (simp add: new_wire_def demo_server_def)
  with start run show ?thesis by blast
qed

end
