(* ===== verification/GoRunes.thy ===== *)
theory GoRunes
  imports GoStrings
begin

text \<open>
  Runes and their encodings: what \<^verbatim>\<open>[]rune(s)\<close> yields are Unicode scalar values, and \<^verbatim>\<open>string(rs)\<close> encodes
  scalar values so that decoding gives them back, whatever follows.
\<close>

definition valid_rune :: "nat \<Rightarrow> bool" where
  "valid_rune r \<longleftrightarrow> r \<le> 1114111 \<and> \<not> (55296 \<le> r \<and> r \<le> 57343)"

lemma valid_RuneError [simp]: "valid_rune RuneError"
  by (simp add: valid_rune_def RuneError_def)

lemma DecodeRune_valid: "valid_rune (fst (DecodeRune bs))"
proof (cases bs rule: DecodeRune.cases)
  case (2 b0 bs')
  have two: "valid_rune ((b0 - 192) * 64 + (b1 - 128))" if "194 \<le> b0" "b0 \<le> 223" "cont b1" for b1
    using that by (simp add: valid_rune_def cont_def) linarith
  have three: "valid_rune ((b0 - 224) * 4096 + (b1 - 128) * 64 + (b2 - 128))"
    if "224 \<le> b0" "b0 \<le> 239" "cont b1" "cont b2" "b0 = 237 \<longrightarrow> b1 \<le> 159" for b1 b2
  proof -
    consider "b0 \<le> 236" | "b0 = 237" | "238 \<le> b0" by linarith
    then show ?thesis using that by cases (simp_all add: valid_rune_def cont_def, linarith+)
  qed
  have four: "valid_rune ((b0 - 240) * 262144 + (b1 - 128) * 4096 + (b2 - 128) * 64 + (b3 - 128))"
    if "240 \<le> b0" "b0 \<le> 244" "cont b1" "cont b2" "cont b3" "b0 = 240 \<longrightarrow> 144 \<le> b1" "b0 = 244 \<longrightarrow> b1 \<le> 143" for b1 b2 b3
  proof -
    have "b0 = 240 \<or> 241 \<le> b0 \<and> b0 \<le> 243 \<or> b0 = 244" using that(1,2) by linarith
    then consider "b0 = 240" | "241 \<le> b0" "b0 \<le> 243" | "b0 = 244" by blast
    then show ?thesis using that by cases (simp_all add: valid_rune_def cont_def, linarith+)
  qed
  have "valid_rune b0" if "b0 < 128" using that by (simp add: valid_rune_def)
  then show ?thesis unfolding 2 using two three four by (auto split: list.split)
qed simp

lemma runes_of_bytes_valid: "r \<in> set (runes_of_bytes bs) \<Longrightarrow> valid_rune r"
proof (induction bs rule: runes_of_bytes.induct)
  case (1 bs)
  obtain x n where d: "DecodeRune bs = (x, n)" by fastforce
  have "r = x \<or> r \<in> set (runes_of_bytes (drop n bs)) \<and> bs \<noteq> []"
    using 1(2) d by (subst (asm) runes_of_bytes.simps) (auto split: if_splits)
  with 1(1) [OF _ d [symmetric]] DecodeRune_valid [of bs] d show ?case by auto
qed

lemma runes_valid: "r \<in> set (runes s) \<Longrightarrow> valid_rune r"
  unfolding runes_def by (rule runes_of_bytes_valid)

section \<open>Decoding an encoded rune\<close>

lemma of_char_bytes [simp]: "map of_char (bytes ns) = map (\<lambda>n. n mod 256 :: nat) ns"
  by (simp add: bytes_def comp_def)

lemma mod_window:
  fixes x k :: nat
  assumes "n * k \<le> x" "x < n * k + k"
  shows "x mod k = x - n * k"
proof -
  obtain y where "x = y + n * k" using assms(1) by (metis le_add_diff_inverse2)
  with assms(2) show ?thesis by simp
qed

lemma base_64: "r div 4096 * 4096 + r div 64 mod 64 * 64 + r mod 64 = (r :: nat)"
proof -
  define a b c where "a = r div 64 div 64" and "b = r div 64 mod 64" and "c = r mod 64"
  have "r div 4096 = a" unfolding a_def by (simp flip: div_mult2_eq)
  moreover have "a * 64 + b = r div 64" unfolding a_def b_def by (rule div_mult_mod_eq)
  moreover have "r div 64 * 64 + c = r" unfolding c_def by (rule div_mult_mod_eq)
  ultimately show ?thesis unfolding b_def [symmetric] c_def [symmetric] by linarith
qed

lemma base_64_four: "r div 262144 * 262144 + r div 4096 mod 64 * 4096 + r div 64 mod 64 * 64 + r mod 64 = (r :: nat)"
proof -
  define a b where "a = r div 4096 div 64" and "b = r div 4096 mod 64"
  have "r div 262144 = a" unfolding a_def by (simp flip: div_mult2_eq)
  moreover have "a * 64 + b = r div 4096" unfolding a_def b_def by (rule div_mult_mod_eq)
  ultimately show ?thesis using base_64 [of r] unfolding b_def [symmetric] by linarith
qed

lemma DecodeRune_two:
  assumes "128 \<le> r" "r < 2048"
  shows "DecodeRune ((192 + r div 64) # (128 + r mod 64) # bs) = (r, 2)"
proof -
  have "2 \<le> r div 64" "r div 64 < 32" using assms by linarith+
  then show ?thesis by (simp add: cont_def)
qed

lemma DecodeRune_three:
  assumes "2048 \<le> r" "r < 65536" "valid_rune r"
  shows "DecodeRune ((224 + r div 4096) # (128 + (r div 64) mod 64) # (128 + r mod 64) # bs) = (r, 3)"
proof -
  have a: "r div 4096 < 16" using assms by linarith
  have b: "32 \<le> (r div 64) mod 64" if "r div 4096 = 0"
  proof -
    have "r < 4096" using that by (simp add: div_eq_0_iff)
    then have "r div 64 < 64" "32 \<le> r div 64" using assms(1) by linarith+
    then show ?thesis by simp
  qed
  have c: "(r div 64) mod 64 \<le> 31" if "r div 4096 = 13"
  proof -
    have "r < 57344" using that by linarith
    then have "r < 55296" using assms(3) by (simp add: valid_rune_def)
    then have "r div 64 < 864" "832 \<le> r div 64" using that by linarith+
    then show ?thesis using mod_window [of 13 64 "r div 64"] by simp
  qed
  from a b c base_64 [of r] show ?thesis by (auto simp: cont_def)
qed

lemma DecodeRune_four:
  assumes "65536 \<le> r" "r \<le> 1114111"
  shows "DecodeRune ((240 + r div 262144) # (128 + (r div 4096) mod 64) # (128 + (r div 64) mod 64) # (128 + r mod 64) # bs) = (r, 4)"
proof -
  have a: "r div 262144 \<le> 4" using assms by linarith
  have b: "16 \<le> (r div 4096) mod 64" if "r div 262144 = 0"
  proof -
    have "r < 262144" using that by (simp add: div_eq_0_iff)
    then have "r div 4096 < 64" "16 \<le> r div 4096" using assms(1) by linarith+
    then show ?thesis by simp
  qed
  have c: "(r div 4096) mod 64 \<le> 15" if "r div 262144 = 4"
  proof -
    have "256 \<le> r div 4096" "r div 4096 < 272" using that assms(2) by linarith+
    then show ?thesis using mod_window [of 4 64 "r div 4096"] by simp
  qed
  from a b c base_64_four [of r] show ?thesis by (auto simp: cont_def)
qed

lemma mod_lower: "(128 + x mod 64) mod 256 = 128 + x mod (64 :: nat)"
  using mod_less_divisor [of 64 x] by (intro mod_less) linarith

lemma DecodeRune_EncodeRune:
  assumes "valid_rune r"
  shows "DecodeRune (map of_char (EncodeRune r) @ bs) = (r, length (EncodeRune r))"
proof -
  have v: "r \<le> 1114111" "\<not> (55296 \<le> r \<and> r \<le> 57343)" using assms by (simp_all add: valid_rune_def)
  have n: "\<not> (1114111 < r \<or> 55296 \<le> r \<and> r \<le> 57343)" using v by auto
  note e = EncodeRune_def [of r, unfolded if_not_P [OF n] Let_def]
  consider "r < 128" | "128 \<le> r" "r < 2048" | "2048 \<le> r" "r < 65536" | "65536 \<le> r" by linarith
  then show ?thesis
  proof cases
    case 1
    then show ?thesis by (simp add: e bytes_def)
  next
    case 2
    then have "(192 + r div 64) mod 256 = 192 + r div 64" by (intro mod_less) linarith
    with DecodeRune_two [OF 2, of bs] 2 show ?thesis by (simp add: e mod_lower bytes_def del: DecodeRune.simps)
  next
    case 3
    then have "(224 + r div 4096) mod 256 = 224 + r div 4096" by (intro mod_less) linarith
    with DecodeRune_three [OF 3 assms, of bs] 3 show ?thesis by (simp add: e mod_lower bytes_def del: DecodeRune.simps)
  next
    case 4
    then have "(240 + r div 262144) mod 256 = 240 + r div 262144" using v by (intro mod_less) linarith
    with DecodeRune_four [OF 4 v(1), of bs] 4 show ?thesis by (simp add: e mod_lower bytes_def del: DecodeRune.simps)
  qed
qed

text \<open>The round trip.\<close>

lemma runes_EncodeRune: "valid_rune r \<Longrightarrow> runes (EncodeRune r @ s) = r # runes s"
proof -
  assume r: "valid_rune r"
  have "EncodeRune r \<noteq> []" by (simp add: EncodeRune_def Let_def bytes_def)
  with DecodeRune_EncodeRune [OF r, of "map of_char s"] show ?thesis
    unfolding runes_def by (subst runes_of_bytes.simps) simp
qed

lemma runes_string_of_runes: "(\<And>r. r \<in> set rs \<Longrightarrow> valid_rune r) \<Longrightarrow> runes (string_of_runes rs @ s) = rs @ runes s"
  by (induction rs) (simp_all add: string_of_runes_def runes_EncodeRune)

lemma runes_ascii: "list_all is_ascii s \<Longrightarrow> length (runes s) = length s"
proof (induction s)
  case (Cons c s)
  then have "runes (c # s) = of_char c # runes s"
    unfolding runes_def by (subst runes_of_bytes.simps) (simp add: is_ascii_def)
  with Cons show ?case by simp
qed (simp add: runes_def runes_of_bytes.simps)

lemma ValidString_ascii: "list_all is_ascii s \<Longrightarrow> ValidString s"
proof (induction s)
  case (Cons c s)
  then show ?case
    unfolding ValidString_def by (subst valid_utf8_bytes.simps) (simp add: is_ascii_def RuneError_def)
qed (simp add: ValidString_def valid_utf8_bytes.simps)

text \<open>What \<^verbatim>\<open>encoding/json\<close> makes of a string: every invalid byte becomes the replacement character.\<close>

definition to_valid :: "string \<Rightarrow> string" where
  "to_valid s = string_of_runes (runes s)"

lemma runes_to_valid: "runes (to_valid s) = runes s"
  using runes_string_of_runes [of "runes s" "[]"] runes_valid by (simp add: to_valid_def runes_def runes_of_bytes.simps)

lemma to_valid_idem [simp]: "to_valid (to_valid s) = to_valid s"
  using runes_to_valid [of s] by (simp add: to_valid_def)

end
