(* ===== verification/PushFcm.thy ===== *)
theory PushFcm
  imports Attachments GoRunes GoCodec
begin

text \<open>
  Package \<^verbatim>\<open>internal/push/fcm\<close>: the sender that hands notifications to Firebase Cloud Messaging. The HTTP
  client with its credentials is a parameter: the outcome of obtaining it, and for a request an error or
  the status and the body of the response. The JSON text of the request stands for its fields, whose strings
  \<^verbatim>\<open>json.Marshal\<close> makes valid UTF-8.
\<close>

record fcmMessage =
  fm_Token :: string
  fm_Title :: string
  fm_Body :: string
  fm_Data :: "(string \<times> string) list"

type_synonym http_client = "string \<Rightarrow> fcmMessage \<Rightarrow> string + int \<times> string"

record fcm_sender =
  fc_projectID :: string
  fc_client :: http_client

definition fcm_NewSender :: "string + http_client \<Rightarrow> string \<Rightarrow> string + fcm_sender" where
  "fcm_NewSender tokenSource projectID0 =
    (let projectID = TrimSpace projectID0 in
     if projectID = [] then Inl ''fcm project id is required''
     else case tokenSource of
            Inl err \<Rightarrow> Inl err
          | Inr client \<Rightarrow> Inr \<lparr>fc_projectID = projectID, fc_client = client\<rparr>)"

definition fcm_url :: "fcm_sender \<Rightarrow> string" where
  "fcm_url s = ''https://fcm.googleapis.com/v1/projects/'' @ fc_projectID s @ ''/messages:send''"

definition fcm_request :: "string \<Rightarrow> push_Message \<Rightarrow> fcmMessage" where
  "fcm_request token msg = \<lparr>fm_Token = to_valid token, fm_Title = to_valid (pu_Title msg), fm_Body = to_valid (pu_Body msg),
     fm_Data = map (\<lambda>(k, v). (to_valid k, to_valid v)) (pu_Data msg)\<rparr>"

definition fcm_Send :: "fcm_sender \<Rightarrow> Sender" where
  "fcm_Send s msg =
    (let token = TrimSpace (pu_Token msg) in
     if token = [] then Some (ErrOther ''fcm token is required'')
     else if url_Parse (fcm_url s) = None then Some (ErrOther ''invalid request URL'')
     else case fc_client s (fcm_url s) (fcm_request token msg) of
            Inl err \<Rightarrow> Some (ErrOther err)
          | Inr (statusCode, body) \<Rightarrow>
             if 200 \<le> statusCode \<and> statusCode < 300 then None
             else Some (ErrOther (''fcm send failed: status='' @ FormatInt statusCode @ '' body='' @ TrimSpace (take 4096 body))))"

text \<open>
  A notification counts as sent exactly when it has a token and the server accepted the request for it; the
  request carries the token without surrounding space and the notification's own text.
\<close>

lemma fcm_Send_accepted:
  "fcm_Send s msg = None \<longleftrightarrow> TrimSpace (pu_Token msg) \<noteq> [] \<and> url_Parse (fcm_url s) \<noteq> None
    \<and> (\<exists>statusCode body. fc_client s (fcm_url s) (fcm_request (TrimSpace (pu_Token msg)) msg) = Inr (statusCode, body)
         \<and> 200 \<le> statusCode \<and> statusCode < 300)"
  by (auto simp: fcm_Send_def Let_def split: sum.splits)

text \<open>The body that arrives has as many characters as the one that was composed, whatever its encoding.\<close>

lemma fcm_request_body: "length (runes (fm_Body (fcm_request token msg))) = length (runes (pu_Body msg))"
  by (simp add: fcm_request_def runes_to_valid)

lemma fcm_NewSender_project: "fcm_NewSender ts p = Inr s \<Longrightarrow> fc_projectID s = TrimSpace p \<and> fc_projectID s \<noteq> []"
  by (auto simp: fcm_NewSender_def Let_def split: if_splits sum.splits)

end
