(* ===== verification/Postgres.thy ===== *)
theory Postgres
  imports RoomListing GoRunes
begin

text \<open>
  Package \<^verbatim>\<open>internal/repository/postgres\<close>: the second implementation of the repository. The state is the
  contents of the tables of \<^verbatim>\<open>migrations/001_create_chat_schema.sql\<close>, each a list of rows with the columns
  of the schema; a statement of the code is a function on the tables, with the keys, unique indexes,
  foreign keys and checks of the schema. A column that may be NULL is an option.

  The database server is a parameter, the record \<open>server\<close>: which statements it fails to execute, the text
  of its errors, how it reads a \<^verbatim>\<open>uuid\<close>, which strings a \<^verbatim>\<open>text\<close> column takes, to what precision it
  keeps a \<^verbatim>\<open>timestamptz\<close>, what a \<^verbatim>\<open>jsonb\<close> column makes of a JSON value, and how it collates text.
\<close>

section \<open>The server\<close>

datatype pg_error =
    InvalidUuid string | InvalidEnum string | InvalidText | StringTooLong | InvalidJson
  | UniqueViolation string | ForeignKeyViolation string | CheckViolation string
  | OutOfRange | NegativeLimit

record server =
  sq_fault :: "string \<Rightarrow> string option"
  sq_error :: "pg_error \<Rightarrow> string"
  sq_uuid :: "string \<Rightarrow> string option"
  sq_text :: "string \<Rightarrow> bool"
  sq_time :: "time \<Rightarrow> time"
  sq_jsonb :: "any \<Rightarrow> any option"
  sq_collate :: "string \<Rightarrow> string"

definition bindS :: "'e + 'a \<Rightarrow> ('a \<Rightarrow> 'e + 'b) \<Rightarrow> 'e + 'b" where
  "bindS x f = (case x of Inl e \<Rightarrow> Inl e | Inr y \<Rightarrow> f y)"

lemma bindS_simps [simp]: "bindS (Inl e) f = Inl e" "bindS (Inr y) f = f y"
  by (simp_all add: bindS_def)

lemma bindS_Inr: "bindS x f = Inr y \<longleftrightarrow> (\<exists>z. x = Inr z \<and> f z = Inr y)"
  by (cases x) simp_all

lemma bindS_cong [fundef_cong]: "x = x' \<Longrightarrow> (\<And>y. x' = Inr y \<Longrightarrow> f y = f' y) \<Longrightarrow> bindS x f = bindS x' f'"
  by (cases x') auto

fun traverse :: "('a \<Rightarrow> 'e + 'b) \<Rightarrow> 'a list \<Rightarrow> 'e + 'b list" where
  "traverse f [] = Inr []"
| "traverse f (x # xs) = bindS (f x) (\<lambda>y. bindS (traverse f xs) (\<lambda>ys. Inr (y # ys)))"

lemma traverse_cong [fundef_cong]: "xs = ys \<Longrightarrow> (\<And>x. x \<in> set ys \<Longrightarrow> f x = g x) \<Longrightarrow> traverse f xs = traverse g ys"
  by (induction ys arbitrary: xs) auto

text \<open>The statement \<open>name\<close> with its outcome on the tables: the server may fail to execute it at all.\<close>

definition exec :: "server \<Rightarrow> string \<Rightarrow> pg_error + 'a \<Rightarrow> string + 'a" where
  "exec srv name r =
    (case sq_fault srv name of
       Some t \<Rightarrow> Inl t
     | None \<Rightarrow> (case r of Inl e \<Rightarrow> Inl (sq_error srv e) | Inr x \<Rightarrow> Inr x))"

section \<open>Parameters of a statement\<close>

definition uuid_param :: "server \<Rightarrow> string \<Rightarrow> pg_error + string" where
  "uuid_param srv s = (case sq_uuid srv s of None \<Rightarrow> Inl (InvalidUuid s) | Some u \<Rightarrow> Inr u)"

text \<open>\<^verbatim>\<open>NULLIF($n,'')::uuid\<close>\<close>

definition uuid_or_null :: "server \<Rightarrow> string \<Rightarrow> pg_error + string option" where
  "uuid_or_null srv s = (if s = [] then Inr None else bindS (uuid_param srv s) (\<lambda>u. Inr (Some u)))"

definition text_param :: "server \<Rightarrow> string \<Rightarrow> pg_error + string" where
  "text_param srv s = (if sq_text srv s then Inr s else Inl InvalidText)"

definition varchar_param :: "nat \<Rightarrow> server \<Rightarrow> string \<Rightarrow> pg_error + string" where
  "varchar_param n srv s = bindS (text_param srv s) (\<lambda>s. if n < length (runes s) then Inl StringTooLong else Inr s)"

fun room_type_param :: "RoomType \<Rightarrow> pg_error + RoomType" where
  "room_type_param (RoomTypeOther s) = Inl (InvalidEnum s)"
| "room_type_param t = Inr t"

fun role_param :: "MemberRole \<Rightarrow> pg_error + MemberRole" where
  "role_param (MemberRoleOther s) = Inl (InvalidEnum s)"
| "role_param r = Inr r"

fun status_param :: "MemberStatus \<Rightarrow> pg_error + MemberStatus" where
  "status_param (MemberStatusOther s) = Inl (InvalidEnum s)"
| "status_param st = Inr st"

fun message_type_param :: "MessageType \<Rightarrow> pg_error + MessageType" where
  "message_type_param (MessageTypeOther s) = Inl (InvalidEnum s)"
| "message_type_param t = Inr t"

fun platform_param :: "DevicePlatform \<Rightarrow> pg_error + DevicePlatform" where
  "platform_param (DevicePlatformOther s) = Inl (CheckViolation s)"
| "platform_param p = Inr p"

text \<open>
  \<^verbatim>\<open>json.Marshal\<close>, up to the syntax: text becomes valid UTF-8, a number that is not finite is an error.
\<close>

definition unsupported :: "64 word \<Rightarrow> string option" where
  "unsupported w =
    (if drop_bit 52 (take_bit 63 w) \<noteq> 2047 then None
     else if take_bit 52 w \<noteq> 0 then Some ''json: unsupported value: NaN''
     else if bit w 63 then Some ''json: unsupported value: -Inf''
     else Some ''json: unsupported value: +Inf'')"

fun json_Marshal :: "any \<Rightarrow> string + any" where
  "json_Marshal ANil = Inr ANil"
| "json_Marshal (ABool b) = Inr (ABool b)"
| "json_Marshal (ANumber w) = (case unsupported w of Some t \<Rightarrow> Inl t | None \<Rightarrow> Inr (ANumber w))"
| "json_Marshal (AString s) = Inr (AString (to_valid s))"
| "json_Marshal (AList xs) = bindS (traverse json_Marshal xs) (\<lambda>ys. Inr (AList ys))"
| "json_Marshal (AStruct kvs) =
    bindS (traverse (\<lambda>kv. bindS (json_Marshal (snd kv)) (\<lambda>v. Inr (to_valid (fst kv), v))) kvs) (\<lambda>ys. Inr (AStruct ys))"

fun metadata_value :: "metadata \<Rightarrow> any" where
  "metadata_value None = ANil"
| "metadata_value (Some m) = AStruct m"

definition jsonb_param :: "server \<Rightarrow> any \<Rightarrow> pg_error + any" where
  "jsonb_param srv v = (case sq_jsonb srv v of None \<Rightarrow> Inl InvalidJson | Some v' \<Rightarrow> Inr v')"

text \<open>\<^verbatim>\<open>json.Unmarshal\<close> into the metadata, errors ignored.\<close>

fun read_metadata :: "any option \<Rightarrow> metadata" where
  "read_metadata (Some (AStruct m)) = Some m"
| "read_metadata _ = None"

definition extractMetadataString :: "metadata \<Rightarrow> string \<Rightarrow> string" where
  "extractMetadataString metadata key =
    (case metadata of
       None \<Rightarrow> []
     | Some m \<Rightarrow> (case map_of m key of Some (AString s) \<Rightarrow> TrimSpace s | _ \<Rightarrow> []))"

fun Contains :: "string \<Rightarrow> string \<Rightarrow> bool" where
  "Contains [] sub = HasPrefix [] sub"
| "Contains (c # s) sub = (HasPrefix (c # s) sub \<or> Contains s sub)"

definition isUniqueViolation :: "string \<Rightarrow> bool" where
  "isUniqueViolation err \<longleftrightarrow> Contains (ToLower err) ''duplicate'' \<or> Contains err ''23505''"

section \<open>The tables\<close>

record room_row =
  rr_id :: string
  rr_room_type :: RoomType
  rr_title :: string
  rr_linked_board_id :: "string option"
  rr_owner_user_id :: string
  rr_is_active :: bool
  rr_deleted_at :: "time option"
  rr_created_at :: time
  rr_updated_at :: time

record member_row =
  mr_id :: string
  mr_room_id :: string
  mr_user_id :: string
  mr_role :: MemberRole
  mr_status :: MemberStatus
  mr_joined_at :: time
  mr_left_at :: "time option"
  mr_removed_at :: "time option"
  mr_removed_by_user_id :: "string option"
  mr_last_read_sequence_no :: "int option"
  mr_last_read_at :: "time option"
  mr_created_at :: time
  mr_updated_at :: time

record message_row =
  gr_id :: string
  gr_room_id :: string
  gr_sender_user_id :: string
  gr_message_type :: MessageType
  gr_sequence_no :: int
  gr_content :: "string option"
  gr_image_url :: "string option"
  gr_metadata_json :: "any option"
  gr_is_deleted :: bool
  gr_deleted_at :: "time option"
  gr_deleted_by_user_id :: "string option"
  gr_created_at :: time
  gr_updated_at :: time

record device_row =
  vr_user_id :: string
  vr_device_id :: string
  vr_token :: string
  vr_platform :: DevicePlatform
  vr_is_active :: bool
  vr_created_at :: time
  vr_updated_at :: time
  vr_last_seen_at :: time
  vr_unregistered_at :: "time option"

record Database =
  chat_rooms :: "room_row list"
  chat_room_members :: "member_row list"
  chat_messages :: "message_row list"
  chat_device_tokens :: "device_row list"

definition coalesce :: "'a \<Rightarrow> 'a option \<Rightarrow> 'a" where
  "coalesce x v = (case v of None \<Rightarrow> x | Some y \<Rightarrow> y)"

text \<open>\<^verbatim>\<open>BeginTx\<close>, the body, \<^verbatim>\<open>Rollback\<close> or \<^verbatim>\<open>Commit\<close>.\<close>

definition pg_WithTx :: "server \<Rightarrow> (Database \<Rightarrow> (error + 'a) \<times> Database) \<Rightarrow> Database \<Rightarrow> (error + 'a) \<times> Database" where
  "pg_WithTx srv fn d =
    (case sq_fault srv ''BEGIN'' of
       Some t \<Rightarrow> (Inl (ErrOther t), d)
     | None \<Rightarrow>
        (case fn d of
           (Inl e, _) \<Rightarrow> (Inl e, d)
         | (Inr x, d') \<Rightarrow>
            (case sq_fault srv ''COMMIT'' of
               Some t \<Rightarrow> (Inl (ErrOther t), d)
             | None \<Rightarrow> (Inr x, d'))))"

section \<open>Rooms\<close>

definition scan_room :: "room_row \<Rightarrow> ChatRoom" where
  "scan_room r = \<lparr>rm_ID = rr_id r, rm_RoomType = rr_room_type r, rm_Title = rr_title r,
     rm_LinkedBoardID = coalesce [] (rr_linked_board_id r), rm_OwnerUserID = rr_owner_user_id r,
     rm_IsActive = rr_is_active r, rm_CreatedAt = rr_created_at r, rm_UpdatedAt = rr_updated_at r,
     rm_DeletedAt = rr_deleted_at r\<rparr>"

definition room_values :: "server \<Rightarrow> ChatRoom \<Rightarrow> pg_error + room_row" where
  "room_values srv room =
    bindS (uuid_param srv (rm_ID room)) (\<lambda>i.
    bindS (room_type_param (rm_RoomType room)) (\<lambda>rt.
    bindS (varchar_param 120 srv (rm_Title room)) (\<lambda>title.
    bindS (uuid_or_null srv (rm_LinkedBoardID room)) (\<lambda>b.
    bindS (uuid_param srv (rm_OwnerUserID room)) (\<lambda>owner.
    Inr \<lparr>rr_id = i, rr_room_type = rt, rr_title = title, rr_linked_board_id = b, rr_owner_user_id = owner,
         rr_is_active = rm_IsActive room, rr_deleted_at = map_option (sq_time srv) (rm_DeletedAt room),
         rr_created_at = sq_time srv (rm_CreatedAt room), rr_updated_at = sq_time srv (rm_UpdatedAt room)\<rparr>)))))"

text \<open>The partial unique index \<^verbatim>\<open>chat_rooms_board_active_unique_idx\<close>; NULLs never conflict.\<close>

definition in_board_index :: "room_row \<Rightarrow> bool" where
  "in_board_index r \<longleftrightarrow> rr_room_type r = RoomTypeBoardLinkedGroup \<and> rr_is_active r \<and> rr_deleted_at r = None"

definition board_conflict :: "room_row \<Rightarrow> room_row \<Rightarrow> bool" where
  "board_conflict r r' \<longleftrightarrow> in_board_index r \<and> in_board_index r' \<and> rr_linked_board_id r \<noteq> None
     \<and> rr_linked_board_id r = rr_linked_board_id r'"

definition insert_room :: "Database \<Rightarrow> room_row \<Rightarrow> pg_error + Database" where
  "insert_room d row =
    (if list_ex (\<lambda>r. rr_id r = rr_id row) (chat_rooms d) then Inl (UniqueViolation ''chat_rooms_pkey'')
     else if list_ex (board_conflict row) (chat_rooms d) then Inl (UniqueViolation ''chat_rooms_board_active_unique_idx'')
     else Inr (d\<lparr>chat_rooms := chat_rooms d @ [row]\<rparr>))"

definition pg_CreateRoom :: "server \<Rightarrow> Database \<Rightarrow> ChatRoom \<Rightarrow> (error + unit) \<times> Database" where
  "pg_CreateRoom srv d room =
    (case exec srv ''INSERT chat_rooms'' (bindS (room_values srv room) (insert_room d)) of
       Inl t \<Rightarrow> (Inl (if isUniqueViolation t then ErrAlreadyExists else ErrOther t), d)
     | Inr d' \<Rightarrow> (Inr (), d'))"

text \<open>\<^verbatim>\<open>QueryRow\<close> and \<^verbatim>\<open>Scan\<close>: the first row, \<^verbatim>\<open>sql.ErrNoRows\<close>, or another error.\<close>

definition query_row :: "server \<Rightarrow> string \<Rightarrow> ('r \<Rightarrow> 'a) \<Rightarrow> pg_error + 'r option \<Rightarrow> error + 'a" where
  "query_row srv name scan r =
    (case exec srv name r of
       Inl t \<Rightarrow> Inl (ErrOther t)
     | Inr None \<Rightarrow> Inl ErrNotFound
     | Inr (Some row) \<Rightarrow> Inr (scan row))"

definition pg_GetRoom :: "server \<Rightarrow> Database \<Rightarrow> string \<Rightarrow> error + ChatRoom" where
  "pg_GetRoom srv d roomID =
    query_row srv ''SELECT chat_rooms'' scan_room
      (bindS (uuid_param srv roomID) (\<lambda>i. Inr (find (\<lambda>r. rr_id r = i) (chat_rooms d))))"

definition pg_GetActiveBoardLinkedRoom :: "server \<Rightarrow> Database \<Rightarrow> string \<Rightarrow> error + ChatRoom" where
  "pg_GetActiveBoardLinkedRoom srv d boardID =
    query_row srv ''SELECT board chat_rooms'' scan_room
      (bindS (uuid_param srv boardID) (\<lambda>b. Inr (find (\<lambda>r. rr_room_type r = RoomTypeBoardLinkedGroup
         \<and> rr_linked_board_id r = Some b \<and> rr_is_active r \<and> rr_deleted_at r = None) (chat_rooms d))))"

text \<open>An UPDATE gives the new tables and the number of rows it affected; none is \<^verbatim>\<open>ErrNotFound\<close>.\<close>

definition updated :: "server \<Rightarrow> string \<Rightarrow> Database \<Rightarrow> pg_error + (Database \<times> nat) \<Rightarrow> (error + unit) \<times> Database" where
  "updated srv name d r =
    (case exec srv name r of
       Inl t \<Rightarrow> (Inl (ErrOther t), d)
     | Inr (d', n) \<Rightarrow> (if n = 0 then Inl ErrNotFound else Inr (), d'))"

definition update_room :: "Database \<Rightarrow> room_row \<Rightarrow> pg_error + (Database \<times> nat)" where
  "update_room d v =
    (let hit = (\<lambda>r. rr_id r = rr_id v)
     in if list_ex hit (chat_rooms d) \<and> list_ex (\<lambda>r. \<not> hit r \<and> board_conflict v r) (chat_rooms d)
        then Inl (UniqueViolation ''chat_rooms_board_active_unique_idx'')
        else Inr (d\<lparr>chat_rooms := map (\<lambda>r. if hit r then v\<lparr>rr_created_at := rr_created_at r\<rparr> else r) (chat_rooms d)\<rparr>,
                  length (filter hit (chat_rooms d))))"

definition pg_UpdateRoom :: "server \<Rightarrow> Database \<Rightarrow> ChatRoom \<Rightarrow> (error + unit) \<times> Database" where
  "pg_UpdateRoom srv d room = updated srv ''UPDATE chat_rooms'' d (bindS (room_values srv room) (update_room d))"

section \<open>Members\<close>

definition scan_member :: "member_row \<Rightarrow> ChatRoomMember" where
  "scan_member r = \<lparr>mb_ID = mr_id r, mb_RoomID = mr_room_id r, mb_UserID = mr_user_id r, mb_Role = mr_role r,
     mb_Status = mr_status r, mb_JoinedAt = mr_joined_at r, mb_LeftAt = mr_left_at r, mb_RemovedAt = mr_removed_at r,
     mb_RemovedByUserID = coalesce [] (mr_removed_by_user_id r),
     mb_LastReadSequenceNo = coalesce 0 (mr_last_read_sequence_no r), mb_LastReadAt = mr_last_read_at r,
     mb_CreatedAt = mr_created_at r, mb_UpdatedAt = mr_updated_at r\<rparr>"

text \<open>The columns that the INSERT and the UPDATE of a member share.\<close>

definition member_values :: "server \<Rightarrow> string \<Rightarrow> ChatRoomMember \<Rightarrow> pg_error + member_row" where
  "member_values srv i m =
    bindS (uuid_param srv (mb_RoomID m)) (\<lambda>room.
    bindS (uuid_param srv (mb_UserID m)) (\<lambda>user.
    bindS (role_param (mb_Role m)) (\<lambda>role.
    bindS (status_param (mb_Status m)) (\<lambda>st.
    bindS (uuid_or_null srv (mb_RemovedByUserID m)) (\<lambda>by.
    Inr \<lparr>mr_id = i, mr_room_id = room, mr_user_id = user, mr_role = role, mr_status = st,
         mr_joined_at = sq_time srv (mb_JoinedAt m), mr_left_at = map_option (sq_time srv) (mb_LeftAt m),
         mr_removed_at = map_option (sq_time srv) (mb_RemovedAt m), mr_removed_by_user_id = by,
         mr_last_read_sequence_no = Some (mb_LastReadSequenceNo m),
         mr_last_read_at = map_option (sq_time srv) (mb_LastReadAt m),
         mr_created_at = sq_time srv (mb_CreatedAt m), mr_updated_at = sq_time srv (mb_UpdatedAt m)\<rparr>)))))"

definition same_member :: "member_row \<Rightarrow> member_row \<Rightarrow> bool" where
  "same_member r r' \<longleftrightarrow> mr_room_id r = mr_room_id r' \<and> mr_user_id r = mr_user_id r'"

definition insert_member :: "Database \<Rightarrow> member_row \<Rightarrow> pg_error + Database" where
  "insert_member d row =
    (if list_ex (\<lambda>r. mr_id r = mr_id row) (chat_room_members d) then Inl (UniqueViolation ''chat_room_members_pkey'')
     else if list_ex (same_member row) (chat_room_members d) then Inl (UniqueViolation ''chat_room_members_room_user_unique_idx'')
     else if \<not> list_ex (\<lambda>r. rr_id r = mr_room_id row) (chat_rooms d) then Inl (ForeignKeyViolation ''chat_room_members_room_fk'')
     else Inr (d\<lparr>chat_room_members := chat_room_members d @ [row]\<rparr>))"

definition pg_CreateMember :: "server \<Rightarrow> Database \<Rightarrow> ChatRoomMember \<Rightarrow> (error + unit) \<times> Database" where
  "pg_CreateMember srv d m =
    (case exec srv ''INSERT chat_room_members''
            (bindS (uuid_param srv (mb_ID m)) (\<lambda>i. bindS (member_values srv i m) (insert_member d))) of
       Inl t \<Rightarrow> (Inl (if isUniqueViolation t then ErrAlreadyExists else ErrOther t), d)
     | Inr d' \<Rightarrow> (Inr (), d'))"

definition pg_GetMember :: "server \<Rightarrow> Database \<Rightarrow> string \<Rightarrow> string \<Rightarrow> error + ChatRoomMember" where
  "pg_GetMember srv d roomID userID =
    query_row srv ''SELECT chat_room_members'' scan_member
      (bindS (uuid_param srv roomID) (\<lambda>rid. bindS (uuid_param srv userID) (\<lambda>u.
         Inr (find (\<lambda>r. mr_room_id r = rid \<and> mr_user_id r = u) (chat_room_members d)))))"

definition update_member :: "Database \<Rightarrow> member_row \<Rightarrow> pg_error + (Database \<times> nat)" where
  "update_member d v =
    Inr (d\<lparr>chat_room_members := map (\<lambda>r. if same_member v r then v\<lparr>mr_id := mr_id r, mr_created_at := mr_created_at r\<rparr> else r)
                                  (chat_room_members d)\<rparr>,
         length (filter (same_member v) (chat_room_members d)))"

definition pg_UpdateMember :: "server \<Rightarrow> Database \<Rightarrow> ChatRoomMember \<Rightarrow> (error + unit) \<times> Database" where
  "pg_UpdateMember srv d m = updated srv ''UPDATE chat_room_members'' d (bindS (member_values srv [] m) (update_member d))"

text \<open>\<^verbatim>\<open>Query\<close> and the loop over \<^verbatim>\<open>rows.Next\<close>.\<close>

definition query_rows :: "server \<Rightarrow> string \<Rightarrow> ('r \<Rightarrow> 'a) \<Rightarrow> pg_error + 'r list \<Rightarrow> error + 'a list" where
  "query_rows srv name scan r =
    (case exec srv name r of Inl t \<Rightarrow> Inl (ErrOther t) | Inr rows \<Rightarrow> Inr (map scan rows))"

definition pg_ListActiveMembersByJoinOrder :: "server \<Rightarrow> Database \<Rightarrow> string \<Rightarrow> error + ChatRoomMember list" where
  "pg_ListActiveMembersByJoinOrder srv d roomID =
    query_rows srv ''SELECT active chat_room_members'' scan_member
      (bindS (uuid_param srv roomID) (\<lambda>rid.
         Inr (sort_key (\<lambda>r. (mr_joined_at r, mr_id r))
           (filter (\<lambda>r. mr_room_id r = rid \<and> mr_status r = MemberStatusActive) (chat_room_members d)))))"

section \<open>Messages\<close>

definition scan_message :: "message_row \<Rightarrow> ChatMessage" where
  "scan_message r =
    (let md = read_metadata (gr_metadata_json r)
     in \<lparr>mg_ID = gr_id r, mg_RoomID = gr_room_id r, mg_SenderUserID = gr_sender_user_id r,
         mg_MessageType = gr_message_type r, mg_SequenceNo = gr_sequence_no r,
         mg_Content = coalesce [] (gr_content r), mg_ImageURL = coalesce [] (gr_image_url r),
         mg_FileURL = extractMetadataString md ''file_url'', mg_Metadata = md,
         mg_IsDeleted = gr_is_deleted r, mg_DeletedAt = gr_deleted_at r,
         mg_DeletedByUserID = coalesce [] (gr_deleted_by_user_id r),
         mg_CreatedAt = gr_created_at r, mg_UpdatedAt = gr_updated_at r\<rparr>)"

definition max_sequence_no :: "Database \<Rightarrow> string \<Rightarrow> int option" where
  "max_sequence_no d rid =
    (case filter (\<lambda>r. gr_room_id r = rid) (chat_messages d) of
       [] \<Rightarrow> None
     | rs \<Rightarrow> Some (Max (set (map gr_sequence_no rs))))"

text \<open>\<^verbatim>\<open>COALESCE((SELECT MAX(sequence_no) + 1 ...), 1)\<close> as a \<^verbatim>\<open>bigint\<close>.\<close>

definition next_sequence_no :: "Database \<Rightarrow> string \<Rightarrow> pg_error + int" where
  "next_sequence_no d rid =
    (case max_sequence_no d rid of
       None \<Rightarrow> Inr 1
     | Some n \<Rightarrow> if int64_range (n + 1) then Inr (n + 1) else Inl OutOfRange)"

definition message_values :: "server \<Rightarrow> Database \<Rightarrow> any \<Rightarrow> ChatMessage \<Rightarrow> pg_error + message_row" where
  "message_values srv d meta msg =
    bindS (uuid_param srv (mg_ID msg)) (\<lambda>i.
    bindS (uuid_param srv (mg_RoomID msg)) (\<lambda>rid.
    bindS (uuid_param srv (mg_SenderUserID msg)) (\<lambda>sender.
    bindS (message_type_param (mg_MessageType msg)) (\<lambda>mt.
    bindS (text_param srv (mg_Content msg)) (\<lambda>content.
    bindS (text_param srv (mg_ImageURL msg)) (\<lambda>img.
    bindS (jsonb_param srv meta) (\<lambda>js.
    bindS (next_sequence_no d rid) (\<lambda>n.
    Inr \<lparr>gr_id = i, gr_room_id = rid, gr_sender_user_id = sender, gr_message_type = mt, gr_sequence_no = n,
         gr_content = Some content, gr_image_url = Some img, gr_metadata_json = Some js, gr_is_deleted = False,
         gr_deleted_at = None, gr_deleted_by_user_id = None, gr_created_at = sq_time srv (mg_CreatedAt msg),
         gr_updated_at = sq_time srv (mg_UpdatedAt msg)\<rparr>))))))))"

text \<open>\<^verbatim>\<open>INSERT ... SELECT ... WHERE EXISTS ... RETURNING sequence_no\<close>: no row when the room does not exist.\<close>

definition insert_message :: "Database \<Rightarrow> message_row \<Rightarrow> pg_error + (Database \<times> int) option" where
  "insert_message d row =
    (if \<not> list_ex (\<lambda>r. rr_id r = gr_room_id row) (chat_rooms d) then Inr None
     else if list_ex (\<lambda>r. gr_id r = gr_id row) (chat_messages d) then Inl (UniqueViolation ''chat_messages_pkey'')
     else if list_ex (\<lambda>r. gr_room_id r = gr_room_id row \<and> gr_sequence_no r = gr_sequence_no row) (chat_messages d)
     then Inl (UniqueViolation ''chat_messages_room_sequence_unique_idx'')
     else Inr (Some (d\<lparr>chat_messages := chat_messages d @ [row]\<rparr>, gr_sequence_no row)))"

definition pg_CreateMessageWithNextSequence :: "server \<Rightarrow> Database \<Rightarrow> ChatMessage \<Rightarrow> (error + ChatMessage) \<times> Database" where
  "pg_CreateMessageWithNextSequence srv d msg =
    (case json_Marshal (metadata_value (mg_Metadata msg)) of
       Inl t \<Rightarrow> (Inl (ErrOther t), d)
     | Inr meta \<Rightarrow>
        (case exec srv ''SELECT pg_advisory_xact_lock'' (text_param srv (mg_RoomID msg)) of
           Inl t \<Rightarrow> (Inl (ErrOther t), d)
         | Inr _ \<Rightarrow>
            (case exec srv ''INSERT chat_messages'' (bindS (message_values srv d meta msg) (insert_message d)) of
               Inl t \<Rightarrow> (Inl (ErrOther t), d)
             | Inr None \<Rightarrow> (Inl ErrNotFound, d)
             | Inr (Some (d', n)) \<Rightarrow> (Inr (msg\<lparr>mg_SequenceNo := n\<rparr>), d'))))"

text \<open>Outside a transaction the store opens one of its own.\<close>

definition store_CreateMessageWithNextSequence :: "server \<Rightarrow> Database \<Rightarrow> ChatMessage \<Rightarrow> (error + ChatMessage) \<times> Database" where
  "store_CreateMessageWithNextSequence srv d msg = pg_WithTx srv (\<lambda>d. pg_CreateMessageWithNextSequence srv d msg) d"

definition pg_GetMessage :: "server \<Rightarrow> Database \<Rightarrow> string \<Rightarrow> string \<Rightarrow> error + ChatMessage" where
  "pg_GetMessage srv d roomID messageID =
    query_row srv ''SELECT chat_messages'' scan_message
      (bindS (uuid_param srv roomID) (\<lambda>rid. bindS (uuid_param srv messageID) (\<lambda>i.
         Inr (find (\<lambda>r. gr_room_id r = rid \<and> gr_id r = i) (chat_messages d)))))"

text \<open>The columns that the UPDATE does not set are taken from the row it finds.\<close>

definition message_update_values :: "server \<Rightarrow> any \<Rightarrow> ChatMessage \<Rightarrow> pg_error + message_row" where
  "message_update_values srv meta m =
    bindS (uuid_param srv (mg_RoomID m)) (\<lambda>rid.
    bindS (uuid_param srv (mg_ID m)) (\<lambda>i.
    bindS (text_param srv (mg_Content m)) (\<lambda>content.
    bindS (text_param srv (mg_ImageURL m)) (\<lambda>img.
    bindS (jsonb_param srv meta) (\<lambda>js.
    bindS (uuid_or_null srv (mg_DeletedByUserID m)) (\<lambda>by.
    Inr \<lparr>gr_id = i, gr_room_id = rid, gr_sender_user_id = mg_SenderUserID m, gr_message_type = mg_MessageType m,
         gr_sequence_no = mg_SequenceNo m, gr_content = Some content, gr_image_url = Some img,
         gr_metadata_json = Some js, gr_is_deleted = mg_IsDeleted m,
         gr_deleted_at = map_option (sq_time srv) (mg_DeletedAt m), gr_deleted_by_user_id = by,
         gr_created_at = mg_CreatedAt m, gr_updated_at = sq_time srv (mg_UpdatedAt m)\<rparr>))))))"

definition update_message :: "Database \<Rightarrow> message_row \<Rightarrow> pg_error + (Database \<times> nat)" where
  "update_message d v =
    (let hit = (\<lambda>r. gr_room_id r = gr_room_id v \<and> gr_id r = gr_id v)
     in Inr (d\<lparr>chat_messages := map (\<lambda>r. if hit r
                 then v\<lparr>gr_sender_user_id := gr_sender_user_id r, gr_message_type := gr_message_type r,
                        gr_sequence_no := gr_sequence_no r, gr_created_at := gr_created_at r\<rparr>
                 else r) (chat_messages d)\<rparr>,
             length (filter hit (chat_messages d))))"

definition pg_UpdateMessage :: "server \<Rightarrow> Database \<Rightarrow> ChatMessage \<Rightarrow> (error + unit) \<times> Database" where
  "pg_UpdateMessage srv d m =
    (case json_Marshal (metadata_value (mg_Metadata m)) of
       Inl t \<Rightarrow> (Inl (ErrOther t), d)
     | Inr meta \<Rightarrow> updated srv ''UPDATE chat_messages'' d
          (bindS (message_update_values srv meta m) (update_message d)))"

definition pg_ListMessagesBefore :: "server \<Rightarrow> Database \<Rightarrow> string \<Rightarrow> int \<Rightarrow> int \<Rightarrow> error + (ChatMessage list \<times> int)" where
  "pg_ListMessagesBefore srv d roomID beforeSequence limit0 =
    (let limit = (if limit0 \<le> 0 then 50 else limit0) in
     case query_rows srv ''SELECT older chat_messages'' scan_message
            (bindS (uuid_param srv roomID) (\<lambda>rid.
               Inr (take (nat limit) (sort_key (\<lambda>r. - gr_sequence_no r)
                 (filter (\<lambda>r. gr_room_id r = rid \<and> (0 < beforeSequence \<longrightarrow> gr_sequence_no r < beforeSequence))
                    (chat_messages d)))))) of
       Inl e \<Rightarrow> Inl e
     | Inr out \<Rightarrow> Inr (out, if int (length out) < limit then 0 else mg_SequenceNo (last out)))"

definition pg_ListMessagesAfter :: "server \<Rightarrow> Database \<Rightarrow> string \<Rightarrow> int \<Rightarrow> int \<Rightarrow> error + ChatMessage list" where
  "pg_ListMessagesAfter srv d roomID afterSequence limit0 =
    (let limit = (if limit0 \<le> 0 then 100 else limit0) in
     query_rows srv ''SELECT newer chat_messages'' scan_message
       (bindS (uuid_param srv roomID) (\<lambda>rid.
          Inr (take (nat limit) (sort_key gr_sequence_no
            (filter (\<lambda>r. gr_room_id r = rid \<and> afterSequence < gr_sequence_no r) (chat_messages d)))))))"

section \<open>Device tokens\<close>

definition scan_device :: "device_row \<Rightarrow> DeviceToken" where
  "scan_device r = \<lparr>dt_UserID = vr_user_id r, dt_DeviceID = vr_device_id r, dt_Token = vr_token r,
     dt_Platform = vr_platform r, dt_IsActive = vr_is_active r, dt_CreatedAt = vr_created_at r,
     dt_UpdatedAt = vr_updated_at r, dt_LastSeenAt = vr_last_seen_at r, dt_UnregisteredAt = vr_unregistered_at r\<rparr>"

text \<open>The first statement of \<^verbatim>\<open>UpsertDeviceToken\<close> takes the token away from every other device.\<close>

definition release_rows :: "server \<Rightarrow> Database \<Rightarrow> DeviceToken \<Rightarrow> pg_error + Database" where
  "release_rows srv d token =
    bindS (text_param srv (dt_Token token)) (\<lambda>tok.
    bindS (uuid_param srv (dt_UserID token)) (\<lambda>u.
    bindS (text_param srv (dt_DeviceID token)) (\<lambda>dev.
    Inr (d\<lparr>chat_device_tokens := map (\<lambda>r.
           if vr_token r = tok \<and> (vr_user_id r \<noteq> u \<or> vr_device_id r \<noteq> dev)
           then r\<lparr>vr_is_active := False, vr_updated_at := sq_time srv (dt_UpdatedAt token),
                  vr_unregistered_at := Some (sq_time srv (dt_UpdatedAt token))\<rparr>
           else r) (chat_device_tokens d)\<rparr>))))"

definition device_values :: "server \<Rightarrow> DeviceToken \<Rightarrow> pg_error + device_row" where
  "device_values srv token =
    bindS (uuid_param srv (dt_UserID token)) (\<lambda>u.
    bindS (text_param srv (dt_DeviceID token)) (\<lambda>dev.
    bindS (text_param srv (dt_Token token)) (\<lambda>tok.
    bindS (platform_param (dt_Platform token)) (\<lambda>p.
    Inr \<lparr>vr_user_id = u, vr_device_id = dev, vr_token = tok, vr_platform = p, vr_is_active = True,
         vr_created_at = sq_time srv (dt_CreatedAt token), vr_updated_at = sq_time srv (dt_UpdatedAt token),
         vr_last_seen_at = sq_time srv (dt_LastSeenAt token), vr_unregistered_at = None\<rparr>))))"

definition same_device :: "device_row \<Rightarrow> device_row \<Rightarrow> bool" where
  "same_device r r' \<longleftrightarrow> vr_user_id r = vr_user_id r' \<and> vr_device_id r = vr_device_id r'"

text \<open>\<^verbatim>\<open>INSERT ... ON CONFLICT (user_id, device_id) DO UPDATE ... RETURNING\<close>\<close>

definition upsert_device :: "Database \<Rightarrow> device_row \<Rightarrow> Database \<times> device_row" where
  "upsert_device d row =
    (case find (same_device row) (chat_device_tokens d) of
       None \<Rightarrow> (d\<lparr>chat_device_tokens := chat_device_tokens d @ [row]\<rparr>, row)
     | Some old \<Rightarrow>
        (let new = row\<lparr>vr_created_at := vr_created_at old\<rparr>
         in (d\<lparr>chat_device_tokens := map (\<lambda>r. if same_device row r then new else r) (chat_device_tokens d)\<rparr>, new)))"

definition pg_UpsertDeviceToken :: "server \<Rightarrow> Database \<Rightarrow> DeviceToken \<Rightarrow> (error + DeviceToken) \<times> Database" where
  "pg_UpsertDeviceToken srv d token =
    (case exec srv ''UPDATE chat_device_tokens'' (release_rows srv d token) of
       Inl t \<Rightarrow> (Inl (ErrOther t), d)
     | Inr d1 \<Rightarrow>
        (case exec srv ''INSERT chat_device_tokens'' (bindS (device_values srv token) (\<lambda>row. Inr (upsert_device d1 row))) of
           Inl t \<Rightarrow> (Inl (ErrOther t), d1)
         | Inr (d2, row) \<Rightarrow> (Inr (scan_device row), d2)))"

definition pg_DeactivateDeviceToken :: "server \<Rightarrow> Database \<Rightarrow> string \<Rightarrow> string \<Rightarrow> time \<Rightarrow> (error + unit) \<times> Database" where
  "pg_DeactivateDeviceToken srv d userID deviceID now =
    (case exec srv ''UPDATE one chat_device_tokens''
            (bindS (uuid_param srv userID) (\<lambda>u. bindS (text_param srv deviceID) (\<lambda>dev.
               Inr (d\<lparr>chat_device_tokens := map (\<lambda>r.
                 if vr_user_id r = u \<and> vr_device_id r = dev
                 then r\<lparr>vr_is_active := False, vr_updated_at := sq_time srv now, vr_unregistered_at := Some (sq_time srv now)\<rparr>
                 else r) (chat_device_tokens d)\<rparr>)))) of
       Inl t \<Rightarrow> (Inl (ErrOther t), d)
     | Inr d' \<Rightarrow> (Inr (), d'))"

text \<open>Text is ordered by the collation and then by its bytes.\<close>

definition text_key :: "server \<Rightarrow> string \<Rightarrow> string \<times> string" where
  "text_key srv s = (sq_collate srv s, s)"

definition pg_ListActiveDeviceTokensByUserIDs :: "server \<Rightarrow> Database \<Rightarrow> string list \<Rightarrow> error + DeviceToken list" where
  "pg_ListActiveDeviceTokensByUserIDs srv d userIDs =
    (if userIDs = [] then Inr []
     else query_rows srv ''SELECT chat_device_tokens'' scan_device
       (bindS (traverse (uuid_param srv) userIDs) (\<lambda>us.
          Inr (sort_key (\<lambda>r. (vr_user_id r, text_key srv (vr_device_id r)))
            (filter (\<lambda>r. vr_is_active r \<and> vr_token r \<noteq> [] \<and> vr_user_id r \<in> set us) (chat_device_tokens d))))))"

section \<open>The rooms of a user\<close>

definition encodeRoomToken :: "time \<Rightarrow> string \<Rightarrow> string" where
  "encodeRoomToken updatedAt roomID = FormatInt (wrap64 updatedAt) @ CHR ''|'' # roomID"

definition decodeRoomToken :: "string \<Rightarrow> (time \<times> string) option" where
  "decodeRoomToken token =
    (if token = [] then None
     else case Split (CHR ''|'') token of
            [a, b] \<Rightarrow> (case Atoi a of None \<Rightarrow> None | Some ns \<Rightarrow> Some (ns, b))
          | _ \<Rightarrow> None)"

text \<open>The last message of the room, as the lateral join and the scan produce it.\<close>

definition last_message :: "Database \<Rightarrow> string \<Rightarrow> ChatMessage option" where
  "last_message d rid =
    (case sort_key (\<lambda>r. - gr_sequence_no r) (filter (\<lambda>r. gr_room_id r = rid) (chat_messages d)) of
       [] \<Rightarrow> None
     | r # _ \<Rightarrow>
        (let m = scan_message r
         in Some (if mg_IsDeleted m then m\<lparr>mg_Content := [], mg_ImageURL := [], mg_Metadata := None\<rparr> else m)))"

definition unread_count :: "Database \<Rightarrow> member_row \<Rightarrow> int" where
  "unread_count d mem =
    int (length (filter (\<lambda>m. gr_room_id m = mr_room_id mem \<and> coalesce 0 (mr_last_read_sequence_no mem) < gr_sequence_no m
       \<and> gr_sender_user_id m \<noteq> mr_user_id mem) (chat_messages d)))"

text \<open>The join of the memberships with the rooms, before ordering: pairs of rows.\<close>

definition joined_rooms :: "Database \<Rightarrow> string \<Rightarrow> (member_row \<times> room_row) list" where
  "joined_rooms d u =
    filter (\<lambda>(mem, r). rr_id r = mr_room_id mem \<and> mr_user_id mem = u \<and> mr_status mem = MemberStatusActive
         \<and> rr_is_active r \<and> rr_deleted_at r = None)
      (List.product (chat_room_members d) (chat_rooms d))"

definition after_token :: "server \<Rightarrow> (time \<times> string) option \<Rightarrow> room_row \<Rightarrow> bool" where
  "after_token srv tok r =
    (case tok of
       None \<Rightarrow> True
     | Some (t, i) \<Rightarrow> rr_updated_at r < sq_time srv t
         \<or> rr_updated_at r = sq_time srv t \<and> text_key srv (rr_id r) < text_key srv i)"

definition summary_row :: "Database \<Rightarrow> member_row \<times> room_row \<Rightarrow> ChatRoomSummary" where
  "summary_row d e = \<lparr>sm_Room = scan_room (snd e), sm_LastMessage = last_message d (rr_id (snd e)),
     sm_UnreadCnt = unread_count d (fst e)\<rparr>"

text \<open>\<^verbatim>\<open>ORDER BY r.updated_at DESC, r.id DESC\<close>\<close>

definition listed_rooms :: "server \<Rightarrow> Database \<Rightarrow> string \<Rightarrow> (time \<times> string) option \<Rightarrow> (member_row \<times> room_row) list" where
  "listed_rooms srv d u tok =
    rev (sort_key (\<lambda>e. (rr_updated_at (snd e), rr_id (snd e))) (filter (\<lambda>e. after_token srv tok (snd e)) (joined_rooms d u)))"

definition pg_ListRoomsByUser :: "server \<Rightarrow> Database \<Rightarrow> string \<Rightarrow> int \<Rightarrow> string \<Rightarrow> error + (ChatRoomSummary list \<times> string)" where
  "pg_ListRoomsByUser srv d userID limit0 pageToken =
    (let limit = (if limit0 \<le> 0 then 20 else limit0);
         tok = decodeRoomToken pageToken;
         rowLimit = wrap64 (limit + 1)
     in case query_rows srv ''SELECT chat_rooms of user'' (summary_row d)
          (bindS (uuid_param srv userID) (\<lambda>u.
           bindS (case tok of None \<Rightarrow> Inr [] | Some (_, i) \<Rightarrow> text_param srv i) (\<lambda>_.
           if rowLimit < 0 then Inl NegativeLimit
           else Inr (take (nat rowLimit) (listed_rooms srv d u tok))))) of
          Inl e \<Rightarrow> Inl e
        | Inr out \<Rightarrow>
           if limit < int (length out)
           then (let lst = sm_Room (out ! (nat limit - 1))
                 in Inr (take (nat limit) out, encodeRoomToken (rm_UpdatedAt lst) (rm_ID lst)))
           else Inr (out, []))"

definition postgres_repo :: "server \<Rightarrow> Database ChatRepository" where
  "postgres_repo srv = \<lparr>rp_rollback = (\<lambda>d d'. d), rp_CreateRoom = pg_CreateRoom srv, rp_GetRoom = pg_GetRoom srv,
     rp_GetActiveBoardLinkedRoom = pg_GetActiveBoardLinkedRoom srv, rp_UpdateRoom = pg_UpdateRoom srv,
     rp_ListRoomsByUser = pg_ListRoomsByUser srv, rp_GetMember = pg_GetMember srv, rp_CreateMember = pg_CreateMember srv,
     rp_UpdateMember = pg_UpdateMember srv, rp_ListActiveMembersByJoinOrder = pg_ListActiveMembersByJoinOrder srv,
     rp_CreateMessageWithNextSequence = store_CreateMessageWithNextSequence srv, rp_GetMessage = pg_GetMessage srv,
     rp_UpdateMessage = pg_UpdateMessage srv, rp_ListMessagesBefore = pg_ListMessagesBefore srv,
     rp_ListMessagesAfter = pg_ListMessagesAfter srv, rp_UpsertDeviceToken = pg_UpsertDeviceToken srv,
     rp_DeactivateDeviceToken = pg_DeactivateDeviceToken srv,
     rp_ListActiveDeviceTokensByUserIDs = pg_ListActiveDeviceTokensByUserIDs srv\<rparr>"

end
