(* ===== verification/Startup.thy ===== *)
theory Startup
  imports TransportProperties PushFcm Postgres
begin

text \<open>
  \<^verbatim>\<open>cmd/chat-service\<close>: how the process is put together from its environment variables. What lies outside is
  a parameter, the record \<open>platform\<close>: listening, opening and pinging the database, the storage client, the
  credentials of the push service, dialling the auth service, \<^verbatim>\<open>structpb.NewStruct\<close> and
  \<^verbatim>\<open>time.ParseDuration\<close> (which computes with floating point). \<open>start\<close> is \<^verbatim>\<open>main\<close> up to serving: the
  service with its options and the interceptor, or the text of the fatal error; \<open>Lifecycle\<close> has the rest. The text
  of a parse error of \<^verbatim>\<open>net/url\<close> is replaced by one text.
\<close>

section \<open>Reading the environment\<close>

type_synonym environment = "string \<Rightarrow> string"

definition envOrDefault :: "environment \<Rightarrow> string \<Rightarrow> string \<Rightarrow> string" where
  "envOrDefault env' key fallback = (let v = env' key in if v = [] then fallback else v)"

definition envBool :: "environment \<Rightarrow> string \<Rightarrow> bool" where
  "envBool env' key \<longleftrightarrow> ToLower (TrimSpace (env' key)) \<in> set [''1'', ''true'', ''yes'', ''y'', ''on'']"

record platform =
  pl_Listen :: "string \<Rightarrow> string option"
  pl_OpenDB :: "string \<Rightarrow> string option"
  pl_Ping :: "string \<Rightarrow> string option"
  pl_server :: "string \<Rightarrow> server"
  pl_storage :: "string \<Rightarrow> error + (string \<Rightarrow> SignedURLOptions \<Rightarrow> error + string)"
  pl_TokenSource :: "string + http_client"
  pl_Dial :: "string \<Rightarrow> string \<Rightarrow> bool \<Rightarrow> string + ClientConn"
  pl_descriptorErr :: "string option"
  pl_NewStruct :: "(string, any) gomap \<Rightarrow> (string, any) gomap option"
  pl_ParseDuration :: "string \<Rightarrow> int option"

datatype runtimeRepository = MemoryRepository | PostgresRepository server

definition initRepository :: "platform \<Rightarrow> environment \<Rightarrow> string + runtimeRepository" where
  "initRepository pl env' =
    (let repoType = envOrDefault env' ''CHAT_REPOSITORY'' ''postgres'' in
     if repoType = ''memory'' then Inr MemoryRepository
     else if repoType = ''postgres'' then
       (let dsn = env' ''CHAT_DB_DSN'' in
        if dsn = [] then Inl ''CHAT_DB_DSN is required when CHAT_REPOSITORY=postgres''
        else case pl_OpenDB pl dsn of
               Some err \<Rightarrow> Inl err
             | None \<Rightarrow> (case pl_Ping pl dsn of Some err \<Rightarrow> Inl err | None \<Rightarrow> Inr (PostgresRepository (pl_server pl dsn))))
     else Inl ''CHAT_REPOSITORY must be one of: postgres, memory'')"

definition readURLExpiry :: "platform \<Rightarrow> environment \<Rightarrow> time" where
  "readURLExpiry pl env' =
    (let raw = TrimSpace (env' ''GCS_READ_URL_EXPIRES_MINUTES'') in
     if raw = [] then 30 * 60 * 1000000000
     else case pl_ParseDuration pl (raw @ ''m'') of
            None \<Rightarrow> 30 * 60 * 1000000000
          | Some minutes \<Rightarrow> if minutes \<le> 0 then 30 * 60 * 1000000000 else minutes)"

definition initAttachmentUploadSigner :: "platform \<Rightarrow> environment \<Rightarrow> string + Signer option" where
  "initAttachmentUploadSigner pl env' =
    (let bucket = TrimSpace (env' ''GCP_STORAGE_BUCKET'');
         googleAccessID = TrimSpace (env' ''GCP_SIGNING_SERVICE_ACCOUNT_EMAIL'')
     in if bucket = [] then Inr None
        else case NewSigner (pl_storage pl) bucket googleAccessID [WithReadURLExpiry (readURLExpiry pl env')] of
               Inl err \<Rightarrow> Inl (error_text err)
             | Inr signer \<Rightarrow> Inr (Some signer))"

definition initPushSender :: "platform \<Rightarrow> environment \<Rightarrow> string + Sender option" where
  "initPushSender pl env' =
    (if \<not> envBool env' ''CHAT_PUSH_FCM_ENABLED'' then Inr None
     else (let first = TrimSpace (env' ''CHAT_FCM_PROJECT_ID'');
               projectID = (if first = [] then TrimSpace (env' ''GCP_PROJECT_ID'') else first)
           in if projectID = []
              then Inl ''CHAT_FCM_PROJECT_ID or GCP_PROJECT_ID is required when CHAT_PUSH_FCM_ENABLED=true''
              else case fcm_NewSender (pl_TokenSource pl) projectID of
                     Inl err \<Rightarrow> Inl err
                   | Inr sender \<Rightarrow> Inr (Some (fcm_Send sender))))"

section \<open>The auth service\<close>

text \<open>\<^verbatim>\<open>net.SplitHostPort\<close>: the host, when there is no error.\<close>

definition SplitHostPort :: "string \<Rightarrow> string option" where
  "SplitHostPort hostport =
    (case CutLast (CHR '':'') hostport of
       None \<Rightarrow> None
     | Some (before, port) \<Rightarrow>
        if HasPrefix hostport ''['' then
          (case Cut (CHR '']'') hostport of
             (inside, tail, found) \<Rightarrow>
               if \<not> found \<or> tail \<noteq> CHR '':'' # port then None
               else if CHR ''['' \<in> set (drop 1 hostport) \<or> CHR '']'' \<in> set tail then None
               else Some (drop 1 inside))
        else if CHR '':'' \<in> set before \<or> CHR ''['' \<in> set hostport \<or> CHR '']'' \<in> set hostport then None
        else Some before)"

text \<open>
  \<^verbatim>\<open>URL.Hostname\<close>: without the port after the last colon (empty or decimal digits) and without the brackets
  of an IPv6 address.
\<close>

definition strip_port :: "string \<Rightarrow> string" where
  "strip_port hostPort =
    (case CutLast (CHR '':'') hostPort of
       None \<Rightarrow> hostPort
     | Some (before, port) \<Rightarrow> if list_all (\<lambda>c. c \<in> set ''0123456789'') port then before else hostPort)"

definition Hostname :: "URL \<Rightarrow> string" where
  "Hostname u =
    (let host = strip_port (url_Host u)
     in if host \<noteq> [] \<and> hd host = CHR ''['' \<and> last host = CHR '']'' then butlast (drop 1 host) else host)"

definition firstSet :: "environment \<Rightarrow> string list \<Rightarrow> string" where
  "firstSet env' keys = (case find (\<lambda>k. TrimSpace (env' k) \<noteq> []) keys of None \<Rightarrow> [] | Some k \<Rightarrow> TrimSpace (env' k))"

definition authServiceTarget :: "environment \<Rightarrow> string + string \<times> string \<times> bool" where
  "authServiceTarget env' =
    (let raw = firstSet env' [''CHAT_AUTH_SERVICE_URL'', ''AUTH_SERVICE_URL'', ''CHAT_AUTH_GRPC_ADDR''] in
     if raw = [] then Inl ''CHAT_AUTH_SERVICE_URL or CHAT_AUTH_GRPC_ADDR is required when CHAT_AUTH_MODE=validate_token''
     else if Contains raw ''://'' then
       (case url_Parse raw of
          None \<Rightarrow> Inl ''invalid auth service URL''
        | Some parsed \<Rightarrow>
           if url_Host parsed = [] then Inl ''auth service URL must include host''
           else (let host = (if CHR '':'' \<in> set (url_Host parsed) then url_Host parsed
                             else if url_Scheme parsed = ''https'' then url_Host parsed @ '':443''
                             else if url_Scheme parsed = ''http'' then url_Host parsed @ '':80''
                             else url_Host parsed)
                 in Inr (host, Hostname parsed, url_Scheme parsed = ''https'')))
     else (let insecureRaw = ToLower (TrimSpace (env' ''CHAT_AUTH_INSECURE''))
           in Inr (raw, case SplitHostPort raw of Some host \<Rightarrow> host | None \<Rightarrow> raw,
                   insecureRaw \<noteq> ''true'' \<and> insecureRaw \<noteq> ''1'')))"

text \<open>No interceptor in the mode \<^verbatim>\<open>dev\<close>; the interceptors of a client of the auth service in \<^verbatim>\<open>validate_token\<close>.\<close>

definition initAuth :: "platform \<Rightarrow> environment \<Rightarrow> string + AuthServiceClient option" where
  "initAuth pl env' =
    (let mode = ToLower (TrimSpace (envOrDefault env' ''CHAT_AUTH_MODE'' ''dev'')) in
     if mode = ''dev'' then Inr None
     else if mode = ''validate_token'' then
       (case authServiceTarget env' of
          Inl err \<Rightarrow> Inl err
        | Inr (addr, tlsServerName, useTLS) \<Rightarrow>
           (case pl_Dial pl addr tlsServerName useTLS of
              Inl err \<Rightarrow> Inl err
            | Inr conn \<Rightarrow> Inr (Some (NewDynamicAuthServiceClient conn (pl_descriptorErr pl)))))
     else Inl ''CHAT_AUTH_MODE must be one of: dev, validate_token'')"

section \<open>The process\<close>

definition service_options :: "environment \<Rightarrow> Signer option \<Rightarrow> Sender option \<Rightarrow> ('s ChatService \<Rightarrow> 's ChatService) list" where
  "service_options env' signer sender =
    (case signer of
       None \<Rightarrow> []
     | Some s \<Rightarrow> [WithAttachmentUploadSigner (gcs_CreateAttachmentUploadURL s), WithAttachmentReadSigner (gcs_CreateAttachmentReadURL s),
                   WithTrustedAttachmentBucket (TrimSpace (env' ''GCP_STORAGE_BUCKET''))])
    @ (case sender of None \<Rightarrow> [] | Some s \<Rightarrow> [WithPushSender s])"

datatype process =
    OnMemory "Store Server" "AuthServiceClient option"
  | OnPostgres "Database Server" "AuthServiceClient option"

definition fatal :: "string \<Rightarrow> string + 'a \<Rightarrow> string + 'a" where
  "fatal msg r = (case r of Inl err \<Rightarrow> Inl (msg @ '': '' @ err) | Inr x \<Rightarrow> Inr x)"

fun assemble :: "platform \<Rightarrow> environment \<Rightarrow> Signer option \<Rightarrow> Sender option \<Rightarrow> AuthServiceClient option \<Rightarrow> runtimeRepository \<Rightarrow> process" where
  "assemble pl env' signer sender auth MemoryRepository =
     OnMemory \<lparr>sv_svc = service_New memory_repo (service_options env' signer sender), sv_NewStruct = pl_NewStruct pl\<rparr> auth"
| "assemble pl env' signer sender auth (PostgresRepository srv) =
     OnPostgres \<lparr>sv_svc = service_New (postgres_repo srv) (service_options env' signer sender), sv_NewStruct = pl_NewStruct pl\<rparr> auth"

definition initialise ::
  "platform \<Rightarrow> environment \<Rightarrow> string + runtimeRepository \<times> Signer option \<times> Sender option \<times> AuthServiceClient option" where
  "initialise pl env' =
    bindS (case pl_Listen pl (envOrDefault env' ''CHAT_SERVICE_ADDR'' '':9090'') of
             Some err \<Rightarrow> Inl (''listen failed: '' @ err) | None \<Rightarrow> Inr ()) (\<lambda>_.
    bindS (fatal ''repository init failed'' (initRepository pl env')) (\<lambda>store.
    bindS (fatal ''attachment upload signer init failed'' (initAttachmentUploadSigner pl env')) (\<lambda>signer.
    bindS (fatal ''push sender init failed'' (initPushSender pl env')) (\<lambda>sender.
    bindS (fatal ''auth init failed'' (initAuth pl env')) (\<lambda>auth.
    Inr (store, signer, sender, auth))))))"

definition start :: "platform \<Rightarrow> environment \<Rightarrow> string + process" where
  "start pl env' =
    bindS (initialise pl env') (\<lambda>(store, signer, sender, auth). Inr (assemble pl env' signer sender auth store))"

text \<open>A unary request to the running process.\<close>

definition process_rpc :: "AuthServiceClient option \<Rightarrow> 's Server \<Rightarrow> rpc \<Rightarrow> ctx \<Rightarrow> 's handler" where
  "process_rpc auth s req c = (case auth of None \<Rightarrow> handle s req c | Some client \<Rightarrow> unary_rpc (Some client) s req c)"

section \<open>What the configuration decides\<close>

lemma fatal_Inr [simp]: "fatal msg r = Inr x \<longleftrightarrow> r = Inr x"
  by (simp add: fatal_def split: sum.split)

text \<open>The process validates tokens exactly when the mode says so, and does not start in any other mode than the two.\<close>

lemma initAuth_mode:
  assumes "initAuth pl env' = Inr auth"
  shows "ToLower (TrimSpace (envOrDefault env' ''CHAT_AUTH_MODE'' ''dev'')) = (if auth = None then ''dev'' else ''validate_token'')"
  using assms by (auto simp: initAuth_def Let_def split: if_splits sum.splits)

lemma start_Inr:
  assumes "start pl env' = Inr p"
  obtains store signer sender auth where "initRepository pl env' = Inr store" "initAttachmentUploadSigner pl env' = Inr signer"
    "initPushSender pl env' = Inr sender" "initAuth pl env' = Inr auth" "p = assemble pl env' signer sender auth store"
  using assms unfolding start_def initialise_def bindS_Inr fatal_Inr by auto

lemma start_auth:
  assumes "start pl env' = Inr p" "p = OnMemory s auth \<or> p = OnPostgres s' auth"
  shows "initAuth pl env' = Inr auth"
proof -
  from assms(1) obtain store signer sender auth' where "initAuth pl env' = Inr auth'" "p = assemble pl env' signer sender auth' store"
    by (rule start_Inr)
  with assms(2) show ?thesis by (cases store) auto
qed

text \<open>
  With token validation every unary request goes through the interceptor; in the mode \<^verbatim>\<open>dev\<close> a request acts
  for the user that its body names.
\<close>

lemma process_rpc_validated: "auth = Some client \<Longrightarrow> process_rpc auth s req c = unary_rpc (Some client) s req c"
  by (simp add: process_rpc_def)

lemma requestUserID_unauthenticated:
  "cx_principal c = None \<Longrightarrow> TrimSpace body \<noteq> [] \<Longrightarrow> requestUserID c body field = Inr (TrimSpace body)"
  by (simp add: requestUserID_def PrincipalFromContext_def Let_def)

text \<open>The service of the process has the repository that was chosen, and signers only when a bucket is configured.\<close>

lemma service_options_fields:
  "cs_repo (service_New R (service_options e signer sender)) = R"
  "cs_pushSender (service_New R (service_options e signer sender)) = sender"
  "cs_attachmentUploadSigner (service_New R (service_options e signer sender)) = map_option gcs_CreateAttachmentUploadURL signer"
  "cs_attachmentReadSigner (service_New R (service_options e signer sender)) = map_option gcs_CreateAttachmentReadURL signer"
  by (cases signer; cases sender; simp add: service_New_def service_options_def WithAttachmentUploadSigner_def
      WithAttachmentReadSigner_def WithTrustedAttachmentBucket_def WithPushSender_def)+

lemma started_service:
  assumes "start pl env' = Inr (OnMemory s auth)"
  shows "cs_repo (sv_svc s) = memory_repo"
    "TrimSpace (env' ''GCP_STORAGE_BUCKET'') = [] \<Longrightarrow> cs_attachmentReadSigner (sv_svc s) = None \<and> cs_attachmentUploadSigner (sv_svc s) = None"
    "\<not> envBool env' ''CHAT_PUSH_FCM_ENABLED'' \<Longrightarrow> cs_pushSender (sv_svc s) = None"
proof -
  from assms obtain store signer sender auth' where i: "initAttachmentUploadSigner pl env' = Inr signer" "initPushSender pl env' = Inr sender"
    and p: "OnMemory s auth = assemble pl env' signer sender auth' store" by (rule start_Inr)
  from p have "sv_svc s = service_New memory_repo (service_options env' signer sender)" by (cases store) auto
  then show "cs_repo (sv_svc s) = memory_repo"
    "TrimSpace (env' ''GCP_STORAGE_BUCKET'') = [] \<Longrightarrow> cs_attachmentReadSigner (sv_svc s) = None \<and> cs_attachmentUploadSigner (sv_svc s) = None"
    "\<not> envBool env' ''CHAT_PUSH_FCM_ENABLED'' \<Longrightarrow> cs_pushSender (sv_svc s) = None"
    using i by (simp_all add: service_options_fields initAttachmentUploadSigner_def initPushSender_def)
qed

end
