(* ===== verification/PostgresStore.thy ===== *)
theory PostgresStore
  imports Postgres
begin

text \<open>
  The tables against the abstract store: \<open>pg_abs\<close> reads a store of finite maps off the tables, \<open>pg_inv\<close> states
  the keys, unique indexes and foreign keys of the schema. Every writing statement keeps \<open>pg_inv\<close> and is
  the abstract write of the arguments as the columns hold them; every read returns what the abstract store
  holds. What is assumed of the server is the locale \<open>postgres_server\<close>.
\<close>

section \<open>Tables with a key\<close>

definition row_at :: "('r \<Rightarrow> 'k) \<Rightarrow> 'r list \<Rightarrow> 'k \<Rightarrow> 'r option" where
  "row_at key xs k = find (\<lambda>r. key r = k) xs"

lemma row_at_Nil [simp]: "row_at key [] k = None"
  by (simp add: row_at_def)

lemma row_at_append:
  "row_at key (xs @ [x]) k = (case row_at key xs k of None \<Rightarrow> if key x = k then Some x else None | Some r \<Rightarrow> Some r)"
  by (induction xs) (simp_all add: row_at_def)

lemma row_at_insert: "row_at key xs (key x) = None \<Longrightarrow> row_at key (xs @ [x]) = (row_at key xs)(key x \<mapsto> x)"
  by (auto simp: row_at_append fun_eq_iff split: option.split)

lemma row_at_map:
  assumes "\<And>r. key (f r) = key r"
  shows "row_at key (map f xs) k = map_option f (row_at key xs k)"
  using assms by (induction xs) (simp_all add: row_at_def)

lemma row_at_map_hit:
  assumes "\<And>r. key r = k0 \<Longrightarrow> key (f r) = k0"
  shows "row_at key (map (\<lambda>r. if key r = k0 then f r else r) xs) = (row_at key xs)(k0 := map_option f (row_at key xs k0))"
proof
  fix k
  show "row_at key (map (\<lambda>r. if key r = k0 then f r else r) xs) k = ((row_at key xs)(k0 := map_option f (row_at key xs k0))) k"
    using assms by (induction xs) (auto simp: row_at_def)
qed

lemma row_at_SomeD: "row_at key xs k = Some r \<Longrightarrow> r \<in> set xs \<and> key r = k"
  by (auto simp: row_at_def dest: find_SomeD)

lemma row_at_key: "row_at key xs k = Some r \<Longrightarrow> key r = k"
  by (blast dest: row_at_SomeD)

lemma row_at_None: "row_at key xs k = None \<longleftrightarrow> \<not> list_ex (\<lambda>r. key r = k) xs"
  by (auto simp: row_at_def find_None_iff list_ex_iff)

lemma row_at_Some: "distinct (map key xs) \<Longrightarrow> row_at key xs k = Some r \<longleftrightarrow> r \<in> set xs \<and> key r = k"
  by (induction xs) (auto simp: row_at_def)

lemma row_at_affected: "length (filter (\<lambda>r. key r = k) xs) = 0 \<longleftrightarrow> row_at key xs k = None"
  by (simp add: row_at_None list_ex_iff filter_empty_conv)

lemma image_map_key: "(\<And>r. g (f r) = g r) \<Longrightarrow> g ` set (map f xs) = g ` set xs"
  by (simp add: image_image)

section \<open>Abstraction and invariant\<close>

definition member_pk :: "member_row \<Rightarrow> string \<times> string" where
  "member_pk r = (mr_room_id r, mr_user_id r)"

definition message_pk :: "message_row \<Rightarrow> string \<times> string" where
  "message_pk r = (gr_room_id r, gr_id r)"

definition device_pk :: "device_row \<Rightarrow> string \<times> string" where
  "device_pk r = (vr_user_id r, vr_device_id r)"

lemmas pk_defs = member_pk_def message_pk_def device_pk_def

definition pg_abs :: "Database \<Rightarrow> astore" where
  "pg_abs d = \<lparr>a_rooms = (\<lambda>rid. map_option scan_room (row_at rr_id (chat_rooms d) rid)),
     a_members = (\<lambda>rid u. map_option scan_member (row_at member_pk (chat_room_members d) (rid, u))),
     a_messages = (\<lambda>rid i. map_option scan_message (row_at message_pk (chat_messages d) (rid, i))),
     a_maxSeq = (\<lambda>rid. coalesce 0 (max_sequence_no d rid)),
     a_devices = (\<lambda>u dev. map_option scan_device (row_at device_pk (chat_device_tokens d) (u, dev)))\<rparr>"

lemma pg_abs_sel:
  "a_rooms (pg_abs d) rid = map_option scan_room (row_at rr_id (chat_rooms d) rid)"
  "a_members (pg_abs d) rid u = map_option scan_member (row_at member_pk (chat_room_members d) (rid, u))"
  "a_messages (pg_abs d) rid i = map_option scan_message (row_at message_pk (chat_messages d) (rid, i))"
  "a_maxSeq (pg_abs d) rid = coalesce 0 (max_sequence_no d rid)"
  "a_devices (pg_abs d) u dev = map_option scan_device (row_at device_pk (chat_device_tokens d) (u, dev))"
  by (simp_all add: pg_abs_def)

definition pg_inv :: "Database \<Rightarrow> bool" where
  "pg_inv d \<longleftrightarrow>
     distinct (map rr_id (chat_rooms d)) \<and> pairwise (\<lambda>r r'. \<not> board_conflict r r') (set (chat_rooms d))
   \<and> (\<forall>r \<in> set (chat_rooms d). rr_linked_board_id r \<noteq> Some [])
   \<and> distinct (map mr_id (chat_room_members d)) \<and> distinct (map member_pk (chat_room_members d))
   \<and> mr_room_id ` set (chat_room_members d) \<subseteq> rr_id ` set (chat_rooms d)
   \<and> distinct (map gr_id (chat_messages d))
   \<and> distinct (map (\<lambda>r. (gr_room_id r, gr_sequence_no r)) (chat_messages d))
   \<and> gr_room_id ` set (chat_messages d) \<subseteq> rr_id ` set (chat_rooms d)
   \<and> distinct (map device_pk (chat_device_tokens d))"

lemma distinct_pair: "distinct (map g xs) \<Longrightarrow> distinct (map (\<lambda>r. (f r, g r)) xs)"
  by (auto simp: distinct_map inj_on_def)

lemma pg_invD:
  assumes "pg_inv d"
  shows "distinct (map rr_id (chat_rooms d))" "pairwise (\<lambda>r r'. \<not> board_conflict r r') (set (chat_rooms d))"
    "r \<in> set (chat_rooms d) \<Longrightarrow> rr_linked_board_id r \<noteq> Some []"
    "distinct (map mr_id (chat_room_members d))" "distinct (map member_pk (chat_room_members d))"
    "mr_room_id ` set (chat_room_members d) \<subseteq> rr_id ` set (chat_rooms d)"
    "distinct (map gr_id (chat_messages d))" "distinct (map (\<lambda>r. (gr_room_id r, gr_sequence_no r)) (chat_messages d))"
    "gr_room_id ` set (chat_messages d) \<subseteq> rr_id ` set (chat_rooms d)" "distinct (map device_pk (chat_device_tokens d))"
    "distinct (map message_pk (chat_messages d))"
  using assms distinct_pair [of gr_id "chat_messages d" gr_room_id] unfolding pg_inv_def message_pk_def by blast+

definition empty_database :: Database where
  "empty_database = \<lparr>chat_rooms = [], chat_room_members = [], chat_messages = [], chat_device_tokens = []\<rparr>"

lemma pg_inv_empty: "pg_inv empty_database"
  by (simp add: pg_inv_def empty_database_def)

text \<open>
  What is assumed of the server: it executes the statements; the text of a unique violation carries the
  code \<^verbatim>\<open>23505\<close> or the word \<^verbatim>\<open>duplicate\<close>; and the text of a \<^verbatim>\<open>uuid\<close> is not empty and reads as itself.
\<close>

locale postgres_server =
  fixes srv :: server
  assumes healthy: "sq_fault srv name = None"
    and unique_text: "isUniqueViolation (sq_error srv (UniqueViolation c))"
    and uuid_canonical: "sq_uuid srv s = Some u \<Longrightarrow> u \<noteq> [] \<and> sq_uuid srv u = Some u"

lemma uuid_param_Inr: "uuid_param srv s = Inr u \<longleftrightarrow> sq_uuid srv s = Some u"
  by (simp add: uuid_param_def split: option.split)

lemma text_param_Inr: "text_param srv s = Inr t \<longleftrightarrow> sq_text srv s \<and> t = s"
  by (auto simp: text_param_def)

lemma enum_param_Inr:
  "room_type_param a = Inr a' \<Longrightarrow> a' = a" "role_param b = Inr b' \<Longrightarrow> b' = b" "status_param c = Inr c' \<Longrightarrow> c' = c"
  "message_type_param e = Inr e' \<Longrightarrow> e' = e" "platform_param p = Inr p' \<Longrightarrow> p' = p"
  subgoal by (cases a) simp_all
  subgoal by (cases b) simp_all
  subgoal by (cases c) simp_all
  subgoal by (cases e) simp_all
  subgoal by (cases p) simp_all
  done

section \<open>Rooms\<close>

lemma scan_room_sel [simp]:
  "rm_ID (scan_room r) = rr_id r" "rm_RoomType (scan_room r) = rr_room_type r"
  "rm_LinkedBoardID (scan_room r) = coalesce [] (rr_linked_board_id r)" "rm_IsActive (scan_room r) = rr_is_active r"
  "rm_DeletedAt (scan_room r) = rr_deleted_at r" "rm_CreatedAt (scan_room r) = rr_created_at r"
  "rm_UpdatedAt (scan_room r) = rr_updated_at r"
  by (simp_all add: scan_room_def)

lemma coalesce_simps [simp]: "coalesce x None = x" "coalesce x (Some y) = y"
  by (simp_all add: coalesce_def)

lemma in_board_index_scan: "in_board_index r \<longleftrightarrow> board_room (rm_LinkedBoardID (scan_room r)) (scan_room r)"
  by (auto simp: in_board_index_def board_room_def room_open_def)

lemma board_conflict_scan:
  assumes "rr_linked_board_id r \<noteq> Some []" "rr_linked_board_id r' \<noteq> Some []"
  shows "board_conflict r r' \<longleftrightarrow> rm_LinkedBoardID (scan_room r) \<noteq> [] \<and> board_room (rm_LinkedBoardID (scan_room r)) (scan_room r)
    \<and> board_room (rm_LinkedBoardID (scan_room r)) (scan_room r')"
  using assms by (cases "rr_linked_board_id r"; cases "rr_linked_board_id r'")
    (auto simp: board_conflict_def in_board_index_def board_room_def room_open_def)

lemma ran_rooms: "pg_inv d \<Longrightarrow> ran (a_rooms (pg_abs d)) = scan_room ` set (chat_rooms d)"
  using pg_invD(1) [of d] by (auto simp: pg_abs_def ran_def row_at_Some)

lemma room_values_linked:
  "postgres_server srv \<Longrightarrow> room_values srv room = Inr row \<Longrightarrow> rr_linked_board_id row \<noteq> Some []"
  using postgres_server.uuid_canonical [of srv]
  by (auto simp: room_values_def bindS_Inr uuid_or_null_def uuid_param_Inr split: if_splits)

context postgres_server
begin

lemma exec_healthy [simp]: "exec srv name r = (case r of Inl e \<Rightarrow> Inl (sq_error srv e) | Inr x \<Rightarrow> Inr x)"
  by (simp add: exec_def healthy)

lemma spec_create_conflict:
  assumes "pg_inv d" "rr_linked_board_id row \<noteq> Some []"
  shows "list_ex (board_conflict row) (chat_rooms d) \<longleftrightarrow>
    board_room (rm_LinkedBoardID (scan_room row)) (scan_room row) \<and> rm_LinkedBoardID (scan_room row) \<noteq> []
    \<and> (\<exists>r' \<in> ran (a_rooms (pg_abs d)). board_room (rm_LinkedBoardID (scan_room row)) r')"
  unfolding ran_rooms [OF assms(1)] list_ex_iff using board_conflict_scan assms(2) pg_invD(3) [OF assms(1)] by blast

lemma CreateRoom_refines:
  assumes "pg_inv d" "room_values srv room = Inr row" "pg_CreateRoom srv d room = (x, d')"
  shows "pg_inv d' \<and> spec_CreateRoom (scan_room row) (pg_abs d) = (x, pg_abs d')"
proof -
  note l = room_values_linked [OF postgres_server_axioms assms(2)]
  note c = spec_create_conflict [OF assms(1) l]
  have n: "a_rooms (pg_abs d) (rm_ID (scan_room row)) \<noteq> None \<longleftrightarrow> list_ex (\<lambda>r. rr_id r = rr_id row) (chat_rooms d)"
    by (simp add: pg_abs_sel row_at_None)
  show ?thesis
  proof (cases "list_ex (\<lambda>r. rr_id r = rr_id row) (chat_rooms d) \<or> list_ex (board_conflict row) (chat_rooms d)")
    case True
    then have "(x, d') = (Inl ErrAlreadyExists, d)"
      using assms(2,3) unique_text by (auto simp: pg_CreateRoom_def insert_room_def split: if_splits)
    moreover have "spec_CreateRoom (scan_room row) (pg_abs d) = (Inl ErrAlreadyExists, pg_abs d)"
      using True n c unfolding spec_CreateRoom_def by presburger
    ultimately show ?thesis using assms(1) by simp
  next
    case False
    then have d': "(x, d') = (Inr (), d\<lparr>chat_rooms := chat_rooms d @ [row]\<rparr>)"
      using assms(2,3) by (auto simp: pg_CreateRoom_def insert_room_def)
    have "row_at rr_id (chat_rooms d @ [row]) = (row_at rr_id (chat_rooms d))(rr_id row \<mapsto> row)"
      using False by (intro row_at_insert) (simp add: row_at_None)
    then have a: "pg_abs (d\<lparr>chat_rooms := chat_rooms d @ [row]\<rparr>) =
        (pg_abs d)\<lparr>a_rooms := (a_rooms (pg_abs d))(rr_id row \<mapsto> scan_room row)\<rparr>"
      by (auto simp: pg_abs_def max_sequence_no_def fun_eq_iff)
    have "spec_CreateRoom (scan_room row) (pg_abs d) =
        (Inr (), (pg_abs d)\<lparr>a_rooms := (a_rooms (pg_abs d))(rm_ID (scan_room row) \<mapsto> scan_room row)\<rparr>)"
      using False n c unfolding spec_CreateRoom_def by presburger
    moreover have "pg_inv (d\<lparr>chat_rooms := chat_rooms d @ [row]\<rparr>)"
      using assms(1) False l
      by (auto simp: pg_inv_def list_ex_iff pairwise_insert board_conflict_def)
    ultimately show ?thesis using d' a by simp
  qed
qed

text \<open>An UPDATE of a room keeps the time of creation.\<close>

lemma updated_healthy:
  "updated srv name d r = (case r of Inl e \<Rightarrow> (Inl (ErrOther (sq_error srv e)), d)
     | Inr (d', n) \<Rightarrow> (if n = 0 then Inl ErrNotFound else Inr (), d'))"
  by (simp add: updated_def split: sum.split)

lemma board_conflict_created [simp]:
  "board_conflict (r\<lparr>rr_created_at := t\<rparr>) r' = board_conflict r r'" "board_conflict r' (r\<lparr>rr_created_at := t\<rparr>) = board_conflict r' r"
  by (simp_all add: board_conflict_def in_board_index_def)

lemma board_conflict_sym: "board_conflict r r' \<Longrightarrow> board_conflict r' r"
  unfolding board_conflict_def by metis

lemma update_room_inv:
  assumes "pg_inv d" "rr_linked_board_id row \<noteq> Some []"
    and "\<And>r. r \<in> set (chat_rooms d) \<Longrightarrow> rr_id r \<noteq> rr_id row \<Longrightarrow> \<not> board_conflict row r"
  shows "pg_inv (d\<lparr>chat_rooms := map (\<lambda>r. if rr_id r = rr_id row then row\<lparr>rr_created_at := rr_created_at r\<rparr> else r) (chat_rooms d)\<rparr>)"
    (is "pg_inv (d\<lparr>chat_rooms := map ?f (chat_rooms d)\<rparr>)")
proof -
  have "\<not> board_conflict (?f r) (?f r')" if "r \<in> set (chat_rooms d)" "r' \<in> set (chat_rooms d)" "?f r \<noteq> ?f r'" for r r'
  proof -
    have "r \<noteq> r'" using that(3) by blast
    then have ne: "rr_id r \<noteq> rr_id r'" using that(1,2) pg_invD(1) [OF assms(1)] by (auto simp: distinct_map inj_on_def)
    show ?thesis
      using assms(3) [OF that(1)] assms(3) [OF that(2)] pairwiseD [OF pg_invD(2) [OF assms(1)] that(1,2) \<open>r \<noteq> r'\<close>] ne
        board_conflict_sym by auto
  qed
  then have "pairwise (\<lambda>r r'. \<not> board_conflict r r') (set (map ?f (chat_rooms d)))"
    unfolding pairwise_def set_map by blast
  moreover have "map rr_id (map ?f (chat_rooms d)) = map rr_id (chat_rooms d)" by simp
  then have "rr_id ` set (map ?f (chat_rooms d)) = rr_id ` set (chat_rooms d)" by (metis list.set_map)
  moreover have "\<forall>r \<in> set (map ?f (chat_rooms d)). rr_linked_board_id r \<noteq> Some []"
    using pg_invD(3) [OF assms(1)] assms(2) by auto
  ultimately show ?thesis
    using assms(1) \<open>map rr_id (map ?f (chat_rooms d)) = _\<close> by (simp add: pg_inv_def del: set_map map_map)
qed

lemma UpdateRoom_refines:
  assumes "pg_inv d" "room_values srv room = Inr row" "pg_UpdateRoom srv d room = (x, d')"
    and "\<And>r. r \<in> ran (a_rooms (pg_abs d)) \<Longrightarrow> rm_LinkedBoardID (scan_room row) \<noteq> [] \<Longrightarrow>
      board_room (rm_LinkedBoardID (scan_room row)) (scan_room row) \<Longrightarrow>
      board_room (rm_LinkedBoardID (scan_room row)) r \<Longrightarrow> rm_ID r = rr_id row"
  shows "pg_inv d' \<and> spec_UpdateRoom ((scan_room row)\<lparr>rm_CreatedAt := (case a_rooms (pg_abs d) (rr_id row) of
      Some r0 \<Rightarrow> rm_CreatedAt r0 | None \<Rightarrow> rr_created_at row)\<rparr>) (pg_abs d) = (x, pg_abs d')"
proof -
  let ?f = "\<lambda>r. if rr_id r = rr_id row then row\<lparr>rr_created_at := rr_created_at r\<rparr> else r"
  note l = room_values_linked [OF postgres_server_axioms assms(2)]
  have nc: "\<not> board_conflict row r" if "r \<in> set (chat_rooms d)" "rr_id r \<noteq> rr_id row" for r
    using assms(4) [of "scan_room r"] that board_conflict_scan [OF l pg_invD(3) [OF assms(1) that(1)]]
    by (auto simp: ran_rooms [OF assms(1)])
  have d': "(x, d') = (if row_at rr_id (chat_rooms d) (rr_id row) = None then Inl ErrNotFound else Inr (),
      d\<lparr>chat_rooms := map ?f (chat_rooms d)\<rparr>)"
  proof -
    have "\<not> list_ex (\<lambda>r. rr_id r \<noteq> rr_id row \<and> board_conflict row r) (chat_rooms d)" using nc by (auto simp: list_ex_iff)
    then show ?thesis
      using assms(2,3) row_at_affected [of rr_id "rr_id row" "chat_rooms d"]
      by (simp add: pg_UpdateRoom_def updated_healthy update_room_def)
  qed
  have at: "row_at rr_id (map ?f (chat_rooms d)) = (row_at rr_id (chat_rooms d))(rr_id row :=
      map_option (\<lambda>r. row\<lparr>rr_created_at := rr_created_at r\<rparr>) (row_at rr_id (chat_rooms d) (rr_id row)))"
    by (rule row_at_map_hit) simp
  have frame: "pg_abs (d\<lparr>chat_rooms := rs\<rparr>) = (pg_abs d)\<lparr>a_rooms := (\<lambda>rid. map_option scan_room (row_at rr_id rs rid))\<rparr>" for rs
    by (simp add: pg_abs_def max_sequence_no_def fun_eq_iff)
  have "spec_UpdateRoom ((scan_room row)\<lparr>rm_CreatedAt := (case a_rooms (pg_abs d) (rr_id row) of
      Some r0 \<Rightarrow> rm_CreatedAt r0 | None \<Rightarrow> rr_created_at row)\<rparr>) (pg_abs d) = (x, pg_abs d')"
    using d' unfolding spec_UpdateRoom_def
    by (cases "row_at rr_id (chat_rooms d) (rr_id row)") (auto simp: frame at pg_abs_sel scan_room_def fun_eq_iff)
  moreover have "pg_inv d'" using update_room_inv [OF assms(1) l nc] d' by simp
  ultimately show ?thesis by blast
qed

end

section \<open>Members\<close>

lemma scan_member_sel [simp]:
  "mb_ID (scan_member r) = mr_id r" "mb_RoomID (scan_member r) = mr_room_id r" "mb_UserID (scan_member r) = mr_user_id r"
  "mb_Status (scan_member r) = mr_status r" "mb_JoinedAt (scan_member r) = mr_joined_at r"
  "mb_CreatedAt (scan_member r) = mr_created_at r"
  by (simp_all add: scan_member_def)

lemma pg_abs_members:
  "pg_abs (d\<lparr>chat_room_members := ms\<rparr>) =
     (pg_abs d)\<lparr>a_members := (\<lambda>rid u. map_option scan_member (row_at member_pk ms (rid, u)))\<rparr>"
  by (simp add: pg_abs_def max_sequence_no_def fun_eq_iff)

lemma same_member_key: "same_member v = (\<lambda>r. member_pk r = member_pk v)"
  by (auto simp: same_member_def member_pk_def fun_eq_iff)

lemma ex_member_id:
  assumes "pg_inv d"
  shows "list_ex (\<lambda>r. mr_id r = i) (chat_room_members d) \<longleftrightarrow> (\<exists>rid u m. a_members (pg_abs d) rid u = Some m \<and> mb_ID m = i)"
  using row_at_Some [OF pg_invD(5) [OF assms]] by (fastforce simp: list_ex_iff pg_abs_sel member_pk_def)

context postgres_server
begin

lemma CreateMember_refines:
  assumes "pg_inv d" "uuid_param srv (mb_ID m) = Inr i" "member_values srv i m = Inr row" "pg_CreateMember srv d m = (x, d')"
    and "a_rooms (pg_abs d) (mr_room_id row) \<noteq> None"
    and "\<nexists>rid u m'. a_members (pg_abs d) rid u = Some m' \<and> mb_ID m' = i"
  shows "pg_inv d' \<and> spec_CreateMember (scan_member row) (pg_abs d) = (x, pg_abs d')"
proof -
  have i: "mr_id row = i" using assms(3) by (auto simp: member_values_def bindS_Inr)
  have id: "\<not> list_ex (\<lambda>r. mr_id r = i) (chat_room_members d)" using ex_member_id [OF assms(1)] assms(6) by blast
  have fk: "list_ex (\<lambda>r. rr_id r = mr_room_id row) (chat_rooms d)" using assms(5) by (simp add: pg_abs_sel row_at_None)
  have k: "list_ex (same_member row) (chat_room_members d) \<longleftrightarrow> row_at member_pk (chat_room_members d) (member_pk row) \<noteq> None"
    unfolding row_at_None same_member_key by simp
  show ?thesis
  proof (cases "row_at member_pk (chat_room_members d) (member_pk row)")
    case (Some r)
    then have "(x, d') = (Inl ErrAlreadyExists, d)"
      using assms(2-4) unique_text k id by (auto simp: pg_CreateMember_def insert_member_def i)
    with Some assms(1) show ?thesis by (simp add: spec_CreateMember_def pg_abs_sel member_pk_def)
  next
    case None
    then have d': "(x, d') = (Inr (), d\<lparr>chat_room_members := chat_room_members d @ [row]\<rparr>)"
      using assms(2-4) k id fk by (auto simp: pg_CreateMember_def insert_member_def i)
    have "spec_CreateMember (scan_member row) (pg_abs d) = (Inr (), put_member (scan_member row) (pg_abs d))"
      using None by (simp add: spec_CreateMember_def pg_abs_sel member_pk_def)
    moreover have "put_member (scan_member row) (pg_abs d) = pg_abs (d\<lparr>chat_room_members := chat_room_members d @ [row]\<rparr>)"
      unfolding pg_abs_members row_at_insert [of member_pk, OF None]
      by (auto simp: put_member_def pg_abs_sel member_pk_def fun_eq_iff)
    moreover have "pg_inv (d\<lparr>chat_room_members := chat_room_members d @ [row]\<rparr>)"
    proof -
      have "mr_room_id row \<in> rr_id ` set (chat_rooms d)" using fk by (force simp: list_ex_iff)
      moreover have "mr_id row \<notin> mr_id ` set (chat_room_members d)" using id i by (auto simp: list_ex_iff)
      moreover have "member_pk row \<notin> member_pk ` set (chat_room_members d)" using None by (auto simp: row_at_None list_ex_iff)
      ultimately show ?thesis using assms(1) by (simp add: pg_inv_def)
    qed
    ultimately show ?thesis using d' by simp
  qed
qed

lemma UpdateMember_refines:
  assumes "pg_inv d" "member_values srv [] m = Inr row" "pg_UpdateMember srv d m = (x, d')"
  shows "pg_inv d' \<and> spec_UpdateMember (case a_members (pg_abs d) (mr_room_id row) (mr_user_id row) of
      Some m0 \<Rightarrow> (scan_member row)\<lparr>mb_ID := mb_ID m0, mb_CreatedAt := mb_CreatedAt m0\<rparr> | None \<Rightarrow> scan_member row) (pg_abs d)
    = (x, pg_abs d')"
proof -
  let ?g = "\<lambda>r. row\<lparr>mr_id := mr_id r, mr_created_at := mr_created_at r\<rparr>"
  let ?f = "\<lambda>r. if member_pk r = member_pk row then ?g r else r"
  let ?at = "row_at member_pk (chat_room_members d)"
  have d': "(x, d') = (if ?at (member_pk row) = None then Inl ErrNotFound else Inr (), d\<lparr>chat_room_members := map ?f (chat_room_members d)\<rparr>)"
    using assms(2,3) row_at_affected [of member_pk "member_pk row" "chat_room_members d"]
    by (simp add: pg_UpdateMember_def updated_healthy update_member_def same_member_key)
  have at: "row_at member_pk (map ?f (chat_room_members d)) = ?at(member_pk row := map_option ?g (?at (member_pk row)))"
    by (rule row_at_map_hit) (simp add: member_pk_def)
  have a': "pg_abs d' = (pg_abs d)\<lparr>a_members := (\<lambda>rid u. map_option scan_member
      ((?at(member_pk row := map_option ?g (?at (member_pk row)))) (rid, u)))\<rparr>"
    using d' unfolding at [symmetric] by (simp add: pg_abs_members)
  have "spec_UpdateMember (case a_members (pg_abs d) (mr_room_id row) (mr_user_id row) of
      Some m0 \<Rightarrow> (scan_member row)\<lparr>mb_ID := mb_ID m0, mb_CreatedAt := mb_CreatedAt m0\<rparr> | None \<Rightarrow> scan_member row) (pg_abs d)
    = (x, pg_abs d')"
    using d' unfolding spec_UpdateMember_def a'
    by (cases "?at (member_pk row)")
       (auto simp: pg_abs_sel put_member_def scan_member_def member_pk_def [of row] fun_eq_iff)
  moreover have "map mr_id (map ?f (chat_room_members d)) = map mr_id (chat_room_members d)"
    "map member_pk (map ?f (chat_room_members d)) = map member_pk (chat_room_members d)" by (simp_all add: member_pk_def)
  moreover have "mr_room_id ` set (map ?f (chat_room_members d)) = mr_room_id ` set (chat_room_members d)"
    by (rule image_map_key) (simp add: member_pk_def)
  ultimately show ?thesis using assms(1) d' by (simp add: pg_inv_def del: set_map map_map)
qed

end

section \<open>Messages\<close>

lemma scan_message_sel [simp]:
  "mg_ID (scan_message r) = gr_id r" "mg_RoomID (scan_message r) = gr_room_id r"
  "mg_SequenceNo (scan_message r) = gr_sequence_no r" "mg_SenderUserID (scan_message r) = gr_sender_user_id r"
  "mg_MessageType (scan_message r) = gr_message_type r" "mg_CreatedAt (scan_message r) = gr_created_at r"
  "mg_IsDeleted (scan_message r) = gr_is_deleted r"
  by (simp_all add: scan_message_def Let_def)

definition numbers :: "message_row list \<Rightarrow> string \<Rightarrow> int list" where
  "numbers ms rid = map gr_sequence_no (filter (\<lambda>r. gr_room_id r = rid) ms)"

lemma max_sequence_no_alt:
  "max_sequence_no d rid = (if numbers (chat_messages d) rid = [] then None else Some (Max (set (numbers (chat_messages d) rid))))"
  by (cases "filter (\<lambda>r. gr_room_id r = rid) (chat_messages d)") (simp_all add: max_sequence_no_def numbers_def del: set_filter)

lemma max_sequence_no_cong: "numbers (chat_messages d) = numbers (chat_messages e) \<Longrightarrow> max_sequence_no d = max_sequence_no e"
  by (rule ext) (simp add: max_sequence_no_alt)

lemma numbers_map: "(\<And>r. gr_room_id (f r) = gr_room_id r \<and> gr_sequence_no (f r) = gr_sequence_no r) \<Longrightarrow> numbers (map f ms) = numbers ms"
  by (rule ext, induction ms) (simp_all add: numbers_def)

lemma numbers_append [simp]: "numbers (ms @ [r]) rid = numbers ms rid @ (if gr_room_id r = rid then [gr_sequence_no r] else [])"
  by (simp add: numbers_def)

lemma set_numbers: "set (numbers ms rid) = gr_sequence_no ` {r \<in> set ms. gr_room_id r = rid}"
  by (auto simp: numbers_def)

lemma number_le_max: "r \<in> set (chat_messages d) \<Longrightarrow> gr_sequence_no r \<le> coalesce 0 (max_sequence_no d (gr_room_id r))"
proof -
  assume "r \<in> set (chat_messages d)"
  then have "gr_sequence_no r \<in> set (numbers (chat_messages d) (gr_room_id r))" by (auto simp: set_numbers)
  then show ?thesis unfolding max_sequence_no_alt by (cases "numbers (chat_messages d) (gr_room_id r)") (auto simp: Max_ge)
qed

lemma max_sequence_no_append:
  assumes "gr_sequence_no row = coalesce 0 (max_sequence_no d (gr_room_id row)) + 1"
  shows "coalesce 0 (max_sequence_no (d\<lparr>chat_messages := chat_messages d @ [row]\<rparr>) rid) =
    (if rid = gr_room_id row then gr_sequence_no row else coalesce 0 (max_sequence_no d rid))"
proof (cases "rid = gr_room_id row")
  case True
  have "x \<le> gr_sequence_no row" if "x \<in> set (numbers (chat_messages d) rid)" for x
    using that number_le_max assms True by (fastforce simp: set_numbers)
  then have "Max (insert (gr_sequence_no row) (set (numbers (chat_messages d) rid))) = gr_sequence_no row"
    by (intro Max_eqI) auto
  with True show ?thesis by (simp add: max_sequence_no_alt)
next
  case False
  then show ?thesis by (simp add: max_sequence_no_alt)
qed

lemma pg_abs_messages:
  "pg_abs (d\<lparr>chat_messages := ms\<rparr>) =
     (pg_abs d)\<lparr>a_messages := (\<lambda>rid i. map_option scan_message (row_at message_pk ms (rid, i))),
       a_maxSeq := (\<lambda>rid. coalesce 0 (max_sequence_no (d\<lparr>chat_messages := ms\<rparr>) rid))\<rparr>"
  by (simp add: pg_abs_def fun_eq_iff)

lemma ex_message_id:
  assumes "pg_inv d"
  shows "list_ex (\<lambda>r. gr_id r = i) (chat_messages d) \<longleftrightarrow> \<not> fresh_message_id (pg_abs d) i"
proof
  assume "list_ex (\<lambda>r. gr_id r = i) (chat_messages d)"
  then obtain r where r: "r \<in> set (chat_messages d)" "gr_id r = i" by (auto simp: list_ex_iff)
  then have "row_at message_pk (chat_messages d) (gr_room_id r, i) = Some r"
    using row_at_Some [OF pg_invD(11) [OF assms]] by (simp add: message_pk_def)
  then show "\<not> fresh_message_id (pg_abs d) i" unfolding fresh_message_id_def pg_abs_sel by (metis option.distinct(1) option.simps(9))
next
  assume "\<not> fresh_message_id (pg_abs d) i"
  then show "list_ex (\<lambda>r. gr_id r = i) (chat_messages d)"
    by (fastforce simp: fresh_message_id_def pg_abs_sel list_ex_iff message_pk_def dest: row_at_SomeD)
qed

text \<open>The row of a new message, up to its number, does not depend on the tables.\<close>

lemma message_values_number:
  assumes "message_values srv empty_database meta msg = Inr row" "int64_range (coalesce 0 (max_sequence_no d (gr_room_id row)) + 1)"
  shows "message_values srv d meta msg = Inr (row\<lparr>gr_sequence_no := coalesce 0 (max_sequence_no d (gr_room_id row)) + 1\<rparr>)"
proof -
  have "next_sequence_no d rid = Inr (coalesce 0 (max_sequence_no d rid) + 1)" if "rid = gr_room_id row" for rid
    using assms(2) that by (cases "max_sequence_no d rid") (simp_all add: next_sequence_no_def)
  with assms(1) show ?thesis by (auto simp: message_values_def bindS_Inr)
qed

context postgres_server
begin

text \<open>The row that gets the next number: no index refuses it, and it is the abstract message.\<close>

definition next_number :: "Database \<Rightarrow> string \<Rightarrow> int" where
  "next_number d rid = coalesce 0 (max_sequence_no d rid) + 1"

lemma append_message:
  fixes d row
  defines "row' \<equiv> row\<lparr>gr_sequence_no := next_number d (gr_room_id row)\<rparr>"
  defines "d' \<equiv> d\<lparr>chat_messages := chat_messages d @ [row']\<rparr>"
  assumes inv: "pg_inv d" and fresh: "fresh_message_id (pg_abs d) (gr_id row)"
    and room: "list_ex (\<lambda>r. rr_id r = gr_room_id row) (chat_rooms d)"
  shows "insert_message d row' = Inr (Some (d', gr_sequence_no row'))" "pg_inv d'"
    "spec_CreateMessage (scan_message row) (pg_abs d) = (Inr (scan_message row'), pg_abs d')"
proof -
  let ?n = "next_number d (gr_room_id row)"
  have id: "\<not> list_ex (\<lambda>r. gr_id r = gr_id row) (chat_messages d)" using ex_message_id [OF inv] fresh by simp
  have sq: "\<not> (gr_room_id r = gr_room_id row \<and> gr_sequence_no r = ?n)" if "r \<in> set (chat_messages d)" for r
    using number_le_max [OF that] by (auto simp: next_number_def)
  then have "\<not> list_ex (\<lambda>r. gr_room_id r = gr_room_id row \<and> gr_sequence_no r = ?n) (chat_messages d)" by (auto simp: list_ex_iff)
  then show "insert_message d row' = Inr (Some (d', gr_sequence_no row'))"
    using room id by (simp add: insert_message_def d'_def row'_def)
  have "gr_room_id row \<in> rr_id ` set (chat_rooms d)" using room by (force simp: list_ex_iff)
  moreover have "gr_id row \<notin> gr_id ` set (chat_messages d)" using id by (auto simp: list_ex_iff)
  moreover have "(gr_room_id row, ?n) \<notin> (\<lambda>r. (gr_room_id r, gr_sequence_no r)) ` set (chat_messages d)"
    unfolding image_iff prod.inject using sq by metis
  ultimately show "pg_inv d'" using inv by (simp add: pg_inv_def d'_def row'_def)
  have new: "row_at message_pk (chat_messages d) (message_pk row') = None"
    using id by (auto simp: row_at_None list_ex_iff message_pk_def row'_def)
  have "pg_abs d' = (put_message (scan_message row') (pg_abs d))\<lparr>a_maxSeq := (a_maxSeq (pg_abs d))(gr_room_id row := ?n)\<rparr>"
    unfolding d'_def pg_abs_messages row_at_insert [of message_pk, OF new]
    using max_sequence_no_append [of row' d]
    by (auto simp: put_message_def pg_abs_sel message_pk_def next_number_def fun_eq_iff row'_def)
  then show "spec_CreateMessage (scan_message row) (pg_abs d) = (Inr (scan_message row'), pg_abs d')"
    using room by (simp add: spec_CreateMessage_def pg_abs_sel row_at_None Let_def next_number_def scan_message_def row'_def)
qed

lemma CreateMessage_refines:
  assumes "pg_inv d" "json_Marshal (metadata_value (mg_Metadata msg)) = Inr meta" "sq_text srv (mg_RoomID msg)"
    and row: "message_values srv empty_database meta msg = Inr row"
    and "fresh_message_id (pg_abs d) (gr_id row)" "int64_range (a_maxSeq (pg_abs d) (gr_room_id row) + 1)"
    and run: "pg_CreateMessageWithNextSequence srv d msg = (x, d')"
  shows "pg_inv d' \<and> (\<exists>y. spec_CreateMessage (scan_message row) (pg_abs d) = (y, pg_abs d')
    \<and> x = map_sum id (\<lambda>m. msg\<lparr>mg_SequenceNo := mg_SequenceNo m\<rparr>) y)"
proof -
  have v: "message_values srv d meta msg = Inr (row\<lparr>gr_sequence_no := next_number d (gr_room_id row)\<rparr>)"
    using message_values_number [OF row] assms(6) by (simp add: next_number_def pg_abs_sel)
  show ?thesis
  proof (cases "list_ex (\<lambda>r. rr_id r = gr_room_id row) (chat_rooms d)")
    case False
    then have "(x, d') = (Inl ErrNotFound, d)"
      using run assms(2,3) v by (auto simp: pg_CreateMessageWithNextSequence_def text_param_def insert_message_def)
    moreover have "spec_CreateMessage (scan_message row) (pg_abs d) = (Inl ErrNotFound, pg_abs d)"
      using False by (simp add: spec_CreateMessage_def pg_abs_sel row_at_None)
    ultimately show ?thesis using assms(1) by simp
  next
    case True
    note app = append_message [OF assms(1,5) True]
    have "(x, d') = (Inr (msg\<lparr>mg_SequenceNo := next_number d (gr_room_id row)\<rparr>),
        d\<lparr>chat_messages := chat_messages d @ [row\<lparr>gr_sequence_no := next_number d (gr_room_id row)\<rparr>]\<rparr>)"
      using run assms(2,3) v app(1) by (simp add: pg_CreateMessageWithNextSequence_def text_param_def)
    then show ?thesis using app(2,3) by simp
  qed
qed

lemma UpdateMessage_refines:
  assumes "pg_inv d" "json_Marshal (metadata_value (mg_Metadata m)) = Inr meta" "message_update_values srv meta m = Inr row"
    and "pg_UpdateMessage srv d m = (x, d')"
  shows "pg_inv d' \<and> spec_UpdateMessage (case a_messages (pg_abs d) (gr_room_id row) (gr_id row) of
      Some m0 \<Rightarrow> (scan_message row)\<lparr>mg_SenderUserID := mg_SenderUserID m0, mg_MessageType := mg_MessageType m0,
        mg_SequenceNo := mg_SequenceNo m0, mg_CreatedAt := mg_CreatedAt m0\<rparr> | None \<Rightarrow> scan_message row) (pg_abs d)
    = (x, pg_abs d')"
proof -
  let ?g = "\<lambda>r. row\<lparr>gr_sender_user_id := gr_sender_user_id r, gr_message_type := gr_message_type r,
      gr_sequence_no := gr_sequence_no r, gr_created_at := gr_created_at r\<rparr>"
  let ?f = "\<lambda>r. if message_pk r = message_pk row then ?g r else r"
  let ?at = "row_at message_pk (chat_messages d)"
  have key: "(\<lambda>r. gr_room_id r = gr_room_id row \<and> gr_id r = gr_id row) = (\<lambda>r. message_pk r = message_pk row)"
    by (auto simp: message_pk_def)
  have d': "(x, d') = (if ?at (message_pk row) = None then Inl ErrNotFound else Inr (), d\<lparr>chat_messages := map ?f (chat_messages d)\<rparr>)"
    using assms(2-4) row_at_affected [of message_pk "message_pk row" "chat_messages d"]
    by (simp add: pg_UpdateMessage_def updated_healthy update_message_def Let_def key)
  have at: "row_at message_pk (map ?f (chat_messages d)) = ?at(message_pk row := map_option ?g (?at (message_pk row)))"
    by (rule row_at_map_hit) (simp add: message_pk_def)
  have num: "numbers (map ?f (chat_messages d)) = numbers (chat_messages d)"
    by (rule numbers_map) (simp add: message_pk_def)
  have a': "pg_abs d' = (pg_abs d)\<lparr>a_messages := (\<lambda>rid i. map_option scan_message
      ((?at(message_pk row := map_option ?g (?at (message_pk row)))) (rid, i)))\<rparr>"
  proof -
    have "max_sequence_no (d\<lparr>chat_messages := map ?f (chat_messages d)\<rparr>) = max_sequence_no d"
      by (rule max_sequence_no_cong) (simp add: num)
    with d' show ?thesis unfolding at [symmetric] by (simp add: pg_abs_messages) (simp add: pg_abs_def)
  qed
  have "spec_UpdateMessage (case a_messages (pg_abs d) (gr_room_id row) (gr_id row) of
      Some m0 \<Rightarrow> (scan_message row)\<lparr>mg_SenderUserID := mg_SenderUserID m0, mg_MessageType := mg_MessageType m0,
        mg_SequenceNo := mg_SequenceNo m0, mg_CreatedAt := mg_CreatedAt m0\<rparr> | None \<Rightarrow> scan_message row) (pg_abs d)
    = (x, pg_abs d')"
    using d' unfolding spec_UpdateMessage_def a'
    by (cases "?at (message_pk row)")
       (auto simp: pg_abs_sel put_message_def scan_message_def Let_def message_pk_def [of row] fun_eq_iff)
  moreover have "map gr_id (map ?f (chat_messages d)) = map gr_id (chat_messages d)"
    "map (\<lambda>r. (gr_room_id r, gr_sequence_no r)) (map ?f (chat_messages d)) = map (\<lambda>r. (gr_room_id r, gr_sequence_no r)) (chat_messages d)"
    by (simp_all add: message_pk_def)
  moreover have "gr_room_id ` set (map ?f (chat_messages d)) = gr_room_id ` set (chat_messages d)"
    by (rule image_map_key) (simp add: message_pk_def)
  ultimately show ?thesis using assms(1) d' by (simp add: pg_inv_def del: set_map map_map)
qed

end

section \<open>Device tokens\<close>

lemma scan_device_sel [simp]:
  "dt_UserID (scan_device r) = vr_user_id r" "dt_DeviceID (scan_device r) = vr_device_id r" "dt_Token (scan_device r) = vr_token r"
  "dt_IsActive (scan_device r) = vr_is_active r" "dt_CreatedAt (scan_device r) = vr_created_at r"
  "dt_UpdatedAt (scan_device r) = vr_updated_at r" "dt_UnregisteredAt (scan_device r) = vr_unregistered_at r"
  by (simp_all add: scan_device_def)

lemma pg_abs_devices:
  "pg_abs (d\<lparr>chat_device_tokens := vs\<rparr>) =
     (pg_abs d)\<lparr>a_devices := (\<lambda>u dev. map_option scan_device (row_at device_pk vs (u, dev)))\<rparr>"
  by (simp add: pg_abs_def max_sequence_no_def fun_eq_iff)

lemma pg_inv_devices: "pg_inv d \<Longrightarrow> distinct (map device_pk vs) \<Longrightarrow> pg_inv (d\<lparr>chat_device_tokens := vs\<rparr>)"
  by (simp add: pg_inv_def)

definition released :: "device_row \<Rightarrow> device_row \<Rightarrow> device_row" where
  "released row r =
    (if vr_token r = vr_token row \<and> (vr_user_id r \<noteq> vr_user_id row \<or> vr_device_id r \<noteq> vr_device_id row)
     then r\<lparr>vr_is_active := False, vr_updated_at := vr_updated_at row, vr_unregistered_at := Some (vr_updated_at row)\<rparr> else r)"

lemma released_pk [simp]: "device_pk (released row r) = device_pk r"
  by (simp add: released_def device_pk_def)

lemma scan_released:
  "scan_device (released row r) = release_token (scan_device row) (vr_user_id r) (vr_device_id r) (scan_device r)"
  by (auto simp: released_def release_token_def scan_device_def)

lemma release_rows_values:
  "device_values srv t = Inr row \<Longrightarrow> release_rows srv d t =
    Inr (d\<lparr>chat_device_tokens := map (released row) (chat_device_tokens d)\<rparr>)"
  unfolding released_def by (auto simp: device_values_def release_rows_def bindS_Inr text_param_Inr cong: if_cong)

lemma same_device_key: "same_device v = (\<lambda>r. device_pk r = device_pk v)"
  by (auto simp: same_device_def device_pk_def fun_eq_iff)

text \<open>The second statement, on tables in which the row of the device may exist.\<close>

lemma upsert_device_abs:
  assumes "pg_inv d"
  shows "\<exists>new. upsert_device d row = (fst (upsert_device d row), new)
    \<and> new = row\<lparr>vr_created_at := (case row_at device_pk (chat_device_tokens d) (device_pk row) of
        None \<Rightarrow> vr_created_at row | Some old \<Rightarrow> vr_created_at old)\<rparr>
    \<and> pg_inv (fst (upsert_device d row))
    \<and> pg_abs (fst (upsert_device d row)) = (pg_abs d)\<lparr>a_devices := (a_devices (pg_abs d))
        (vr_user_id row := (a_devices (pg_abs d) (vr_user_id row))(vr_device_id row \<mapsto> scan_device new))\<rparr>"
proof -
  let ?at = "row_at device_pk (chat_device_tokens d)"
  have f: "find (same_device row) (chat_device_tokens d) = ?at (device_pk row)" by (simp add: row_at_def same_device_key)
  show ?thesis
  proof (cases "?at (device_pk row)")
    case None
    then have u: "upsert_device d row = (d\<lparr>chat_device_tokens := chat_device_tokens d @ [row]\<rparr>, row)"
      by (simp add: upsert_device_def f)
    have "device_pk row \<notin> device_pk ` set (chat_device_tokens d)" using None by (auto simp: row_at_None list_ex_iff)
    then have "pg_inv (d\<lparr>chat_device_tokens := chat_device_tokens d @ [row]\<rparr>)"
      using pg_inv_devices [OF assms] pg_invD(10) [OF assms] by simp
    then show ?thesis unfolding u
      by (auto simp: None [unfolded device_pk_def [of row]] pg_abs_devices row_at_insert [of device_pk, OF None] pg_abs_sel device_pk_def [of row] fun_eq_iff)
  next
    case (Some old)
    let ?new = "row\<lparr>vr_created_at := vr_created_at old\<rparr>"
    have u: "upsert_device d row =
        (d\<lparr>chat_device_tokens := map (\<lambda>r. if device_pk r = device_pk row then ?new else r) (chat_device_tokens d)\<rparr>, ?new)"
      using Some unfolding upsert_device_def f by (simp add: same_device_key Let_def)
    have at: "row_at device_pk (map (\<lambda>r. if device_pk r = device_pk row then ?new else r) (chat_device_tokens d))
        = ?at(device_pk row := map_option (\<lambda>_. ?new) (?at (device_pk row)))"
      by (rule row_at_map_hit) (simp add: device_pk_def)
    have "map device_pk (map (\<lambda>r. if device_pk r = device_pk row then ?new else r) (chat_device_tokens d))
        = map device_pk (chat_device_tokens d)" by (simp add: device_pk_def)
    then have "pg_inv (fst (upsert_device d row))"
      unfolding u using pg_inv_devices [OF assms] pg_invD(10) [OF assms] by (simp del: map_map)
    then show ?thesis unfolding u fst_conv pg_abs_devices at
      by (auto simp: Some [unfolded device_pk_def [of row]] pg_abs_sel device_pk_def [of row] fun_eq_iff)
  qed
qed

context postgres_server
begin

lemma UpsertDeviceToken_refines:
  assumes "pg_inv d" "device_values srv t = Inr row" "pg_UpsertDeviceToken srv d t = (x, d')"
    and "\<And>old. a_devices (pg_abs d) (vr_user_id row) (vr_device_id row) = Some old \<Longrightarrow> dt_CreatedAt old \<noteq> time_zero"
  shows "pg_inv d' \<and> spec_UpsertDeviceToken (scan_device row) (pg_abs d) = (x, pg_abs d')"
proof -
  let ?at = "row_at device_pk (chat_device_tokens d)"
  define d1 where "d1 = d\<lparr>chat_device_tokens := map (released row) (chat_device_tokens d)\<rparr>"
  have "map device_pk (map (released row) (chat_device_tokens d)) = map device_pk (chat_device_tokens d)" by simp
  then have i1: "pg_inv d1"
    unfolding d1_def using pg_inv_devices [OF assms(1)] pg_invD(10) [OF assms(1)] by (simp del: map_map)
  have at1: "row_at device_pk (chat_device_tokens d1) k = map_option (released row) (?at k)" for k
    unfolding d1_def by (simp add: row_at_map)
  have sc: "scan_device (released row r) = release_token (scan_device row) u dev (scan_device r)"
    if "?at (u, dev) = Some r" for u dev r
    using row_at_key [OF that] scan_released [of row r] by (simp add: device_pk_def)
  have "a_devices (pg_abs d1) u dev = map_option (release_token (scan_device row) u dev) (a_devices (pg_abs d) u dev)" for u dev
    using sc [of u dev] by (cases "?at (u, dev)") (simp_all add: pg_abs_sel at1)
  then have ds: "a_devices (pg_abs d1) = (\<lambda>u dev. map_option (release_token (scan_device row) u dev) (a_devices (pg_abs d) u dev))"
    by (intro ext)
  have a1: "(pg_abs d1)\<lparr>a_devices := X\<rparr> = (pg_abs d)\<lparr>a_devices := X\<rparr>" for X by (simp add: d1_def pg_abs_devices)
  obtain d2 new where u: "upsert_device d1 row = (d2, new)" by fastforce
  have new: "new = row\<lparr>vr_created_at := (case ?at (device_pk row) of None \<Rightarrow> vr_created_at row | Some old \<Rightarrow> vr_created_at old)\<rparr>"
    and d2: "pg_inv d2" "pg_abs d2 = (pg_abs d1)\<lparr>a_devices := (a_devices (pg_abs d1))
        (vr_user_id row := (a_devices (pg_abs d1) (vr_user_id row))(vr_device_id row \<mapsto> scan_device new))\<rparr>"
    using upsert_device_abs [OF i1, of row] u
    by (auto simp: at1 released_def split: option.splits)
  have x: "x = Inr (scan_device new)" "d' = d2"
    using assms(3) release_rows_values [OF assms(2), of d] assms(2) u by (simp_all add: pg_UpsertDeviceToken_def d1_def)
  have act: "vr_is_active row" "vr_unregistered_at row = None" using assms(2) by (auto simp: device_values_def bindS_Inr)
  have "scan_device new = (scan_device row)\<lparr>dt_CreatedAt := (case a_devices (pg_abs d) (vr_user_id row) (vr_device_id row) of
        Some o' \<Rightarrow> (if dt_CreatedAt o' \<noteq> time_zero then dt_CreatedAt o' else dt_CreatedAt (scan_device row))
      | None \<Rightarrow> dt_CreatedAt (scan_device row)), dt_IsActive := True, dt_UnregisteredAt := None\<rparr>"
    using assms(4) act unfolding new
    by (cases "?at (device_pk row)") (simp_all add: pg_abs_sel scan_device_def device_pk_def [of row])
  then show ?thesis
    using d2(1) unfolding x spec_UpsertDeviceToken_def d2(2) a1 ds by (simp add: Let_def)
qed

lemma DeactivateDeviceToken_refines:
  assumes "pg_inv d" "sq_uuid srv u = Some u'" "sq_text srv dev" "pg_DeactivateDeviceToken srv d u dev now = (x, d')"
  shows "pg_inv d' \<and> spec_DeactivateDeviceToken u' dev (sq_time srv now) (pg_abs d) = (x, pg_abs d')"
proof -
  let ?g = "\<lambda>r. r\<lparr>vr_is_active := False, vr_updated_at := sq_time srv now, vr_unregistered_at := Some (sq_time srv now)\<rparr>"
  let ?f = "\<lambda>r. if device_pk r = (u', dev) then ?g r else r"
  let ?at = "row_at device_pk (chat_device_tokens d)"
  have d': "(x, d') = (Inr (), d\<lparr>chat_device_tokens := map ?f (chat_device_tokens d)\<rparr>)"
    using assms(2-4) by (simp add: pg_DeactivateDeviceToken_def uuid_param_def text_param_def device_pk_def)
  have at: "row_at device_pk (map ?f (chat_device_tokens d)) = ?at((u', dev) := map_option ?g (?at (u', dev)))"
    by (rule row_at_map_hit) (simp add: device_pk_def)
  have "map device_pk (map ?f (chat_device_tokens d)) = map device_pk (chat_device_tokens d)" by (simp add: device_pk_def)
  then have "pg_inv d'" using pg_inv_devices [OF assms(1)] pg_invD(10) [OF assms(1)] d' by (simp del: map_map)
  moreover have "pg_abs d' = (pg_abs d)\<lparr>a_devices := (\<lambda>a b. map_option scan_device
      ((?at((u', dev) := map_option ?g (?at (u', dev)))) (a, b)))\<rparr>"
    using d' unfolding at [symmetric] by (simp add: pg_abs_devices)
  ultimately show ?thesis
    using d' by (cases "?at (u', dev)") (auto simp: spec_DeactivateDeviceToken_def pg_abs_sel scan_device_def fun_eq_iff)
qed

end

section \<open>Reads\<close>

lemma lists_sorted_rows:
  fixes key :: "'a \<Rightarrow> 'k::linorder"
  assumes "distinct (map pk rows)" "\<And>r. pk' (scan r) = pk r" "\<And>r. key (scan r) = k r"
  shows "lists_sorted key (scan ` {r \<in> set rows. P r}) (map scan (sort_key k (filter P rows)))"
proof -
  have "inj_on scan (set rows)"
    using assms(1,2) by (metis distinct_map inj_on_def)
  moreover have "distinct rows" using assms(1) by (simp add: distinct_map)
  moreover have "map key (map scan (sort_key k (filter P rows))) = map k (sort_key k (filter P rows))"
    using assms(3) by simp
  ultimately show ?thesis
    unfolding lists_sorted_def by (auto simp: distinct_map inj_on_def simp del: map_map)
qed

lemma ran_tables:
  assumes "pg_inv d"
  shows "ran (a_members (pg_abs d) rid) = scan_member ` {r \<in> set (chat_room_members d). mr_room_id r = rid}"
    "ran (a_messages (pg_abs d) rid) = scan_message ` {r \<in> set (chat_messages d). gr_room_id r = rid}"
    "ran (a_devices (pg_abs d) u) = scan_device ` {r \<in> set (chat_device_tokens d). vr_user_id r = u}"
  by (auto simp: ran_def pg_abs_sel row_at_Some [OF pg_invD(5) [OF assms]] row_at_Some [OF pg_invD(11) [OF assms]]
      row_at_Some [OF pg_invD(10) [OF assms]] pk_defs)

lemma page_limit_int: "0 < l \<Longrightarrow> page_limit dflt l = nat l" "l \<le> 0 \<Longrightarrow> page_limit dflt l = nat dflt"
  by (simp_all add: page_limit_def)

context postgres_server
begin

lemma query_row_healthy:
  "query_row srv name scan (Inr row) = lookup_or ErrNotFound (map_option scan row)"
  by (cases row) (simp_all add: query_row_def)

lemma GetRoom_reads: "sq_uuid srv rid = Some i \<Longrightarrow> pg_GetRoom srv d rid = lookup_or ErrNotFound (a_rooms (pg_abs d) i)"
  by (simp add: pg_GetRoom_def uuid_param_def query_row_healthy pg_abs_sel row_at_def)

lemma GetMember_reads:
  "sq_uuid srv rid = Some i \<Longrightarrow> sq_uuid srv u = Some j \<Longrightarrow>
    pg_GetMember srv d rid u = lookup_or ErrNotFound (a_members (pg_abs d) i j)"
  by (simp add: pg_GetMember_def uuid_param_def query_row_healthy pg_abs_sel row_at_def member_pk_def)

lemma GetMessage_reads:
  "sq_uuid srv rid = Some i \<Longrightarrow> sq_uuid srv mid = Some j \<Longrightarrow>
    pg_GetMessage srv d rid mid = lookup_or ErrNotFound (a_messages (pg_abs d) i j)"
  by (simp add: pg_GetMessage_def uuid_param_def query_row_healthy pg_abs_sel row_at_def message_pk_def)

lemma GetActiveBoardLinkedRoom_reads:
  assumes "pg_inv d" "sq_uuid srv b = Some i"
  shows "case pg_GetActiveBoardLinkedRoom srv d b of
      Inr r \<Rightarrow> r \<in> ran (a_rooms (pg_abs d)) \<and> board_room i r
    | Inl e \<Rightarrow> e = ErrNotFound \<and> (\<forall>r \<in> ran (a_rooms (pg_abs d)). \<not> board_room i r)"
proof -
  let ?P = "\<lambda>r. rr_room_type r = RoomTypeBoardLinkedGroup \<and> rr_linked_board_id r = Some i \<and> rr_is_active r \<and> rr_deleted_at r = None"
  have P: "?P r \<longleftrightarrow> board_room i (scan_room r)" for r
    using uuid_canonical [OF assms(2)] by (cases "rr_linked_board_id r") (auto simp: board_room_def room_open_def)
  show ?thesis
  proof (cases "find ?P (chat_rooms d)")
    case None
    then have "\<not> board_room i (scan_room r)" if "r \<in> set (chat_rooms d)" for r using that P by (auto simp: find_None_iff)
    with None assms(2) show ?thesis
      by (auto simp: pg_GetActiveBoardLinkedRoom_def uuid_param_def query_row_healthy ran_rooms [OF assms(1)])
  next
    case (Some r)
    with find_SomeD [OF Some] P assms(2) show ?thesis
      by (auto simp: pg_GetActiveBoardLinkedRoom_def uuid_param_def query_row_healthy ran_rooms [OF assms(1)])
  qed
qed

lemma ListActiveMembers_reads:
  assumes "pg_inv d" "sq_uuid srv rid = Some i"
  shows "\<exists>ms. pg_ListActiveMembersByJoinOrder srv d rid = Inr ms \<and> lists_sorted join_key (active_members (pg_abs d) i) ms"
proof -
  have "active_members (pg_abs d) i =
      scan_member ` {r \<in> set (chat_room_members d). mr_room_id r = i \<and> mr_status r = MemberStatusActive}"
    unfolding active_members_def ran_tables [OF assms(1)] by auto
  then show ?thesis
    using assms(2) lists_sorted_rows [OF pg_invD(4) [OF assms(1)], of mb_ID scan_member join_key "\<lambda>r. (mr_joined_at r, mr_id r)"]
    by (simp add: pg_ListActiveMembersByJoinOrder_def query_rows_def uuid_param_def join_key_def)
qed

lemma ListMessagesBefore_reads:
  assumes "pg_inv d" "sq_uuid srv rid = Some i"
  shows "\<exists>all next. pg_ListMessagesBefore srv d rid before limit = Inr (take (page_limit 50 limit) all, next)
    \<and> lists_sorted (\<lambda>m. - mg_SequenceNo m) (older_messages (pg_abs d) i before) all
    \<and> (next = 0 \<and> length all \<le> page_limit 50 limit
       \<or> page_limit 50 limit \<le> length all \<and> next = mg_SequenceNo (all ! (page_limit 50 limit - 1)))"
proof -
  let ?P = "\<lambda>r. gr_room_id r = i \<and> (0 < before \<longrightarrow> gr_sequence_no r < before)"
  define all where "all = map scan_message (sort_key (\<lambda>r. - gr_sequence_no r) (filter ?P (chat_messages d)))"
  define l where "l = (if limit \<le> 0 then 50 else limit)"
  have l: "0 < l" "page_limit 50 limit = nat l" by (simp_all add: l_def page_limit_def)
  have "older_messages (pg_abs d) i before = scan_message ` {r \<in> set (chat_messages d). ?P r}"
    unfolding older_messages_def ran_tables [OF assms(1)] by auto
  then have s: "lists_sorted (\<lambda>m. - mg_SequenceNo m) (older_messages (pg_abs d) i before) all"
    using lists_sorted_rows [OF pg_invD(7) [OF assms(1)], of mg_ID scan_message "\<lambda>m. - mg_SequenceNo m" "\<lambda>r. - gr_sequence_no r"]
    by (simp add: all_def)
  have run: "pg_ListMessagesBefore srv d rid before limit = Inr (take (nat l) all,
      if int (length (take (nat l) all)) < l then 0 else mg_SequenceNo (last (take (nat l) all)))"
    using assms(2) by (simp add: pg_ListMessagesBefore_def query_rows_def uuid_param_def all_def take_map Let_def l_def)
  have "last (take (nat l) all) = all ! (nat l - 1)" if "nat l \<le> length all"
    using that l(1) by (subst last_conv_nth) (auto simp: min_def)
  moreover have "int (length (take (nat l) all)) < l \<longleftrightarrow> length all < nat l" using l(1) by (simp add: min_def) linarith
  ultimately have "pg_ListMessagesBefore srv d rid before limit = Inr (take (nat l) all,
      if length all < nat l then 0 else mg_SequenceNo (all ! (nat l - 1)))" unfolding run by simp
  then show ?thesis unfolding l(2) using s by (cases "length all < nat l") (auto intro!: exI [of _ all])
qed

lemma ListMessagesAfter_reads:
  assumes "pg_inv d" "sq_uuid srv rid = Some i"
  shows "\<exists>all. pg_ListMessagesAfter srv d rid n limit = Inr (take (page_limit 100 limit) all)
    \<and> lists_sorted mg_SequenceNo (newer_messages (pg_abs d) i n) all"
proof -
  have "newer_messages (pg_abs d) i n = scan_message ` {r \<in> set (chat_messages d). gr_room_id r = i \<and> n < gr_sequence_no r}"
    unfolding newer_messages_def ran_tables [OF assms(1)] by auto
  then show ?thesis
    using lists_sorted_rows [OF pg_invD(7) [OF assms(1)], of mg_ID scan_message mg_SequenceNo gr_sequence_no] assms(2)
    by (intro exI [of _ "map scan_message (sort_key gr_sequence_no (filter (\<lambda>r. gr_room_id r = i \<and> n < gr_sequence_no r) (chat_messages d)))"])
       (simp add: pg_ListMessagesAfter_def query_rows_def uuid_param_def take_map Let_def page_limit_def)
qed

lemma traverse_uuid: "(\<forall>u \<in> set us. sq_uuid srv u = Some u) \<Longrightarrow> traverse (uuid_param srv) us = Inr us"
  by (induction us) (simp_all add: uuid_param_def)

lemma ListActiveDeviceTokens_reads:
  assumes "pg_inv d" "\<forall>u \<in> set us. sq_uuid srv u = Some u"
  shows "\<exists>ts. pg_ListActiveDeviceTokensByUserIDs srv d us = Inr ts
    \<and> lists_sorted (\<lambda>t. (dt_UserID t, text_key srv (dt_DeviceID t)))
        {t. \<exists>u \<in> set us. t \<in> ran (a_devices (pg_abs d) u) \<and> dt_IsActive t \<and> dt_Token t \<noteq> []} ts"
proof -
  have "{t. \<exists>u \<in> set us. t \<in> ran (a_devices (pg_abs d) u) \<and> dt_IsActive t \<and> dt_Token t \<noteq> []} =
      scan_device ` {r \<in> set (chat_device_tokens d). vr_is_active r \<and> vr_token r \<noteq> [] \<and> vr_user_id r \<in> set us}"
    unfolding ran_tables [OF assms(1)] by auto
  then show ?thesis
    using lists_sorted_rows [OF pg_invD(10) [OF assms(1)], of "\<lambda>t. (dt_UserID t, dt_DeviceID t)" scan_device
        "\<lambda>t. (dt_UserID t, text_key srv (dt_DeviceID t))" "\<lambda>r. (vr_user_id r, text_key srv (vr_device_id r))"]
      traverse_uuid [OF assms(2)]
    by (cases "us = []") (simp_all add: pg_ListActiveDeviceTokensByUserIDs_def query_rows_def device_pk_def lists_sorted_def)
qed

end

end
