(* ===== verification/PostgresProperties.thy ===== *)
theory PostgresProperties
  imports PostgresStore StoreProperties GoRunes
begin

text \<open>
  The Postgres repository against the specification that the in-memory store meets: a run of writes answers
  as the abstract store does on the arguments as the columns hold them, and the reads return what that
  store holds.
\<close>

declare mem_abs_sel [simp del]

section \<open>Runs of writes\<close>

fun pg_write :: "server \<Rightarrow> store_write \<Rightarrow> Database \<Rightarrow> store_answer \<times> Database" where
  "pg_write srv (WCreateRoom r) d = answer (\<lambda>_. Done) (pg_CreateRoom srv d r)"
| "pg_write srv (WUpdateRoom r) d = answer (\<lambda>_. Done) (pg_UpdateRoom srv d r)"
| "pg_write srv (WCreateMember m) d = answer (\<lambda>_. Done) (pg_CreateMember srv d m)"
| "pg_write srv (WUpdateMember m) d = answer (\<lambda>_. Done) (pg_UpdateMember srv d m)"
| "pg_write srv (WCreateMessage m) d = answer DoneMessage (pg_CreateMessageWithNextSequence srv d m)"
| "pg_write srv (WUpdateMessage m) d = answer (\<lambda>_. Done) (pg_UpdateMessage srv d m)"
| "pg_write srv (WUpsertDevice t) d = answer DoneDevice (pg_UpsertDeviceToken srv d t)"
| "pg_write srv (WDeactivateDevice u dev now) d = answer (\<lambda>_. Done) (pg_DeactivateDeviceToken srv d u dev now)"

definition right :: "'e + 'a \<Rightarrow> 'a option" where
  "right x = (case x of Inl _ \<Rightarrow> None | Inr y \<Rightarrow> Some y)"

lemma right_Some [simp]: "right x = Some y \<longleftrightarrow> x = Inr y"
  by (simp add: right_def split: sum.split)

text \<open>
  A write as the columns hold its arguments, when they can: identifiers in the canonical form of a
  \<^verbatim>\<open>uuid\<close>, times to the precision of the server, metadata as JSON returns it, the file URL read off the
  metadata. An update leaves identity, time of creation and, for a message, sender, type and number alone.
\<close>

fun as_stored :: "server \<Rightarrow> astore \<Rightarrow> store_write \<Rightarrow> store_write option" where
  "as_stored srv a (WCreateRoom r) = map_option (\<lambda>row. WCreateRoom (scan_room row)) (right (room_values srv r))"
| "as_stored srv a (WUpdateRoom r) = map_option (\<lambda>row. WUpdateRoom ((scan_room row)\<lparr>rm_CreatedAt :=
     (case a_rooms a (rr_id row) of Some r0 \<Rightarrow> rm_CreatedAt r0 | None \<Rightarrow> rr_created_at row)\<rparr>)) (right (room_values srv r))"
| "as_stored srv a (WCreateMember m) = map_option (\<lambda>row. WCreateMember (scan_member row))
     (right (bindS (uuid_param srv (mb_ID m)) (\<lambda>i. member_values srv i m)))"
| "as_stored srv a (WUpdateMember m) = map_option (\<lambda>row. WUpdateMember (case a_members a (mr_room_id row) (mr_user_id row) of
     Some m0 \<Rightarrow> (scan_member row)\<lparr>mb_ID := mb_ID m0, mb_CreatedAt := mb_CreatedAt m0\<rparr> | None \<Rightarrow> scan_member row))
     (right (member_values srv [] m))"
| "as_stored srv a (WCreateMessage m) =
     (case json_Marshal (metadata_value (mg_Metadata m)) of
        Inl _ \<Rightarrow> None
      | Inr meta \<Rightarrow> if sq_text srv (mg_RoomID m)
          then map_option (\<lambda>row. WCreateMessage (scan_message row)) (right (message_values srv empty_database meta m)) else None)"
| "as_stored srv a (WUpdateMessage m) =
     (case json_Marshal (metadata_value (mg_Metadata m)) of
        Inl _ \<Rightarrow> None
      | Inr meta \<Rightarrow> map_option (\<lambda>row. WUpdateMessage (case a_messages a (gr_room_id row) (gr_id row) of
          Some m0 \<Rightarrow> (scan_message row)\<lparr>mg_SenderUserID := mg_SenderUserID m0, mg_MessageType := mg_MessageType m0,
            mg_SequenceNo := mg_SequenceNo m0, mg_CreatedAt := mg_CreatedAt m0\<rparr> | None \<Rightarrow> scan_message row))
          (right (message_update_values srv meta m)))"
| "as_stored srv a (WUpsertDevice t) = map_option (\<lambda>row. WUpsertDevice (scan_device row)) (right (device_values srv t))"
| "as_stored srv a (WDeactivateDevice u dev now) =
     (if sq_text srv dev then map_option (\<lambda>u'. WDeactivateDevice u' dev (sq_time srv now)) (sq_uuid srv u) else None)"

text \<open>\<^verbatim>\<open>CreateMessageWithNextSequence\<close> returns its argument with the number, the others what is stored.\<close>

fun returned :: "store_write \<Rightarrow> store_answer \<Rightarrow> store_answer" where
  "returned (WCreateMessage m) (DoneMessage m') = DoneMessage (m\<lparr>mg_SequenceNo := mg_SequenceNo m'\<rparr>)"
| "returned c x = x"

definition pg_spec :: "server \<Rightarrow> store_write \<Rightarrow> astore \<Rightarrow> store_answer \<times> astore" where
  "pg_spec srv c a =
    (case as_stored srv a c of
       None \<Rightarrow> (Failed (ErrOther []), a)
     | Some c' \<Rightarrow> (returned c (fst (spec_write c' a)), snd (spec_write c' a)))"

text \<open>
  What the constraints of the schema add to the specification: an update does not make a second open room of
  a board, a member is added to an existing room under a new identifier, no device dates from the zero time.
\<close>

definition constraints :: "store_write \<Rightarrow> astore \<Rightarrow> bool" where
  "constraints c a = (case c of
     WUpdateRoom r \<Rightarrow> \<forall>r' \<in> ran (a_rooms a). rm_LinkedBoardID r \<noteq> [] \<and> board_room (rm_LinkedBoardID r) r
       \<and> board_room (rm_LinkedBoardID r) r' \<longrightarrow> rm_ID r' = rm_ID r
   | WCreateMember m \<Rightarrow> a_rooms a (mb_RoomID m) \<noteq> None
       \<and> (\<nexists>rid u m'. a_members a rid u = Some m' \<and> mb_ID m' = mb_ID m)
   | WUpsertDevice t \<Rightarrow> \<forall>old. a_devices a (dt_UserID t) (dt_DeviceID t) = Some old \<longrightarrow> dt_CreatedAt old \<noteq> time_zero
   | _ \<Rightarrow> True)"

definition pg_scope :: "server \<Rightarrow> store_write \<Rightarrow> astore \<Rightarrow> bool" where
  "pg_scope srv c a = (case as_stored srv a c of None \<Rightarrow> False | Some c' \<Rightarrow> in_scope c' a \<and> constraints c' a)"

lemma returned_id: "(\<nexists>m. c = WCreateMessage m) \<Longrightarrow> returned c x = x"
  by (cases c) simp_all

lemma pg_write_refines_simple:
  assumes "as_stored srv a c = Some c'" "\<nexists>m. c = WCreateMessage m"
    and "I (snd (pg_write srv c d)) \<and> spec_write c' a = (fst (pg_write srv c d), A (snd (pg_write srv c d)))"
  shows "I (snd (pg_write srv c d)) \<and> pg_spec srv c a = (fst (pg_write srv c d), A (snd (pg_write srv c d)))"
  using assms by (simp add: pg_spec_def returned_id)

context postgres_server
begin

lemma rooms_write_refines:
  assumes "pg_inv d" "as_stored srv (pg_abs d) c = Some c'" "constraints c' (pg_abs d)" "c = WCreateRoom r \<or> c = WUpdateRoom r"
  shows "pg_inv (snd (pg_write srv c d)) \<and> spec_write c' (pg_abs d) = (fst (pg_write srv c d), pg_abs (snd (pg_write srv c d)))"
  using assms(4)
proof
  assume c: "c = WCreateRoom r"
  then obtain row where row: "room_values srv r = Inr row" "c' = WCreateRoom (scan_room row)" using assms(2) by auto
  show ?thesis unfolding c row(2) pg_write.simps spec_write.simps
    by (rule answer_refines [of _ pg_inv _ pg_abs], rule CreateRoom_refines [OF assms(1) row(1)])
next
  assume c: "c = WUpdateRoom r"
  then obtain row where row: "room_values srv r = Inr row" "c' = WUpdateRoom ((scan_room row)\<lparr>rm_CreatedAt :=
     (case a_rooms (pg_abs d) (rr_id row) of Some r0 \<Rightarrow> rm_CreatedAt r0 | None \<Rightarrow> rr_created_at row)\<rparr>)" using assms(2) by auto
  have b: "board_room x (y\<lparr>rm_CreatedAt := t\<rparr>) = board_room x y" for x y t by (simp add: board_room_def room_open_def)
  show ?thesis unfolding c row(2) pg_write.simps spec_write.simps
    by (rule answer_refines [of _ pg_inv _ pg_abs], rule UpdateRoom_refines [OF assms(1) row(1)], assumption)
       (use assms(3) row(2) in \<open>auto simp: constraints_def b\<close>)
qed

lemma members_write_refines:
  assumes "pg_inv d" "as_stored srv (pg_abs d) c = Some c'" "constraints c' (pg_abs d)" "c = WCreateMember m \<or> c = WUpdateMember m"
  shows "pg_inv (snd (pg_write srv c d)) \<and> spec_write c' (pg_abs d) = (fst (pg_write srv c d), pg_abs (snd (pg_write srv c d)))"
  using assms(4)
proof
  assume c: "c = WCreateMember m"
  then obtain i row where row: "uuid_param srv (mb_ID m) = Inr i" "member_values srv i m = Inr row" "c' = WCreateMember (scan_member row)"
    using assms(2) by (auto simp: bindS_Inr)
  have i: "mr_id row = i" using row(2) by (auto simp: member_values_def bindS_Inr)
  show ?thesis unfolding c row(3) pg_write.simps spec_write.simps
    by (rule answer_refines [of _ pg_inv _ pg_abs], rule CreateMember_refines [OF assms(1) row(1,2)], assumption)
       (use assms(3) row(3) i in \<open>auto simp: constraints_def\<close>)
next
  assume c: "c = WUpdateMember m"
  then obtain row where row: "member_values srv [] m = Inr row"
    "c' = WUpdateMember (case a_members (pg_abs d) (mr_room_id row) (mr_user_id row) of
     Some m0 \<Rightarrow> (scan_member row)\<lparr>mb_ID := mb_ID m0, mb_CreatedAt := mb_CreatedAt m0\<rparr> | None \<Rightarrow> scan_member row)" using assms(2) by auto
  show ?thesis unfolding c row(2) pg_write.simps spec_write.simps
    by (rule answer_refines [of _ pg_inv _ pg_abs], rule UpdateMember_refines [OF assms(1) row(1)])
qed

lemma devices_write_refines:
  assumes "pg_inv d" "as_stored srv (pg_abs d) c = Some c'" "constraints c' (pg_abs d)"
    "c = WUpsertDevice t \<or> c = WDeactivateDevice u dev now"
  shows "pg_inv (snd (pg_write srv c d)) \<and> spec_write c' (pg_abs d) = (fst (pg_write srv c d), pg_abs (snd (pg_write srv c d)))"
  using assms(4)
proof
  assume c: "c = WUpsertDevice t"
  then obtain row where row: "device_values srv t = Inr row" "c' = WUpsertDevice (scan_device row)" using assms(2) by auto
  show ?thesis unfolding c row(2) pg_write.simps spec_write.simps
    by (rule answer_refines [of _ pg_inv _ pg_abs], rule UpsertDeviceToken_refines [OF assms(1) row(1)], assumption)
       (use assms(3) row(2) in \<open>auto simp: constraints_def\<close>)
next
  assume c: "c = WDeactivateDevice u dev now"
  then obtain u' where u': "sq_uuid srv u = Some u'" "sq_text srv dev" "c' = WDeactivateDevice u' dev (sq_time srv now)"
    using assms(2) by (auto split: if_splits)
  show ?thesis unfolding c u'(3) pg_write.simps spec_write.simps
    by (rule answer_refines [of _ pg_inv _ pg_abs], rule DeactivateDeviceToken_refines [OF assms(1) u'(1,2)])
qed

lemma create_message_refines:
  assumes "pg_inv d" "as_stored srv (pg_abs d) (WCreateMessage m) = Some c'" "in_scope c' (pg_abs d)"
  shows "pg_inv (snd (pg_write srv (WCreateMessage m) d)) \<and> pg_spec srv (WCreateMessage m) (pg_abs d) =
    (fst (pg_write srv (WCreateMessage m) d), pg_abs (snd (pg_write srv (WCreateMessage m) d)))"
proof -
  obtain meta row where row: "json_Marshal (metadata_value (mg_Metadata m)) = Inr meta" "sq_text srv (mg_RoomID m)"
    "message_values srv empty_database meta m = Inr row" "c' = WCreateMessage (scan_message row)"
    using assms(2) by (auto split: sum.splits if_splits)
  obtain x d' where run: "pg_CreateMessageWithNextSequence srv d m = (x, d')" by fastforce
  have "fresh_message_id (pg_abs d) (gr_id row)" "int64_range (a_maxSeq (pg_abs d) (gr_room_id row) + 1)"
    using assms(3) row(4) by (simp_all add: in_scope_def)
  from CreateMessage_refines [OF assms(1) row(1-3) this run] obtain y where y: "pg_inv d'"
    "spec_CreateMessage (scan_message row) (pg_abs d) = (y, pg_abs d')" "x = map_sum id (\<lambda>m'. m\<lparr>mg_SequenceNo := mg_SequenceNo m'\<rparr>) y"
    by blast
  show ?thesis using y run assms(2) row(4) by (cases y) (simp_all add: pg_spec_def answer_def)
qed

lemma update_message_refines:
  assumes "pg_inv d" "as_stored srv (pg_abs d) (WUpdateMessage m) = Some c'"
  shows "pg_inv (snd (pg_write srv (WUpdateMessage m) d)) \<and> spec_write c' (pg_abs d) =
    (fst (pg_write srv (WUpdateMessage m) d), pg_abs (snd (pg_write srv (WUpdateMessage m) d)))"
proof -
  obtain meta row where row: "json_Marshal (metadata_value (mg_Metadata m)) = Inr meta"
    "message_update_values srv meta m = Inr row" "c' = WUpdateMessage (case a_messages (pg_abs d) (gr_room_id row) (gr_id row) of
          Some m0 \<Rightarrow> (scan_message row)\<lparr>mg_SenderUserID := mg_SenderUserID m0, mg_MessageType := mg_MessageType m0,
            mg_SequenceNo := mg_SequenceNo m0, mg_CreatedAt := mg_CreatedAt m0\<rparr> | None \<Rightarrow> scan_message row)"
    using assms(2) by (auto split: sum.splits)
  show ?thesis unfolding row(3) pg_write.simps spec_write.simps
    by (rule answer_refines [of _ pg_inv _ pg_abs], rule UpdateMessage_refines [OF assms(1) row(1,2)])
qed

lemma pg_write_refines:
  assumes "pg_inv d" "pg_scope srv c (pg_abs d)"
  shows "pg_inv (snd (pg_write srv c d)) \<and> pg_spec srv c (pg_abs d) = (fst (pg_write srv c d), pg_abs (snd (pg_write srv c d)))"
proof -
  obtain c' where c': "as_stored srv (pg_abs d) c = Some c'" "in_scope c' (pg_abs d)" "constraints c' (pg_abs d)"
    using assms(2) by (auto simp: pg_scope_def split: option.splits)
  show ?thesis
  proof (cases "\<exists>m. c = WCreateMessage m")
    case True
    then show ?thesis using create_message_refines [OF assms(1)] c' by blast
  next
    case False
    show ?thesis
      by (rule pg_write_refines_simple [OF c'(1) False])
         (use False c' rooms_write_refines [OF assms(1) c'(1,3)] members_write_refines [OF assms(1) c'(1,3)]
            devices_write_refines [OF assms(1) c'(1,3)] update_message_refines [OF assms(1)] in \<open>cases c; blast\<close>)
  qed
qed

end

sublocale postgres_server \<subseteq> writes: store_refinement "pg_write srv" "pg_spec srv" "pg_scope srv" pg_abs pg_inv
  by unfold_locales (rule pg_write_refines)

text \<open>What the reads of the repository return of an abstract store. A text that is no \<^verbatim>\<open>uuid\<close> is an error.\<close>

definition room_reads :: "server \<Rightarrow> Database \<Rightarrow> astore \<Rightarrow> bool" where
  "room_reads srv d a \<longleftrightarrow> (\<forall>s i. sq_uuid srv s = Some i \<longrightarrow>
     pg_GetRoom srv d s = lookup_or ErrNotFound (a_rooms a i)
   \<and> (case pg_GetActiveBoardLinkedRoom srv d s of
        Inr r \<Rightarrow> r \<in> ran (a_rooms a) \<and> board_room i r
      | Inl e \<Rightarrow> e = ErrNotFound \<and> (\<forall>r \<in> ran (a_rooms a). \<not> board_room i r))
   \<and> (\<exists>ms. pg_ListActiveMembersByJoinOrder srv d s = Inr ms \<and> lists_sorted join_key (active_members a i) ms)
   \<and> (\<forall>t j. sq_uuid srv t = Some j \<longrightarrow> pg_GetMember srv d s t = lookup_or ErrNotFound (a_members a i j)))"

definition message_reads :: "server \<Rightarrow> Database \<Rightarrow> astore \<Rightarrow> bool" where
  "message_reads srv d a \<longleftrightarrow> (\<forall>s i. sq_uuid srv s = Some i \<longrightarrow>
     (\<forall>t j. sq_uuid srv t = Some j \<longrightarrow> pg_GetMessage srv d s t = lookup_or ErrNotFound (a_messages a i j))
   \<and> (\<forall>n limit. \<exists>all next. pg_ListMessagesBefore srv d s n limit = Inr (take (page_limit 50 limit) all, next)
        \<and> lists_sorted (\<lambda>m. - mg_SequenceNo m) (older_messages a i n) all
        \<and> (next = 0 \<and> length all \<le> page_limit 50 limit
           \<or> page_limit 50 limit \<le> length all \<and> next = mg_SequenceNo (all ! (page_limit 50 limit - 1))))
   \<and> (\<forall>n limit. \<exists>all. pg_ListMessagesAfter srv d s n limit = Inr (take (page_limit 100 limit) all)
        \<and> lists_sorted mg_SequenceNo (newer_messages a i n) all))"

definition device_reads :: "server \<Rightarrow> Database \<Rightarrow> astore \<Rightarrow> bool" where
  "device_reads srv d a \<longleftrightarrow> (\<forall>us. (\<forall>u \<in> set us. sq_uuid srv u = Some u) \<longrightarrow>
     (\<exists>ts. pg_ListActiveDeviceTokensByUserIDs srv d us = Inr ts
        \<and> lists_sorted (\<lambda>t. (dt_UserID t, text_key srv (dt_DeviceID t)))
            {t. \<exists>u \<in> set us. t \<in> ran (a_devices a u) \<and> dt_IsActive t \<and> dt_Token t \<noteq> []} ts))"

context postgres_server
begin

lemmas writes_refine = writes.run_refines

lemma reads:
  assumes "pg_inv d"
  shows "room_reads srv d (pg_abs d)" "message_reads srv d (pg_abs d)" "device_reads srv d (pg_abs d)"
proof -
  show "room_reads srv d (pg_abs d)"
    unfolding room_reads_def
    by (intro allI impI conjI GetRoom_reads GetActiveBoardLinkedRoom_reads [OF assms] ListActiveMembers_reads [OF assms] GetMember_reads)
  show "message_reads srv d (pg_abs d)"
    unfolding message_reads_def
    by (intro allI impI conjI GetMessage_reads ListMessagesBefore_reads [OF assms] ListMessagesAfter_reads [OF assms])
  show "device_reads srv d (pg_abs d)"
    unfolding device_reads_def by (intro allI impI ListActiveDeviceTokens_reads [OF assms])
qed

end

text \<open>
  C39. The Postgres repository implements the abstract store: any run of writes whose arguments fit the
  columns and respect the constraints of the schema, started in tables that satisfy it, gives the answers
  that the specification gives on the arguments as the columns hold them, errors included; the schema holds
  in the end, and every read then returns what the specification's final state holds. The server executes
  the statements, marks unique violations as such and prints a \<^verbatim>\<open>uuid\<close> in a form it reads as the same.
\<close>

theorem postgres_refines:
  assumes "postgres_server srv" and "pg_inv d" and "writes_in_scope (pg_scope srv) (pg_spec srv) cs (pg_abs d)"
  shows "\<exists>a d'. run_writes (pg_spec srv) cs (pg_abs d) = (fst (run_writes (pg_write srv) cs d), a)
    \<and> d' = snd (run_writes (pg_write srv) cs d) \<and> pg_inv d'
    \<and> room_reads srv d' a \<and> message_reads srv d' a \<and> device_reads srv d' a"
proof -
  let ?d = "snd (run_writes (pg_write srv) cs d)"
  from postgres_server.writes_refine [OF assms]
  have "run_writes (pg_spec srv) cs (pg_abs d) = (fst (run_writes (pg_write srv) cs d), pg_abs ?d)" "pg_inv ?d" by simp_all
  with postgres_server.reads [OF assms(1), of ?d] show ?thesis by (intro exI [of _ "pg_abs ?d"] exI [of _ ?d] conjI refl)
qed

section \<open>A server\<close>

text \<open>
  A server that reads a \<^verbatim>\<open>uuid\<close> in its usual notation, in upper or lower case, keeps microseconds,
  stores JSON values as they are and collates by bytes.
\<close>

definition uuid_digit :: "char \<Rightarrow> bool" where
  "uuid_digit c \<longleftrightarrow> ascii_lower c \<in> set ''0123456789abcdef''"

definition is_uuid :: "string \<Rightarrow> bool" where
  "is_uuid s \<longleftrightarrow> length s = 36
     \<and> list_all (\<lambda>i. if i \<in> {8, 13, 18, 23} then s ! i = CHR ''-'' else uuid_digit (s ! i)) [0..<36]"

fun error_state :: "pg_error \<Rightarrow> string" where
  "error_state (UniqueViolation c) = ''ERROR: duplicate key value violates unique constraint (SQLSTATE 23505)''"
| "error_state (ForeignKeyViolation c) = ''ERROR: insert violates foreign key constraint (SQLSTATE 23503)''"
| "error_state (CheckViolation c) = ''ERROR: new row violates check constraint (SQLSTATE 23514)''"
| "error_state (InvalidUuid s) = ''ERROR: invalid input syntax for type uuid (SQLSTATE 22P02)''"
| "error_state (InvalidEnum s) = ''ERROR: invalid input value for enum (SQLSTATE 22P02)''"
| "error_state InvalidText = ''ERROR: invalid byte sequence for encoding (SQLSTATE 22021)''"
| "error_state StringTooLong = ''ERROR: value too long for type character varying(120) (SQLSTATE 22001)''"
| "error_state InvalidJson = ''ERROR: unsupported Unicode escape sequence (SQLSTATE 22P05)''"
| "error_state OutOfRange = ''ERROR: bigint out of range (SQLSTATE 22003)''"
| "error_state NegativeLimit = ''ERROR: LIMIT must not be negative (SQLSTATE 2201W)''"

definition reference_server :: server where
  "reference_server = \<lparr>sq_fault = (\<lambda>_. None), sq_error = error_state,
     sq_uuid = (\<lambda>s. if is_uuid s then Some (map ascii_lower s) else None),
     sq_text = (\<lambda>s. ValidString s \<and> char_of (0 :: nat) \<notin> set s), sq_time = (\<lambda>t. t div 1000 * 1000),
     sq_jsonb = Some, sq_collate = (\<lambda>s. s)\<rparr>"

lemma ascii_lower_idem [simp]: "ascii_lower (ascii_lower c) = ascii_lower c"
  by (auto simp: ascii_lower_def is_upper_def)

lemma is_uuid_lower:
  assumes "is_uuid s"
  shows "is_uuid (map ascii_lower s)"
proof -
  have len: "length s = 36" using assms by (simp add: is_uuid_def)
  have "if i \<in> {8, 13, 18, 23} then map ascii_lower s ! i = CHR ''-'' else uuid_digit (map ascii_lower s ! i)" if "i < 36" for i
  proof -
    have "if i \<in> {8, 13, 18, 23} then s ! i = CHR ''-'' else uuid_digit (s ! i)"
      using assms that unfolding is_uuid_def list_all_iff by simp
    moreover have "map ascii_lower s ! i = ascii_lower (s ! i)" using that len by simp
    moreover have "ascii_lower (CHR ''-'') = CHR ''-''" by code_simp
    ultimately show ?thesis by (simp add: uuid_digit_def split: if_splits)
  qed
  with len show ?thesis unfolding is_uuid_def list_all_iff by (auto simp only: length_map set_upt atLeastLessThan_iff)
qed

interpretation reference: postgres_server reference_server
proof
  show "isUniqueViolation (sq_error reference_server (UniqueViolation c))" for c
  proof -
    have "Contains (error_state (UniqueViolation c)) ''23505''" by (simp add: HasPrefix_def)
    then show ?thesis by (simp add: isUniqueViolation_def reference_server_def)
  qed
  show "u \<noteq> [] \<and> sq_uuid reference_server u = Some u" if "sq_uuid reference_server s = Some u" for s u
  proof -
    have s: "is_uuid s" "u = map ascii_lower s" using that by (simp_all add: reference_server_def split: if_splits)
    then have "length u = 36" by (simp add: is_uuid_def)
    moreover have "sq_uuid reference_server u = Some (map ascii_lower u)" using is_uuid_lower [OF s(1)] s(2) by (simp add: reference_server_def)
    moreover have "map ascii_lower u = u" using s(2) by simp
    ultimately show ?thesis by auto
  qed
qed (simp add: reference_server_def)

lemma char_lower_digit: "ascii_lower c = c" if "c \<in> set ''0123456789-''"
  using that by (auto simp: ascii_lower_def is_upper_def)

text \<open>Identifiers for examples.\<close>

definition id_of :: "char \<Rightarrow> string" where
  "id_of c = ''00000000-0000-4000-8000-00000000000'' @ [c]"

lemma reference_id: "c \<in> set ''0123456789'' \<Longrightarrow> sq_uuid reference_server (id_of c) = Some (id_of c)"
proof -
  assume c: "c \<in> set ''0123456789''"
  have l: "map ascii_lower (id_of c) = id_of c" using c by (auto simp: id_of_def char_lower_digit)
  have "uuid_digit x" if "x \<in> set ''0123456789''" for x using that char_lower_digit [of x] by (auto simp: uuid_digit_def)
  then have "is_uuid (id_of c)" using c by (auto simp: is_uuid_def id_of_def upt_rec)
  with l show ?thesis by (simp add: reference_server_def)
qed

definition example_room :: ChatRoom where
  "example_room = \<lparr>rm_ID = id_of (CHR ''1''), rm_RoomType = RoomTypeGeneralGroup, rm_Title = [], rm_LinkedBoardID = [],
     rm_OwnerUserID = id_of (CHR ''2''), rm_IsActive = True, rm_CreatedAt = 1234, rm_UpdatedAt = 5678, rm_DeletedAt = None\<rparr>"

definition example_row :: room_row where
  "example_row = \<lparr>rr_id = id_of (CHR ''1''), rr_room_type = RoomTypeGeneralGroup, rr_title = [], rr_linked_board_id = None,
     rr_owner_user_id = id_of (CHR ''2''), rr_is_active = True, rr_deleted_at = None, rr_created_at = 1000, rr_updated_at = 5000\<rparr>"

lemma example_values: "room_values reference_server example_room = Inr example_row"
proof -
  have "ValidString []" "runes [] = []" by (simp_all add: ValidString_def runes_def valid_utf8_bytes.simps runes_of_bytes.simps)
  moreover have "sq_text reference_server [] = ValidString []" "sq_time reference_server 1234 = 1000" "sq_time reference_server 5678 = 5000"
    by (simp_all add: reference_server_def)
  ultimately show ?thesis
    using reference_id by (simp add: room_values_def example_room_def example_row_def uuid_param_def uuid_or_null_def
        varchar_param_def text_param_def)
qed

theorem postgres_refines_witness:
  "fst (run_writes (pg_write reference_server) [WCreateRoom example_room, WCreateRoom example_room] empty_database)
     = [Done, Failed ErrAlreadyExists]
   \<and> pg_GetRoom reference_server
       (snd (run_writes (pg_write reference_server) [WCreateRoom example_room, WCreateRoom example_room] empty_database)) (id_of (CHR ''1''))
     = Inr (example_room\<lparr>rm_CreatedAt := 1000, rm_UpdatedAt := 5000\<rparr>)"
proof -
  let ?cs = "[WCreateRoom example_room, WCreateRoom example_room]"
  let ?r = "example_room\<lparr>rm_CreatedAt := 1000, rm_UpdatedAt := 5000\<rparr>"
  have st: "as_stored reference_server a (WCreateRoom example_room) = Some (WCreateRoom ?r)" for a
    by (simp add: example_values right_def) (simp add: scan_room_def example_room_def example_row_def)
  have e: "pg_abs empty_database = \<lparr>a_rooms = \<lambda>_. None, a_members = \<lambda>_ _. None, a_messages = \<lambda>_ _. None, a_maxSeq = \<lambda>_. 0, a_devices = \<lambda>_ _. None\<rparr>"
    by (simp add: pg_abs_def empty_database_def max_sequence_no_def)
  have sc: "writes_in_scope (pg_scope reference_server) (pg_spec reference_server) ?cs (pg_abs empty_database)"
    by (simp add: pg_scope_def st in_scope_def constraints_def del: as_stored.simps)
  have run: "run_writes (pg_spec reference_server) ?cs (pg_abs empty_database) =
      ([Done, Failed ErrAlreadyExists], (pg_abs empty_database)\<lparr>a_rooms := [id_of (CHR ''1'') \<mapsto> ?r]\<rparr>)"
  proof -
    have r: "rm_ID ?r = id_of (CHR ''1'')" "rm_RoomType ?r = RoomTypeGeneralGroup" by (simp_all add: example_room_def)
    show ?thesis unfolding e
      by (simp add: pg_spec_def st spec_CreateRoom_def answer_def board_room_def split_beta r del: as_stored.simps)
  qed
  from postgres_refines [OF reference.postgres_server_axioms pg_inv_empty sc] run obtain d' where
    d': "fst (run_writes (pg_write reference_server) ?cs empty_database) = [Done, Failed ErrAlreadyExists]"
    "d' = snd (run_writes (pg_write reference_server) ?cs empty_database)"
    "room_reads reference_server d' ((pg_abs empty_database)\<lparr>a_rooms := [id_of (CHR ''1'') \<mapsto> ?r]\<rparr>)" by auto
  then have "pg_GetRoom reference_server d' (id_of (CHR ''1'')) = Inr ?r"
    using reference_id [of "CHR ''1''"] unfolding room_reads_def by simp
  with d' show ?thesis by simp
qed

end
