(* ===== verification/Smoke.thy ===== *)
theory Smoke
  imports Startup PostgresProperties
begin

text \<open>
  \<^verbatim>\<open>cmd/smoke\<close>: the client that operators run against a server, in the mode \<^verbatim>\<open>smoke\<close> (one round through the
  main requests) or \<^verbatim>\<open>chat\<close>. A client is the pair of its unary calls and of opening a stream; the text of
  an error is a parameter, and so is the client's own clock. A call of \<^verbatim>\<open>log.Fatalf\<close> ends the program with its
  text. The theorem at the end composes all parts: the client of a process that was started in the mode
  \<^verbatim>\<open>dev\<close> passes.
\<close>

section \<open>The client\<close>

record 's ChatServiceClient =
  cl_unary :: "rpc \<Rightarrow> 's handler"
  cl_StreamMessages :: "string \<Rightarrow> string \<Rightarrow> int \<Rightarrow> ('s world, status, unit) prog"
  cl_error_text :: "status \<Rightarrow> string"

definition must :: "'s ChatServiceClient \<Rightarrow> string \<Rightarrow> ('s world, status, 'a) prog \<Rightarrow> ('s world, string, 'a) prog" where
  "must client step m w =
    (case m w of
       (Inl err, w') \<Rightarrow> (Inl (step @ '' failed: '' @ cl_error_text client err), w')
     | (Inr x, w') \<Rightarrow> (Inr x, w'))"

text \<open>The getters of the responses; a missing field reads as its zero value.\<close>

fun response_room_id :: "reply \<Rightarrow> string" where
  "response_room_id (CreateRoomResponse room) = pbr_RoomId room"
| "response_room_id _ = []"

fun response_message_id :: "reply \<Rightarrow> string" where
  "response_message_id (SendMessageResponse msg) = pbc_MessageId msg"
| "response_message_id _ = []"

fun response_sequence_no :: "reply \<Rightarrow> int" where
  "response_sequence_no (SendMessageResponse msg) = pbc_SequenceNo msg"
| "response_sequence_no _ = 0"

fun response_messages :: "reply \<Rightarrow> pb_ChatMessage list" where
  "response_messages (GetMessagesResponse msgs _) = msgs"
| "response_messages _ = []"

definition smoke_pass :: "string \<Rightarrow> string \<Rightarrow> string \<Rightarrow> string \<Rightarrow> string \<Rightarrow> string" where
  "smoke_pass addr roomID messageID memberID member2ID = ''SMOKE PASS addr='' @ addr @ '' room_id='' @ roomID
     @ '' message_id='' @ messageID @ '' member1='' @ memberID @ '' member2='' @ member2ID"

text \<open>\<open>unixNow\<close> is \<^verbatim>\<open>time.Now().Unix()\<close> of the client.\<close>

definition runSmoke ::
  "'s ChatServiceClient \<Rightarrow> int \<Rightarrow> string \<Rightarrow> string \<Rightarrow> string \<Rightarrow> string \<Rightarrow> ('s world, string, string) prog" where
  "runSmoke client unixNow addr ownerID memberID member2ID =
    bindP (must client ''CreateRoom'' (cl_unary client (CreateRoomRequest ownerID (''smoke-'' @ FormatInt unixNow)))) (\<lambda>roomResp.
    let roomID = response_room_id roomResp in
    if roomID = [] then fail ''CreateRoom returned empty room_id''
    else
    bindP (must client ''JoinRoom member1'' (cl_unary client (JoinRoomRequest roomID memberID))) (\<lambda>_.
    bindP (must client ''JoinRoom member2'' (cl_unary client (JoinRoomRequest roomID member2ID))) (\<lambda>_.
    bindP (must client ''SendMessage'' (cl_unary client
       (SendMessageRequest roomID ownerID MESSAGE_TYPE_TEXT ''smoke-check'' [] [] None))) (\<lambda>sendResp.
    let messageID = response_message_id sendResp in
    if messageID = [] then fail ''SendMessage returned empty message_id''
    else
    bindP (must client ''GetMessages'' (cl_unary client (GetMessagesRequest roomID ownerID 0 20))) (\<lambda>getResp.
    case response_messages getResp of
      [] \<Rightarrow> fail ''GetMessages returned no messages''
    | latest # _ \<Rightarrow>
       if pbc_MessageId latest \<noteq> messageID
       then fail (''GetMessages latest message mismatch: expected='' @ messageID @ '' got='' @ pbc_MessageId latest)
       else
       bindP (must client ''MarkAsRead'' (cl_unary client
          (MarkAsReadRequest roomID ownerID (response_sequence_no sendResp)))) (\<lambda>_.
       ok (smoke_pass addr roomID messageID memberID member2ID)))))))"

section \<open>Chatting\<close>

definition sendTextMessage :: "'s ChatServiceClient \<Rightarrow> string \<Rightarrow> string \<Rightarrow> string \<Rightarrow> ('s world, string, unit) prog" where
  "sendTextMessage client roomID userID content =
    bindP (must client ''SendMessage'' (cl_unary client
      (SendMessageRequest roomID userID MESSAGE_TYPE_TEXT content [] [] None))) (\<lambda>_. ok ())"

definition renderMessage :: "pb_ChatMessage \<Rightarrow> string" where
  "renderMessage msg =
    (if pbc_IsDeleted msg then ''[deleted]''
     else if pbc_MessageType msg = MESSAGE_TYPE_IMAGE \<and> pbc_ImageUrl msg \<noteq> [] then ''[image] '' @ pbc_ImageUrl msg
     else pbc_Content msg)"

text \<open>
  The goroutine that prints what the stream delivers. \<open>stream_end\<close> is how the stream ends: \<open>None\<close> for \<^verbatim>\<open>io.EOF\<close>;
  \<open>interrupted\<close> says whether the context was done by then. The result are the printed lines, the log and
  whether the client is told to stop.
\<close>

definition printed_line :: "pb_ChatMessage \<Rightarrow> string" where
  "printed_line msg = ''['' @ FormatInt (pbc_SequenceNo msg) @ ''] '' @ pbc_SenderUserId msg @ '': '' @ renderMessage msg @ [CHR 0x0A]"

fun recv_loop ::
  "'s ChatServiceClient \<Rightarrow> bool \<Rightarrow> status option \<Rightarrow> pb_ChatMessage list \<Rightarrow> string list \<times> string list \<times> bool" where
  "recv_loop client interrupted stream_end [] =
    (case stream_end of
       None \<Rightarrow> ([], [], False)
     | Some err \<Rightarrow> if interrupted then ([], [], False)
                   else ([], [''stream recv failed: '' @ cl_error_text client err], True))"
| "recv_loop client interrupted stream_end (msg # msgs) =
    (case recv_loop client interrupted stream_end msgs of (out, logs, stop) \<Rightarrow> (printed_line msg # out, logs, stop))"

text \<open>
  The lines of the standard input up to the point where the scanner or the context ends; \<open>scan_end\<close> says which.
  The result is the log.
\<close>

datatype scan_end = Interrupted | ScanEnd "string option"

fun send_lines :: "'s ChatServiceClient \<Rightarrow> string \<Rightarrow> string \<Rightarrow> scan_end \<Rightarrow> string list \<Rightarrow> ('s world, string, string list) prog" where
  "send_lines client roomID userID fin [] =
    ok (case fin of ScanEnd (Some err) \<Rightarrow> [''stdin read failed: '' @ err] | _ \<Rightarrow> [])"
| "send_lines client roomID userID fin (text # lines) =
    (let line = TrimSpace text in
     if line = [] then send_lines client roomID userID fin lines
     else bindP (sendTextMessage client roomID userID line) (\<lambda>_. send_lines client roomID userID fin lines))"

definition runChat ::
  "'s ChatServiceClient \<Rightarrow> string \<Rightarrow> string \<Rightarrow> bool \<Rightarrow> string \<Rightarrow> int \<Rightarrow> scan_end \<Rightarrow> string list \<Rightarrow> ('s world, string, string list) prog" where
  "runChat client roomID userID join message afterSequenceNo fin input =
    (if roomID = [] then fail ''chat mode requires -room''
     else
     bindP (if join then bindP (must client ''JoinRoom'' (cl_unary client (JoinRoomRequest roomID userID))) (\<lambda>_. ok ()) else ok ()) (\<lambda>_.
     if message \<noteq> [] then
       bindP (sendTextMessage client roomID userID message) (\<lambda>_. ok [''sent as '' @ userID @ '' to room '' @ roomID])
     else
     bindP (must client ''StreamMessages'' (cl_StreamMessages client roomID userID afterSequenceNo)) (\<lambda>_.
     bindP (send_lines client roomID userID fin input) (\<lambda>logs.
     ok ([''chat mode ready room='' @ roomID @ '' user='' @ userID, ''type a message and press Enter; Ctrl+C exits''] @ logs)))))"

text \<open>Blank lines and the space around a line make no difference; what the stream delivered is printed in its order.\<close>

lemma send_lines_trimmed:
  "send_lines client roomID userID fin lines
    = send_lines client roomID userID fin (filter (\<lambda>l. l \<noteq> []) (map TrimSpace lines))"
  by (induction lines) (simp_all add: Let_def)

lemma recv_loop_output: "fst (recv_loop client interrupted stream_end msgs) = map printed_line msgs"
  by (induction msgs) (simp_all split: option.split prod.split_asm prod.split, metis fst_conv)

section \<open>The program\<close>

record smoke_flags =
  sf_addr :: string
  sf_mode :: string
  sf_owner :: string
  sf_member :: string
  sf_member2 :: string
  sf_room :: string
  sf_user :: string
  sf_join :: bool
  sf_message :: string
  sf_afterSequenceNo :: int

text \<open>The values of the flags that are not given.\<close>

definition smoke_defaults :: "environment \<Rightarrow> smoke_flags" where
  "smoke_defaults env' = \<lparr>sf_addr = envOrDefault env' ''CHAT_SERVICE_SMOKE_ADDR'' ''localhost:9090'', sf_mode = ''smoke'',
     sf_owner = ''11111111-1111-1111-1111-111111111111'', sf_member = ''22222222-2222-2222-2222-222222222222'',
     sf_member2 = ''33333333-3333-3333-3333-333333333333'', sf_room = [], sf_user = ''33333333-3333-3333-3333-333333333333'',
     sf_join = True, sf_message = [], sf_afterSequenceNo = 0\<rparr>"

definition smoke_main ::
  "(string \<Rightarrow> string + 's ChatServiceClient) \<Rightarrow> int \<Rightarrow> scan_end \<Rightarrow> string list \<Rightarrow> smoke_flags
     \<Rightarrow> ('s world, string, string list) prog" where
  "smoke_main dial unixNow fin input fl =
    (case dial (sf_addr fl) of
       Inl err \<Rightarrow> fail (''dial failed: '' @ err)
     | Inr client \<Rightarrow>
        if sf_mode fl = ''smoke'' then
          bindP (runSmoke client unixNow (sf_addr fl) (sf_owner fl) (sf_member fl) (sf_member2 fl)) (\<lambda>line. ok [line])
        else if sf_mode fl = ''chat'' then
          runChat client (sf_room fl) (sf_user fl) (sf_join fl) (sf_message fl) (sf_afterSequenceNo fl) fin input
        else fail (''unsupported mode: '' @ sf_mode fl))"

section \<open>Identifiers that a run draws\<close>

definition drawn :: "genv \<Rightarrow> nat \<Rightarrow> string" where
  "drawn g k = fst (id_New (g\<lparr>draws := draws g + k\<rparr>))"

text \<open>The next \<open>n\<close> identifiers are in use neither for a room nor for a message.\<close>

definition fresh_ids :: "astore \<Rightarrow> genv \<Rightarrow> nat \<Rightarrow> bool" where
  "fresh_ids a g n \<longleftrightarrow> (\<forall>k < n. a_rooms a (drawn g k) = None \<and> fresh_message_id a (drawn g k))"

definition draws_within :: "nat \<Rightarrow> 's world \<Rightarrow> 's world \<Rightarrow> bool" where
  "draws_within n w w' \<longleftrightarrow> entropy (w_env w') = entropy (w_env w)
     \<and> draws (w_env w) \<le> draws (w_env w') \<and> draws (w_env w') \<le> draws (w_env w) + n"

definition draws_at_most :: "nat \<Rightarrow> ('s world, error, 'a) prog \<Rightarrow> bool" where
  "draws_at_most n m \<longleftrightarrow> (\<forall>w. draws_within n w (after m w))"

lemma draws_within_trans: "draws_within a w w1 \<Longrightarrow> draws_within b w1 w2 \<Longrightarrow> draws_within (a + b) w w2"
  by (simp add: draws_within_def)

lemma draws_at_most_bindP:
  assumes "draws_at_most a m" "\<And>x. draws_at_most b (f x)"
  shows "draws_at_most (a + b) (bindP m f)"
  unfolding draws_at_most_def
proof
  fix w
  have m: "draws_within a w (snd (m w))" using assms(1) by (simp add: draws_at_most_def after_def)
  show "draws_within (a + b) w (after (bindP m f) w)"
  proof (cases "fst (m w)")
    case (Inl e)
    with m show ?thesis by (simp add: after_def bindP_run draws_within_def)
  next
    case (Inr x)
    have "draws_within b (snd (m w)) (snd (f x (snd (m w))))" using assms(2) by (simp add: draws_at_most_def after_def)
    from draws_within_trans [OF m this] Inr show ?thesis by (simp add: after_def bindP_run)
  qed
qed

lemma draws_at_most_simps [simp]:
  "draws_at_most n (ok x)" "draws_at_most n (fail e)" "draws_at_most n (view h)" "draws_at_most n (db f)"
  "draws_at_most n (env time_Now)" "0 < n \<Longrightarrow> draws_at_most n (env id_New)"
  by (simp_all add: draws_at_most_def draws_within_def after_def view_def db_def env_def time_Now_def id_New_def split: prod.split)

lemma draws_at_most_attempt: "draws_at_most n m \<Longrightarrow> draws_at_most n (attempt m)"
  by (simp add: draws_at_most_def after_def attempt_run)

lemma tx_env: "w_env (snd (tx svc m w)) = w_env (snd (m w))"
  by (simp add: tx_def WithTx_def split: prod.split sum.split)

lemma draws_at_most_tx: "draws_at_most n m \<Longrightarrow> draws_at_most n (tx svc m)"
  by (simp add: draws_at_most_def draws_within_def after_def tx_env)

lemma draws_at_most_seq:
  "(\<And>x. draws_at_most n (f x)) \<Longrightarrow> draws_at_most n (bindP (view h) f)"
  "(\<And>x. draws_at_most n (f' x)) \<Longrightarrow> draws_at_most n (bindP (attempt (view h)) f')"
  "(\<And>x. draws_at_most n (k x)) \<Longrightarrow> draws_at_most n (bindP (env time_Now) k)"
  "(\<And>x. draws_at_most n (l x)) \<Longrightarrow> draws_at_most n (bindP (db d) l)"
  "(\<And>x. draws_at_most n (k' x)) \<Longrightarrow> draws_at_most (Suc n) (bindP (env id_New) k')"
  by (rule draws_at_most_bindP [of 0 _ n, simplified], simp_all add: draws_at_most_attempt)+
     (rule draws_at_most_bindP [of 1 _ n, simplified], simp_all)

lemma draws_CreateRoom: "draws_at_most 2 (svc_CreateRoom svc u title)"
proof -
  have "draws_at_most (0 + (1 + (1 + ((0 + 0) + 0)))) (svc_CreateRoom svc u title)"
    unfolding svc_CreateRoom_def Let_def by (intro draws_at_most_bindP draws_at_most_tx) simp_all
  then show ?thesis by (simp add: numeral_2_eq_2)
qed

lemma draws_JoinRoom: "draws_at_most 1 (svc_JoinRoom svc rid u)"
  unfolding svc_JoinRoom_def Let_def One_nat_def
  by (intro draws_at_most_seq) (auto intro!: draws_at_most_seq split: sum.split MemberStatus.split)

lemma next_message_drawn:
  assumes "draws_within k w w'"
  shows "\<exists>i \<le> k. next_message_id w' = drawn (w_env w) i"
proof -
  have "entropy (snd (time_Now (w_env w'))) = entropy (w_env w)" "draws (snd (time_Now (w_env w'))) = draws (w_env w')"
    using assms by (simp_all add: draws_within_def time_Now_def)
  then show ?thesis
    using assms by (intro exI [of _ "draws (w_env w') - draws (w_env w)"])
      (simp add: draws_within_def next_message_id_def drawn_def id_New_def le_diff_conv add.commute)
qed

section \<open>A run of the smoke test\<close>

lemma wp_and_after:
  assumes "wp m E Q w" "P (after m w)"
  shows "wp m (\<lambda>e w'. E e w' \<and> P w') (\<lambda>x w'. Q x w' \<and> P w') w"
  using assms by (simp add: wp_def after_def split: prod.splits sum.splits)

lemma wp_must [simp]:
  "wp (must client step m) E Q w \<longleftrightarrow> wp m (\<lambda>e. E (step @ '' failed: '' @ cl_error_text client e)) Q w"
  by (simp add: wp_def must_def split: prod.split sum.split)

lemma wp_mapped [simp]: "wp (mapped m) E Q w \<longleftrightarrow> wp m (\<lambda>e. E (mapError e)) Q w"
  by (simp add: wp_def mapped_def split: prod.split sum.split)

text \<open>A client of the running process; \<open>c\<close> is the context that its calls arrive with.\<close>

definition process_client :: "AuthServiceClient option \<Rightarrow> 's Server \<Rightarrow> ctx \<Rightarrow> (status \<Rightarrow> string) \<Rightarrow> 's ChatServiceClient" where
  "process_client auth s c err_text = \<lparr>cl_unary = (\<lambda>req. process_rpc auth s req c),
     cl_StreamMessages = (\<lambda>rid u n w. (Inr (), snd (srv_StreamMessages s c rid u n w))), cl_error_text = err_text\<rparr>"

lemma requestUserID_dev: "cx_principal c = None \<Longrightarrow> TrimSpace u \<noteq> [] \<Longrightarrow> requestUserID c u field = Inr (TrimSpace u)"
  by (simp add: requestUserID_def PrincipalFromContext_def Let_def)

lemma toPBRoom_id [simp]: "pbr_RoomId (toPBRoom r) = rm_ID r"
  by (simp add: toPBRoom_def)

text \<open>The requests of the run in the mode \<^verbatim>\<open>dev\<close>: they act for the user that the body names.\<close>

lemma dev_rpc:
  assumes "cx_principal c = None" "TrimSpace u \<noteq> []"
  shows "wp (cl_unary (process_client None s c err_text) (CreateRoomRequest u title)) E Q w \<longleftrightarrow>
      wp (svc_CreateRoom (sv_svc s) (TrimSpace u) title) (\<lambda>e. E (mapError e)) (\<lambda>r. Q (CreateRoomResponse (toPBRoom r))) w"
    and "rid \<noteq> [] \<Longrightarrow> wp (cl_unary (process_client None s c err_text) (JoinRoomRequest rid u)) E Q w \<longleftrightarrow>
      wp (svc_JoinRoom (sv_svc s) rid (TrimSpace u)) (\<lambda>e. E (mapError e)) (\<lambda>m. Q (JoinRoomResponse (toPBMember m))) w"
    and "rid \<noteq> [] \<Longrightarrow> wp (cl_unary (process_client None s c err_text) (SendMessageRequest rid u mt content [] [] None)) E Q w \<longleftrightarrow>
      wp (svc_SendMessage (sv_svc s) rid (TrimSpace u) (fromPBMessageType mt) content [] (Some [])) (\<lambda>e. E (mapError e))
        (\<lambda>x. Q (SendMessageResponse (toPBMessage (sv_NewStruct s) x))) w"
    and "rid \<noteq> [] \<Longrightarrow> wp (cl_unary (process_client None s c err_text) (GetMessagesRequest rid u before limit)) E Q w \<longleftrightarrow>
      wp (svc_GetMessages (sv_svc s) rid (TrimSpace u) before limit) (\<lambda>e. E (mapError e))
        (\<lambda>(xs, nxt). Q (GetMessagesResponse (map (toPBMessage (sv_NewStruct s)) xs) nxt)) w"
    and "rid \<noteq> [] \<Longrightarrow> wp (cl_unary (process_client None s c err_text) (MarkAsReadRequest rid u n)) E Q w \<longleftrightarrow>
      wp (svc_MarkAsRead (sv_svc s) rid (TrimSpace u) n) (\<lambda>e. E (mapError e))
        (\<lambda>m. Q (MarkAsReadResponse (mb_RoomID m) (mb_UserID m) (mb_LastReadSequenceNo m) (read_time m))) w"
  using assms
  by (simp_all add: process_client_def process_rpc_def srv_CreateRoom_def srv_JoinRoom_def srv_SendMessage_def srv_GetMessages_def
      srv_MarkAsRead_def requestUserID_dev request_metadata_def split_def)

context chat_repository
begin

text \<open>The room of the run between its requests: open, without messages, all members active, the owner among them.\<close>

definition smoke_room :: "'s world \<Rightarrow> string \<Rightarrow> string \<Rightarrow> bool" where
  "smoke_room w rid u \<longleftrightarrow> sound w \<and> (\<exists>r. a_rooms (abs (w_db w)) rid = Some r \<and> room_open r)
     \<and> (\<forall>v m. a_members (abs (w_db w)) rid v = Some m \<longrightarrow> mb_Status m = MemberStatusActive)
     \<and> a_members (abs (w_db w)) rid u \<noteq> None \<and> a_maxSeq (abs (w_db w)) rid = 0"

lemma sound_after: "sound w \<Longrightarrow> cs_repo svc = R \<Longrightarrow> admissible abs c w \<Longrightarrow> sound (serve svc c w)"
  using serve_advances by (simp add: advances_def)

lemma smoke_CreateRoom:
  assumes w: "sound w" and R: "cs_repo svc = R" and fresh: "a_rooms (abs (w_db w)) (drawn (w_env w) 0) = None"
  shows "wp (svc_CreateRoom svc u title) (\<lambda>e w'. False)
    (\<lambda>r w'. rm_ID r \<noteq> [] \<and> smoke_room w' (rm_ID r) u \<and> a_messages (abs (w_db w')) = a_messages (abs (w_db w))
       \<and> draws_within 2 w w') w"
proof -
  have id: "fst (id_New (snd (time_Now (w_env w)))) = drawn (w_env w) 0" by (simp add: drawn_def id_New_def time_Now_def)
  have aft: "sound (after (svc_CreateRoom svc u title) w) \<and> draws_within 2 w (after (svc_CreateRoom svc u title) w)"
    using sound_after [OF w R, of "CallCreateRoom u title"] draws_CreateRoom [of svc u title]
    by (simp add: draws_at_most_def admissible_def)
  have none: "a_members (abs (w_db w)) i = Map.empty" "a_maxSeq (abs (w_db w)) i = 0" if "a_rooms (abs (w_db w)) i = None" for i
  proof -
    show "a_members (abs (w_db w)) i = Map.empty" by (rule rooms_invD(2) [OF soundD(3) [OF w] that])
    have "numbered (a_messages (abs (w_db w)) i) (a_maxSeq (abs (w_db w)) i)" "a_messages (abs (w_db w)) i = Map.empty"
      using soundD(4) [OF w] that unfolding messages_inv_def by blast+
    then have "0 \<le> a_maxSeq (abs (w_db w)) i" "{1..a_maxSeq (abs (w_db w)) i} = {}" by (simp_all add: numbered_def)
    then show "a_maxSeq (abs (w_db w)) i = 0" by simp
  qed
  show ?thesis
    by (rule wp_mono [OF wp_and_after [where P = "\<lambda>w'. sound w' \<and> draws_within 2 w w'", OF wp_CreateRoom [OF soundD(1) [OF w] R] aft]])
       (use fresh id none in \<open>auto simp: smoke_room_def split: if_splits\<close>)
qed

lemma smoke_JoinRoom:
  assumes w: "smoke_room w rid u" and R: "cs_repo svc = R"
  shows "wp (svc_JoinRoom svc rid v) (\<lambda>e w'. False)
    (\<lambda>m w'. smoke_room w' rid u \<and> a_messages (abs (w_db w')) = a_messages (abs (w_db w)) \<and> draws_within 1 w w') w"
proof -
  have s: "sound w" using w by (simp add: smoke_room_def)
  have aft: "sound (after (svc_JoinRoom svc rid v) w) \<and> draws_within 1 w (after (svc_JoinRoom svc rid v) w)"
    using sound_after [OF s R, of "CallJoinRoom rid v"] draws_JoinRoom [of svc rid v] by (simp add: draws_at_most_def admissible_def)
  show ?thesis
    by (rule wp_mono [OF wp_and_after [where P = "\<lambda>w'. sound w' \<and> draws_within 1 w w'", OF wp_JoinRoom [OF soundD(1) [OF s] R] aft]])
       (use w in \<open>auto simp: smoke_room_def join_answer_def split: option.splits if_splits\<close>)
qed

text \<open>The one message of the room, as \<^verbatim>\<open>SendMessage\<close> answers it and as the history shows it.\<close>

definition smoke_sent :: "'s world \<Rightarrow> string \<Rightarrow> string \<Rightarrow> ChatMessage \<Rightarrow> bool" where
  "smoke_sent w rid u x \<longleftrightarrow> sound w \<and> reader w rid u \<and> a_maxSeq (abs (w_db w)) rid = 1
     \<and> a_messages (abs (w_db w)) rid (mg_ID x) = Some x \<and> mg_SequenceNo x = 1 \<and> mg_ID x \<noteq> [] \<and> \<not> mg_IsDeleted x"

lemma smoke_SendMessage:
  assumes w: "smoke_room w rid u" and R: "cs_repo svc = R" and ns: "cs_attachmentReadSigner svc = None"
    and fresh: "fresh_message_id (abs (w_db w)) (next_message_id w)"
  shows "wp (svc_SendMessage svc rid u MessageTypeText ''smoke-check'' [] (Some [])) (\<lambda>e w'. False) (\<lambda>x w'. smoke_sent w' rid u x) w"
proof -
  have s: "sound w" using w by (simp add: smoke_room_def)
  have can: "can_send w rid" using w fresh by (simp add: can_send_def smoke_room_def int64_range_def)
  have may: "may_send svc (abs (w_db w)) rid u MessageTypeText ''smoke-check'' [] (Some [])"
    using w by (auto simp: may_send_def smoke_room_def validateMessagePayload_def validateTrustedAttachmentURL_def Let_def
        TrimSpace_visible visible_def)
  have id: "next_message_id w \<noteq> []" by (simp add: next_message_id_def)
  show ?thesis
    by (rule wp_mono [OF wp_SendMessage_accepted [OF s R can may]])
       (use w ns id in \<open>auto simp: delivered_def hydrateMessageForDelivery_def smoke_sent_def smoke_room_def reader_def sent_def sent_store_def
          saved_message_def room_open_def\<close>)
qed

lemma smoke_GetMessages:
  assumes w: "smoke_sent w rid u x" and R: "cs_repo svc = R" and ns: "cs_attachmentReadSigner svc = None"
  shows "wp (svc_GetMessages svc rid u 0 20) (\<lambda>e w'. False)
    (\<lambda>(xs, nxt) w'. map mg_ID xs = [mg_ID x] \<and> smoke_sent w' rid u x) w"
proof -
  have s: "sound w" and rd: "reader w rid u" using w by (simp_all add: smoke_sent_def)
  have "numbered (a_messages (abs (w_db w)) rid) 1" using soundD(4) [OF s] w by (metis messages_inv_def smoke_sent_def)
  moreover have "x \<in> ran (a_messages (abs (w_db w)) rid)" using w by (auto simp: smoke_sent_def ran_def)
  ultimately have all: "all = [x]" if "set all = ran (a_messages (abs (w_db w)) rid)" "map mg_SequenceNo all = [1]" for all
    using that by (auto simp: map_eq_Cons_conv) (metis insertI1 singletonD)
  show ?thesis
  proof (rule wp_mono [OF wp_GetMessages [OF s R]], goal_cases)
    case (1 e w')
    then show ?case using rd ns hydrate_error [of svc] by fastforce
  next
    case (2 y w')
    then obtain xs nxt where y: "y = (xs, nxt)" and un: "untouched w w'" and "list_all2 presented [x] xs"
      using all w by (cases y) (auto simp: older_messages_def top_before_def page_size_def smoke_sent_def)
    then have "map mg_ID xs = [mg_ID x]"
      using presented_ID [of x] by (auto simp: list_all2_Cons1)
    moreover have "smoke_sent w' rid u x"
      using w un untouched_sound [OF un s] by (simp add: smoke_sent_def reader_def untouched_def)
    ultimately show ?case by (simp add: y)
  qed
qed

lemma smoke_MarkAsRead:
  assumes w: "smoke_sent w rid u x" and R: "cs_repo svc = R"
  shows "wp (svc_MarkAsRead svc rid u n) (\<lambda>e w'. False)
    (\<lambda>m w'. smoke_sent w' rid u x \<and> a_members (abs (w_db w')) rid u = Some m \<and> n \<le> mb_LastReadSequenceNo m) w"
proof -
  have s: "sound w" using w by (simp add: smoke_sent_def)
  show ?thesis
    by (rule wp_mono [OF wp_MarkAsRead [OF s R]])
       (use w member_key [OF soundD(2) [OF s]] in \<open>auto simp: smoke_sent_def reader_def read_up_to_def\<close>)
qed

lemma wp_runSmoke:
  assumes w: "sound w" and R: "cs_repo (sv_svc s) = R" and ns: "cs_attachmentReadSigner (sv_svc s) = None" and c: "cx_principal c = None"
    and u: "TrimSpace ownerID \<noteq> []" "TrimSpace memberID \<noteq> []" "TrimSpace member2ID \<noteq> []"
    and fresh: "fresh_ids (abs (w_db w)) (w_env w) 5"
  shows "wp (runSmoke (process_client None s c err_text) now addr ownerID memberID member2ID) (\<lambda>e w'. False)
    (\<lambda>line w'. \<exists>rid x. smoke_sent w' rid (TrimSpace ownerID) x \<and> line = smoke_pass addr rid (mg_ID x) memberID member2ID) w"
proof -
  have new: "a_rooms (abs (w_db w)) (drawn (w_env w) 0) = None" using fresh by (simp add: fresh_ids_def)
  have send: "fresh_message_id (abs (w_db w')) (next_message_id w')"
    if d: "draws_within 2 w w1" "draws_within 1 w1 w2" "draws_within 1 w2 w'" and a: "a_messages (abs (w_db w')) = a_messages (abs (w_db w))"
    for w1 w2 w'
  proof -
    obtain k where "k \<le> 4" "next_message_id w' = drawn (w_env w) k"
      using next_message_drawn [OF draws_within_trans [OF draws_within_trans [OF d(1,2)] d(3)]] by auto
    with fresh a show ?thesis by (auto simp: fresh_ids_def fresh_message_id_def)
  qed
  note rpc = dev_rpc [OF c] u
  let ?u = "TrimSpace ownerID"
  show ?thesis
    unfolding runSmoke_def wp_bindP wp_must
  proof (simp only: rpc not_False_eq_True, rule wp_mono [OF smoke_CreateRoom [OF w R new]], goal_cases)
    case (2 room w1)
    let ?rid = "rm_ID room"
    from 2 have r: "smoke_room w1 ?rid ?u" "?rid \<noteq> []" "draws_within 2 w w1" "a_messages (abs (w_db w1)) = a_messages (abs (w_db w))" by auto
    show ?case
    proof (simp add: Let_def rpc r(2), rule wp_mono [OF smoke_JoinRoom [OF r(1) R]], goal_cases)
      case (2 m1 w2)
      then have r2: "smoke_room w2 ?rid ?u" "draws_within 1 w1 w2" "a_messages (abs (w_db w2)) = a_messages (abs (w_db w))" using r(4) by auto
      show ?case
      proof (rule wp_mono [OF smoke_JoinRoom [OF r2(1) R]], goal_cases)
        case (2 m2 w3)
        then have r3: "smoke_room w3 ?rid ?u" "fresh_message_id (abs (w_db w3)) (next_message_id w3)"
          using send [OF r(3) r2(2)] r2(3) by auto
        show ?case
        proof (rule wp_mono [OF smoke_SendMessage [OF r3(1) R ns r3(2)]], goal_cases)
          case (2 x w4)
          then have x: "mg_ID x \<noteq> []" "mg_SequenceNo x = 1" by (simp_all add: smoke_sent_def)
          show ?case
          proof (simp add: x rpc r(2), rule wp_mono [OF smoke_GetMessages [OF 2 R ns]], goal_cases)
            case (2 y w5)
            then obtain z nxt where y: "y = ([z], nxt)" "mg_ID z = mg_ID x" and w5: "smoke_sent w5 ?rid ?u x" by (cases y) auto
            show ?case
              by (simp add: y rpc r(2), rule wp_mono [OF smoke_MarkAsRead [OF w5 R]]) auto
          qed simp
        qed simp
      qed simp
    qed simp
  qed simp
qed

end

text \<open>
  C11. The smoke test passes on every process that started with the in-memory repository, in the mode \<^verbatim>\<open>dev\<close> and
  without a bucket, whatever has happened to it since: none of the six requests is refused, none of the client's
  own checks fails, and the message it reports is the first one of the new room. (The identifiers that
  the server draws during the run must not be in use.)
\<close>

theorem smoke_passes:
  assumes "start pl env' = Inr (OnMemory s None)" and "TrimSpace (env' ''GCP_STORAGE_BUCKET'') = []"
    and "reachable (sv_svc s) w" and "cx_principal c = None"
    and "TrimSpace ownerID \<noteq> []" "TrimSpace memberID \<noteq> []" "TrimSpace member2ID \<noteq> []"
    and "fresh_ids (mem_abs (w_db w)) (w_env w) 5"
  shows "\<exists>rid x w'. runSmoke (process_client None s c err_text) now addr ownerID memberID member2ID w
       = (Inr (smoke_pass addr rid (mg_ID x) memberID member2ID), w')
    \<and> mem_GetMessage (w_db w') rid (mg_ID x) = Inr x \<and> mg_SequenceNo x = 1 \<and> max_seq (w_db w') rid = 1"
proof -
  have svc: "cs_repo (sv_svc s) = memory_repo" "cs_attachmentReadSigner (sv_svc s) = None"
    using started_service(1,2) [OF assms(1)] assms(2) by simp_all
  obtain y w' where run: "runSmoke (process_client None s c err_text) now addr ownerID memberID member2ID w = (y, w')" by fastforce
  from wpD [OF mem.wp_runSmoke [OF reachable_sound [OF assms(3)] svc assms(4-8)] run] obtain rid x where
    "y = Inr (smoke_pass addr rid (mg_ID x) memberID member2ID)" "mem.smoke_sent w' rid (TrimSpace ownerID) x"
    by (auto split: sum.splits)
  with run show ?thesis
    unfolding mem_reads by (auto simp: mem.smoke_sent_def max_seq_abs intro!: exI)
qed

text \<open>A platform on which everything works, and an environment that asks for the in-memory repository.\<close>

definition quiet_platform :: platform where
  "quiet_platform = \<lparr>pl_Listen = \<lambda>_. None, pl_OpenDB = \<lambda>_. None, pl_Ping = \<lambda>_. None, pl_server = \<lambda>_. reference_server,
     pl_storage = \<lambda>_. Inl (ErrOther ''no storage''), pl_TokenSource = Inl ''no credentials'', pl_Dial = \<lambda>_ _ _. Inl ''no route'',
     pl_descriptorErr = None, pl_NewStruct = Some, pl_ParseDuration = \<lambda>_. None\<rparr>"

definition memory_environment :: environment where
  "memory_environment key = (if key = ''CHAT_REPOSITORY'' then ''memory'' else [])"

definition plain_server :: "Store Server" where
  "plain_server = \<lparr>sv_svc = service_New memory_repo [], sv_NewStruct = Some\<rparr>"

lemma lower_modes: "ToLower (TrimSpace ''dev'') = ''dev''" "ToLower (TrimSpace ''memory'') = ''memory''" "ToLower [] = []"
  by (simp_all add: TrimSpace_visible visible_def ToLower_def is_ascii_def ascii_lower_def is_upper_def)

lemma plain_start: "start quiet_platform memory_environment = Inr (OnMemory plain_server None)"
  by (simp add: start_def initialise_def quiet_platform_def memory_environment_def envOrDefault_def initRepository_def initAttachmentUploadSigner_def
      initPushSender_def initAuth_def envBool_def service_options_def plain_server_def fatal_def Let_def lower_modes)

theorem smoke_passes_witness:
  "\<exists>rid x w'. runSmoke (process_client None plain_server \<lparr>cx_metadata = None, cx_principal = None\<rparr> snd) 1700000000 ''localhost:9090''
       (sf_owner (smoke_defaults memory_environment)) (sf_member (smoke_defaults memory_environment))
       (sf_member2 (smoke_defaults memory_environment)) (new_world NewStore sample_env)
     = (Inr (smoke_pass ''localhost:9090'' rid (mg_ID x) ''22222222-2222-2222-2222-222222222222''
          ''33333333-3333-3333-3333-333333333333''), w')
    \<and> mem_GetMessage (w_db w') rid (mg_ID x) = Inr x"
proof -
  have "reachable (sv_svc plain_server) (new_world NewStore sample_env)"
    by (rule reachable_new) (simp add: plain_server_def service_New_def)
  moreover have "fresh_ids (mem_abs (w_db (new_world NewStore sample_env))) g 5" for g
    by (simp add: fresh_ids_def fresh_message_id_def new_world_def NewStore_def mem_abs_sel inner_def)
  ultimately show ?thesis
    using smoke_passes [OF plain_start, of "new_world NewStore sample_env" "\<lparr>cx_metadata = None, cx_principal = None\<rparr>"
        "sf_owner (smoke_defaults memory_environment)" "sf_member (smoke_defaults memory_environment)"
        "sf_member2 (smoke_defaults memory_environment)" snd 1700000000 "''localhost:9090''"]
    by (auto simp: memory_environment_def smoke_defaults_def TrimSpace_visible visible_def)
qed

end
