(* ===== verification/Lifecycle.thy ===== *)
theory Lifecycle
  imports Startup
begin

text \<open>
  The end of \<^verbatim>\<open>main\<close> in \<^verbatim>\<open>cmd/chat-service\<close>: serving until a signal, the graceful shutdown with its time limit,
  and the deferred calls, which release in reverse order what was opened. The gRPC server is a parameter: the
  error with which \<^verbatim>\<open>Serve\<close> returns before the signal, if it does, and how long \<^verbatim>\<open>GracefulStop\<close> takes (\<open>None\<close>:
  it never returns, as long as a stream stays open). A process that ends with \<^verbatim>\<open>log.Fatalf\<close> runs no
  deferred call.
\<close>

datatype resource = DatabasePool | StorageClient | AuthConnection

datatype event =
    Logged string
  | GracefulStop
  | Stop
  | Closed resource

fun event_resource :: "event \<Rightarrow> resource option" where
  "event_resource (Closed r) = Some r"
| "event_resource _ = None"

text \<open>The five seconds of \<^verbatim>\<open>shutdownCtx\<close>, in nanoseconds.\<close>

definition shutdown_timeout :: nat where
  "shutdown_timeout = 5 * 1000000000"

text \<open>When both channels are ready the \<^verbatim>\<open>select\<close> may take either; a stop that takes exactly the limit counts as late.\<close>

definition shutdown :: "nat option \<Rightarrow> event list" where
  "shutdown graceful =
    [GracefulStop] @ (case graceful of Some t \<Rightarrow> if t < shutdown_timeout then [] else [Stop] | None \<Rightarrow> [Stop])
    @ [Logged ''chat-service shutdown complete'']"

section \<open>The deferred calls\<close>

text \<open>\<^verbatim>\<open>Signer.Close\<close>: the client that \<^verbatim>\<open>NewSigner\<close> stores is never nil.\<close>

definition gcs_Close :: "(resource \<Rightarrow> string option) \<Rightarrow> event list \<times> string option" where
  "gcs_Close close_err = ([Closed StorageClient], close_err StorageClient)"

fun cleanup :: "runtimeRepository \<Rightarrow> event list" where
  "cleanup MemoryRepository = []"
| "cleanup (PostgresRepository _) = [Closed DatabasePool]"

definition close_signer :: "(resource \<Rightarrow> string option) \<Rightarrow> event list" where
  "close_signer close_err =
    (case gcs_Close close_err of
       (evs, Some err) \<Rightarrow> evs @ [Logged (''attachment upload signer close failed: '' @ err)]
     | (evs, None) \<Rightarrow> evs)"

fun authCleanup :: "AuthServiceClient option \<Rightarrow> event list" where
  "authCleanup None = []"
| "authCleanup (Some _) = [Closed AuthConnection]"

text \<open>\<^verbatim>\<open>defer\<close> puts a call on a stack, which is run from the top when \<^verbatim>\<open>main\<close> returns.\<close>

definition deferred ::
  "(resource \<Rightarrow> string option) \<Rightarrow> runtimeRepository \<Rightarrow> Signer option \<Rightarrow> AuthServiceClient option \<Rightarrow> event list list" where
  "deferred close_err store signer auth =
    (let stack = [cleanup store];
         stack = (case signer of None \<Rightarrow> stack | Some _ \<Rightarrow> close_signer close_err # stack)
     in authCleanup auth # stack)"

section \<open>The process from start to end\<close>

fun storeLabel :: "runtimeRepository \<Rightarrow> string" where
  "storeLabel MemoryRepository = ''memory''"
| "storeLabel (PostgresRepository _) = ''postgres''"

fun authLabel :: "AuthServiceClient option \<Rightarrow> string" where
  "authLabel None = ''dev''"
| "authLabel (Some _) = ''validate_token''"

fun pushLabel :: "Sender option \<Rightarrow> string" where
  "pushLabel None = ''push disabled''"
| "pushLabel (Some _) = ''fcm push enabled''"

definition serve_log :: "string \<Rightarrow> runtimeRepository \<Rightarrow> Sender option \<Rightarrow> AuthServiceClient option \<Rightarrow> string option \<Rightarrow> event list" where
  "serve_log addr store sender auth serve_err =
    Logged (''chat-service listening on '' @ addr @ '' ('' @ storeLabel store @ '' repository, '' @ authLabel auth @ '' auth, ''
      @ pushLabel sender @ '')'')
    # (case serve_err of None \<Rightarrow> [] | Some err \<Rightarrow> [Logged (''grpc serve stopped: '' @ err)])"

text \<open>What a process does from serving on, or the text it ends with before.\<close>

definition chat_main ::
  "platform \<Rightarrow> environment \<Rightarrow> (resource \<Rightarrow> string option) \<Rightarrow> string option \<Rightarrow> nat option \<Rightarrow> string + event list" where
  "chat_main pl env' close_err serve_err graceful =
    bindS (initialise pl env') (\<lambda>(store, signer, sender, auth).
    Inr (serve_log (envOrDefault env' ''CHAT_SERVICE_ADDR'' '':9090'') store sender auth serve_err
      @ shutdown graceful @ concat (deferred close_err store signer auth)))"

section \<open>What it releases\<close>

text \<open>What the process holds, in the order in which it was opened.\<close>

definition opened :: "runtimeRepository \<Rightarrow> Signer option \<Rightarrow> AuthServiceClient option \<Rightarrow> resource list" where
  "opened store signer auth =
    (case store of MemoryRepository \<Rightarrow> [] | PostgresRepository _ \<Rightarrow> [DatabasePool])
    @ (if signer = None then [] else [StorageClient]) @ (if auth = None then [] else [AuthConnection])"

lemma chat_main_starts: "(\<exists>evs. chat_main pl env' close_err serve_err graceful = Inr evs) \<longleftrightarrow> (\<exists>p. start pl env' = Inr p)"
  by (auto simp: chat_main_def start_def bindS_Inr split: prod.splits)

lemma chat_main_Inr:
  assumes "chat_main pl env' close_err serve_err graceful = Inr evs"
  obtains store signer sender auth where "initialise pl env' = Inr (store, signer, sender, auth)"
    "evs = serve_log (envOrDefault env' ''CHAT_SERVICE_ADDR'' '':9090'') store sender auth serve_err
      @ shutdown graceful @ concat (deferred close_err store signer auth)"
  using assms by (auto simp: chat_main_def bindS_Inr split: prod.splits)

text \<open>
  A process that came up releases exactly what it opened, once each, the latest first, and only after the server
  was told to stop; an error of closing the storage client is logged and stops nothing.
\<close>

lemma chat_main_releases:
  assumes "chat_main pl env' close_err serve_err graceful = Inr evs"
  obtains store signer sender auth pre post where "initialise pl env' = Inr (store, signer, sender, auth)"
    "evs = pre @ GracefulStop # post" "List.map_filter event_resource pre = []"
    "List.map_filter event_resource post = rev (opened store signer auth)"
proof -
  from assms obtain store signer sender auth where i: "initialise pl env' = Inr (store, signer, sender, auth)"
    and evs: "evs = serve_log (envOrDefault env' ''CHAT_SERVICE_ADDR'' '':9090'') store sender auth serve_err
      @ shutdown graceful @ concat (deferred close_err store signer auth)"
    by (rule chat_main_Inr)
  let ?pre = "serve_log (envOrDefault env' ''CHAT_SERVICE_ADDR'' '':9090'') store sender auth serve_err"
  let ?post = "tl (shutdown graceful) @ concat (deferred close_err store signer auth)"
  show thesis
  proof (rule that [OF i])
    show "evs = ?pre @ GracefulStop # ?post" by (simp add: evs shutdown_def)
    show "List.map_filter event_resource ?pre = []"
      by (simp add: serve_log_def map_filter_def split: option.split)
    show "List.map_filter event_resource ?post = rev (opened store signer auth)"
      by (cases store; cases signer; cases auth)
         (simp_all add: map_filter_def shutdown_def deferred_def opened_def close_signer_def gcs_Close_def split: option.split)
  qed
qed

text \<open>The server is stopped by force exactly when the graceful stop does not end within the limit.\<close>

lemma chat_main_forced:
  assumes "chat_main pl env' close_err serve_err graceful = Inr evs"
  shows "Stop \<in> set evs \<longleftrightarrow> (\<forall>t. graceful = Some t \<longrightarrow> shutdown_timeout \<le> t)"
proof -
  from assms obtain store signer sender auth where evs: "evs = serve_log (envOrDefault env' ''CHAT_SERVICE_ADDR'' '':9090'') store sender auth serve_err
      @ shutdown graceful @ concat (deferred close_err store signer auth)"
    by (rule chat_main_Inr)
  have "Stop \<notin> set (serve_log addr store sender auth serve_err)" for addr
    by (simp add: serve_log_def split: option.split)
  moreover have "Stop \<notin> set (concat (deferred close_err store signer auth))"
    by (cases store; cases signer; cases auth) (simp_all add: deferred_def close_signer_def gcs_Close_def split: option.split)
  moreover have "Stop \<in> set (shutdown graceful) \<longleftrightarrow> (\<forall>t. graceful = Some t \<longrightarrow> shutdown_timeout \<le> t)"
    by (auto simp: shutdown_def split: option.split)
  ultimately show ?thesis unfolding evs set_append by blast
qed

end
