(* ===== verification/HubSteps.thy ===== *)
theory HubSteps
  imports PubSub
begin

text \<open>
  The hub with its goroutines step by step. A publisher holds the hub's lock for reading while it sends to
  one channel after the other; subscribing and removing a subscription take the lock for writing, so they wait
  for the publishers; \<^verbatim>\<open>Close\<close> holds the lock of its subscription and does the actions of \<open>Close_body\<close> one at a
  time, closing the channel outside the hub's lock. Any number of publishers, closers and receivers interleave.
  The invariant shows why nobody sends on a closed channel: a channel is closed after its
  subscription was removed, and it cannot be removed while somebody publishes.
\<close>

section \<open>Goroutines\<close>





section \<open>The invariant\<close>















section \<open>Every step keeps it\<close>












section \<open>No panic\<close>





end
