(* ===== verification/Overlap.thy ===== *)
theory Overlap
  imports MessageProperties
begin

text \<open>
  Requests that overlap. Five requests read outside a transaction and write back later what they read:
  \<^verbatim>\<open>SendMessage\<close> (the room), \<^verbatim>\<open>JoinRoom\<close>, \<^verbatim>\<open>MarkAsRead\<close> and \<^verbatim>\<open>MarkChatRoomRead\<close> (the member) and
  \<^verbatim>\<open>DeactivateRoom\<close> (the room). Here each is two steps, its reads and checks and then its writes, with any steps
  of the rest of the service in between, so that a write may be as stale as it likes. The messages come out of
  this unharmed: they are written in transactions that read what they replace. Rooms and members do not: a
  stale write undoes what happened in between.
\<close>

section \<open>Two halves\<close>

text \<open>What a request has decided to write when its reads and checks are done.\<close>

datatype pending =
    WriteMessage string string ChatMessage ChatRoom
  | WriteMember ChatRoomMember
  | AddMember ChatRoomMember
  | WriteRoom ChatRoom
  | WriteNothing

fun two_phase :: "call \<Rightarrow> bool" where
  "two_phase (CallSendMessage _ _ _ _ _ _) = True"
| "two_phase (CallJoinRoom _ _) = True"
| "two_phase (CallMarkAsRead _ _ _) = True"
| "two_phase (CallMarkChatRoomRead _ _) = True"
| "two_phase (CallDeactivateRoom _ _) = True"
| "two_phase _ = False"

definition send_reads ::
  "'s ChatService \<Rightarrow> string \<Rightarrow> string \<Rightarrow> MessageType \<Rightarrow> string \<Rightarrow> string \<Rightarrow> metadata \<Rightarrow> ('s world, error, pending) prog" where
  "send_reads svc roomID senderUserID messageType content imageURL0 metadata0 =
    bindP (validateActiveMembership svc roomID senderUserID) (\<lambda>(room, member).
    if \<not> rm_IsActive room \<or> mb_Status member \<noteq> MemberStatusActive then fail ErrInvalidState
    else
     bindP (of_result (validateMessagePayload messageType content imageURL0 metadata0)) (\<lambda>_.
     bindP (of_result (validateTrustedAttachmentURL svc roomID messageType imageURL0 metadata0)) (\<lambda>_.
     bindP (of_result (normalizeAttachmentReferences svc roomID messageType imageURL0 metadata0)) (\<lambda>(imageURL, metadata).
     bindP (env time_Now) (\<lambda>now.
     bindP (env id_New) (\<lambda>i.
     ok (WriteMessage roomID senderUserID (new_message i roomID senderUserID messageType content imageURL metadata now)
           (room\<lparr>rm_UpdatedAt := now\<rparr>))))))))"

definition join_reads :: "'s ChatService \<Rightarrow> string \<Rightarrow> string \<Rightarrow> ('s world, error, pending) prog" where
  "join_reads svc roomID userID =
    bindP (view (\<lambda>s. rp_GetRoom (cs_repo svc) s roomID)) (\<lambda>room.
    if \<not> rm_IsActive room \<or> rm_DeletedAt room \<noteq> None then fail ErrRoomInactive
    else
     bindP (attempt (view (\<lambda>s. rp_GetMember (cs_repo svc) s roomID userID))) (\<lambda>r.
     if (case r of Inl err \<Rightarrow> err \<noteq> ErrNotFound | Inr _ \<Rightarrow> False) then fail (projl r)
     else
      bindP (env time_Now) (\<lambda>now.
      let create = bindP (env id_New) (\<lambda>i. ok (AddMember (new_member i roomID userID MemberRoleMember now)))
      in case r of
           Inl _ \<Rightarrow> create
         | Inr m \<Rightarrow>
            (case mb_Status m of
               MemberStatusRemoved \<Rightarrow> fail ErrRemovedCannotRejoin
             | MemberStatusActive \<Rightarrow> ok WriteNothing
             | MemberStatusLeft \<Rightarrow> ok (WriteMember (rejoined now m))
             | MemberStatusOther _ \<Rightarrow> create))))"

definition mark_reads :: "'s ChatService \<Rightarrow> string \<Rightarrow> string \<Rightarrow> int \<Rightarrow> ('s world, error, pending) prog" where
  "mark_reads svc roomID userID lastReadSequenceNo =
    bindP (view (\<lambda>s. rp_GetMember (cs_repo svc) s roomID userID)) (\<lambda>m.
    if mb_Status m \<noteq> MemberStatusActive then fail ErrInvalidState
    else bindP (env time_Now) (\<lambda>now. ok (WriteMember (read_up_to now lastReadSequenceNo m))))"

definition mark_room_reads :: "'s ChatService \<Rightarrow> string \<Rightarrow> string \<Rightarrow> ('s world, error, pending) prog" where
  "mark_room_reads svc roomID userID =
    bindP (validateActiveMembership svc roomID userID) (\<lambda>(_, member).
    if mb_Status member \<noteq> MemberStatusActive then fail ErrInvalidState
    else
     bindP (view (\<lambda>s. rp_ListMessagesBefore (cs_repo svc) s roomID 0 1)) (\<lambda>(msgs, _).
     let latestSequenceNo = (case msgs of [] \<Rightarrow> 0 | m # _ \<Rightarrow> mg_SequenceNo m) in
     bindP (env time_Now) (\<lambda>now. ok (WriteMember (read_up_to now latestSequenceNo member)))))"

definition deactivate_reads :: "'s ChatService \<Rightarrow> string \<Rightarrow> string \<Rightarrow> ('s world, error, pending) prog" where
  "deactivate_reads svc roomID ownerUserID =
    bindP (env time_Now) (\<lambda>now.
    bindP (view (\<lambda>s. rp_GetRoom (cs_repo svc) s roomID)) (\<lambda>room.
    if rm_OwnerUserID room \<noteq> ownerUserID then fail ErrPermissionDenied
    else ok (WriteRoom (closed_room now room))))"

fun read_half :: "'s ChatService \<Rightarrow> call \<Rightarrow> ('s world, error, pending) prog" where
  "read_half svc (CallSendMessage rid u mt c img md) = send_reads svc rid u mt c img md"
| "read_half svc (CallJoinRoom rid u) = join_reads svc rid u"
| "read_half svc (CallMarkAsRead rid u n) = mark_reads svc rid u n"
| "read_half svc (CallMarkChatRoomRead rid u) = mark_room_reads svc rid u"
| "read_half svc (CallDeactivateRoom rid u) = deactivate_reads svc rid u"
| "read_half svc _ = ok WriteNothing"

definition send_writes :: "'s ChatService \<Rightarrow> string \<Rightarrow> string \<Rightarrow> ChatMessage \<Rightarrow> ChatRoom \<Rightarrow> ('s world, error, unit) prog" where
  "send_writes svc roomID senderUserID msg room =
    bindP (tx svc
       (bindP (db (\<lambda>s. rp_CreateMessageWithNextSequence (cs_repo svc) s msg)) (\<lambda>saved.
        bindP (db (\<lambda>s. rp_UpdateRoom (cs_repo svc) s room)) (\<lambda>_.
        ok saved)))) (\<lambda>saved.
     bindP (publish roomID saved) (\<lambda>_.
     bindP (dispatchChatMessagePush svc roomID senderUserID saved) (\<lambda>_.
     bindP (on_env (hydrateMessageForDelivery svc saved)) (\<lambda>_. ok ()))))"

fun write_half :: "'s ChatService \<Rightarrow> pending \<Rightarrow> ('s world, error, unit) prog" where
  "write_half svc (WriteMessage roomID senderUserID msg room) = send_writes svc roomID senderUserID msg room"
| "write_half svc (WriteMember m) = db (\<lambda>s. rp_UpdateMember (cs_repo svc) s m)"
| "write_half svc (AddMember m) = db (\<lambda>s. rp_CreateMember (cs_repo svc) s m)"
| "write_half svc (WriteRoom r) = db (\<lambda>s. rp_UpdateRoom (cs_repo svc) s r)"
| "write_half svc WriteNothing = ok ()"

text \<open>The two halves, one right after the other, are the request.\<close>

definition same_effect :: "('s world, error, 'a) prog \<Rightarrow> ('s world, error, 'b) prog \<Rightarrow> bool" where
  "same_effect m m' \<longleftrightarrow> (\<forall>w. after m w = after m' w)"

lemma same_effect_bindP:
  "(\<And>x. same_effect (f x) (g x)) \<Longrightarrow> same_effect (bindP m f) (bindP m g)"
  by (simp add: same_effect_def after_def bindP_run split: prod.split sum.split)

lemma same_effect_if:
  "(b \<Longrightarrow> same_effect m m') \<Longrightarrow> (\<not> b \<Longrightarrow> same_effect n n') \<Longrightarrow> same_effect (if b then m else n) (if b then m' else n')"
  by simp

lemma same_effect_pure [simp]: "same_effect (fail e) (fail e')" "same_effect (ok x) (ok y)" "same_effect (ok x) (Pair (Inr y))"
  by (simp_all add: same_effect_def after_def)

lemma same_effect_return:
  "same_effect m (bindP m (\<lambda>_. ok y))" "same_effect (bindP m (\<lambda>_. ok x)) m"
  by (simp_all add: same_effect_def after_def bindP_run split: prod.split sum.split)

lemmas same_effects = same_effect_bindP same_effect_if same_effect_return

lemma bindP_if: "bindP (if b then m else n) f = (if b then bindP m f else bindP n f)"
  by simp

lemmas half_simps = bindP_assoc bindP_if Let_def split_def

lemma halves:
  assumes "two_phase c"
  shows "serve svc c w = after (bindP (read_half svc c) (write_half svc)) w"
proof -
  have "same_effect (svc_SendMessage svc rid u mt c img md) (bindP (send_reads svc rid u mt c img md) (write_half svc))"
    for rid u mt c img md
    unfolding svc_SendMessage_def send_reads_def half_simps by (simp, intro same_effects) (auto simp: send_writes_def intro!: same_effects)
  moreover have "same_effect (svc_JoinRoom svc rid u) (bindP (join_reads svc rid u) (write_half svc))" for rid u
    unfolding svc_JoinRoom_def join_reads_def half_simps
    by (intro same_effects) (auto intro!: same_effects simp: half_simps split: sum.split MemberStatus.split)
  moreover have "same_effect (svc_MarkAsRead svc rid u n) (bindP (mark_reads svc rid u n) (write_half svc))" for rid u n
    unfolding svc_MarkAsRead_def mark_reads_def half_simps by (intro same_effects) (auto intro!: same_effects)
  moreover have "same_effect (svc_MarkChatRoomRead svc rid u) (bindP (mark_room_reads svc rid u) (write_half svc))" for rid u
    unfolding svc_MarkChatRoomRead_def mark_room_reads_def half_simps by (intro same_effects) (auto intro!: same_effects)
  moreover have "same_effect (svc_DeactivateRoom svc rid u) (bindP (deactivate_reads svc rid u) (write_half svc))" for rid u
    unfolding svc_DeactivateRoom_def deactivate_reads_def half_simps by (intro same_effects) (auto intro!: same_effects)
  ultimately show ?thesis using assms by (cases c) (simp_all add: same_effect_def)
qed

section \<open>Overlapping runs\<close>

text \<open>
  A state is the world and what the open requests have still to write. A write may run at any time after its
  reads, whatever happened since. Only sending asks for anything: the identifier drawn for the message is not
  in use and the room's counter is below the largest \<^verbatim>\<open>int64\<close>, when the transaction runs.
\<close>

definition writable :: "('s \<Rightarrow> astore) \<Rightarrow> pending \<Rightarrow> 's world \<Rightarrow> bool" where
  "writable store p w = (case p of
     WriteMessage _ _ msg _ \<Rightarrow> fresh_message_id (store (w_db w)) (mg_ID msg)
       \<and> int64_range (a_maxSeq (store (w_db w)) (mg_RoomID msg) + 1)
   | _ \<Rightarrow> True)"

inductive overlap_step ::
  "'s ChatService \<Rightarrow> ('s \<Rightarrow> astore) \<Rightarrow> 's world \<times> pending list \<Rightarrow> 's world \<times> pending list \<Rightarrow> bool"
  for svc :: "'s ChatService" and store :: "'s \<Rightarrow> astore" where
  request: "\<not> two_phase c \<Longrightarrow> overlap_step svc store (w, ps) (serve svc c w, ps)"
| environment: "overlap_step svc store (w, ps) (w\<lparr>w_env := g\<rparr>, ps)"
| stream: "ps_client (w_ps w) hub \<Longrightarrow> overlap_step svc store (w, ps) (w\<lparr>w_ps := hub\<rparr>, ps)"
| begins: "two_phase c \<Longrightarrow> read_half svc c w = (Inr p, w') \<Longrightarrow> overlap_step svc store (w, ps) (w', p # ps)"
| refused: "two_phase c \<Longrightarrow> read_half svc c w = (Inl e, w') \<Longrightarrow> overlap_step svc store (w, ps) (w', ps)"
| finishes: "p \<in> set ps \<Longrightarrow> writable store p w \<Longrightarrow>
    overlap_step svc store (w, ps) (after (write_half svc p) w, remove1 p ps)"

text \<open>The first half only draws from the environment.\<close>

definition env_only :: "('s world, error, 'a) prog \<Rightarrow> bool" where
  "env_only m \<longleftrightarrow> (\<forall>w. \<exists>g. snd (m w) = w\<lparr>w_env := g\<rparr>)"

lemma env_only_simps [simp]:
  "env_only (env f)" "env_only (view h)" "env_only (ok x)" "env_only (fail e)" "env_only (of_result r)"
proof -
  have "\<exists>g. w = w\<lparr>w_env := g\<rparr>" for w :: "'s world" by (rule exI [of _ "w_env w"]) simp
  then show "env_only (env f)" "env_only (view h)" "env_only (ok x)" "env_only (fail e)" "env_only (of_result r)"
    by (auto simp: env_only_def env_def view_def split: prod.split)
qed

lemma env_only_bindP:
  assumes m: "env_only m" and f: "\<And>x. env_only (f x)"
  shows "env_only (bindP m f)"
  unfolding env_only_def
proof
  fix w
  obtain r w1 g where 1: "m w = (r, w1)" "w1 = w\<lparr>w_env := g\<rparr>" using m unfolding env_only_def by (metis prod.collapse)
  show "\<exists>g. snd (bindP m f w) = w\<lparr>w_env := g\<rparr>"
  proof (cases r)
    case (Inr x)
    from f [of x] obtain g' where "snd (f x w1) = w1\<lparr>w_env := g'\<rparr>" unfolding env_only_def by blast
    with 1 Inr show ?thesis by (auto simp: bindP_run)
  qed (use 1 in \<open>auto simp: bindP_run\<close>)
qed

lemma env_only_attempt: "env_only m \<Longrightarrow> env_only (attempt m)"
  by (simp add: env_only_def attempt_run)

lemma read_half_env: "env_only (read_half svc c)"
  by (cases c)
     (auto simp: send_reads_def join_reads_def mark_reads_def mark_room_reads_def deactivate_reads_def
        validateActiveMembership_def Let_def split: sum.split MemberStatus.split prod.split intro!: env_only_bindP env_only_attempt)

text \<open>A message that waits to be written is not deleted.\<close>

definition undeleted :: "pending \<Rightarrow> bool" where
  "undeleted p = (case p of WriteMessage _ _ msg _ \<Rightarrow> \<not> mg_IsDeleted msg | _ \<Rightarrow> True)"

lemma read_half_undeleted:
  assumes "read_half svc c w = (Inr p, w')"
  shows "undeleted p"
proof (cases c)
  case (CallSendMessage rid u mt x img md)
  have "wp (send_reads svc rid u mt x img md) (\<lambda>_ _. True) (\<lambda>p _. undeleted p) w"
    by (auto simp: send_reads_def validateActiveMembership_def undeleted_def new_message_def split: sum.split)
  with CallSendMessage assms show ?thesis by (auto dest: wpD)
next
  case (CallJoinRoom rid u)
  have "wp (join_reads svc rid u) (\<lambda>_ _. True) (\<lambda>p _. undeleted p) w"
    by (auto simp: join_reads_def undeleted_def Let_def split: sum.split MemberStatus.split)
  with CallJoinRoom assms show ?thesis by (auto dest: wpD)
next
  case (CallMarkAsRead rid u n)
  have "wp (mark_reads svc rid u n) (\<lambda>_ _. True) (\<lambda>p _. undeleted p) w"
    by (auto simp: mark_reads_def undeleted_def split: sum.split)
  with CallMarkAsRead assms show ?thesis by (auto dest: wpD)
next
  case (CallMarkChatRoomRead rid u)
  have "wp (mark_room_reads svc rid u) (\<lambda>_ _. True) (\<lambda>p _. undeleted p) w"
    by (auto simp: mark_room_reads_def validateActiveMembership_def undeleted_def Let_def split: sum.split)
  with CallMarkChatRoomRead assms show ?thesis by (auto dest: wpD)
next
  case (CallDeactivateRoom rid u)
  have "wp (deactivate_reads svc rid u) (\<lambda>_ _. True) (\<lambda>p _. undeleted p) w"
    by (auto simp: deactivate_reads_def undeleted_def split: sum.split)
  with CallDeactivateRoom assms show ?thesis by (auto dest: wpD)
qed (use assms in \<open>auto simp: undeleted_def\<close>)

section \<open>Messages under overlap\<close>

lemma keeps_store [intro]:
  "keeps (\<lambda>w. w_db w = s) (publish rid msg)" "keeps (\<lambda>w. w_db w = s) (on_env m)" "keeps (\<lambda>w. w_db w = s) (view h)"
  "keeps (\<lambda>w. w_db w = s) (send_all sender msg ts)"
proof -
  show "keeps (\<lambda>w. w_db w = s) (send_all sender msg ts)"
    by (induction ts) (auto intro!: keeps_bindP simp: push_Send_def)
qed (auto simp: publish_def on_env_def view_def split: option.split prod.split)

lemma keeps_store_dispatch [intro]: "keeps (\<lambda>w. w_db w = s) (dispatchChatMessagePush svc rid u msg)"
  by (auto simp: dispatchChatMessagePush_def Let_def split: option.split sum.split intro!: keeps_bindP keeps_attempt keeps_store)

lemma keeps_store_reads:
  "keeps (\<lambda>w. w_db w = s) (svc_GetMessages svc rid u b n)"
  "keeps (\<lambda>w. w_db w = s) (svc_ListMyRooms svc u n tok)"
  "keeps (\<lambda>w. w_db w = s) (svc_CreateAttachmentUploadURL svc rid u f ct)"
  "keeps (\<lambda>w. w_db w = s) (svc_CreateImageUploadURL svc rid u f ct)"
  unfolding svc_GetMessages_def svc_ListMyRooms_def svc_CreateAttachmentUploadURL_def svc_CreateImageUploadURL_def
    validateActiveMembership_def Let_def
  by (auto intro!: keeps_bindP keeps_if keeps_store split: option.split prod.split)

context chat_repository
begin

text \<open>
  The store stays well formed and its messages keep their numbers, and those of an earlier state are still
  there, unchanged or deleted.
\<close>

definition steady :: "'s world \<Rightarrow> 's world \<Rightarrow> bool" where
  "steady w0 w \<longleftrightarrow> inv (w_db w) \<and> messages_inv (abs (w_db w))
     \<and> (\<forall>rid. map_later message_later (a_messages (abs (w_db w0)) rid) (a_messages (abs (w_db w)) rid))"

lemma steady_refl: "inv (w_db w) \<Longrightarrow> messages_inv (abs (w_db w)) \<Longrightarrow> steady w w"
  by (simp add: steady_def)

lemma steady_trans: "steady w0 w1 \<Longrightarrow> steady w1 w2 \<Longrightarrow> steady w0 w2"
  unfolding steady_def using later_trans(3) by (blast intro: map_later_trans)

lemma steady_store: "steady w0 w \<Longrightarrow> w_db w' = w_db w \<Longrightarrow> steady w0 w'"
  by (simp add: steady_def)

lemma steady_framed: "steady w0 w \<Longrightarrow> framed w w' \<Longrightarrow> steady w0 w'"
  unfolding steady_def framed_def using messages_inv_frame by auto

lemma steady_keeps: "steady w0 w \<Longrightarrow> (\<And>v. keeps (framed v) m) \<Longrightarrow> steady w0 (snd (m w))"
  by (rule steady_framed, assumption) (use framed_refl in \<open>auto simp: steady_def\<close>)

lemma steady_keeps_store: "steady w0 w \<Longrightarrow> (\<And>s. keeps (\<lambda>w. w_db w = s) m) \<Longrightarrow> steady w0 (snd (m w))"
  by (rule steady_store, assumption) (use keepsD [of "\<lambda>v. w_db v = w_db w" m w] in blast)

lemma steady_wp: "wp m (\<lambda>_. steady w0) (\<lambda>_. steady w0) w \<Longrightarrow> steady w0 (after m w)"
  by (rule wp_after)

lemma steady_tx: "steady w0 w \<Longrightarrow> steady w0 (snd (m w)) \<Longrightarrow> cs_repo svc = R \<Longrightarrow> steady w0 (snd (tx svc m w))"
  using rollback [of "w_db w" "w_db (snd (m w))"]
  by (cases "m w") (auto simp: tx_def WithTx_def steady_def split: sum.split)

lemma steady_create:
  assumes w: "steady w0 w" and R: "cs_repo svc = R" and ok: "writable abs (WriteMessage rid u msg room) w" "\<not> mg_IsDeleted msg"
  shows "steady w0 (snd (db (\<lambda>s. rp_CreateMessageWithNextSequence (cs_repo svc) s msg) w))"
proof -
  let ?a = "abs (w_db w)" and ?m = "msg\<lparr>mg_SequenceNo := a_maxSeq (abs (w_db w)) (mg_RoomID msg) + 1\<rparr>"
  have inv: "inv (w_db w)" "messages_inv ?a" using w by (simp_all add: steady_def)
  have ok': "fresh_message_id ?a (mg_ID msg)" "int64_range (a_maxSeq ?a (mg_RoomID msg) + 1)" using ok(1) by (simp_all add: writable_def)
  note run = create_message_run [OF inv(1) ok']
  have "messages_inv (snd (spec_CreateMessage msg ?a))"
  proof (cases "a_rooms ?a (mg_RoomID msg)")
    case (Some r)
    then show ?thesis using messages_inv_append [OF inv(2), of ?m] ok' ok(2)
      by (simp add: spec_CreateMessage_def Let_def message_ok_def)
  qed (use inv(2) in \<open>simp add: spec_CreateMessage_def\<close>)
  moreover have "map_later message_later (a_messages ?a i) (a_messages (snd (spec_CreateMessage msg ?a)) i)" for i
    using ok'(1) by (auto simp: spec_CreateMessage_def Let_def fresh_message_id_def intro!: map_later_upd)
  ultimately have "steady w (w\<lparr>w_db := snd (rp_CreateMessageWithNextSequence R (w_db w) msg)\<rparr>)"
    using run by (simp add: steady_def)
  with steady_trans [OF w] R show ?thesis by (simp add: db_def split_def Let_def)
qed

lemma steady_send:
  assumes w: "steady w0 w" and R: "cs_repo svc = R" and ok: "writable abs (WriteMessage rid u msg room) w" "\<not> mg_IsDeleted msg"
  shows "steady w0 (after (send_writes svc rid u msg room) w)"
proof -
  let ?c = "db (\<lambda>s. rp_CreateMessageWithNextSequence (cs_repo svc) s msg)" and ?u = "db (\<lambda>s. rp_UpdateRoom (cs_repo svc) s room)"
  let ?body = "bindP ?c (\<lambda>saved. bindP ?u (\<lambda>_. ok saved))"
  have u: "steady w0 (snd (bindP ?u (\<lambda>_. ok saved) v))" if "steady w0 v" for v and saved :: ChatMessage
    using that by (rule steady_keeps) (intro keeps_bindP keeps_db [OF R] keeps_pure)
  have "steady w0 (snd (?body w))"
    using steady_create [OF assms] u by (auto simp: bindP_run split: sum.split)
  then have "steady w0 (snd (tx svc ?body w))" by (rule steady_tx [OF w _ R])
  then show ?thesis unfolding after_def send_writes_def bindP_run [of "tx svc ?body"]
    by (auto split: sum.split intro!: steady_keeps_store keeps_bindP)
qed

lemma steady_write:
  assumes w: "steady w0 w" and R: "cs_repo svc = R" and "writable abs p w" "undeleted p"
  shows "steady w0 (after (write_half svc p) w)"
proof (cases p)
  case (WriteMessage rid u msg room)
  then show ?thesis using steady_send [OF w R] assms(3,4) by (simp add: undeleted_def)
qed (use w R in \<open>auto simp: after_def intro!: steady_keeps keeps_db\<close>)

lemma steady_delete:
  assumes w: "steady w0 w" and R: "cs_repo svc = R"
  shows "steady w0 (after (svc_DeleteMessage svc rid i u) w)"
proof -
  let ?a = "abs (w_db w)"
  have inv: "inv (w_db w)" "messages_inv ?a" using w by (simp_all add: steady_def)
  have upd: "steady w (w\<lparr>w_env := g, w_db := snd (rp_UpdateMessage R (w_db w) (deleted t u m))\<rparr>)"
    if m: "a_messages ?a rid i = Some m" for t m g
  proof -
    let ?m = "deleted t u m"
    have k: "mg_RoomID ?m = rid" "mg_ID ?m = i" using message_key [OF inv(1) m] by (simp_all add: deleted_def)
    have "messages_inv (put_message ?m ?a)"
      by (rule messages_inv_replace [OF inv(2)]) (use k m message_key [OF inv(1)] in \<open>auto simp: deleted_def message_ok_def\<close>)
    moreover have "map_later message_later (a_messages ?a j) (a_messages (put_message ?m ?a) j)" for j
      using k m by (auto simp: deleted_def message_later_def intro!: map_later_upd)
    ultimately show ?thesis using inv(1) k m by (simp add: steady_def spec_UpdateMessage_def)
  qed
  have env: "steady w0 (w\<lparr>w_env := g\<rparr>)" for g using w by (rule steady_store) simp
  have "wp (svc_DeleteMessage svc rid i u) (\<lambda>_. steady w0) (\<lambda>_. steady w0) w"
    using env inv(1) R rollback [of "w_db w" "w_db w"] steady_trans [OF w upd]
    by (cases "a_rooms ?a rid"; cases "a_messages ?a rid i")
       (simp_all add: svc_DeleteMessage_def spec_UpdateMessage_def deleted_def message_key [OF inv(1)])
  then show ?thesis by (rule steady_wp)
qed

lemma steady_devices:
  assumes w: "steady w0 w" and R: "cs_repo svc = R"
  shows "steady w0 (after (svc_RegisterDeviceToken svc u d t p) w)" "steady w0 (after (svc_UnregisterDeviceToken svc u d) w)"
proof -
  have inv: "inv (w_db w)" "messages_inv (abs (w_db w))" using w by (simp_all add: steady_def)
  have dev: "steady w0 (w\<lparr>w_env := g, w_db := s\<rparr>)" if "inv s" "abs s = (abs (w_db w))\<lparr>a_devices := d\<rparr>" for g s d
    using w that messages_inv_frame [OF inv(2), of "abs s"] by (simp add: steady_def)
  have up: "steady w0 (w\<lparr>w_env := g, w_db := snd (rp_UpsertDeviceToken R (w_db w) x)\<rparr>)" for g x
    using inv(1) by (rule dev [OF write_run(16)]) (simp add: inv(1) spec_UpsertDeviceToken_def Let_def)
  have off: "steady w0 (w\<lparr>w_env := g, w_db := snd (rp_DeactivateDeviceToken R (w_db w) x y n)\<rparr>)" for g x y n
    using inv(1) by (rule dev [OF write_run(19)]) (simp add: inv(1) spec_DeactivateDeviceToken_def)
  have "wp (svc_RegisterDeviceToken svc u d t p) (\<lambda>_. steady w0) (\<lambda>_. steady w0) w"
    using w R up by (simp add: svc_RegisterDeviceToken_def Let_def split: sum.split)
  moreover have "wp (svc_UnregisterDeviceToken svc u d) (\<lambda>_. steady w0) (\<lambda>_. steady w0) w"
    using w R off by (simp add: svc_UnregisterDeviceToken_def Let_def split: sum.split)
  ultimately show "steady w0 (after (svc_RegisterDeviceToken svc u d t p) w)" "steady w0 (after (svc_UnregisterDeviceToken svc u d) w)"
    by (blast intro: steady_wp)+
qed

lemma steady_serve:
  assumes w: "steady w0 w" and R: "cs_repo svc = R" and c: "\<not> two_phase c"
  shows "steady w0 (serve svc c w)"
  using c steady_delete [OF w R] steady_devices [OF w R] steady_keeps [OF w keeps_rooms(1) [OF R]]
    steady_keeps [OF w keeps_rooms(2) [OF R]] steady_keeps [OF w keeps_rooms(3) [OF R]]
    steady_keeps [OF w keeps_rooms(5) [OF R]] steady_keeps [OF w keeps_rooms(6) [OF R]]
    steady_keeps_store [OF w keeps_store_reads(1)] steady_keeps_store [OF w keeps_store_reads(2)]
    steady_keeps_store [OF w keeps_store_reads(3)] steady_keeps_store [OF w keeps_store_reads(4)]
  by (cases c) (simp_all add: after_def)

lemma overlap_steady:
  assumes "overlap_step svc abs (w, ps) (w', ps')" and w: "steady w0 w" and R: "cs_repo svc = R" and ps: "\<forall>p \<in> set ps. undeleted p"
  shows "steady w0 w' \<and> (\<forall>p \<in> set ps'. undeleted p)"
  using assms(1)
proof (cases rule: overlap_step.cases)
  case (begins c p)
  then have "w_db w' = w_db w" using read_half_env [of svc c] unfolding env_only_def by (metis snd_conv world.select_convs(1) world.surjective world.update_convs(4))
  then show ?thesis using begins ps read_half_undeleted steady_store [OF w] by auto
next
  case (refused c e)
  then have "w_db w' = w_db w" using read_half_env [of svc c] unfolding env_only_def by (metis snd_conv world.select_convs(1) world.surjective world.update_convs(4))
  then show ?thesis using refused ps steady_store [OF w] by auto
next
  case (finishes p)
  then show ?thesis using steady_write [OF w R, of p] ps by (auto dest: notin_set_remove1)
qed (use w R ps steady_serve steady_store [OF w] in auto)

lemma overlap_run_steady:
  assumes "(overlap_step svc abs)\<^sup>*\<^sup>* (w, ps) (w', ps')" "inv (w_db w)" "messages_inv (abs (w_db w))" "cs_repo svc = R"
    "\<forall>p \<in> set ps. undeleted p"
  shows "steady w w' \<and> (\<forall>p \<in> set ps'. undeleted p)"
  using assms(1)
proof (induction rule: rtranclp_induct2)
  case refl
  then show ?case using assms steady_refl by blast
next
  case (step v qs v' qs')
  then show ?case using overlap_steady [OF step(2) _ assms(4)] by blast
qed

end

text \<open>
  C10. Whatever requests overlap and however stale their writes are: the messages of a room carry the sequence
  numbers \<open>1, ..., n\<close>, each once, where \<open>n\<close> is the room's counter, and a message stored at some point of the
  run is there at every later point, with its number, sender and type, unchanged or deleted and emptied.
\<close>

theorem overlap_messages_safe:
  assumes "reachable svc w" and "(overlap_step svc mem_abs)\<^sup>*\<^sup>* (w, []) (w1, ps1)"
    and "(overlap_step svc mem_abs)\<^sup>*\<^sup>* (w1, ps1) (w2, ps2)"
  shows "{mg_SequenceNo x | x i. mem_GetMessage (w_db w2) rid i = Inr x} = {1..max_seq (w_db w2) rid}
    \<and> (\<forall>i j x y. mem_GetMessage (w_db w2) rid i = Inr x \<and> mem_GetMessage (w_db w2) rid j = Inr y
         \<and> mg_SequenceNo x = mg_SequenceNo y \<longrightarrow> i = j)
    \<and> (\<forall>i x. mem_GetMessage (w_db w1) rid i = Inr x \<longrightarrow>
         (\<exists>x'. mem_GetMessage (w_db w2) rid i = Inr x' \<and> mg_SequenceNo x' = mg_SequenceNo x
           \<and> mg_SenderUserID x' = mg_SenderUserID x \<and> mg_MessageType x' = mg_MessageType x
           \<and> (x' = x \<or> mg_IsDeleted x' \<and> mg_Content x' = [] \<and> mg_ImageURL x' = [] \<and> mg_FileURL x' = [] \<and> mg_Metadata x' = None)
           \<and> (mg_IsDeleted x \<longrightarrow> mg_IsDeleted x')))"
proof -
  have R: "cs_repo svc = memory_repo" using assms(1) by (rule reachable_good)
  have 1: "mem.steady w w1" "\<forall>p \<in> set ps1. undeleted p"
    using mem.overlap_run_steady [OF assms(2) reachable_inv(1,2) [OF assms(1)] R] by simp_all
  then have 2: "mem.steady w1 w2" using mem.overlap_run_steady [OF assms(3) _ _ R] by (simp add: mem.steady_def)
  then have inv: "mem_inv (w_db w2)" "messages_inv (mem_abs (w_db w2))" by (simp_all add: mem.steady_def)
  have "\<exists>x'. mem_GetMessage (w_db w2) rid i = Inr x' \<and> mg_SequenceNo x' = mg_SequenceNo x
           \<and> mg_SenderUserID x' = mg_SenderUserID x \<and> mg_MessageType x' = mg_MessageType x
           \<and> (x' = x \<or> mg_IsDeleted x' \<and> mg_Content x' = [] \<and> mg_ImageURL x' = [] \<and> mg_FileURL x' = [] \<and> mg_Metadata x' = None)
           \<and> (mg_IsDeleted x \<longrightarrow> mg_IsDeleted x')" if "mem_GetMessage (w_db w1) rid i = Inr x" for i x
  proof -
    from 2 that obtain x' where x': "a_messages (mem_abs (w_db w2)) rid i = Some x'" "message_later x x'"
      unfolding mem.steady_def mem_reads by (blast dest: map_laterD)
    moreover have "message_ok x'" using messages_invD(2) [OF inv(2)] x'(1) by (blast intro: ranI)
    ultimately show ?thesis unfolding mem_reads by (auto simp: message_later_def message_ok_def)
  qed
  then have later: "\<forall>i x. mem_GetMessage (w_db w1) rid i = Inr x \<longrightarrow> (\<exists>x'. mem_GetMessage (w_db w2) rid i = Inr x'
           \<and> mg_SequenceNo x' = mg_SequenceNo x \<and> mg_SenderUserID x' = mg_SenderUserID x \<and> mg_MessageType x' = mg_MessageType x
           \<and> (x' = x \<or> mg_IsDeleted x' \<and> mg_Content x' = [] \<and> mg_ImageURL x' = [] \<and> mg_FileURL x' = [] \<and> mg_Metadata x' = None)
           \<and> (mg_IsDeleted x \<longrightarrow> mg_IsDeleted x'))" by (intro allI impI)
  note n = numbered_reads [OF inv, of rid]
  show ?thesis by (rule conjI [OF conjunct1 [OF n] conjI [OF conjunct2 [OF n] later]])
qed

text \<open>While \<open>bob\<close> is between the reads and the transaction of a send, \<open>ann\<close> deletes the greeting.\<close>

definition yo_write :: pending where
  "yo_write = WriteMessage (uid 0) ''bob'' (new_message (uid 11) (uid 0) ''bob'' MessageTypeText ''yo'' [] None 82)
     (team\<lparr>rm_UpdatedAt := 82\<rparr>)"

definition greeting_gone :: "Store world" where
  "greeting_gone = serve demo_service (CallDeleteMessage (uid 0) (uid 5) ''ann'') (demo\<lparr>w_env := env_at 80 8\<lparr>ticks := 3, draws := 4\<rparr>\<rparr>)"

definition yo_sent :: "Store world" where
  "yo_sent = after (write_half demo_service yo_write) greeting_gone"

lemma greeting_gone_db: "w_db greeting_gone = (w_db demo)\<lparr>st_messages := [(uid 0, [(uid 5, deleted 83 ''ann'' greeting)])]\<rparr>"
  by (simp add: greeting_gone_def after_def svc_DeleteMessage_def demo prog_simps env_def view_def db_def mem_GetRoom_def
      mem_GetMessage_def mem_UpdateMessage_def inner_def update2_def deleted_def greeting_def new_message_def)

lemma yo_overlaps: "(overlap_step demo_service mem_abs)\<^sup>*\<^sup>* (demo, []) (yo_sent, [])"
proof -
  let ?w1 = "demo\<lparr>w_env := env_at 80 8\<lparr>ticks := 3, draws := 4\<rparr>\<rparr>"
  have "send_reads demo_service (uid 0) ''bob'' MessageTypeText ''yo'' [] None demo = (Inr yo_write, ?w1)"
    using demo_send(1,2) demo_facts(1,7)
    by (simp add: send_reads_def validateActiveMembership_def prog_simps view_def env_def yo_write_def demo
       normalizeAttachmentReferences_def cloneMetadata_def)
  then have 1: "overlap_step demo_service mem_abs (demo, []) (?w1, [yo_write])"
    by (intro overlap_step.begins [of "CallSendMessage (uid 0) ''bob'' MessageTypeText ''yo'' [] None"]) simp_all
  have 2: "overlap_step demo_service mem_abs (?w1, [yo_write]) (greeting_gone, [yo_write])"
    unfolding greeting_gone_def by (rule overlap_step.request) simp
  have "uid 11 \<noteq> uid 5" by code_simp
  then have "writable mem_abs yo_write greeting_gone"
    by (simp add: writable_def yo_write_def new_message_def greeting_gone_db fresh_message_id_def mem_abs_sel inner_def demo max_seq_def
        int64_range_def)
  then have 3: "overlap_step demo_service mem_abs (greeting_gone, [yo_write]) (yo_sent, [])"
    using overlap_step.finishes [of yo_write "[yo_write]" mem_abs greeting_gone demo_service] by (simp add: yo_sent_def)
  from 1 2 3 show ?thesis by (meson converse_rtranclp_into_rtranclp rtranclp.rtrancl_refl)
qed

lemma yo_sent_db: "w_db yo_sent = (w_db demo)\<lparr>st_rooms := [(uid 0, team\<lparr>rm_UpdatedAt := 82\<rparr>), (uid 8, board)],
    st_messages := [(uid 0, [(uid 5, deleted 83 ''ann'' greeting),
      (uid 11, new_message (uid 11) (uid 0) ''bob'' MessageTypeText ''yo'' [] None 82\<lparr>mg_SequenceNo := 2\<rparr>)])],
    st_maxSeq := [(uid 0, 2)]\<rparr>"
proof -
  let ?msg = "new_message (uid 11) (uid 0) ''bob'' MessageTypeText ''yo'' [] None 82"
  let ?s = "(w_db demo)\<lparr>st_rooms := [(uid 0, team\<lparr>rm_UpdatedAt := 82\<rparr>), (uid 8, board)],
     st_messages := [(uid 0, [(uid 5, deleted 83 ''ann'' greeting), (uid 11, ?msg\<lparr>mg_SequenceNo := 2\<rparr>)])], st_maxSeq := [(uid 0, 2)]\<rparr>"
  let ?body = "bindP (db (\<lambda>s. mem_CreateMessageWithNextSequence s ?msg)) (\<lambda>saved.
     bindP (db (\<lambda>s. mem_UpdateRoom s (team\<lparr>rm_UpdatedAt := 82\<rparr>))) (\<lambda>_. ok saved))"
  have "uid 11 \<noteq> uid 5" by code_simp
  then obtain saved where run: "?body greeting_gone = (Inr saved, greeting_gone\<lparr>w_db := ?s\<rparr>)"
    by (simp add: prog_simps db_def greeting_gone_db mem_CreateMessageWithNextSequence_def mem_UpdateRoom_def demo max_seq_def
        int64_range_def inner_def update2_def Let_def wrap64_def new_message_def)
  let ?rest = "bindP (publish (uid 0) saved) (\<lambda>_. bindP (dispatchChatMessagePush demo_service (uid 0) ''bob'' saved) (\<lambda>_.
     bindP (on_env (hydrateMessageForDelivery demo_service saved)) (\<lambda>_. ok ())))"
  have "yo_sent = snd (?rest (greeting_gone\<lparr>w_db := ?s\<rparr>))"
    using run by (simp add: yo_sent_def yo_write_def send_writes_def after_def bindP_run [of ?body])
  moreover have "keeps (\<lambda>v. w_db v = ?s) ?rest" by (intro keeps_bindP) auto
  ultimately show ?thesis by (auto dest: keepsD [of _ _ "greeting_gone\<lparr>w_db := ?s\<rparr>"])
qed

theorem overlap_messages_safe_witness:
  "{mg_SequenceNo x | x i. mem_GetMessage (w_db yo_sent) (uid 0) i = Inr x} = {1..2}
    \<and> (\<exists>x'. mem_GetMessage (w_db yo_sent) (uid 0) (uid 5) = Inr x' \<and> mg_SequenceNo x' = 1 \<and> mg_SenderUserID x' = ''ann'')"
proof -
  have g: "mg_SequenceNo greeting = 1" "mg_SenderUserID greeting = ''ann''" by (simp_all add: greeting_def new_message_def)
  note safe = overlap_messages_safe [OF demo_reachable rtranclp.rtrancl_refl yo_overlaps, of "uid 0"]
  from safe [THEN conjunct2, THEN conjunct2, rule_format, OF demo_facts(9)]
  have "\<exists>x'. mem_GetMessage (w_db yo_sent) (uid 0) (uid 5) = Inr x' \<and> mg_SequenceNo x' = 1 \<and> mg_SenderUserID x' = ''ann''"
    unfolding g by (elim exE conjE) (intro exI conjI)
  moreover have "max_seq (w_db yo_sent) (uid 0) = 2" by (simp add: yo_sent_db max_seq_def)
  ultimately show ?thesis using safe [THEN conjunct1] by simp
qed

section \<open>Stale writes\<close>

context chat_repository
begin

text \<open>The second half of a send writes the room that was read in the first.\<close>

lemma write_message_room:
  assumes inv: "inv (w_db w)" and R: "cs_repo svc = R" and r: "a_rooms (abs (w_db w)) rid = Some r0"
    and m: "mg_RoomID msg = rid" "fresh_message_id (abs (w_db w)) (mg_ID msg)" "int64_range (a_maxSeq (abs (w_db w)) rid + 1)"
    and room: "rm_ID room = rid"
  shows "a_rooms (abs (w_db (after (write_half svc (WriteMessage rid u msg room)) w))) rid = Some room"
proof -
  define s1 where "s1 = snd (rp_CreateMessageWithNextSequence R (w_db w) msg)"
  define s2 where "s2 = snd (rp_UpdateRoom R s1 room)"
  note c = create_message_run [OF inv m(2), unfolded m(1), OF m(3)]
  obtain saved where "fst (spec_CreateMessage msg (abs (w_db w))) = Inr saved"
    by (simp add: spec_CreateMessage_def m(1) r Let_def)
  then have s1: "inv s1" "rp_CreateMessageWithNextSequence R (w_db w) msg = (Inr saved, s1)"
    using c(1,3) unfolding s1_def by (simp_all add: prod_eq_iff)
  have rooms: "a_rooms (abs s1) = a_rooms (abs (w_db w))" using c(2) r by (simp add: s1_def spec_CreateMessage_def m(1) Let_def)
  have s2: "rp_UpdateRoom R s1 room = (Inr (), s2)" "a_rooms (abs s2) rid = Some room"
    using write_run(4-6) [OF s1(1), of room] rooms r by (simp_all add: s2_def spec_UpdateRoom_def room prod_eq_iff)
  let ?m = "bindP (publish rid saved) (\<lambda>_. bindP (dispatchChatMessagePush svc rid u saved) (\<lambda>_.
     bindP (on_env (hydrateMessageForDelivery svc saved)) (\<lambda>_. ok ())))"
  have "after (write_half svc (WriteMessage rid u msg room)) w = snd (?m (w\<lparr>w_db := s2\<rparr>))"
    by (simp add: after_def send_writes_def bindP_run tx_def WithTx_def R db_def s1(2) s2(1))
  moreover have "keeps (\<lambda>w. w_db w = s2) ?m" by (intro keeps_bindP) auto
  ultimately show ?thesis using s2(2) by (auto dest: keepsD [of _ _ "w\<lparr>w_db := s2\<rparr>"])
qed

lemma write_member_store:
  assumes "inv (w_db w)" "cs_repo svc = R"
  shows "abs (w_db (after (write_half svc (WriteMember m)) w)) = snd (spec_UpdateMember m (abs (w_db w)))"
  using write_run(11) [OF assms(1), of m] by (simp add: after_def db_def split_def Let_def assms(2))

end

lemma stale_mark:
  assumes "reachable svc w" and "mem_GetRoom (w_db w) rid = Inr r" "rm_OwnerUserID r \<noteq> u"
    and "mem_GetMember (w_db w) rid u = Inr m" "mb_Status m = MemberStatusActive"
  shows "\<exists>p w1 m' w2. read_half svc (CallMarkAsRead rid u n) w = (Inr p, w1)
      \<and> svc_RemoveMember svc rid (rm_OwnerUserID r) u w1 = (Inr m', w2)
      \<and> mem_GetMember (w_db w2) rid u = Inr m' \<and> mb_Status m' = MemberStatusRemoved
      \<and> mem_GetMember (w_db (after (write_half svc p) w2)) rid u = Inr (read_up_to (next_time w) n m)"
proof -
  have R: "cs_repo svc = memory_repo" using assms(1) by (rule reachable_good)
  let ?m = "read_up_to (next_time w) n m"
  define w1 where "w1 = w\<lparr>w_env := snd (time_Now (w_env w))\<rparr>"
  have rd: "mark_reads svc rid u n w = (Inr (WriteMember ?m), w1)"
    using assms(4,5) R by (simp add: mark_reads_def prog_simps view_def env_def w1_def next_time_def split: prod.split)
  have w1: "reachable svc w1" unfolding w1_def by (rule reachable_step [OF assms(1) chat_step.environment])
  have db: "w_db w1 = w_db w" by (simp add: w1_def)
  from RemoveMember_effect [OF w1, of rid r u] assms(2-4) obtain w2 where
    rm: "svc_RemoveMember svc rid (rm_OwnerUserID r) u w1 = (Inr (expelled (next_time w1) (rm_OwnerUserID r) m), w2)"
    and a2: "mem_abs (w_db w2) = put_member (expelled (next_time w1) (rm_OwnerUserID r) m) (mem_abs (w_db w))"
    unfolding db by auto
  have w2: "w2 = serve svc (CallRemoveMember rid (rm_OwnerUserID r) u) w1" using rm by (simp add: after_def)
  then have "reachable svc w2" using reachable_step [OF w1 chat_step.request [of mem_abs "CallRemoveMember rid (rm_OwnerUserID r) u"]] by simp
  then have inv: "mem_inv (w_db w)" "mem_inv (w_db w2)" using reachable_inv(1) assms(1) by blast+
  have k: "mb_RoomID m = rid" "mb_UserID m = u" using mem.member_key [OF inv(1)] assms(4) unfolding mem_reads by auto
  have rk: "mb_RoomID ?m = rid" "mb_UserID ?m = u" by (simp_all add: read_up_to_def k)
  have "mem_abs (w_db (after (write_half svc (WriteMember ?m)) w2)) = put_member ?m (mem_abs (w_db w2))"
    using mem.write_member_store [OF inv(2) R, of ?m] by (simp add: spec_UpdateMember_def a2 k rk)
  with rd rm show ?thesis
    unfolding mem_reads
    by (intro exI [of _ "WriteMember ?m"] exI [of _ w1] exI [of _ "expelled (next_time w1) (rm_OwnerUserID r) m"] exI [of _ w2])
       (simp add: a2 k rk del: write_half.simps)
qed

lemma stale_send:
  assumes "reachable svc w" and "mem_GetRoom (w_db w) rid = Inr r"
    and "may_send svc (mem_abs (w_db w)) rid u mt content img md" and "admissible mem_abs (CallSendMessage rid u mt content img md) w"
  shows "\<exists>p w1 r' w2. read_half svc (CallSendMessage rid u mt content img md) w = (Inr p, w1)
      \<and> svc_DeactivateRoom svc rid (rm_OwnerUserID r) w1 = (Inr r', w2)
      \<and> mem_GetRoom (w_db w2) rid = Inr r' \<and> \<not> room_open r'
      \<and> mem_GetRoom (w_db (after (write_half svc p) w2)) rid = Inr (r\<lparr>rm_UpdatedAt := next_time w\<rparr>)"
proof -
  have R: "cs_repo svc = memory_repo" using assms(1) by (rule reachable_good)
  have inv: "mem_inv (w_db w)" using reachable_inv(1) [OF assms(1)] .
  have r: "a_rooms (mem_abs (w_db w)) rid = Some r" "rm_ID r = rid"
    using assms(2) mem.room_key [OF inv] unfolding mem_reads by auto
  from assms(3) obtain m where m: "mem_GetMember (w_db w) rid u = Inr m" "mb_Status m = MemberStatusActive" "room_open r"
    and v: "validateMessagePayload mt content img md = Inr ()" "validateTrustedAttachmentURL svc rid mt img md = Inr ()"
    using r(1) unfolding may_send_def mem_reads by auto
  from trusted_normalizes [OF v(2)] obtain img' md' where
    nrm: "normalizeAttachmentReferences svc rid mt img md = Inr (img', md')" by (metis surj_pair)
  define w1 where "w1 = w\<lparr>w_env := snd (id_New (snd (time_Now (w_env w))))\<rparr>"
  let ?msg = "new_message (next_message_id w) rid u mt content img' md' (next_time w)" and ?r = "r\<lparr>rm_UpdatedAt := next_time w\<rparr>"
  have rd: "send_reads svc rid u mt content img md w = (Inr (WriteMessage rid u ?msg ?r), w1)"
    using assms(2) m v nrm R
    by (simp add: send_reads_def validateActiveMembership_def prog_simps view_def env_def w1_def next_time_def next_message_id_def
        room_open_def split_def Let_def)
  have w1: "reachable svc w1" unfolding w1_def by (rule reachable_step [OF assms(1) chat_step.environment])
  have db: "w_db w1 = w_db w" by (simp add: w1_def)
  obtain x w2 where x: "svc_DeactivateRoom svc rid (rm_OwnerUserID r) w1 = (x, w2)" by fastforce
  from wpD [OF mem.wp_DeactivateRoom [OF reachable_good [OF w1]] x] r(1) obtain r' where
    r': "x = Inr r'" "r' = closed_room (next_time w1) r" and g: "mem.good w2"
    and a2: "mem_abs (w_db w2) = (mem_abs (w_db w))\<lparr>a_rooms := (a_rooms (mem_abs (w_db w)))(rid \<mapsto> r')\<rparr>"
    unfolding db by (auto simp: next_time_def split: sum.splits)
  have "a_rooms (mem_abs (w_db (after (write_half svc (WriteMessage rid u ?msg ?r)) w2))) rid = Some ?r"
    using mem.goodD(1) [OF g] R assms(4) r
    by (intro mem.write_message_room) (simp_all add: a2 admissible_def fresh_message_id_def)
  with rd x r' show ?thesis
    unfolding mem_reads by (intro exI [of _ "WriteMessage rid u ?msg ?r"] exI [of _ w1] exI [of _ r'] exI [of _ w2]) (simp add: a2)
qed

text \<open>
  C12. A stale write undoes what happened in between. When the owner removes a member while the member's
  \<^verbatim>\<open>MarkAsRead\<close> is between its read and its write, both succeed and the member is active again. When the owner
  closes the room while a member's \<^verbatim>\<open>SendMessage\<close> is between its reads and its transaction,
  the room is open again.
\<close>

theorem stale_writes_undo:
  assumes "reachable svc w" and "mem_GetRoom (w_db w) rid = Inr r" "room_open r" and "rm_OwnerUserID r \<noteq> u"
    and "mem_GetMember (w_db w) rid u = Inr m" "mb_Status m = MemberStatusActive"
    and "may_send svc (mem_abs (w_db w)) rid u mt content img md" and "admissible mem_abs (CallSendMessage rid u mt content img md) w"
  shows "(\<exists>p w1 m' w2. read_half svc (CallMarkAsRead rid u n) w = (Inr p, w1)
      \<and> svc_RemoveMember svc rid (rm_OwnerUserID r) u w1 = (Inr m', w2)
      \<and> mem_GetMember (w_db w2) rid u = Inr m' \<and> mb_Status m' = MemberStatusRemoved
      \<and> mem_GetMember (w_db (after (write_half svc p) w2)) rid u = Inr (read_up_to (next_time w) n m)
      \<and> mb_Status (read_up_to (next_time w) n m) = MemberStatusActive)
    \<and> (\<exists>p w1 r' w2. read_half svc (CallSendMessage rid u mt content img md) w = (Inr p, w1)
      \<and> svc_DeactivateRoom svc rid (rm_OwnerUserID r) w1 = (Inr r', w2)
      \<and> mem_GetRoom (w_db w2) rid = Inr r' \<and> \<not> room_open r'
      \<and> mem_GetRoom (w_db (after (write_half svc p) w2)) rid = Inr (r\<lparr>rm_UpdatedAt := next_time w\<rparr>))"
  using stale_mark [OF assms(1,2,4-6), of n] stale_send [OF assms(1,2,7,8)] assms(6) by (simp add: read_up_to_def)

theorem stale_writes_undo_witness:
  "(\<exists>p w1 m' w2. read_half demo_service (CallMarkAsRead (uid 0) ''bob'' 1) demo = (Inr p, w1)
      \<and> svc_RemoveMember demo_service (uid 0) ''ann'' ''bob'' w1 = (Inr m', w2) \<and> mb_Status m' = MemberStatusRemoved
      \<and> mem_GetMember (w_db (after (write_half demo_service p) w2)) (uid 0) ''bob'' = Inr (read_up_to (next_time demo) 1 bob))
    \<and> (\<exists>p w1 r' w2. read_half demo_service (CallSendMessage (uid 0) ''bob'' MessageTypeText ''yo'' [] None) demo = (Inr p, w1)
      \<and> svc_DeactivateRoom demo_service (uid 0) ''ann'' w1 = (Inr r', w2) \<and> \<not> room_open r'
      \<and> mem_GetRoom (w_db (after (write_half demo_service p) w2)) (uid 0) = Inr (team\<lparr>rm_UpdatedAt := next_time demo\<rparr>))"
proof -
  have may: "may_send demo_service (mem_abs (w_db demo)) (uid 0) ''bob'' MessageTypeText ''yo'' [] None"
    using demo_facts(1,2,7) demo_send(1,2) unfolding may_send_def mem_reads by auto
  have "admissible mem_abs (CallSendMessage (uid 0) ''bob'' MessageTypeText ''yo'' [] None) demo"
    using demo_send(3,4) by (simp add: admissible_def max_seq_abs)
  from stale_writes_undo [OF demo_reachable demo_facts(1,2) _ demo_facts(7) _ may this, of 1] show ?thesis by auto
qed

end
