(* ===== verification/PushBounds.thy ===== *)
theory PushBounds
  imports GoRunes StreamProperties
begin

text \<open>The size of the notifications that the service hands to the push sender.\<close>

lemma fallback_runes: "length (runes ''You have a new chat message.'') \<le> 120"
  by (subst runes_ascii) (simp_all add: is_ascii_def)

lemma chatPushBody_bounds: "chatPushBody msg \<noteq> [] \<and> length (runes (chatPushBody msg)) \<le> 120"
proof -
  have cut: "length (runes (string_of_runes (take 117 (runes s)) @ ''...'')) = 120" if "120 < length (runes s)" for s
  proof -
    have "runes (string_of_runes (take 117 (runes s)) @ ''...'') = take 117 (runes s) @ runes ''...''"
      by (rule runes_string_of_runes) (auto dest: in_set_takeD runes_valid)
    moreover have "length (runes ''...'') = 3" by (subst runes_ascii) (simp_all add: is_ascii_def)
    ultimately show ?thesis using that by simp
  qed
  show ?thesis
    using fallback_runes cut by (auto simp: chatPushBody_def Let_def split: MessageType.split)
qed

definition push_ok :: "push_Message \<Rightarrow> bool" where
  "push_ok p \<longleftrightarrow> pu_Body p \<noteq> [] \<and> length (runes (pu_Body p)) \<le> 120"

abbreviation pushes_ok :: "'s world \<Rightarrow> bool" where
  "pushes_ok w \<equiv> list_all push_ok (w_push w)"

text \<open>Nothing but the sender writes to the list of notifications.\<close>

lemma pushes_basic:
  "keeps pushes_ok (env f)" "keeps pushes_ok (view g)" "keeps pushes_ok (db h)" "keeps pushes_ok (on_env n)"
  "keeps pushes_ok (publish rid msg)"
  by (auto simp: keeps_def env_def view_def db_def on_env_def publish_def split_beta Let_def split: option.split)

lemma pushes_tx: "keeps pushes_ok m \<Longrightarrow> keeps pushes_ok (tx svc m)"
  by (auto simp: keeps_def tx_def WithTx_def split: prod.split sum.split)

lemma pushes_dispatch: "keeps pushes_ok (dispatchChatMessagePush svc rid u msg)"
proof -
  have p: "keeps pushes_ok (push_Send sender (push_for msg t))" for sender t
    using chatPushBody_bounds by (auto simp: keeps_def push_Send_def push_ok_def push_for_def)
  have "keeps pushes_ok (send_all sender msg ts)" for sender ts
    by (induction ts) (simp_all add: p keeps_bindP keeps_def [of _ "Pair (Inr ())"])
  then show ?thesis unfolding dispatchChatMessagePush_def Let_def
    by (auto intro!: keeps_bindP keeps_attempt pushes_basic split: option.split sum.split)
qed

lemmas pushes_rules = impI conjI allI pushes_tx keeps_bindP keeps_attempt pushes_basic keeps_pure pushes_dispatch

lemma pushes_members:
  "keeps pushes_ok (validateActiveMembership svc rid u)" "keeps pushes_ok (ensureActiveMember svc rid u now)"
  "keeps pushes_ok (ensurePassiveMember svc rid o' u now)"
  unfolding validateActiveMembership_def ensureActiveMember_def ensurePassiveMember_def Let_def
  by (rule pushes_rules | simp add: split_beta split: sum.split MemberStatus.split)+

lemma pushes_service:
  "keeps pushes_ok (svc_CreateRoom svc u t)" "keeps pushes_ok (svc_CreateBoardLinkedRoom svc u b t)"
  "keeps pushes_ok (svc_GetOrCreateBoardChatRoom svc inp)" "keeps pushes_ok (svc_JoinRoom svc rid u)"
  "keeps pushes_ok (svc_LeaveRoom svc rid u)" "keeps pushes_ok (svc_RemoveMember svc rid u v)"
  "keeps pushes_ok (svc_DeactivateRoom svc rid u)" "keeps pushes_ok (svc_SendMessage svc rid u mt x img md)"
  "keeps pushes_ok (svc_DeleteMessage svc rid i u)" "keeps pushes_ok (svc_GetMessages svc rid u n k)"
  "keeps pushes_ok (svc_MarkAsRead svc rid u n)" "keeps pushes_ok (svc_MarkChatRoomRead svc rid u)"
  "keeps pushes_ok (svc_ListMyRooms svc u k tok)"
  "keeps pushes_ok (svc_RegisterDeviceToken svc u d tok p)" "keeps pushes_ok (svc_UnregisterDeviceToken svc u d)"
  "keeps pushes_ok (svc_CreateAttachmentUploadURL svc rid u f ct)" "keeps pushes_ok (svc_CreateImageUploadURL svc rid u f ct)"
  unfolding room_operations message_operations
  by (rule pushes_rules pushes_members | simp add: Let_def split_beta split: sum.split list.split option.split MemberStatus.split)+

lemma serve_pushes: "pushes_ok w \<Longrightarrow> pushes_ok (serve svc c w)"
  using pushes_service [THEN keepsD] by (cases c) (simp_all add: after_def)

text \<open>
  C38. In every reachable state each notification that was handed to the push sender has a body of at
  least one byte and at most 120 runes, however long and however encoded the message is.
\<close>

theorem push_body_bounds:
  assumes "reachable svc w" and "p \<in> set (w_push w)"
  shows "pu_Body p \<noteq> [] \<and> length (runes (pu_Body p)) \<le> 120"
proof -
  from assms(1) obtain g where "(chat_step svc mem_abs)\<^sup>*\<^sup>* (new_world NewStore g) w" by (auto simp: reachable_def)
  then have "pushes_ok w"
  proof (induction rule: rtranclp_induct)
    case (step y z)
    from step.hyps(2) step.IH show ?case by (cases rule: chat_step.cases) (simp_all add: serve_pushes)
  qed (simp add: new_world_def)
  with assms(2) show ?thesis by (auto simp: list_all_iff push_ok_def)
qed

theorem push_body_bounds_witness:
  "\<exists>p. reachable demo_service (talk 20 demo) \<and> p \<in> set (w_push (talk 20 demo)) \<and> length (runes (pu_Body p)) \<le> 120"
proof -
  have m: "0 \<le> max_seq (w_db demo) (uid 0)" "max_seq (w_db demo) (uid 0) < 200" by (simp_all add: demo max_seq_def)
  have fr: "fresh_message_id (mem_abs (w_db demo)) (uid 20)" using talks [of 0] by (simp add: fresh_message_id_def)
  from talk [OF chatting_demo fr m] obtain saved where c: "chatting (talk 20 demo)" and u: "mg_SenderUserID saved = ''ann''"
    and s: "mem.sent demo_service (uid 0) saved (demo\<lparr>w_env := env_at 100 20\<rparr>) (talk 20 demo)" by blast
  have r: "reachable demo_service (talk 20 demo)" using c unfolding chatting_def by blast
  have "a_members (mem_abs (w_db demo)) (uid 0) ''bob'' = Some bob" using demo_facts(7) unfolding mem_reads .
  moreover have "mb_Status bob = MemberStatusActive" "mb_UserID bob = ''bob''" by simp_all
  ultimately have b: "bob \<in> active_members (mem_abs (w_db demo)) (uid 0)" unfolding active_members_def by (blast intro: ranI)
  have "a_devices (mem_abs (w_db demo)) ''bob'' ''d'' = Some (phone ''bob'' ''tb'' 60)" by (simp add: mem_abs_sel demo inner_def)
  then have d: "phone ''bob'' ''tb'' 60 \<in> ran (a_devices (mem_abs (w_db demo)) (mb_UserID bob))" by (auto intro: ranI)
  have "dt_IsActive (phone ''bob'' ''tb'' 60)" "TrimSpace (dt_Token (phone ''bob'' ''tb'' 60)) \<noteq> []"
    by (simp_all add: phone_def TrimSpace_visible visible_def)
  with b d have "phone ''bob'' ''tb'' 60 \<in> push_targets (mem_abs (w_db demo)) (uid 0) ''ann''"
    unfolding push_targets_def by (intro CollectI bexI [of _ bob]) simp_all
  moreover from s u obtain ts where "w_push (talk 20 demo) = w_push demo @ map (push_for saved) ts"
    "set ts = push_targets (mem_abs (w_db demo)) (uid 0) ''ann''"
    unfolding mem.sent_def lists_sorted_def by auto
  ultimately obtain p where p: "p \<in> set (w_push (talk 20 demo))" by auto
  from push_body_bounds [OF r p] r p show ?thesis by blast
qed

end
