(* ===== verification/PostgresListing.thy ===== *)
theory PostgresListing
  imports PostgresProperties
begin

text \<open>
  \<^verbatim>\<open>ListRoomsByUser\<close> of the Postgres repository: the pages that a client gets by following the tokens are
  together the open rooms of the user, each once, most recently updated first, with the right summaries. The
  token is the position of the last room of the page, so this is the correctness of keyset pagination.
\<close>

section \<open>Tokens\<close>

lemma Split_none: "c \<notin> set a \<Longrightarrow> Split c a = [a]"
  by (induction a) auto

lemma Split_append: "c \<notin> set a \<Longrightarrow> Split c (a @ c # b) = a # Split c b"
  by (induction a) auto

lemma FormatInt_no_bar: "CHR ''|'' \<notin> set (FormatInt i)"
proof -
  have "CHR ''|'' \<notin> set (dec_nat n)" for n
  proof
    assume "CHR ''|'' \<in> set (dec_nat n)"
    then have "CHR ''|'' \<in> digit_char ` {..<10}" using set_dec_nat [of n] by (rule subsetD [rotated])
    then obtain m where "CHR ''|'' = digit_char m" "m < 10" by auto
    with digit_char_not_sign(3) [of m] show False by simp
  qed
  then show ?thesis by (simp add: FormatInt_def)
qed

lemma decode_encodeRoomToken:
  "int64_range t \<Longrightarrow> CHR ''|'' \<notin> set i \<Longrightarrow> decodeRoomToken (encodeRoomToken t i) = Some (t, i)"
  by (simp add: decodeRoomToken_def encodeRoomToken_def Split_append [OF FormatInt_no_bar] Split_none Atoi_FormatInt)

lemma encodeRoomToken_not_Nil [simp]: "encodeRoomToken t i \<noteq> []"
  by (simp add: encodeRoomToken_def)

section \<open>The rows of a user\<close>

abbreviation room_key :: "member_row \<times> room_row \<Rightarrow> time \<times> string" where
  "room_key e \<equiv> (rr_updated_at (snd e), rr_id (snd e))"

lemma set_joined_rooms:
  "e \<in> set (joined_rooms d u) \<longleftrightarrow> fst e \<in> set (chat_room_members d) \<and> snd e \<in> set (chat_rooms d)
     \<and> rr_id (snd e) = mr_room_id (fst e) \<and> mr_user_id (fst e) = u \<and> mr_status (fst e) = MemberStatusActive
     \<and> rr_is_active (snd e) \<and> rr_deleted_at (snd e) = None"
  by (cases e) (auto simp: joined_rooms_def)

lemma distinct_of_map: "distinct (map f xs) \<Longrightarrow> distinct xs"
  by (simp add: distinct_map)

lemma joined_rooms_inj:
  assumes "pg_inv d" "e \<in> set (joined_rooms d u)" "e' \<in> set (joined_rooms d u)" "rr_id (snd e) = rr_id (snd e')"
  shows "e = e'"
proof -
  have "snd e = snd e'"
    using assms(2-4) pg_invD(1) [OF assms(1)] by (auto simp: set_joined_rooms distinct_map inj_on_def)
  moreover have "member_pk (fst e) = member_pk (fst e')" using assms(2-4) by (simp add: set_joined_rooms member_pk_def)
  then have "fst e = fst e'"
    using assms(2,3) pg_invD(5) [OF assms(1)] by (auto simp: set_joined_rooms distinct_map inj_on_def)
  ultimately show ?thesis by (simp add: prod_eq_iff)
qed

lemma distinct_joined_rooms: "pg_inv d \<Longrightarrow> distinct (joined_rooms d u)"
  unfolding joined_rooms_def
  by (intro distinct_filter distinct_product) (blast intro: distinct_of_map pg_invD)+

abbreviation all_rooms :: "server \<Rightarrow> Database \<Rightarrow> string \<Rightarrow> (member_row \<times> room_row) list" where
  "all_rooms srv d u \<equiv> listed_rooms srv d u None"

lemma all_rooms_alt: "all_rooms srv d u = rev (sort_key room_key (joined_rooms d u))"
  by (simp add: listed_rooms_def after_token_def)

lemma all_rooms_descending:
  assumes "pg_inv d"
  shows "sorted_wrt (\<lambda>e e'. room_key e' < room_key e) (all_rooms srv d u)"
proof -
  let ?s = "sort_key room_key (joined_rooms d u)"
  have "inj_on room_key (set (joined_rooms d u))" using joined_rooms_inj [OF assms] by (auto intro!: inj_onI)
  then have "distinct (map room_key ?s)" using distinct_joined_rooms [OF assms] by (simp add: distinct_map)
  moreover have "sorted (map room_key ?s)" by simp
  ultimately have "sorted_wrt (<) (map room_key ?s)" by (simp add: strict_sorted_iff)
  then show ?thesis unfolding all_rooms_alt sorted_wrt_rev by (simp add: sorted_wrt_map)
qed

lemma filter_below_nth:
  fixes K :: "'a \<Rightarrow> 'k::linorder"
  shows "sorted_wrt (\<lambda>e e'. K e' < K e) xs \<Longrightarrow> k < length xs \<Longrightarrow> filter (\<lambda>e. K e < K (xs ! k)) xs = drop (Suc k) xs"
proof (induction xs arbitrary: k)
  case (Cons x xs)
  show ?case
  proof (cases k)
    case 0
    with Cons.prems(1) show ?thesis by (auto intro: filter_True)
  next
    case (Suc j)
    with Cons have "filter (\<lambda>e. K e < K (xs ! j)) xs = drop (Suc j) xs" by simp
    moreover have "K (xs ! j) < K x" using Cons.prems Suc by simp
    ultimately show ?thesis using Suc by simp
  qed
qed simp

text \<open>The identifiers and times of the rooms are such that a token brings them back.\<close>

definition token_safe :: "server \<Rightarrow> Database \<Rightarrow> bool" where
  "token_safe srv d \<longleftrightarrow> (\<forall>r \<in> set (chat_rooms d). sq_time srv (rr_updated_at r) = rr_updated_at r \<and> int64_range (rr_updated_at r)
     \<and> CHR ''|'' \<notin> set (rr_id r) \<and> sq_text srv (rr_id r)
     \<and> (\<forall>r' \<in> set (chat_rooms d). text_key srv (rr_id r) < text_key srv (rr_id r') \<longleftrightarrow> rr_id r < rr_id r'))"

lemma set_all_rooms: "set (all_rooms srv d u) = set (joined_rooms d u)"
  by (simp add: all_rooms_alt)

lemma listed_after:
  assumes "pg_inv d" "token_safe srv d" "k < length (all_rooms srv d u)"
  shows "listed_rooms srv d u (Some (room_key (all_rooms srv d u ! k))) = drop (Suc k) (all_rooms srv d u)"
proof -
  let ?e = "all_rooms srv d u ! k"
  have e: "snd ?e \<in> set (chat_rooms d)" using nth_mem [OF assms(3)] unfolding set_all_rooms set_joined_rooms by blast
  have "after_token srv (Some (room_key ?e)) (snd x) \<longleftrightarrow> room_key x < room_key ?e" if "x \<in> set (joined_rooms d u)" for x
  proof -
    have "snd x \<in> set (chat_rooms d)" using that unfolding set_joined_rooms by blast
    with e assms(2) show ?thesis by (auto simp: after_token_def token_safe_def less_prod_def)
  qed
  then have "listed_rooms srv d u (Some (room_key ?e)) = rev (sort_key room_key (filter (\<lambda>x. room_key x < room_key ?e) (joined_rooms d u)))"
    unfolding listed_rooms_def by (metis (no_types, lifting) filter_cong)
  also have "\<dots> = filter (\<lambda>x. room_key x < room_key ?e) (all_rooms srv d u)"
    by (simp only: all_rooms_alt rev_filter [symmetric] filter_sort)
  also have "\<dots> = drop (Suc k) (all_rooms srv d u)"
    by (rule filter_below_nth [OF all_rooms_descending [OF assms(1)] assms(3)])
  finally show ?thesis .
qed

section \<open>Pages\<close>

fun follow_pg_pages :: "nat \<Rightarrow> server \<Rightarrow> Database \<Rightarrow> string \<Rightarrow> int \<Rightarrow> string \<Rightarrow> ChatRoomSummary list option" where
  "follow_pg_pages 0 srv d u limit tok = None"
| "follow_pg_pages (Suc fuel) srv d u limit tok =
    (case pg_ListRoomsByUser srv d u limit tok of
       Inl e \<Rightarrow> None
     | Inr (page, nxt) \<Rightarrow>
        if nxt = [] then Some page else map_option ((@) page) (follow_pg_pages fuel srv d u limit nxt))"

declare follow_pg_pages.simps [simp del]

text \<open>The token \<open>tok\<close> stands before the room number \<open>k\<close> of the list.\<close>

definition token_at :: "server \<Rightarrow> Database \<Rightarrow> string \<Rightarrow> nat \<Rightarrow> string \<Rightarrow> bool" where
  "token_at srv d u k tok \<longleftrightarrow> (k = 0 \<and> tok = []
     \<or> 0 < k \<and> k \<le> length (all_rooms srv d u)
       \<and> tok = encodeRoomToken (rr_updated_at (snd (all_rooms srv d u ! (k - 1)))) (rr_id (snd (all_rooms srv d u ! (k - 1)))))"

lemma token_at_reads:
  assumes "pg_inv d" "token_safe srv d" "token_at srv d u k tok"
  shows "listed_rooms srv d u (decodeRoomToken tok) = drop k (all_rooms srv d u)"
    and "case decodeRoomToken tok of None \<Rightarrow> True | Some (_, i) \<Rightarrow> sq_text srv i"
proof -
  have "listed_rooms srv d u (decodeRoomToken tok) = drop k (all_rooms srv d u)
    \<and> (case decodeRoomToken tok of None \<Rightarrow> True | Some (_, i) \<Rightarrow> sq_text srv i)"
  proof (cases "k = 0")
    case True
    with assms(3) show ?thesis by (simp add: token_at_def decodeRoomToken_def)
  next
    case False
    let ?e = "all_rooms srv d u ! (k - 1)"
    have k: "k - 1 < length (all_rooms srv d u)" "tok = encodeRoomToken (rr_updated_at (snd ?e)) (rr_id (snd ?e))"
      using False assms(3) by (auto simp: token_at_def)
    have "snd ?e \<in> set (chat_rooms d)" using nth_mem [OF k(1)] unfolding set_all_rooms set_joined_rooms by blast
    then have "decodeRoomToken tok = Some (room_key ?e)" "sq_text srv (rr_id (snd ?e))"
      using assms(2) k(2) decode_encodeRoomToken by (auto simp: token_safe_def)
    with listed_after [OF assms(1,2) k(1)] False show ?thesis by simp
  qed
  then show "listed_rooms srv d u (decodeRoomToken tok) = drop k (all_rooms srv d u)"
    "case decodeRoomToken tok of None \<Rightarrow> True | Some (_, i) \<Rightarrow> sq_text srv i" by blast+
qed

context postgres_server
begin

lemma ListRoomsByUser_page:
  assumes "pg_inv d" "token_safe srv d" "sq_uuid srv s = Some u" "0 < limit" "int64_range (limit + 1)" "token_at srv d u k tok"
  shows "\<exists>nxt. pg_ListRoomsByUser srv d s limit tok = Inr (map (summary_row d) (take (nat limit) (drop k (all_rooms srv d u))), nxt)
    \<and> (if k + nat limit < length (all_rooms srv d u) then nxt \<noteq> [] \<and> token_at srv d u (k + nat limit) nxt else nxt = [])"
proof -
  let ?all = "all_rooms srv d u"
  note t = token_at_reads [OF assms(1,2,6)]
  have w: "wrap64 (limit + 1) = limit + 1" "\<not> limit \<le> 0" "\<not> limit + 1 < 0" using assms(4,5) by simp_all
  define out where "out = map (summary_row d) (take (nat (limit + 1)) (drop k ?all))"
  have token_text: "bindS (case decodeRoomToken tok of None \<Rightarrow> Inr [] | Some (_, i) \<Rightarrow> text_param srv i) (\<lambda>_. R) = R" for R :: "pg_error + 'x"
    using t(2) by (auto simp: text_param_def split: option.splits)
  have rows: "query_rows srv ''SELECT chat_rooms of user'' (summary_row d)
      (bindS (uuid_param srv s) (\<lambda>u'. bindS (case decodeRoomToken tok of None \<Rightarrow> Inr [] | Some (_, i) \<Rightarrow> text_param srv i) (\<lambda>_.
         if limit + 1 < 0 then Inl NegativeLimit else Inr (take (nat (limit + 1)) (listed_rooms srv d u' (decodeRoomToken tok)))))) = Inr out"
    using assms(3) w t(1) unfolding token_text by (simp add: query_rows_def uuid_param_def out_def)
  have run: "pg_ListRoomsByUser srv d s limit tok = (if limit < int (length out)
      then Inr (take (nat limit) out, encodeRoomToken (rm_UpdatedAt (sm_Room (out ! (nat limit - 1)))) (rm_ID (sm_Room (out ! (nat limit - 1)))))
      else Inr (out, []))"
    using rows w unfolding pg_ListRoomsByUser_def Let_def by simp
  have more: "limit < int (length out) \<longleftrightarrow> k + nat limit < length ?all"
    using assms(4) unfolding out_def by (simp add: min_def) linarith
  have tk: "take (nat limit) out = map (summary_row d) (take (nat limit) (drop k ?all))"
    unfolding out_def using assms(4) by (simp add: take_map min_def nat_add_distrib)
  show ?thesis
  proof (cases "k + nat limit < length ?all")
    case True
    have "out ! (nat limit - 1) = summary_row d (?all ! (k + nat limit - 1))"
      unfolding out_def using True assms(4) by (simp add: nat_add_distrib)
    then have "token_at srv d u (k + nat limit) (encodeRoomToken (rm_UpdatedAt (sm_Room (out ! (nat limit - 1)))) (rm_ID (sm_Room (out ! (nat limit - 1)))))"
      using True assms(4) by (simp add: token_at_def summary_row_def)
    with True more run tk show ?thesis by simp
  next
    case False
    then have "take (nat limit) out = out" using more by (intro take_all) linarith
    with False more run tk show ?thesis by simp
  qed
qed

lemma follow_pg_pages_from:
  assumes "pg_inv d" "token_safe srv d" "sq_uuid srv s = Some u" "0 < limit" "int64_range (limit + 1)"
    and "token_at srv d u k tok" "length (all_rooms srv d u) - k < fuel"
  shows "follow_pg_pages fuel srv d s limit tok = Some (map (summary_row d) (drop k (all_rooms srv d u)))"
  using assms(6,7)
proof (induction fuel arbitrary: k tok)
  case (Suc fuel)
  let ?all = "all_rooms srv d u"
  obtain nxt where n: "pg_ListRoomsByUser srv d s limit tok = Inr (map (summary_row d) (take (nat limit) (drop k ?all)), nxt)"
    "if k + nat limit < length ?all then nxt \<noteq> [] \<and> token_at srv d u (k + nat limit) nxt else nxt = []"
    using ListRoomsByUser_page [OF assms(1-5) Suc.prems(1)] by blast
  show ?case
  proof (cases "k + nat limit < length ?all")
    case False
    with n show ?thesis by (simp add: follow_pg_pages.simps)
  next
    case True
    then have "follow_pg_pages fuel srv d s limit nxt = Some (map (summary_row d) (drop (k + nat limit) ?all))"
      using n(2) Suc.prems(2) assms(4) by (intro Suc.IH) auto
    moreover have "take (nat limit) (drop k ?all) @ drop (k + nat limit) ?all = drop k ?all"
      by (metis add.commute append_take_drop_id drop_drop)
    ultimately show ?thesis using n True by (simp add: follow_pg_pages.simps flip: map_append)
  qed
qed simp

end

section \<open>Summaries\<close>

lemma last_message_correct:
  assumes "pg_inv d"
  shows "case last_message d rid of
      None \<Rightarrow> ran (a_messages (pg_abs d) rid) = {}
    | Some l \<Rightarrow> (\<exists>g. is_last (ran (a_messages (pg_abs d) rid)) g \<and> l = redact_preview g)"
proof -
  let ?s = "sort_key (\<lambda>r. - gr_sequence_no r) (filter (\<lambda>r. gr_room_id r = rid) (chat_messages d))"
  have set: "set ?s = {r \<in> set (chat_messages d). gr_room_id r = rid}" by auto
  show ?thesis
  proof (cases ?s)
    case Nil
    then have "{r \<in> set (chat_messages d). gr_room_id r = rid} = {}" using set by simp
    with Nil show ?thesis by (simp add: last_message_def ran_tables [OF assms])
  next
    case (Cons r rs)
    have "sorted (map (\<lambda>r. - gr_sequence_no r) ?s)" by simp
    then have "gr_sequence_no r' \<le> gr_sequence_no r" if "r' \<in> set ?s" for r' using that unfolding Cons by auto
    moreover have "r \<in> set ?s" unfolding Cons by simp
    ultimately have "is_last (ran (a_messages (pg_abs d) rid)) (scan_message r)"
      unfolding ran_tables [OF assms] set [symmetric] is_last_def by auto
    moreover have "last_message d rid = Some (redact_preview (scan_message r))"
      by (simp add: last_message_def Cons redact_preview_def Let_def)
    ultimately show ?thesis by auto
  qed
qed

lemma unread_count_correct:
  assumes "pg_inv d"
  shows "unread_count d mem = int (card {g \<in> ran (a_messages (pg_abs d) (mr_room_id mem)).
    unread (mr_user_id mem) (coalesce 0 (mr_last_read_sequence_no mem)) g})"
proof -
  let ?P = "\<lambda>m. gr_room_id m = mr_room_id mem \<and> coalesce 0 (mr_last_read_sequence_no mem) < gr_sequence_no m \<and> gr_sender_user_id m \<noteq> mr_user_id mem"
  let ?f = "filter ?P (chat_messages d)"
  have eq: "{g \<in> ran (a_messages (pg_abs d) (mr_room_id mem)). unread (mr_user_id mem) (coalesce 0 (mr_last_read_sequence_no mem)) g}
      = scan_message ` set ?f"
    unfolding ran_tables [OF assms] by (auto simp: unread_def)
  have "inj_on scan_message (set (chat_messages d))"
    using pg_invD(7) [OF assms] by (metis distinct_map inj_on_def scan_message_sel(1))
  then have "inj_on scan_message (set ?f)" by (rule inj_on_subset) auto
  then have "card (scan_message ` set ?f) = card (set ?f)" by (rule card_image)
  moreover have "distinct ?f" using distinct_of_map [OF pg_invD(7) [OF assms]] by simp
  then have "card (set ?f) = length ?f" by (rule distinct_card)
  ultimately show ?thesis unfolding eq unread_count_def by (simp only:)
qed

lemma summary_row_correct:
  assumes "pg_inv d" "e \<in> set (joined_rooms d u)"
  shows "\<exists>rid m. a_members (pg_abs d) rid u = Some m \<and> mb_Status m = MemberStatusActive
    \<and> summary_of (pg_abs d) rid m (summary_row d e)"
proof -
  note e = assms(2) [unfolded set_joined_rooms]
  let ?rid = "mr_room_id (fst e)"
  have "row_at member_pk (chat_room_members d) (?rid, u) = Some (fst e)" "row_at rr_id (chat_rooms d) ?rid = Some (snd e)"
    using e row_at_Some [OF pg_invD(5) [OF assms(1)]] row_at_Some [OF pg_invD(1) [OF assms(1)]] by (auto simp: member_pk_def)
  moreover have "mb_LastReadSequenceNo (scan_member (fst e)) = coalesce 0 (mr_last_read_sequence_no (fst e))" by (simp add: scan_member_def)
  ultimately show ?thesis
    using e unread_count_correct [OF assms(1), of "fst e"] last_message_correct [OF assms(1), of ?rid]
    by (intro exI [of _ ?rid] exI [of _ "scan_member (fst e)"]) (simp add: summary_of_def summary_row_def pg_abs_sel)
qed

lemma listed_room_set:
  assumes "pg_inv d"
  shows "(\<lambda>e. scan_room (snd e)) ` set (joined_rooms d u) =
    {r. \<exists>rid m. a_members (pg_abs d) rid u = Some m \<and> mb_Status m = MemberStatusActive \<and> a_rooms (pg_abs d) rid = Some r \<and> room_open r}"
    (is "?L = ?R")
proof
  show "?L \<subseteq> ?R"
  proof clarify
    fix a b
    assume ab: "(a, b) \<in> set (joined_rooms d u)"
    from summary_row_correct [OF assms ab] obtain rid m where "a_members (pg_abs d) rid u = Some m" "mb_Status m = MemberStatusActive"
      "a_rooms (pg_abs d) rid = Some (scan_room b)" by (auto simp: summary_of_def summary_row_def)
    moreover have "room_open (scan_room b)" using ab by (simp add: set_joined_rooms room_open_def)
    ultimately show "\<exists>rid m. a_members (pg_abs d) rid u = Some m \<and> mb_Status m = MemberStatusActive
      \<and> a_rooms (pg_abs d) rid = Some (scan_room (snd (a, b))) \<and> room_open (scan_room (snd (a, b)))" by auto
  qed
  show "?R \<subseteq> ?L"
  proof clarify
    fix r rid m
    assume m: "a_members (pg_abs d) rid u = Some m" "mb_Status m = MemberStatusActive" and r: "a_rooms (pg_abs d) rid = Some r" "room_open r"
    obtain mr rr where "row_at member_pk (chat_room_members d) (rid, u) = Some mr" "m = scan_member mr"
      "row_at rr_id (chat_rooms d) rid = Some rr" "r = scan_room rr" using m(1) r(1) by (auto simp: pg_abs_sel)
    then have "(mr, rr) \<in> set (joined_rooms d u)"
      using m(2) r(2) row_at_SomeD [of member_pk] row_at_SomeD [of rr_id] by (fastforce simp: set_joined_rooms member_pk_def room_open_def)
    then show "r \<in> ?L" using \<open>r = scan_room rr\<close> by force
  qed
qed

text \<open>
  C40. A client that follows the page tokens of the Postgres repository from the first page reaches a page
  without token after at most one page per room. The pages together hold exactly the open rooms of which the
  user is an active member, each once and most recently updated first (by identifier among equal times),
  whatever the page size; and every entry has the unread count and the last message of its room. The times
  are those of an \<^verbatim>\<open>int64\<close> of nanoseconds that the server returns unchanged, and the collation of the
  database orders the identifiers of rooms as bytes.
\<close>

theorem postgres_pages_complete:
  assumes "postgres_server srv" and "pg_inv d" and "token_safe srv d" and "sq_uuid srv userID = Some u"
    and "0 < limit" and "int64_range (limit + 1)"
  shows "\<exists>rooms. follow_pg_pages (Suc (length (chat_rooms d))) srv d userID limit [] = Some rooms
    \<and> sorted_wrt (\<lambda>x y. (rm_UpdatedAt (sm_Room y), rm_ID (sm_Room y)) < (rm_UpdatedAt (sm_Room x), rm_ID (sm_Room x))) rooms
    \<and> sm_Room ` set rooms = {r. \<exists>rid m. a_members (pg_abs d) rid u = Some m \<and> mb_Status m = MemberStatusActive
        \<and> a_rooms (pg_abs d) rid = Some r \<and> room_open r}
    \<and> (\<forall>sm \<in> set rooms. \<exists>rid m. a_members (pg_abs d) rid u = Some m \<and> mb_Status m = MemberStatusActive
        \<and> summary_of (pg_abs d) rid m sm)"
proof (intro exI [of _ "map (summary_row d) (all_rooms srv d u)"] conjI ballI)
  let ?all = "all_rooms srv d u"
  have "length ?all \<le> length (chat_rooms d)"
  proof -
    have "inj_on (\<lambda>e. snd e) (set (joined_rooms d u))" by (intro inj_onI joined_rooms_inj [OF assms(2)]) simp_all
    then have "card (set (joined_rooms d u)) \<le> card (set (chat_rooms d))"
      by (intro card_inj_on_le [of snd]) (auto simp: set_joined_rooms)
    moreover have "card (set (joined_rooms d u)) = length (joined_rooms d u)" by (rule distinct_card [OF distinct_joined_rooms [OF assms(2)]])
    ultimately show ?thesis using card_length [of "chat_rooms d"] by (simp add: all_rooms_alt)
  qed
  moreover have "token_at srv d u 0 []" by (simp add: token_at_def)
  ultimately show "follow_pg_pages (Suc (length (chat_rooms d))) srv d userID limit [] = Some (map (summary_row d) ?all)"
    using postgres_server.follow_pg_pages_from [OF assms, of 0 "[]" "Suc (length (chat_rooms d))"] by simp
  show "sorted_wrt (\<lambda>x y. (rm_UpdatedAt (sm_Room y), rm_ID (sm_Room y)) < (rm_UpdatedAt (sm_Room x), rm_ID (sm_Room x)))
      (map (summary_row d) ?all)"
    using all_rooms_descending [OF assms(2), of srv u] by (simp add: sorted_wrt_map summary_row_def)
  show "sm_Room ` set (map (summary_row d) ?all) = {r. \<exists>rid m. a_members (pg_abs d) rid u = Some m
      \<and> mb_Status m = MemberStatusActive \<and> a_rooms (pg_abs d) rid = Some r \<and> room_open r}"
    unfolding listed_room_set [OF assms(2), symmetric] set_map set_all_rooms by (simp add: image_image summary_row_def)
  show "\<exists>rid m. a_members (pg_abs d) rid u = Some m \<and> mb_Status m = MemberStatusActive \<and> summary_of (pg_abs d) rid m sm"
    if "sm \<in> set (map (summary_row d) ?all)" for sm
    using that summary_row_correct [OF assms(2)] unfolding set_map set_all_rooms by blast
qed

text \<open>Two rooms with the same time of update and one member of both.\<close>

definition example_member :: "char \<Rightarrow> string \<Rightarrow> member_row" where
  "example_member i rid = \<lparr>mr_id = id_of i, mr_room_id = rid, mr_user_id = id_of (CHR ''2''), mr_role = MemberRoleOwner,
     mr_status = MemberStatusActive, mr_joined_at = 1000, mr_left_at = None, mr_removed_at = None, mr_removed_by_user_id = None,
     mr_last_read_sequence_no = Some 0, mr_last_read_at = None, mr_created_at = 1000, mr_updated_at = 1000\<rparr>"

definition example_database :: Database where
  "example_database = \<lparr>chat_rooms = [example_row, example_row\<lparr>rr_id := id_of (CHR ''3'')\<rparr>],
     chat_room_members = [example_member (CHR ''5'') (id_of (CHR ''1'')), example_member (CHR ''6'') (id_of (CHR ''3''))],
     chat_messages = [], chat_device_tokens = []\<rparr>"

lemma id_of_eq [simp]: "id_of a = id_of b \<longleftrightarrow> a = b"
  by (simp add: id_of_def)

lemma example_database_inv: "pg_inv example_database"
proof -
  have "\<not> board_conflict example_row r" "\<not> board_conflict (example_row\<lparr>rr_id := i\<rparr>) r" for r i
    by (simp_all add: board_conflict_def in_board_index_def example_row_def)
  then have p: "pairwise (\<lambda>r r'. \<not> board_conflict r r') (set (chat_rooms example_database))"
    by (auto simp: example_database_def intro!: pairwiseI)
  have ids: "rr_id example_row = id_of (CHR ''1'')" "rr_linked_board_id example_row = None" by (simp_all add: example_row_def)
  show ?thesis unfolding pg_inv_def
    by (intro conjI p) (simp_all add: example_database_def example_member_def member_pk_def ids)
qed

lemma example_database_safe: "token_safe reference_server example_database"
proof -
  have "ValidString (id_of (CHR ''1''))" "ValidString (id_of (CHR ''3''))"
    by (rule ValidString_ascii, simp add: id_of_def is_ascii_def)+
  moreover have "char_of (0 :: nat) \<notin> set (id_of (CHR ''1''))" "char_of (0 :: nat) \<notin> set (id_of (CHR ''3''))" by code_simp+
  ultimately have "sq_text reference_server (id_of (CHR ''1''))" "sq_text reference_server (id_of (CHR ''3''))"
    by (simp_all add: reference_server_def)
  moreover have "sq_time reference_server 5000 = 5000" "int64_range 5000" by (simp_all add: reference_server_def int64_range_def)
  moreover have "CHR ''|'' \<notin> set (id_of (CHR ''1''))" "CHR ''|'' \<notin> set (id_of (CHR ''3''))" by (simp_all add: id_of_def)
  moreover have "text_key reference_server a < text_key reference_server b \<longleftrightarrow> a < b" for a b
    by (auto simp: text_key_def reference_server_def less_prod_def)
  ultimately show ?thesis by (simp add: token_safe_def example_database_def example_row_def)
qed

theorem postgres_pages_complete_witness:
  "\<exists>rooms. follow_pg_pages 3 reference_server example_database (id_of (CHR ''2'')) 1 [] = Some rooms
     \<and> sm_Room ` set rooms = {scan_room example_row, scan_room (example_row\<lparr>rr_id := id_of (CHR ''3'')\<rparr>)}"
proof -
  have u: "sq_uuid reference_server (id_of (CHR ''2'')) = Some (id_of (CHR ''2''))" by (rule reference_id) simp
  have l: "int64_range (1 + 1)" "0 < (1 :: int)" by (simp_all add: int64_range_def)
  have n: "Suc (length (chat_rooms example_database)) = 3" by (simp add: example_database_def)
  have "joined_rooms example_database (id_of (CHR ''2'')) =
      [(example_member (CHR ''5'') (id_of (CHR ''1'')), example_row),
       (example_member (CHR ''6'') (id_of (CHR ''3'')), example_row\<lparr>rr_id := id_of (CHR ''3'')\<rparr>)]"
    by (simp add: joined_rooms_def example_database_def example_member_def example_row_def)
  then have "(\<lambda>e. scan_room (snd e)) ` set (joined_rooms example_database (id_of (CHR ''2''))) =
      {scan_room example_row, scan_room (example_row\<lparr>rr_id := id_of (CHR ''3'')\<rparr>)}" by simp
  with postgres_pages_complete [OF reference.postgres_server_axioms example_database_inv example_database_safe u l(2,1)]
    listed_room_set [OF example_database_inv, of "id_of (CHR ''2'')"] n
  show ?thesis by auto
qed

end
