(* ===== verification/Migrations.thy ===== *)
theory Migrations
  imports Domain
begin

text \<open>
  \<^verbatim>\<open>cmd/migrate\<close>: the runner of the schema migrations. The file system and the database server are
  parameters: what \<^verbatim>\<open>os.Stat\<close>, \<^verbatim>\<open>os.ReadDir\<close> and \<^verbatim>\<open>os.ReadFile\<close> return, which statements the server fails
  to execute, what a script does to the rest of the database and whether that has the table \<^verbatim>\<open>chat_rooms\<close>.
  The state is the table \<^verbatim>\<open>schema_migrations\<close> (the file names; absent at first) and the rest of the database.
  A call of \<^verbatim>\<open>log.Fatalf\<close> ends the program with its text.
\<close>

section \<open>Paths\<close>

text \<open>\<^verbatim>\<open>filepath.Clean\<close> on Unix; the stack holds the components in reverse.\<close>

definition clean_step :: "bool \<Rightarrow> string list \<Rightarrow> string \<Rightarrow> string list" where
  "clean_step rooted st c =
    (if c = [] \<or> c = ''.'' then st
     else if c = ''..'' then
       (case st of
          [] \<Rightarrow> if rooted then [] else [''..'']
        | x # xs \<Rightarrow> if x = ''..'' then ''..'' # st else xs)
     else c # st)"

definition Clean :: "string \<Rightarrow> string" where
  "Clean path =
    (if path = [] then ''.''
     else (let rooted = (hd path = CHR ''/''); st = foldl (clean_step rooted) [] (Split (CHR ''/'') path); body = Join (rev st) ''/''
           in if rooted then CHR ''/'' # body else if st = [] then ''.'' else body))"

definition HasSuffix :: "string \<Rightarrow> string \<Rightarrow> bool" where
  "HasSuffix s suffix = HasPrefix (rev s) (rev suffix)"

section \<open>The surroundings\<close>

record file_system =
  fs_Stat :: "string \<Rightarrow> string + bool"
  fs_ReadDir :: "string \<Rightarrow> string + (string \<times> bool) list"
  fs_ReadFile :: "string \<Rightarrow> string + string"

record 'd migration_server =
  ss_fault :: "string \<Rightarrow> string option"
  ss_script :: "string \<Rightarrow> 'd \<Rightarrow> string + 'd"
  ss_has_chat_rooms :: "'d \<Rightarrow> bool"

record 'd migration_state =
  schema_migrations :: "string list option"
  ms_db :: 'd

record flags =
  fl_dsn :: string
  fl_path :: string
  fl_file :: string

type_synonym ('d, 'a) runner = "('d migration_state, string, 'a) prog"

definition call :: "'d migration_server \<Rightarrow> string \<Rightarrow> ('d, 'a) runner \<Rightarrow> ('d, 'a) runner" where
  "call srv name m = (case ss_fault srv name of Some t \<Rightarrow> fail t | None \<Rightarrow> m)"

text \<open>\<^verbatim>\<open>if err != nil { log.Fatalf(...) }\<close>\<close>

definition Fatalf :: "string \<Rightarrow> ('d, 'a) runner \<Rightarrow> ('d, 'a) runner" where
  "Fatalf msg m s = (case m s of (Inl t, s') \<Rightarrow> (Inl (msg @ '': '' @ t), s') | (Inr x, s') \<Rightarrow> (Inr x, s'))"

section \<open>The runner\<close>

definition baseMigrationFile :: string where
  "baseMigrationFile = ''001_create_chat_schema.sql''"

definition resolveMigrationFiles :: "file_system \<Rightarrow> string \<Rightarrow> string + string list" where
  "resolveMigrationFiles fs path =
    (let cleanPath = Clean path in
     case fs_Stat fs cleanPath of
       Inl e \<Rightarrow> Inl e
     | Inr False \<Rightarrow> Inr [cleanPath]
     | Inr True \<Rightarrow>
        (case fs_ReadDir fs cleanPath of
           Inl e \<Rightarrow> Inl e
         | Inr entries \<Rightarrow>
            (let files = sort (map (\<lambda>e. Clean (cleanPath @ ''/'' @ fst e))
                   (filter (\<lambda>e. \<not> snd e \<and> HasSuffix (ToLower (fst e)) ''.sql'') entries))
             in if files = [] then Inl (''no sql files found under '' @ cleanPath) else Inr files)))"

definition ensureMigrationTable :: "'d migration_server \<Rightarrow> ('d, unit) runner" where
  "ensureMigrationTable srv = call srv ''CREATE TABLE schema_migrations'' (\<lambda>s.
     (Inr (), s\<lparr>schema_migrations := Some (case schema_migrations s of None \<Rightarrow> [] | Some ns \<Rightarrow> ns)\<rparr>))"

definition loadAppliedMigrations :: "'d migration_server \<Rightarrow> ('d, string list) runner" where
  "loadAppliedMigrations srv = call srv ''SELECT schema_migrations'' (\<lambda>s.
     case schema_migrations s of
       None \<Rightarrow> (Inl ''relation schema_migrations does not exist'', s)
     | Some ns \<Rightarrow> (Inr ns, s))"

definition baseSchemaExists :: "'d migration_server \<Rightarrow> ('d, bool) runner" where
  "baseSchemaExists srv = call srv ''SELECT EXISTS chat_rooms'' (\<lambda>s. (Inr (ss_has_chat_rooms srv (ms_db s)), s))"

text \<open>\<^verbatim>\<open>INSERT ... ON CONFLICT (filename) DO NOTHING\<close>\<close>

definition record_name :: "string \<Rightarrow> string list option \<Rightarrow> string list option" where
  "record_name name = map_option (\<lambda>ns. if name \<in> set ns then ns else ns @ [name])"

definition markMigrationApplied :: "'d migration_server \<Rightarrow> string \<Rightarrow> ('d, unit) runner" where
  "markMigrationApplied srv filename = call srv ''INSERT schema_migrations'' (\<lambda>s.
     (Inr (), s\<lparr>schema_migrations := record_name filename (schema_migrations s)\<rparr>))"

text \<open>The transaction of one file: the script, the record, the commit; an error rolls all of it back.\<close>

definition apply_file :: "file_system \<Rightarrow> 'd migration_server \<Rightarrow> string \<Rightarrow> ('d, unit) runner" where
  "apply_file fs srv file =
    bindP (Fatalf (''read migration file failed ('' @ file @ '')'') (of_result (fs_ReadFile fs (Clean file)))) (\<lambda>content.
    bindP (Fatalf (''begin migration tx failed ('' @ file @ '')'') (call srv ''BEGIN'' (ok ()))) (\<lambda>_ s.
      case Fatalf (''migration apply failed ('' @ file @ '')'')
             (call srv file (\<lambda>s. case ss_script srv content (ms_db s) of
                Inl t \<Rightarrow> (Inl t, s) | Inr d \<Rightarrow> (Inr (), s\<lparr>ms_db := d\<rparr>))) s of
        (Inl t, _) \<Rightarrow> (Inl t, s)
      | (Inr _, s1) \<Rightarrow>
         (case Fatalf (''record migration failed ('' @ file @ '')'') (markMigrationApplied srv (Base file)) s1 of
            (Inl t, _) \<Rightarrow> (Inl t, s)
          | (Inr _, s2) \<Rightarrow>
             (case Fatalf (''commit migration failed ('' @ file @ '')'') (call srv ''COMMIT'' (ok ())) s2 of
                (Inl t, _) \<Rightarrow> (Inl t, s)
              | (Inr _, _) \<Rightarrow> (Inr (), s2)))))"

text \<open>The loop over the files; the set of applied names is the one read at the start.\<close>

fun apply_files :: "file_system \<Rightarrow> 'd migration_server \<Rightarrow> string list \<Rightarrow> string list \<Rightarrow> ('d, unit) runner" where
  "apply_files fs srv applied [] = ok ()"
| "apply_files fs srv applied (file # files) =
    (if Base file \<in> set applied then apply_files fs srv applied files
     else bindP (apply_file fs srv file) (\<lambda>_. apply_files fs srv applied files))"

text \<open>A database that has the base schema but no record of it counts as migrated that far.\<close>

definition bootstrap :: "'d migration_server \<Rightarrow> string list \<Rightarrow> ('d, string list) runner" where
  "bootstrap srv applied =
    (if baseMigrationFile \<in> set applied then ok applied
     else bindP (Fatalf ''check base schema failed'' (baseSchemaExists srv)) (\<lambda>found.
       if found then bindP (Fatalf ''bootstrap base migration failed'' (markMigrationApplied srv baseMigrationFile)) (\<lambda>_.
                       ok (applied @ [baseMigrationFile]))
       else ok applied))"

definition migrate_main :: "file_system \<Rightarrow> 'd migration_server \<Rightarrow> flags \<Rightarrow> ('d, unit) runner" where
  "migrate_main fs srv fl =
    (let migrationPath = (if fl_file fl \<noteq> [] then fl_file fl else fl_path fl) in
     if fl_dsn fl = [] then fail ''dsn is required: pass -dsn or set CHAT_DB_DSN''
     else
     bindP (Fatalf ''resolve migration files failed'' (of_result (resolveMigrationFiles fs migrationPath))) (\<lambda>files.
     bindP (Fatalf ''open db failed'' (call srv ''open'' (ok ()))) (\<lambda>_.
     bindP (Fatalf ''db ping failed'' (call srv ''ping'' (ok ()))) (\<lambda>_.
     bindP (Fatalf ''ensure migration table failed'' (ensureMigrationTable srv)) (\<lambda>_.
     bindP (Fatalf ''load applied migrations failed'' (loadAppliedMigrations srv)) (\<lambda>applied.
     bindP (bootstrap srv applied) (\<lambda>applied.
     apply_files fs srv applied files)))))))"

section \<open>What a run does\<close>

definition applied_names :: "'d migration_state \<Rightarrow> string list" where
  "applied_names s = (case schema_migrations s of None \<Rightarrow> [] | Some ns \<Rightarrow> ns)"

text \<open>The scripts of some files, one after the other.\<close>

fun replay :: "file_system \<Rightarrow> 'd migration_server \<Rightarrow> string list \<Rightarrow> 'd \<Rightarrow> 'd option" where
  "replay fs srv [] d = Some d"
| "replay fs srv (file # files) d =
    (case fs_ReadFile fs (Clean file) of
       Inl _ \<Rightarrow> None
     | Inr content \<Rightarrow> (case ss_script srv content d of Inl _ \<Rightarrow> None | Inr d' \<Rightarrow> replay fs srv files d'))"

lemma bindP_Inr: "bindP m f w = (Inr y, w') \<longleftrightarrow> (\<exists>x w1. m w = (Inr x, w1) \<and> f x w1 = (Inr y, w'))"
  by (cases "m w"; cases "fst (m w)") (auto simp: bindP_run)

lemma Fatalf_Inr [simp]: "Fatalf msg m s = (Inr x, s') \<longleftrightarrow> m s = (Inr x, s')"
  by (auto simp: Fatalf_def split: prod.splits sum.splits)

lemma call_Inr [simp]: "call srv name m s = (Inr x, s') \<longleftrightarrow> ss_fault srv name = None \<and> m s = (Inr x, s')"
  by (simp add: call_def split: option.split)

lemma call_ok [simp]: "ss_fault srv name = None \<Longrightarrow> call srv name m = m"
  by (simp add: call_def)

lemma Fatalf_ok: "m s = (Inr x, s') \<Longrightarrow> Fatalf msg m s = (Inr x, s')"
  by simp

lemma applied_names_record:
  "schema_migrations s \<noteq> None \<Longrightarrow> set (applied_names (s\<lparr>schema_migrations := record_name n (schema_migrations s), ms_db := d\<rparr>))
     = insert n (set (applied_names s))"
  by (auto simp: applied_names_def record_name_def)

lemma apply_file_Inr:
  "apply_file fs srv file s = (Inr x, s') \<longleftrightarrow>
    ss_fault srv ''BEGIN'' = None \<and> ss_fault srv file = None \<and> ss_fault srv ''INSERT schema_migrations'' = None \<and> ss_fault srv ''COMMIT'' = None
    \<and> (\<exists>content d. fs_ReadFile fs (Clean file) = Inr content \<and> ss_script srv content (ms_db s) = Inr d
         \<and> s' = s\<lparr>schema_migrations := record_name (Base file) (schema_migrations s), ms_db := d\<rparr>)"
proof -
  have f: "Fatalf msg m s = (case m s of (Inl t, s') \<Rightarrow> (Inl (msg @ '': '' @ t), s') | (Inr x, s') \<Rightarrow> (Inr x, s'))"
    for msg and m :: "('a, 'b) runner" and s by (rule Fatalf_def)
  show ?thesis
    by (auto simp: apply_file_def bindP_run f call_def markMigrationApplied_def split: sum.splits option.splits prod.splits)
qed

lemma apply_file_Inl: "apply_file fs srv file s = (Inl t, s') \<Longrightarrow> s' = s"
  by (auto simp: apply_file_def bindP_run Fatalf_def call_def markMigrationApplied_def split: sum.splits option.splits prod.splits)

text \<open>Whatever the outcome, a prefix of the pending files was executed, in order, and exactly these were recorded.\<close>

lemma apply_files_effect:
  assumes "apply_files fs srv applied files s = (r, s')" "schema_migrations s \<noteq> None"
  shows "\<exists>run rest. filter (\<lambda>f. Base f \<notin> set applied) files = run @ rest \<and> (r = Inr () \<longrightarrow> rest = [])
    \<and> replay fs srv run (ms_db s) = Some (ms_db s') \<and> schema_migrations s' \<noteq> None
    \<and> set (applied_names s') = set (applied_names s) \<union> Base ` set run
    \<and> (run \<noteq> [] \<longrightarrow> ss_fault srv ''INSERT schema_migrations'' = None)"
  using assms
proof (induction files arbitrary: s)
  case Nil
  then show ?case by simp
next
  case (Cons f fs')
  show ?case
  proof (cases "Base f \<in> set applied")
    case True
    with Cons show ?thesis by simp
  next
    case False
    obtain r1 s1 where 1: "apply_file fs srv f s = (r1, s1)" by fastforce
    show ?thesis
    proof (cases r1)
      case (Inl t)
      then have "s' = s" "r = Inl t" using 1 False Cons.prems(1) apply_file_Inl [of fs srv f s t s1] by (simp_all add: bindP_run)
      with False Cons.prems(2) show ?thesis
        by - (rule exI [of _ "[]"], rule exI [of _ "f # filter (\<lambda>f. Base f \<notin> set applied) fs'"], simp)
    next
      case (Inr x)
      obtain content d where c: "fs_ReadFile fs (Clean f) = Inr content" "ss_script srv content (ms_db s) = Inr d"
        "s1 = s\<lparr>schema_migrations := record_name (Base f) (schema_migrations s), ms_db := d\<rparr>"
        "ss_fault srv ''INSERT schema_migrations'' = None"
        using 1 Inr by (auto simp: apply_file_Inr)
      have a1: "apply_files fs srv applied fs' s1 = (r, s')" using 1 Inr False Cons.prems(1) by (simp add: bindP_run)
      have a2: "schema_migrations s1 \<noteq> None" using c(3) Cons.prems(2) by (simp add: record_name_def)
      from Cons.IH [OF a1 a2] obtain run rest where ih: "filter (\<lambda>f. Base f \<notin> set applied) fs' = run @ rest" "r = Inr () \<longrightarrow> rest = []"
        "replay fs srv run (ms_db s1) = Some (ms_db s')" "schema_migrations s' \<noteq> None"
        "set (applied_names s') = set (applied_names s1) \<union> Base ` set run" by (elim exE conjE) rule
      have "ms_db s1 = d" using c(3) by simp
      moreover have "set (applied_names s1) = insert (Base f) (set (applied_names s))"
        unfolding c(3) by (rule applied_names_record [OF Cons.prems(2)])
      ultimately show ?thesis using False c(1,2,4) ih
        by - (rule exI [of _ "f # run"], rule exI [of _ rest], simp)
    qed
  qed
qed

lemma apply_files_none: "(\<And>f. f \<in> set files \<Longrightarrow> Base f \<in> set applied) \<Longrightarrow> apply_files fs srv applied files = ok ()"
  by (induction files) simp_all

text \<open>The names that count as applied when the loop starts.\<close>

definition counted :: "'d migration_server \<Rightarrow> 'd migration_state \<Rightarrow> string list" where
  "counted srv s = (if baseMigrationFile \<notin> set (applied_names s) \<and> ss_has_chat_rooms srv (ms_db s)
     then applied_names s @ [baseMigrationFile] else applied_names s)"

lemma bootstrap_Inr:
  assumes "schema_migrations s = Some ns"
  shows "bootstrap srv ns s = (Inr x, s') \<longleftrightarrow> x = counted srv s \<and> s' = s\<lparr>schema_migrations := Some (counted srv s)\<rparr>
    \<and> (baseMigrationFile \<notin> set ns \<longrightarrow> ss_fault srv ''SELECT EXISTS chat_rooms'' = None
        \<and> (ss_has_chat_rooms srv (ms_db s) \<longrightarrow> ss_fault srv ''INSERT schema_migrations'' = None))"
proof -
  have a: "applied_names s = ns" using assms by (simp add: applied_names_def)
  show ?thesis
    using assms unfolding counted_def a
    by (cases "baseMigrationFile \<in> set ns"; cases "ss_has_chat_rooms srv (ms_db s)")
       (auto simp: bootstrap_def bindP_run Fatalf_def call_def baseSchemaExists_def markMigrationApplied_def record_name_def
          split: option.splits)
qed

text \<open>The path that the flags name.\<close>

definition flag_path :: "flags \<Rightarrow> string" where
  "flag_path fl = (if fl_file fl \<noteq> [] then fl_file fl else fl_path fl)"

lemma migrate_main_Inr:
  "migrate_main fs srv fl s = (Inr (), s') \<longleftrightarrow> fl_dsn fl \<noteq> []
    \<and> (\<exists>files. resolveMigrationFiles fs (flag_path fl) = Inr files
    \<and> ss_fault srv ''open'' = None \<and> ss_fault srv ''ping'' = None \<and> ss_fault srv ''CREATE TABLE schema_migrations'' = None
    \<and> ss_fault srv ''SELECT schema_migrations'' = None
    \<and> (baseMigrationFile \<notin> set (applied_names s) \<longrightarrow> ss_fault srv ''SELECT EXISTS chat_rooms'' = None
        \<and> (ss_has_chat_rooms srv (ms_db s) \<longrightarrow> ss_fault srv ''INSERT schema_migrations'' = None))
    \<and> apply_files fs srv (counted srv s) files (s\<lparr>schema_migrations := Some (counted srv s)\<rparr>) = (Inr (), s'))"
    (is "?L \<longleftrightarrow> ?R")
proof -
  let ?s = "s\<lparr>schema_migrations := Some (applied_names s)\<rparr>"
  have same: "counted srv ?s = counted srv s" by (simp add: counted_def applied_names_def)
  have "?L \<longleftrightarrow> fl_dsn fl \<noteq> [] \<and> (\<exists>files. resolveMigrationFiles fs (flag_path fl) = Inr files
    \<and> ss_fault srv ''open'' = None \<and> ss_fault srv ''ping'' = None \<and> ss_fault srv ''CREATE TABLE schema_migrations'' = None
    \<and> ss_fault srv ''SELECT schema_migrations'' = None
    \<and> (\<exists>x s1. bootstrap srv (applied_names s) ?s = (Inr x, s1) \<and> apply_files fs srv x files s1 = (Inr (), s')))"
    unfolding migrate_main_def flag_path_def [symmetric]
    by (cases "schema_migrations s")
       (auto simp: bindP_Inr ensureMigrationTable_def loadAppliedMigrations_def applied_names_def Let_def)
  then show ?thesis by (auto simp: bootstrap_Inr same)
qed

text \<open>
  C29. A run of the migration runner that ends without a fatal error has executed the scripts of exactly the
  files that were not applied before, in the order of their names, and recorded all files; a database that
  has the base schema without a record counts as having the base migration. A second run with the same
  files succeeds and executes no script.
\<close>

theorem migrations_run_once:
  assumes "migrate_main fs srv fl s = (Inr (), s')"
  shows "\<exists>files s''. resolveMigrationFiles fs (flag_path fl) = Inr files
    \<and> replay fs srv (filter (\<lambda>f. Base f \<notin> set (counted srv s)) files) (ms_db s) = Some (ms_db s')
    \<and> set (applied_names s') = set (counted srv s) \<union> Base ` set files
    \<and> migrate_main fs srv fl s' = (Inr (), s'') \<and> ms_db s'' = ms_db s'"
proof -
  obtain files where f: "resolveMigrationFiles fs (flag_path fl) = Inr files" "fl_dsn fl \<noteq> []" "ss_fault srv ''open'' = None"
    "ss_fault srv ''ping'' = None" "ss_fault srv ''CREATE TABLE schema_migrations'' = None" "ss_fault srv ''SELECT schema_migrations'' = None"
    and base: "baseMigrationFile \<notin> set (applied_names s) \<longrightarrow> ss_fault srv ''SELECT EXISTS chat_rooms'' = None"
    and app: "apply_files fs srv (counted srv s) files (s\<lparr>schema_migrations := Some (counted srv s)\<rparr>) = (Inr (), s')"
    using assms unfolding migrate_main_Inr by blast
  let ?run = "filter (\<lambda>f. Base f \<notin> set (counted srv s)) files"
  from apply_files_effect [OF app] have run: "replay fs srv ?run (ms_db s) = Some (ms_db s')"
    and names: "set (applied_names s') = set (counted srv s) \<union> Base ` set ?run"
    and ins: "?run \<noteq> [] \<longrightarrow> ss_fault srv ''INSERT schema_migrations'' = None"
    by (auto simp: applied_names_def)
  have all: "set (applied_names s') = set (counted srv s) \<union> Base ` set files" using names by auto
  have "set (applied_names s) \<subseteq> set (counted srv s)" by (auto simp: counted_def)
  then have sub: "set (applied_names s) \<subseteq> set (applied_names s')" using all by blast
  have "ss_fault srv ''INSERT schema_migrations'' = None"
    if new: "baseMigrationFile \<notin> set (applied_names s')" "ss_has_chat_rooms srv (ms_db s')"
  proof -
    have "baseMigrationFile \<notin> set (counted srv s)" using new(1) all by blast
    then have "\<not> ss_has_chat_rooms srv (ms_db s)" by (auto simp: counted_def split: if_splits)
    then have "ms_db s' \<noteq> ms_db s" using new(2) by auto
    then have "?run \<noteq> []" using run by (metis option.inject replay.simps(1))
    with ins show ?thesis by blast
  qed
  moreover have "set (applied_names s') \<subseteq> set (counted srv s')" by (auto simp: counted_def)
  then have "apply_files fs srv (counted srv s') files = ok ()" using all by (intro apply_files_none) blast
  ultimately have "migrate_main fs srv fl s' = (Inr (), s'\<lparr>schema_migrations := Some (counted srv s')\<rparr>)"
    unfolding migrate_main_Inr using f base sub by auto
  then show ?thesis using f(1) run all by auto
qed

text \<open>One script, on a database that logs the scripts it executes.\<close>

definition one_file :: file_system where
  "one_file = \<lparr>fs_Stat = (\<lambda>_. Inr False), fs_ReadDir = (\<lambda>_. Inl ''not a directory''), fs_ReadFile = (\<lambda>_. Inr ''CREATE'')\<rparr>"

definition log_server :: "string list migration_server" where
  "log_server = \<lparr>ss_fault = (\<lambda>_. None), ss_script = (\<lambda>c d. Inr (d @ [c])), ss_has_chat_rooms = (\<lambda>d. d \<noteq> [])\<rparr>"

definition one_flags :: flags where
  "one_flags = \<lparr>fl_dsn = ''dsn'', fl_path = ''a.sql'', fl_file = []\<rparr>"

lemma one_file_path: "resolveMigrationFiles one_file (flag_path one_flags) = Inr [''a.sql'']" "Base ''a.sql'' = ''a.sql''"
  by (simp_all add: resolveMigrationFiles_def flag_path_def one_flags_def one_file_def Clean_def clean_step_def Base_def)

theorem migrations_run_once_witness:
  "\<exists>s' s''. migrate_main one_file log_server one_flags \<lparr>schema_migrations = None, ms_db = []\<rparr> = (Inr (), s')
     \<and> ms_db s' = [''CREATE''] \<and> migrate_main one_file log_server one_flags s' = (Inr (), s'') \<and> ms_db s'' = [''CREATE'']"
proof -
  let ?s = "\<lparr>schema_migrations = None, ms_db = []\<rparr>" let ?s' = "\<lparr>schema_migrations = Some [''a.sql''], ms_db = [''CREATE'']\<rparr>"
  have c: "counted log_server ?s = []" by (simp add: counted_def applied_names_def log_server_def)
  have "apply_files one_file log_server [] [''a.sql''] \<lparr>schema_migrations = Some [], ms_db = []\<rparr> = (Inr (), ?s')"
    by (simp add: bindP_Inr apply_file_Inr one_file_path record_name_def) (simp add: log_server_def one_file_def)
  then have run: "migrate_main one_file log_server one_flags ?s = (Inr (), ?s')"
    unfolding migrate_main_Inr c one_file_path(1) by (simp add: log_server_def one_flags_def)
  with migrations_run_once [OF run] show ?thesis by auto
qed

end
