(* ===== verification/Spec2Isabelle.thy ===== *)
theory Spec2Isabelle
  imports Smoke Lifecycle HubSteps Overlap PushBounds PostgresListing Migrations
begin

text \<open>
  \<^bold>\<open>The chat service.\<close> The program is a gRPC service for chat rooms, written in Go: rooms and their members,
  messages with sequence numbers, attachments in an object store, read cursors, push notifications and
  message streams. Its parts, from the wire inwards:

  \<^item> \<^verbatim>\<open>src/cmd/chat-service/main.go\<close> reads the environment and puts the process together;
  \<^item> \<^verbatim>\<open>src/internal/auth\<close> finds out who is calling: the interceptors take a bearer token from the metadata of
    a call and ask the auth service about it;
  \<^item> \<^verbatim>\<open>src/internal/transport/grpc/server.go\<close> checks the fields of a request, settles the user it acts for,
    calls the service, and converts answers, errors and streams;
  \<^item> \<^verbatim>\<open>src/internal/service/service.go\<close> has the rules of the chat. It works on a repository, a hub that
    passes new messages to open streams, a push sender and a signer of storage URLs;
  \<^item> \<^verbatim>\<open>src/internal/repository\<close> is the interface of the repository, with the implementations \<^verbatim>\<open>memory\<close> and
    \<^verbatim>\<open>postgres\<close>; \<^verbatim>\<open>src/internal/pubsub\<close> is the hub, \<^verbatim>\<open>src/internal/push/fcm\<close> the sender and
    \<^verbatim>\<open>src/internal/upload/gcs\<close> the signer; \<^verbatim>\<open>src/internal/domain\<close> has the entities and errors and
    \<^verbatim>\<open>src/internal/id\<close> makes the identifiers;
  \<^item> \<^verbatim>\<open>src/cmd/migrate/main.go\<close> brings the schema of the database up to date, and \<^verbatim>\<open>src/cmd/smoke/main.go\<close> is
    a client that tries out a running server.

  \<^bold>\<open>How the code becomes definitions.\<close> A struct is a record, an open string type of Go a datatype with a
  constructor for any other string. A Go string is a list of bytes. A map is an association list whose order is
  the order of one \<^verbatim>\<open>range\<close> loop; Go leaves it open, so the statements hold for every order. An \<^verbatim>\<open>int64\<close> is an
  integer with \<open>wrap64\<close> where it is computed with. An operation is a program \<open>('w, 'e, 'a) prog\<close>: it returns a
  value or an error together with the state it leaves behind, also when it fails. Its name is the Go
  name, with the prefix of its component: \<open>mem_\<close> and \<open>pg_\<close> for the repositories, \<open>ps_\<close> for the hub, \<open>gcs_\<close>
  for the signer, \<open>svc_\<close> for the service, \<open>srv_\<close> for the transport, \<open>dyn_\<close> for the client of the auth
  service, \<open>fcm_\<close> for the sender. A loop that may not end is a function with fuel or a step relation, and that
  it ends is a theorem.

  \<^bold>\<open>The theories.\<close>

  \<^item> \<open>Prelude\<close>, \<open>GoStrings\<close>, \<open>GoRunes\<close>, \<open>GoCodec\<close>, \<open>GoUrl\<close>: programs and their weakest preconditions, Go
    maps, stable sorting; the parts of the Go library that the code calls, with their round trips (UTF-8,
    decimal numbers, base64, percent encoding).
  \<^item> \<open>Domain\<close>, \<open>Ids\<close>: entities, errors, identifiers.
  \<^item> \<open>Repository\<close>: the interface as a record of operations; the abstract store \<open>astore\<close> of finite maps with the
    \<open>spec_\<close> effects; the locales \<open>member_repository\<close>, \<open>message_repository\<close> and \<open>device_repository\<close>, and
    \<open>chat_repository\<close>, which extends them, for what an implementation promises.
  \<^item> \<open>MemoryStore\<close>, \<open>RoomListing\<close>, \<open>StoreProperties\<close>: the in-memory store, an interpretation of
    \<open>chat_repository\<close>; its room list and page tokens; the locale \<open>store_refinement\<close> and the refinement
    of runs of writes; on which conditions the order of the maps cannot be observed, and that it can in the room list
    when two rooms have the same time of update.
  \<^item> \<open>Postgres\<close>, \<open>PostgresStore\<close>, \<open>PostgresProperties\<close>, \<open>PostgresListing\<close>: the statements of the Postgres
    repository on the tables of the schema with its keys, indexes and checks; the locale \<open>postgres_server\<close> for
    what is assumed of the server; the refinement of the same abstract store, through
    \<open>store_refinement\<close>; correctness of keyset pagination. \<open>reference_server\<close> is a server that meets the
    assumptions.
  \<^item> \<open>PubSub\<close>: the hub with its buffered channels, each operation as a whole, and the locale \<open>room_pubsub\<close> for what
    the streams rely on. \<open>HubSteps\<close>: the goroutines that publish and close, one send and one action at a time,
    under the lock of the hub and the locks of the subscriptions.
  \<^item> \<open>ServiceCore\<close>, \<open>Rooms\<close>, \<open>Attachments\<close>, \<open>Messages\<close>: the service, operation by operation, over any
    repository; \<open>RoomInvariant\<close>, \<open>MessageInvariant\<close>, \<open>MessageRules\<close>, \<open>MessageReads\<close>,
    \<open>AttachmentSafety\<close>, \<open>StoredReferences\<close>: weakest preconditions, effects and invariants of these
    operations, proved once for every \<open>chat_repository\<close>.
  \<^item> \<open>ChatSystem\<close>, \<open>Scenario\<close>: all requests and the moves of the streams as one transition system
    \<open>chat_step\<close> with its \<open>reachable\<close> states; a reachable state in full, in which the concrete statements are
    evaluated.
  \<^item> \<open>RoomProperties\<close>, \<open>MessageProperties\<close>, \<open>PushBounds\<close>: what the service promises, over the reads of the
    in-memory store in every reachable state.
  \<^item> \<open>Streaming\<close>, \<open>StreamProperties\<close>: one stream as a state machine whose steps interleave with the steps of
    the system.
  \<^item> \<open>Auth\<close>, \<open>Transport\<close>, \<open>ErrorCodes\<close>, \<open>TransportProperties\<close>: authentication, the handlers, the codes
    a client can see, and a stream on the wire.
  \<^item> \<open>Overlap\<close>: the five requests that read outside a transaction and write later (\<^verbatim>\<open>SendMessage\<close>, \<^verbatim>\<open>JoinRoom\<close>,
    \<^verbatim>\<open>MarkAsRead\<close>, \<^verbatim>\<open>MarkChatRoomRead\<close>, \<^verbatim>\<open>DeactivateRoom\<close>), each split into its reads \<open>read_half\<close> and its
    writes \<open>write_half\<close>, and the runs \<open>overlap_step\<close> in which anything may come in between. \<open>halves\<close> shows that
    the two halves, one right after the other, are the request.
  \<^item> \<open>PushFcm\<close>, \<open>Startup\<close>, \<open>Lifecycle\<close>, \<open>Migrations\<close>, \<open>Smoke\<close>: the sender, the configuration of the process, its
    shutdown, the migration runner, the smoke client.

  \<^bold>\<open>What is shown.\<close>

  \<^item> Rooms: an open room has exactly one owner, who is an active member; a board has at most one open room; a
    removed member never comes back and a closed room never opens again; leaving hands the room to the
    longest-standing member or closes it; only the owner removes, closes or deletes; entering the
    room of a board is idempotent.
  \<^item> Messages: the numbers of a room are \<open>1, ..., n\<close> without gaps or duplicates; a message keeps its number,
    sender and type and is unchanged or deleted without content; the whole effect of sending and deleting, field by
    field, and exactly which messages are refused; the pages of the history are the whole history as long as the
    read signer does not fail; read cursors only move forward, and marking a room read clears its unread count; notifications go to the devices of
    the other active members, once each, with a body of at most 120 characters.
  \<^item> Attachments: an accepted storage URL names an object of its own room, whatever its encoding; the URLs that
    the signer issues are accepted; what a stored message is read from lies in its room.
  \<^item> Streams: the numbers arrive in order, each once and none left out, while the rest of the service runs; the
    catch-up loop ends; an arriving message is delivered with what came before it. One theorem shows a start
    from which the loop never ends.
  \<^item> Transport: a request acts for the user whose token was validated; requests without a valid token, or that
    name another user, are refused and change nothing; no unary request ends with the code \<^verbatim>\<open>Internal\<close>
    when no signer is configured; the client of the auth service does not panic on answers that fit the
    descriptors.
  \<^item> Repositories: both refine the abstract store for every run of writes, and the page tokens of both lead
    through the whole list.
  \<^item> The hub: however publishers, subscribers and closers interleave, nobody sends on a closed channel or closes
    one twice, because a subscription is removed before its channel is closed.
  \<^item> Overlapping requests: however stale the writes are, the messages of a room stay numbered \<open>1, ..., n\<close>, and a
    stored message is only ever deleted. Rooms and members are not safe: a member who was removed becomes
    active again and a closed room open, as one theorem shows.
  \<^item> The whole process: the smoke client passes on every process that was started with the in-memory store in
    the mode \<^verbatim>\<open>dev\<close>, whatever happened to it before. When the process ends it releases what it opened,
    latest first, after the server was told to stop.
  \<^item> Migrations: a run executes the pending scripts in order, records them, and a second run executes none.

  \<^bold>\<open>Assumptions and bounds.\<close>

  \<^item> Requests run one after the other, each as a whole, as far as the service-level theorems go; streams
    interleave with them at the granularity of repository calls, receives and sends. \<open>Overlap\<close> drops this for
    the five requests it splits: there all reads of a request are one step and its writes, with publishing and
    notifications, another, and nothing is assumed of what comes in between. The operations of the hub are one
    step each in the system; \<open>HubSteps\<close> takes them apart, down to single sends. The requests that run in one transaction stay one step, as the mutex of
    \<^verbatim>\<open>WithTx\<close> keeps them apart; that the other methods of the in-memory store do not take this mutex is a data
    race that the model does not have.
  \<^item> The steps of the system draw fresh identifiers for new messages; identifiers of rooms may collide, and
    then the store refuses the second.
  \<^item> The service-level theorems are about the service on the in-memory store. The lemmas in
    \<open>chat_repository\<close> hold for every implementation of that contract; the Postgres repository changes its arguments
    (precision of time, canonical \<^verbatim>\<open>uuid\<close>, the metadata a \<^verbatim>\<open>jsonb\<close> column keeps) and has constraints of
    its own, so it refines the abstract store for the calls in \<open>pg_scope\<close>, with those changes written out.
  \<^item> Fuel: the client that reads a history or follows page tokens asks for as many pages as there are messages or
    rooms and one more; the catch-up loop takes at most three steps for a batch and four to end. The
    theorems show that this is enough. Room lists are assumed shorter than \<open>2 ^ 62\<close> where an offset
    is computed with.
  \<^item> Outside code is a parameter: the random source and the clock, \<^verbatim>\<open>SignedURL\<close> of the storage client, the
    HTTP client of the sender, the connection to the auth service, \<^verbatim>\<open>structpb.NewStruct\<close>, the SQL server, the
    file system, \<^verbatim>\<open>time.ParseDuration\<close>, and for the smoke client the dialled connection, the text of an error and
    the standard input.

  \<^bold>\<open>Not modelled.\<close> The generated protobuf code under \<^verbatim>\<open>src/proto\<close> (its messages appear as the records of their
  fields); the serve loop of the gRPC library, of which \<open>Lifecycle\<close> has only how it ends; what the server logs
  before it serves and while it does; time limits of contexts, which appear as failures of the call they cut
  short.
\<close>

end
